(* ===== verification/Prelude.thy ===== *)
theory Prelude
  imports Main
begin

section \<open>Prelude: errors, state-and-error computations, stores, Go integers\<close>

text \<open>
  What the components share: the error values of the Go code, the computations of the
  reconcilers (a state, an error or a result), a small calculus of triples for them, the
  keyed object store behind the Kubernetes client, and Go's fixed-width integers.
\<close>

named_theorems triple_intros \<open>introduction rules that decompose a triple along the program\<close>
named_theorems store_simps \<open>laws of the keyed object store\<close>

subsection \<open>Errors\<close>

text \<open>
  An \<open>error\<close> value of the Go code. The first three are the classes the code tells apart with
  \<open>apierrors.IsNotFound\<close>, \<open>IsConflict\<close> and \<open>IsAlreadyExists\<close>; \<open>Transient\<close> is any other
  failure of a service, \<open>Invalid\<close> an error the code makes itself with \<open>fmt.Errorf\<close>, told
  apart by a constant tag (the message text is not modelled).
\<close>

datatype go_error =
    NotFound
  | Conflict
  | AlreadyExists
  | Transient string
  | Invalid string

subsection \<open>Computations over a state, with errors\<close>

type_synonym ('w, 'a) io = "'w \<Rightarrow> (go_error + 'a) \<times> 'w"

definition ret :: "'a \<Rightarrow> ('w, 'a) io" where
  "ret x = (\<lambda>w. (Inr x, w))"

definition raise :: "go_error \<Rightarrow> ('w, 'a) io" where
  "raise e = (\<lambda>w. (Inl e, w))"

definition bind_io :: "('w, 'a) io \<Rightarrow> ('a \<Rightarrow> ('w, 'b) io) \<Rightarrow> ('w, 'b) io" where
  "bind_io m f = (\<lambda>w. case m w of (Inl e, w') \<Rightarrow> (Inl e, w') | (Inr x, w') \<Rightarrow> f x w')"

definition seq_io :: "('w, unit) io \<Rightarrow> ('w, 'b) io \<Rightarrow> ('w, 'b) io" where
  "seq_io m n = bind_io m (\<lambda>_. n)"

definition gets :: "('w \<Rightarrow> 'a) \<Rightarrow> ('w, 'a) io" where
  "gets f = (\<lambda>w. (Inr (f w), w))"

definition modify :: "('w \<Rightarrow> 'w) \<Rightarrow> ('w, unit) io" where
  "modify f = (\<lambda>w. (Inr (), f w))"

text \<open>The outcome of a call as a value: Go code that looks at \<open>err\<close> before it decides.\<close>

definition attempt_io :: "('w, 'a) io \<Rightarrow> ('w, go_error + 'a) io" where
  "attempt_io m = (\<lambda>w. case m w of (r, w') \<Rightarrow> (Inr r, w'))"

fun each_io :: "('x \<Rightarrow> ('w, unit) io) \<Rightarrow> 'x list \<Rightarrow> ('w, unit) io" where
  "each_io f [] = ret ()"
| "each_io f (x # xs) = seq_io (f x) (each_io f xs)"

text \<open>\<open>client.IgnoreNotFound\<close> and \<open>client.IgnoreAlreadyExists\<close> on an error that is returned.\<close>

definition ignoring :: "go_error \<Rightarrow> ('w, unit) io \<Rightarrow> ('w, unit) io" where
  "ignoring e m = (\<lambda>w. case m w of (Inl e', w') \<Rightarrow> (if e' = e then (Inr (), w') else (Inl e', w'))
                                 | (Inr x, w') \<Rightarrow> (Inr x, w'))"

text \<open>
  \<open>retry.RetryOnConflict(retry.DefaultRetry, f)\<close> of client-go: run \<open>f\<close> again on a conflict, at
  most five times in all; the last conflict is the error returned.
\<close>

fun retry_io :: "nat \<Rightarrow> ('w, 'a) io \<Rightarrow> ('w, 'a) io" where
  "retry_io 0 m = m"
| "retry_io (Suc n) m = (\<lambda>w. case m w of
       (Inl Conflict, w') \<Rightarrow> retry_io n m w'
     | r \<Rightarrow> r)"

definition retry_on_conflict :: "('w, 'a) io \<Rightarrow> ('w, 'a) io" where
  "retry_on_conflict m = retry_io 4 m"

lemmas io_defs = ret_def raise_def bind_io_def seq_io_def gets_def modify_def attempt_io_def
  ignoring_def

subsection \<open>Triples\<close>

text \<open>
  \<open>triple P m Q E\<close>: from a state with \<open>P\<close>, \<open>m\<close> ends in a result and state with \<open>Q\<close> or in an
  error and state with \<open>E\<close>.
\<close>

definition triple ::
  "('w \<Rightarrow> bool) \<Rightarrow> ('w, 'a) io \<Rightarrow> ('a \<Rightarrow> 'w \<Rightarrow> bool) \<Rightarrow> (go_error \<Rightarrow> 'w \<Rightarrow> bool) \<Rightarrow> bool" where
  "triple P m Q E \<longleftrightarrow>
     (\<forall>w. P w \<longrightarrow> (case m w of (Inl e, w') \<Rightarrow> E e w' | (Inr x, w') \<Rightarrow> Q x w'))"

abbreviation keeps :: "('w \<Rightarrow> bool) \<Rightarrow> ('w, 'a) io \<Rightarrow> bool" where
  "keeps I m \<equiv> triple I m (\<lambda>_. I) (\<lambda>_. I)"

lemma tripleI:
  assumes "\<And>w x w'. P w \<Longrightarrow> m w = (Inr x, w') \<Longrightarrow> Q x w'"
    and "\<And>w e w'. P w \<Longrightarrow> m w = (Inl e, w') \<Longrightarrow> E e w'"
  shows "triple P m Q E"
  unfolding triple_def using assms by (auto split: prod.split sum.split)

lemma triple_resultD: "triple P m Q E \<Longrightarrow> P w \<Longrightarrow> m w = (Inr x, w') \<Longrightarrow> Q x w'"
  by (force simp: triple_def)

lemma triple_errorD: "triple P m Q E \<Longrightarrow> P w \<Longrightarrow> m w = (Inl e, w') \<Longrightarrow> E e w'"
  by (force simp: triple_def)

lemma triple_weaken:
  assumes "triple P' m Q' E'" and "\<And>w. P w \<Longrightarrow> P' w"
    and "\<And>x w. Q' x w \<Longrightarrow> Q x w" and "\<And>e w. E' e w \<Longrightarrow> E e w"
  shows "triple P m Q E"
  using assms unfolding triple_def by (fastforce split: prod.splits sum.splits)

lemma triple_conj:
  assumes "triple P m Q E" and "triple P' m Q' E'"
  shows "triple (\<lambda>w. P w \<and> P' w) m (\<lambda>x w. Q x w \<and> Q' x w) (\<lambda>e w. E e w \<and> E' e w)"
  by (rule tripleI)
    (use triple_resultD [OF assms(1)] triple_resultD [OF assms(2)] in blast,
     use triple_errorD [OF assms(1)] triple_errorD [OF assms(2)] in blast)

lemma triple_ret [triple_intros]: "triple (Q x) (ret x) Q E"
  by (simp add: triple_def ret_def)

lemma triple_raise [triple_intros]: "triple (E e) (raise e) Q E"
  by (simp add: triple_def raise_def)

lemma triple_gets: "triple (\<lambda>w. Q (f w) w) (gets f) Q E"
  by (simp add: triple_def gets_def)

lemma keeps_gets [triple_intros]: "keeps I (gets f)"
  by (simp add: triple_def gets_def)

lemma triple_modify: "triple (\<lambda>w. Q () (f w)) (modify f) Q E"
  by (simp add: triple_def modify_def)

lemma triple_bind [triple_intros]:
  assumes "triple P m R E" and "\<And>x. triple (R x) (f x) Q E"
  shows "triple P (bind_io m f) Q E"
  using assms unfolding triple_def bind_io_def by (fastforce split: prod.splits sum.splits)

lemma triple_bind_gets:
  "(\<And>x. triple P (f x) Q E) \<Longrightarrow> triple P (bind_io (gets g) f) Q E"
  unfolding triple_def bind_io_def gets_def by simp

lemma keeps_bind [triple_intros]:
  "keeps I m \<Longrightarrow> (\<And>x. keeps I (f x)) \<Longrightarrow> keeps I (bind_io m f)"
  by (rule triple_bind)

lemma keeps_seq [triple_intros]:
  "keeps I m \<Longrightarrow> keeps I n \<Longrightarrow> keeps I (seq_io m n)"
  unfolding seq_io_def by (rule triple_bind)

lemma triple_if [triple_intros]:
  "(b \<Longrightarrow> triple P m Q E) \<Longrightarrow> (\<not> b \<Longrightarrow> triple P n Q E) \<Longrightarrow> triple P (if b then m else n) Q E"
  by simp

lemma triple_case_option [triple_intros]:
  "(x = None \<Longrightarrow> triple P m Q E) \<Longrightarrow> (\<And>y. x = Some y \<Longrightarrow> triple P (f y) Q E) \<Longrightarrow>
   triple P (case x of None \<Rightarrow> m | Some y \<Rightarrow> f y) Q E"
  by (cases x) auto

lemma triple_case_sum [triple_intros]:
  "(\<And>a. x = Inl a \<Longrightarrow> triple P (f a) Q E) \<Longrightarrow> (\<And>b. x = Inr b \<Longrightarrow> triple P (g b) Q E) \<Longrightarrow>
   triple P (case x of Inl a \<Rightarrow> f a | Inr b \<Rightarrow> g b) Q E"
  by (cases x) auto

lemma triple_case_prod [triple_intros]:
  "(\<And>a b. x = (a, b) \<Longrightarrow> triple P (f a b) Q E) \<Longrightarrow> triple P (case x of (a, b) \<Rightarrow> f a b) Q E"
  by (cases x) auto

lemma keeps_attempt [triple_intros]: "keeps I m \<Longrightarrow> keeps I (attempt_io m)"
  unfolding triple_def attempt_io_def by (fastforce split: prod.splits sum.splits)

lemma triple_attempt:
  assumes "triple P m Q E"
  shows "triple P (attempt_io m) (\<lambda>r w. case r of Inl e \<Rightarrow> E e w | Inr x \<Rightarrow> Q x w) E'"
proof (rule tripleI)
  fix w r w' assume "P w" and "attempt_io m w = (Inr r, w')"
  then show "case r of Inl e \<Rightarrow> E e w' | Inr x \<Rightarrow> Q x w'"
    using triple_resultD [OF assms] triple_errorD [OF assms]
    by (cases r) (auto simp: attempt_io_def split: prod.splits)
qed (auto simp: attempt_io_def split: prod.splits)

lemma bind_io_result:
  assumes "bind_io m f w = (Inr y, w')"
  obtains x v where "m w = (Inr x, v)" and "f x v = (Inr y, w')"
  using assms by (auto simp: bind_io_def split: prod.splits sum.splits)

lemma attempt_io_result:
  assumes "attempt_io m w = (Inr r, v)"
  shows "m w = (r, v)"
  using assms by (auto simp: attempt_io_def split: prod.splits)

lemma keeps_ignoring [triple_intros]: "keeps I m \<Longrightarrow> keeps I (ignoring e m)"
  unfolding ignoring_def
  by (rule tripleI) (auto split: prod.splits sum.splits if_splits dest: triple_resultD triple_errorD)

lemma keeps_each [triple_intros]: "(\<And>x. keeps I (f x)) \<Longrightarrow> keeps I (each_io f xs)"
  by (induction xs) (auto intro: triple_intros)

lemma triple_retry_io:
  assumes "triple I m Q E" and "\<And>w. E Conflict w \<Longrightarrow> I w"
  shows "triple I (retry_io n m) Q E"
proof (induction n)
  case 0
  then show ?case using assms by simp
next
  case (Suc n)
  show ?case
  proof (rule tripleI)
    fix w x w' assume I: "I w" and m: "retry_io (Suc n) m w = (Inr x, w')"
    show "Q x w'"
      using m triple_resultD [OF assms(1) I] triple_errorD [OF assms(1) I]
        triple_resultD [OF Suc] assms(2)
      by (auto split: prod.splits sum.splits go_error.splits)
  next
    fix w e w' assume I: "I w" and m: "retry_io (Suc n) m w = (Inl e, w')"
    show "E e w'"
      using m triple_errorD [OF assms(1) I] triple_errorD [OF Suc] assms(2)
      by (auto split: prod.splits sum.splits go_error.splits)
  qed
qed

lemma keeps_retry [triple_intros]: "keeps I m \<Longrightarrow> keeps I (retry_on_conflict m)"
  unfolding retry_on_conflict_def by (rule triple_retry_io)

lemma retry_io_result: "m w = (Inr x, w') \<Longrightarrow> retry_io n m w = (Inr x, w')"
  by (cases n) auto

lemma retry_on_conflict_result: "m w = (Inr x, w') \<Longrightarrow> retry_on_conflict m w = (Inr x, w')"
  by (simp add: retry_on_conflict_def retry_io_result)

text \<open>Whatever the retry loop returns, some run of its body returned it.\<close>

lemma retry_io_resultD:
  "retry_io n m w = (Inr x, w') \<Longrightarrow> \<exists>v. m v = (Inr x, w')"
  by (induction n arbitrary: w) (auto split: prod.splits sum.splits go_error.splits)

lemma retry_on_conflict_resultD:
  "retry_on_conflict m w = (Inr x, w') \<Longrightarrow> \<exists>v. m v = (Inr x, w')"
  unfolding retry_on_conflict_def by (rule retry_io_resultD)

subsection \<open>The keyed object store\<close>

text \<open>
  A collection of API objects as the server lists it, with the operations of the client:
  find by key, replace under a key, add. The locale states what a client of the store relies
  on; the list store below provides it.
\<close>

locale keyed_store =
  fixes lookup :: "'k \<Rightarrow> 's \<Rightarrow> 'o option"
    and replace :: "'k \<Rightarrow> 'o \<Rightarrow> 's \<Rightarrow> 's"
    and key :: "'o \<Rightarrow> 'k"
  assumes lookup_key: "lookup k s = Some v \<Longrightarrow> key v = k"
    and lookup_replace_same: "key v = k \<Longrightarrow> lookup k s \<noteq> None \<Longrightarrow> lookup k (replace k v s) = Some v"
    and lookup_replace_other: "key v = k \<Longrightarrow> j \<noteq> k \<Longrightarrow> lookup j (replace k v s) = lookup j s"
    and lookup_replace_none: "lookup k s = None \<Longrightarrow> lookup k (replace k v s) = None"
begin

lemma lookup_replace:
  "key v = k \<Longrightarrow> lookup j (replace k v s) =
     (if j = k then (if lookup k s = None then None else Some v) else lookup j s)"
  by (auto simp: lookup_replace_same lookup_replace_other lookup_replace_none)

lemma replace_keeps_domain: "key v = k \<Longrightarrow> lookup j (replace k v s) = None \<longleftrightarrow> lookup j s = None"
  by (simp add: lookup_replace)

end

definition find_by :: "('o \<Rightarrow> 'k) \<Rightarrow> 'k \<Rightarrow> 'o list \<Rightarrow> 'o option" where
  "find_by key k os = find (\<lambda>v. key v = k) os"

definition replace_by :: "('o \<Rightarrow> 'k) \<Rightarrow> 'k \<Rightarrow> 'o \<Rightarrow> 'o list \<Rightarrow> 'o list" where
  "replace_by key k v os = map (\<lambda>u. if key u = k then v else u) os"

lemma find_by_Nil [simp]: "find_by key k [] = None"
  by (simp add: find_by_def)

lemma find_by_Cons [simp]:
  "find_by key k (v # os) = (if key v = k then Some v else find_by key k os)"
  by (simp add: find_by_def)

lemma replace_by_Nil [simp]: "replace_by key k v [] = []"
  by (simp add: replace_by_def)

lemma replace_by_Cons [simp]:
  "replace_by key k v (u # os) = (if key u = k then v else u) # replace_by key k v os"
  by (simp add: replace_by_def)

interpretation list_store: keyed_store "find_by key" "replace_by key" key
proof unfold_locales
  fix k s v
  show "find_by key k s = Some v \<Longrightarrow> key v = k"
    by (induction s) (auto split: if_splits)
next
  fix v k s
  show "key v = k \<Longrightarrow> find_by key k s \<noteq> None \<Longrightarrow> find_by key k (replace_by key k v s) = Some v"
    by (induction s) auto
next
  fix v k j s
  show "key v = k \<Longrightarrow> j \<noteq> k \<Longrightarrow> find_by key j (replace_by key k v s) = find_by key j s"
    by (induction s) auto
next
  fix k s v
  show "find_by key k s = None \<Longrightarrow> find_by key k (replace_by key k v s) = None"
    by (induction s) (auto split: if_splits)
qed

lemmas [store_simps] = list_store.lookup_replace

lemma find_by_set: "find_by key k os = Some v \<Longrightarrow> v \<in> set os \<and> key v = k"
  by (induction os) (auto split: if_splits)

lemma find_by_distinct:
  "distinct (map key os) \<Longrightarrow> v \<in> set os \<Longrightarrow> find_by key (key v) os = Some v"
  by (induction os) (auto simp: image_iff)

lemma find_by_None: "find_by key k os = None \<longleftrightarrow> k \<notin> key ` set os"
  by (induction os) auto

lemma find_by_append [store_simps]:
  "find_by key k (os @ ps) = (case find_by key k os of None \<Rightarrow> find_by key k ps | Some v \<Rightarrow> Some v)"
  by (induction os) auto

lemma map_key_replace_by [store_simps]: "key v = k \<Longrightarrow> map key (replace_by key k v os) = map key os"
  by (induction os) auto

lemma set_replace_by: "u \<in> set (replace_by key k v os) \<Longrightarrow> u = v \<or> u \<in> set os \<and> key u \<noteq> k"
  by (auto simp: replace_by_def)

subsection \<open>Go's fixed-width integers\<close>

text \<open>
  \<open>int32\<close> and \<open>int64\<close> values are integers in their range; the result of an addition or
  subtraction wraps around (two's complement), which \<open>int32\<close> and \<open>int64\<close> write out.
\<close>

definition int64 :: "int \<Rightarrow> int" where
  "int64 x = (x + 2 ^ 63) mod 2 ^ 64 - 2 ^ 63"

definition int32 :: "int \<Rightarrow> int" where
  "int32 x = (x + 2 ^ 31) mod 2 ^ 32 - 2 ^ 31"

definition max_int32 :: int where
  "max_int32 = 2147483647"

lemma int64_id [simp]: "- (2 ^ 63) \<le> x \<Longrightarrow> x < 2 ^ 63 \<Longrightarrow> int64 x = x"
  unfolding int64_def by (subst mod_pos_pos_trivial) auto

lemma int32_id [simp]: "- (2 ^ 31) \<le> x \<Longrightarrow> x < 2 ^ 31 \<Longrightarrow> int32 x = x"
  unfolding int32_def by (subst mod_pos_pos_trivial) auto

lemma int64_range: "- (2 ^ 63) \<le> int64 x \<and> int64 x < 2 ^ 63"
proof -
  have "0 \<le> (x + 2 ^ 63) mod 2 ^ 64" and "(x + 2 ^ 63) mod 2 ^ 64 < (2 ^ 64 :: int)"
    by simp_all
  then show ?thesis by (simp add: int64_def)
qed

lemma int32_range: "- (2 ^ 31) \<le> int32 x \<and> int32 x < 2 ^ 31"
proof -
  have "0 \<le> (x + 2 ^ 31) mod 2 ^ 32" and "(x + 2 ^ 31) mod 2 ^ 32 < (2 ^ 32 :: int)"
    by simp_all
  then show ?thesis by (simp add: int32_def)
qed

lemma int32_wraps: "int32 (max_int32 + 1) = - 2147483648"
  by (simp add: int32_def max_int32_def)

end
