(* ===== verification/Api_Types.thy ===== *)
theory Api_Types
  imports Prelude
begin

section \<open>The custom resources (internal/api/v1alpha1)\<close>

text \<open>
  The API objects the controllers read and write, as records with the fields of the Go structs.
  A Go string type with named constants is a datatype with one constructor per constant, one
  for the empty string where the code tests it, and one for any other string. Pointers are
  options, \<open>metav1.Time\<close> values integers (nanoseconds), durations integers. Every
  resource is \<open>kobj\<close>: object metadata, a spec and a status.
\<close>

subsection \<open>shared_types.go\<close>

datatype resource_phase =
    NoPhase
  | PhasePending | PhaseAdmitted | PhasePreparing | PhaseRunning | PhaseCollecting
  | PhaseAwaitingApproval | PhaseIntervening | PhaseValidating | PhaseRetrying
  | PhaseSucceeded | PhaseFailed | PhaseCancelled | PhaseInterrupted
  | OtherPhase string

datatype execution_kind =
    ExecutionKindAgent | ExecutionKindUtility | ExecutionKindHumanGate | ExecutionKindValidation
  | OtherKind string

datatype sharing_scope =
    SharingDedicated | SharingWithinWorkflow | SharingWithinProject | SharingWithinTenant
  | SharingWithinClassification
  | OtherScope string

record uid_reference =
  ref_name :: string
  ref_uid :: string

record namespaced_reference =
  ns_namespace :: string
  ns_name :: string

definition phase_text :: "resource_phase \<Rightarrow> string" where
  "phase_text p = (case p of NoPhase \<Rightarrow> '''' | PhasePending \<Rightarrow> ''Pending'' | PhaseAdmitted \<Rightarrow> ''Admitted''
     | PhasePreparing \<Rightarrow> ''Preparing'' | PhaseRunning \<Rightarrow> ''Running'' | PhaseCollecting \<Rightarrow> ''Collecting''
     | PhaseAwaitingApproval \<Rightarrow> ''AwaitingApproval'' | PhaseIntervening \<Rightarrow> ''Intervening''
     | PhaseValidating \<Rightarrow> ''Validating'' | PhaseRetrying \<Rightarrow> ''Retrying'' | PhaseSucceeded \<Rightarrow> ''Succeeded''
     | PhaseFailed \<Rightarrow> ''Failed'' | PhaseCancelled \<Rightarrow> ''Cancelled'' | PhaseInterrupted \<Rightarrow> ''Interrupted''
     | OtherPhase t \<Rightarrow> t)"

subsection \<open>Object metadata and conditions (apimachinery)\<close>

text \<open>
  \<open>controller_owner\<close> is the owner reference marked as controller, whose UID
  \<open>metav1.IsControlledBy\<close> compares; \<open>deletion\<close> is \<open>DeletionTimestamp\<close>.
\<close>

record owner_reference =
  owner_apiVersion :: string
  owner_kind :: string
  owner_name :: string
  owner_uid :: string

definition group_version :: string where
  "group_version = ''aim.sovereign.io/v1alpha1''"

record object_meta =
  obj_name :: string
  obj_namespace :: string
  obj_uid :: string
  resource_version :: nat
  generation :: int
  labels :: "(string \<times> string) list"
  annotations :: "(string \<times> string) list"
  finalizers :: "string list"
  creation :: int
  deletion :: "int option"
  controller_owner :: "owner_reference option"

datatype condition_status = ConditionTrue | ConditionFalse | ConditionUnknown

record condition =
  cond_type :: string
  cond_status :: condition_status
  cond_reason :: string
  cond_message :: string
  cond_generation :: int

record ('s, 't) kobj =
  meta :: object_meta
  spec :: 's
  status :: 't

abbreviation name_of :: "('s, 't) kobj \<Rightarrow> string" where
  "name_of x \<equiv> obj_name (meta x)"

abbreviation namespace_of :: "('s, 't) kobj \<Rightarrow> string" where
  "namespace_of x \<equiv> obj_namespace (meta x)"

abbreviation uid_of :: "('s, 't) kobj \<Rightarrow> string" where
  "uid_of x \<equiv> obj_uid (meta x)"

definition obj_key :: "('s, 't) kobj \<Rightarrow> string \<times> string" where
  "obj_key x = (namespace_of x, name_of x)"

definition is_controlled_by :: "('s, 't) kobj \<Rightarrow> ('u, 'v) kobj \<Rightarrow> bool" where
  "is_controlled_by x owner = (case controller_owner (meta x) of
       None \<Rightarrow> False | Some r \<Rightarrow> owner_uid r = uid_of owner)"

definition reference_of :: "('s, 't) kobj \<Rightarrow> namespaced_reference" where
  "reference_of x = \<lparr>ns_namespace = namespace_of x, ns_name = name_of x\<rparr>"

text \<open>\<open>controllerutil.SetControllerReference\<close> on a fresh object, and metadata of a new object.\<close>

definition owner_ref_of :: "string \<Rightarrow> ('s, 't) kobj \<Rightarrow> owner_reference" where
  "owner_ref_of kind owner = \<lparr>owner_apiVersion = group_version, owner_kind = kind,
     owner_name = name_of owner, owner_uid = uid_of owner\<rparr>"

definition new_meta :: "string \<Rightarrow> string \<Rightarrow> (string \<times> string) list \<Rightarrow> owner_reference option \<Rightarrow> object_meta" where
  "new_meta ns n ls own = \<lparr>obj_name = n, obj_namespace = ns, obj_uid = '''', resource_version = 0,
     generation = 0, labels = ls, annotations = [], finalizers = [], creation = 0, deletion = None,
     controller_owner = own\<rparr>"

lemma new_meta_simps [simp]:
  "obj_name (new_meta ns n ls own) = n" "obj_namespace (new_meta ns n ls own) = ns"
  "labels (new_meta ns n ls own) = ls" "controller_owner (new_meta ns n ls own) = own"
  "deletion (new_meta ns n ls own) = None"
  by (simp_all add: new_meta_def)

text \<open>\<open>meta.FindStatusCondition\<close> and \<open>meta.SetStatusCondition\<close>, transition times left out.\<close>

definition find_condition :: "condition list \<Rightarrow> string \<Rightarrow> condition option" where
  "find_condition cs t = find (\<lambda>c. cond_type c = t) cs"

fun set_condition :: "condition \<Rightarrow> condition list \<Rightarrow> condition list" where
  "set_condition c [] = [c]"
| "set_condition c (d # ds) = (if cond_type d = cond_type c then c # ds else d # set_condition c ds)"

lemma find_set_condition [simp]:
  "find_condition (set_condition c cs) (cond_type c) = Some c"
  by (induction cs) (auto simp: find_condition_def)

text \<open>\<open>controllerutil.AddFinalizer\<close> on an object without it, and \<open>RemoveFinalizer\<close>.\<close>

definition add_finalizer :: "string \<Rightarrow> ('s, 't) kobj \<Rightarrow> ('s, 't) kobj" where
  "add_finalizer f x = x\<lparr>meta := (meta x)\<lparr>finalizers := finalizers (meta x) @ [f]\<rparr>\<rparr>"

definition remove_finalizer :: "string \<Rightarrow> ('s, 't) kobj \<Rightarrow> ('s, 't) kobj" where
  "remove_finalizer f x = x\<lparr>meta := (meta x)\<lparr>finalizers := filter (\<lambda>g. g \<noteq> f) (finalizers (meta x))\<rparr>\<rparr>"

text \<open>A map with string keys read as Go reads it: the empty string for an absent key.\<close>

definition go_map_get :: "(string \<times> string) list \<Rightarrow> string \<Rightarrow> string" where
  "go_map_get m k = (case map_of m k of None \<Rightarrow> '''' | Some v \<Rightarrow> v)"

lemma obj_key_simp [simp]:
  "obj_key x = (ns, n) \<longleftrightarrow> namespace_of x = ns \<and> name_of x = n"
  by (simp add: obj_key_def)

lemma obj_key_updates [simp]:
  "obj_key (x\<lparr>status := t\<rparr>) = obj_key x" "obj_key (x\<lparr>spec := s\<rparr>) = obj_key x"
  "reference_of (x\<lparr>status := t\<rparr>) = reference_of x"
  by (simp_all add: obj_key_def reference_of_def)

subsection \<open>platform_types.go\<close>

datatype approval_choice = Approved | Denied | OtherChoice string

record subject =
  subjectId :: string
  subj_email :: string
  displayName :: string
  subj_provider :: string
  subj_groups :: "string list"

record contract_reference =
  contract_name :: string
  contract_version :: string

record artifact_reference =
  ar_name :: string
  ar_digest :: string
  ar_artifactRef :: "uid_reference option"
  ar_producerAttemptRef :: string

record typed_local_reference =
  tl_apiVersion :: string
  tl_kind :: string
  tl_name :: string

record failed_agent_attempt =
  previousAttemptRef :: string
  fa_code :: string
  fa_message :: string

record agent_completion_status =
  disposition :: string
  completion_summary :: string
  completion_digest :: string

record inference_request_spec =
  ir_model :: string
  ir_modelRevision :: string
  ir_estimatedKVRAMMiB :: int
  ir_sharingScope :: sharing_scope
  ir_priority :: int
  ir_evictable :: bool

record step_attempt_spec =
  sa_workflowRef :: uid_reference
  sa_stepName :: string
  sa_retryNumber :: int
  sa_workflowAttempt :: int
  sa_kind :: execution_kind

record step_attempt_status =
  sa_observedGeneration :: int
  sa_phase :: resource_phase
  sa_executionRef :: "typed_local_reference option"
  sa_failureReason :: string
  sa_failureMessage :: string
  sa_retryable :: bool
  sa_completion :: "agent_completion_status option"
  sa_startedAt :: "int option"
  sa_completedAt :: "int option"
  sa_conditions :: "condition list"

type_synonym step_attempt = "(step_attempt_spec, step_attempt_status) kobj"

record agent_run_spec =
  run_attemptRef :: string
  run_priorAttemptRef :: "failed_agent_attempt option"
  run_workflowRef :: uid_reference
  run_stepName :: string
  run_attempt :: int
  run_responsibility :: string
  run_image :: string
  run_executable :: "string list"
  run_capabilities :: "string list"
  run_inputs :: "artifact_reference list"
  run_outputContracts :: "contract_reference list"
  run_inference :: "inference_request_spec option"
  run_timeout :: "int option"

record agent_run_status =
  run_observedGeneration :: int
  run_phase :: resource_phase
  run_podRef :: string
  run_collectorJobRef :: string
  run_inferenceLeaseRef :: string
  run_workspaceWriterLeaseRef :: string
  run_workspaceWriterEpoch :: int
  run_workspaceWriterReleased :: bool
  run_failureReason :: string
  run_failureMessage :: string
  run_retryable :: bool
  run_completion :: "agent_completion_status option"
  run_startedAt :: "int option"
  run_completedAt :: "int option"
  run_conditions :: "condition list"

type_synonym agent_run = "(agent_run_spec, agent_run_status) kobj"

record utility_operation_request =
  utility_name :: string
  utility_parameters :: "(string \<times> string) list"

record approval_requirement =
  requirement_step :: string
  requirement_subject :: string

record resolved_approval =
  resolved_requirement :: approval_requirement
  resolved_requestRef :: uid_reference
  resolved_decisionRef :: uid_reference
  resolved_subject :: artifact_reference
  resolved_admissionEventID :: string

record utility_operation_spec =
  uo_approval :: "resolved_approval option"
  uo_attemptRef :: string
  uo_workflowRef :: uid_reference
  uo_stepName :: string
  uo_attempt :: int
  uo_operation :: utility_operation_request
  uo_inputs :: "artifact_reference list"
  uo_outputContracts :: "contract_reference list"
  uo_timeout :: "int option"

record utility_operation_status =
  uo_observedGeneration :: int
  uo_phase :: resource_phase
  uo_jobRef :: string
  uo_collectorJobRef :: string
  uo_policyDecisionID :: string
  uo_workspaceWriterLeaseRef :: string
  uo_workspaceWriterEpoch :: int
  uo_workspaceWriterReleased :: bool
  uo_failureReason :: string
  uo_failureMessage :: string
  uo_retryable :: bool
  uo_startedAt :: "int option"
  uo_completedAt :: "int option"
  uo_conditions :: "condition list"

type_synonym utility_operation = "(utility_operation_spec, utility_operation_status) kobj"

record approval_spec =
  approval_mode :: string
  requiredGroups :: "string list"
  denyBehavior :: string

record approval_request_spec =
  rq_attemptRef :: uid_reference
  rq_workflowRef :: uid_reference
  rq_stepName :: string
  rq_attempt :: int
  rq_approval :: approval_spec
  rq_inputs :: "artifact_reference list"

record approval_request_status =
  rq_decisionUID :: string
  rq_observedGeneration :: int
  rq_phase :: resource_phase
  rq_decisionRef :: string
  rq_failureReason :: string
  rq_retryable :: bool
  rq_startedAt :: "int option"
  rq_completedAt :: "int option"
  rq_conditions :: "condition list"

type_synonym approval_request = "(approval_request_spec, approval_request_status) kobj"

record approval_decision_spec =
  dec_workflowRef :: uid_reference
  dec_stepAttemptRef :: uid_reference
  dec_approvalRequestRef :: uid_reference
  dec_decision :: approval_choice
  dec_reason :: string
  dec_authoredAt :: "int option"
  dec_subject :: subject

record approval_decision_status =
  dec_observedGeneration :: int
  dec_conditions :: "condition list"

type_synonym approval_decision = "(approval_decision_spec, approval_decision_status) kobj"

record criterion_identity =
  criterion_id :: string
  criterion_digest :: string

record change_request_claims =
  claim_acceptanceCriteria :: "criterion_identity list"
  claim_acceptanceCriteriaSetDigest :: string

record candidate_revision_claims =
  cr_repositoryURL :: string
  cr_branch :: string
  cr_commit :: string
  cr_tree :: string

record candidate_remote_proof_claims =
  rp_candidateRevisionDigest :: string
  rp_repositoryURL :: string
  rp_ref :: string
  rp_observedCommit :: string
  rp_verifiedAt :: string

record image_digest_claims =
  im_candidateRevisionDigest :: string
  im_imageRepository :: string
  im_ociDigest :: string
  im_candidateCommit :: string
  im_candidateTree :: string

record artifact_claims =
  claim_changeRequest :: "change_request_claims option"
  claim_candidateRevision :: "candidate_revision_claims option"
  claim_candidateRemoteProof :: "candidate_remote_proof_claims option"
  claim_imageDigest :: "image_digest_claims option"

record artifact_spec =
  art_workflowRef :: uid_reference
  art_producerRef :: typed_local_reference
  art_producerUID :: string
  art_producerGrantRef :: uid_reference
  art_contract :: contract_reference
  art_digest :: string
  art_path :: string
  art_classification :: string
  art_sourceRevision :: string
  art_claims :: "artifact_claims option"

record artifact_status =
  art_observedGeneration :: int
  art_phase :: resource_phase
  art_conditions :: "condition list"

type_synonym artifact = "(artifact_spec, artifact_status) kobj"

record project_validation_spec =
  pv_provider :: string
  pv_infrastructureRepo :: string
  pv_overlayPath :: string
  pv_imageName :: string
  pv_imageSelector :: string

record repository_spec =
  repo_url :: string
  repo_defaultRevision :: string
  repo_credentialRef :: namespaced_reference

record job_template_spec =
  jt_image :: string
  jt_command :: "string list"
  jt_args :: "string list"
  jt_credentialRef :: namespaced_reference

record project_spec =
  pj_tenant :: string
  pj_applicationRepository :: repository_spec
  pj_validation :: project_validation_spec
  pj_policyProfileRef :: string
  pj_testJob :: job_template_spec
  pj_buildJob :: job_template_spec

record project_status =
  pj_validationProviderRef :: string
  pj_observedGeneration :: int
  pj_phase :: resource_phase
  pj_conditions :: "condition list"

type_synonym project = "(project_spec, project_status) kobj"

record human_session_spec =
  hs_workflowRef :: uid_reference
  hs_requesterSubject :: string
  hs_toolProfile :: string
  hs_capabilities :: "string list"
  hs_ttl :: "int option"

record human_session_status =
  hs_observedGeneration :: int
  hs_phase :: resource_phase
  hs_podRef :: string
  hs_serviceRef :: string
  hs_accessURL :: string
  hs_workspaceWriterLeaseRef :: string
  hs_workspaceWriterEpoch :: int
  hs_workspaceWriterReleased :: bool
  hs_expiresAt :: "int option"
  hs_conditions :: "condition list"

type_synonym human_session = "(human_session_spec, human_session_status) kobj"

record validation_run_spec =
  vr_attemptRef :: string
  vr_workflowRef :: uid_reference
  vr_stepName :: string
  vr_attempt :: int
  vr_provider :: string
  vr_commit :: string
  vr_imageDigest :: string
  vr_overlayPath :: string
  vr_destination :: string
  vr_inputs :: "artifact_reference list"

record validation_run_status =
  vr_observedGeneration :: int
  vr_phase :: resource_phase
  vr_providerRef :: string
  vr_accessURL :: string
  vr_resultArtifactRef :: string
  vr_failureReason :: string
  vr_retryable :: bool
  vr_conditions :: "condition list"

type_synonym validation_run = "(validation_run_spec, validation_run_status) kobj"

subsection \<open>sovereignworkflow_types.go and recovery_evidence.go\<close>

record agent_step_spec =
  ag_responsibility :: string
  ag_image :: string
  ag_executable :: "string list"
  ag_capabilities :: "string list"
  ag_inference :: "inference_request_spec option"
  ag_deterministic :: bool

record validation_step_spec =
  vs_provider :: string
  vs_commit :: string
  vs_imageDigest :: string
  vs_overlayPath :: string
  vs_destination :: string

record step_config =
  step_requiresApproval :: "approval_requirement option"
  step_name :: string
  step_kind :: execution_kind
  step_agent :: "agent_step_spec option"
  step_utility :: "utility_operation_request option"
  step_approval :: "approval_spec option"
  step_validation :: "validation_step_spec option"
  step_inputs :: "artifact_reference list"
  step_outputs :: "contract_reference list"
  step_timeout :: "int option"
  step_maxAttempts :: int
  step_order :: int

record workflow_bootstrap_spec =
  bs_sourceRef :: uid_reference
  bs_key :: string
  bs_expectedDigest :: string
  bs_contract :: contract_reference
  bs_artifactName :: string

record workflow_spec =
  wf_project :: uid_reference
  wf_workflowID :: string
  wf_requesterSubject :: string
  wf_bootstrap :: workflow_bootstrap_spec
  wf_definitionRevision :: string
  wf_classification :: string
  wf_steps :: "step_config list"
  wf_requestedVolumeSize :: string
  wf_maxWorkflowAttempt :: int

record recovery_input_link =
  link_consumer :: uid_reference
  link_input :: artifact_reference
  link_producer :: uid_reference

record workflow_recovery_evidence =
  rec_selectedAt :: int
  rec_triggerAttempt :: uid_reference
  rec_previousAttempt :: "uid_reference option"
  rec_previousOutcome :: resource_phase
  rec_fromWorkflowAttempt :: int
  rec_maxWorkflowAttempt :: int
  rec_failureReason :: string
  rec_feedback :: "failed_agent_attempt option"
  rec_inputLinks :: "recovery_input_link list"
  rec_reports :: "artifact_reference list"
  rec_evidenceEvents :: "string list"
  rec_missing :: "string list"

record workflow_retry_observation =
  obs_decisionEvent :: string
  obs_attempt :: uid_reference
  obs_execution :: uid_reference
  obs_observedAt :: int

record workflow_refinement_status =
  ref_retryObservation :: "workflow_retry_observation option"
  ref_recovery :: "workflow_recovery_evidence option"
  ref_iteration :: int
  ref_triggerStepName :: string
  ref_triggerAttemptRef :: string
  ref_restartStepName :: string

record workflow_status =
  wf_phase :: resource_phase
  wf_activeStepName :: string
  wf_activeAttemptRef :: string
  wf_workflowAttempt :: int
  wf_observedGeneration :: int
  wf_pvcName :: string
  wf_workspaceWriterLeaseRef :: string
  wf_bootstrapJobRef :: string
  wf_bootstrapWriterEpoch :: int
  wf_bootstrapWriterReleased :: bool
  wf_bootstrapArtifactRef :: "uid_reference option"
  wf_refinement :: "workflow_refinement_status option"
  wf_conditions :: "condition list"

type_synonym workflow = "(workflow_spec, workflow_status) kobj"

subsection \<open>inference_types.go\<close>

record endpoint_spec =
  ep_provider :: string
  ep_model :: string
  ep_modelRevision :: string
  ep_runtimeImage :: string
  ep_tenant :: string
  ep_classification :: string
  ep_sharingScope :: sharing_scope
  ep_staticVRAMMiB :: int
  ep_maxKVRAMMiB :: int
  ep_safetyHeadroomMiB :: int
  ep_idleTTL :: "int option"

record endpoint_status =
  ep_observedGeneration :: int
  ep_phase :: resource_phase
  ep_podRef :: string
  ep_serviceRef :: string
  ep_nodeName :: string
  ep_deviceName :: string
  ep_allocatedKVRAMMiB :: int
  ep_activeLeaseCount :: int
  ep_activeLeases :: "namespaced_reference list"
  ep_lastUsedAt :: "int option"
  ep_conditions :: "condition list"

type_synonym endpoint = "(endpoint_spec, endpoint_status) kobj"

record lease_spec =
  il_workflowRef :: uid_reference
  il_attemptRef :: string
  il_projectRef :: string
  il_tenant :: string
  il_classification :: string
  il_sharingScope :: sharing_scope
  il_model :: string
  il_modelRevision :: string
  il_estimatedKVRAMMiB :: int
  il_priority :: int
  il_evictable :: bool

record lease_status =
  il_observedGeneration :: int
  il_phase :: resource_phase
  il_endpointRef :: namespaced_reference
  il_endpointURL :: string
  il_decisionID :: string
  il_reason :: string
  il_conditions :: "condition list"

type_synonym inference_lease = "(lease_spec, lease_status) kobj"

end
