(* ===== verification/Phase_Machine.thy ===== *)
theory Phase_Machine
  imports Api_Types
begin

section \<open>The lifecycle of a resource (internal/domain/state)\<close>

text \<open>
  The table of phase transitions, the terminal phases, the condition a phase is reported as,
  and the retry numbers of step attempts. \<open>phase_step\<close> is the step relation the table gives,
  so that facts about it hold for every history of a resource that respects it.
\<close>

subsection \<open>Operations\<close>

text \<open>
  \<open>transitions\<close>: \<open>None\<close> where the Go map has no entry, otherwise the list of the phases of its
  inner map.
\<close>

definition transitions :: "resource_phase \<Rightarrow> resource_phase list option" where
  "transitions p = (case p of
     NoPhase \<Rightarrow> Some [PhasePending]
   | PhasePending \<Rightarrow> Some [PhaseAdmitted, PhaseCancelled, PhaseFailed]
   | PhaseAdmitted \<Rightarrow> Some [PhasePreparing, PhaseCancelled, PhaseFailed]
   | PhasePreparing \<Rightarrow> Some [PhaseRunning, PhaseRetrying, PhaseFailed, PhaseCancelled]
   | PhaseRunning \<Rightarrow> Some [PhaseAwaitingApproval, PhaseIntervening, PhaseValidating,
       PhaseSucceeded, PhaseInterrupted, PhaseRetrying, PhaseFailed, PhaseCancelled]
   | PhaseAwaitingApproval \<Rightarrow> Some [PhaseRunning, PhaseIntervening, PhaseValidating,
       PhaseSucceeded, PhaseFailed, PhaseCancelled]
   | PhaseIntervening \<Rightarrow> Some [PhaseRunning, PhaseSucceeded, PhaseFailed, PhaseCancelled]
   | PhaseValidating \<Rightarrow> Some [PhaseSucceeded, PhaseFailed, PhaseRetrying, PhaseCancelled]
   | PhaseInterrupted \<Rightarrow> Some [PhaseRetrying, PhaseFailed, PhaseCancelled]
   | PhaseRetrying \<Rightarrow> Some [PhasePreparing, PhaseFailed, PhaseCancelled]
   | _ \<Rightarrow> None)"

definition validate_transition :: "resource_phase \<Rightarrow> resource_phase \<Rightarrow> go_error option" where
  "validate_transition from to =
     (if from = to then None
      else case transitions from of
             None \<Rightarrow> Some (Invalid ''terminal or unknown'')
           | Some allowed \<Rightarrow>
               if \<not> List.member allowed to then Some (Invalid ''not allowed'') else None)"

definition is_terminal :: "resource_phase \<Rightarrow> bool" where
  "is_terminal p = (case p of
     PhaseSucceeded \<Rightarrow> True | PhaseFailed \<Rightarrow> True | PhaseCancelled \<Rightarrow> True
   | PhaseInterrupted \<Rightarrow> True | _ \<Rightarrow> False)"

definition condition_status_of :: "resource_phase \<Rightarrow> condition_status" where
  "condition_status_of p = (case p of
     PhaseSucceeded \<Rightarrow> ConditionTrue
   | PhaseFailed \<Rightarrow> ConditionFalse | PhaseCancelled \<Rightarrow> ConditionFalse
   | PhaseInterrupted \<Rightarrow> ConditionFalse
   | _ \<Rightarrow> ConditionUnknown)"

text \<open>
  The loops of \<open>NextAttemptNumber\<close> and \<open>NextRetryNumber\<close>: the largest number seen so far,
  starting at the zero of \<open>var max int32\<close>; the result is \<open>max + 1\<close> in \<open>int32\<close>.
\<close>

fun max_retry :: "(step_attempt \<Rightarrow> bool) \<Rightarrow> step_attempt list \<Rightarrow> int \<Rightarrow> int" where
  "max_retry p [] m = m"
| "max_retry p (a # as) m =
     max_retry p as (if p a \<and> sa_retryNumber (spec a) > m then sa_retryNumber (spec a) else m)"

definition next_attempt_number :: "step_attempt list \<Rightarrow> string \<Rightarrow> int" where
  "next_attempt_number attempts stepName =
     int32 (max_retry (\<lambda>a. sa_stepName (spec a) = stepName) attempts 0 + 1)"

definition next_retry_number :: "step_attempt list \<Rightarrow> string \<Rightarrow> int \<Rightarrow> int" where
  "next_retry_number attempts stepName workflowAttempt =
     int32 (max_retry (\<lambda>a. sa_stepName (spec a) = stepName
                          \<and> sa_workflowAttempt (spec a) = workflowAttempt) attempts 0 + 1)"

subsection \<open>The step relation of the table\<close>

inductive phase_step :: "resource_phase \<Rightarrow> resource_phase \<Rightarrow> bool" where
  stay: "phase_step p p"
| move: "transitions p = Some qs \<Longrightarrow> q \<in> set qs \<Longrightarrow> phase_step p q"

inductive_simps phase_step_simps: "phase_step p q"

lemma validate_transition_step: "validate_transition p q = None \<longleftrightarrow> phase_step p q"
  by (auto simp: validate_transition_def phase_step_simps split: option.splits)

inductive phase_reach :: "resource_phase \<Rightarrow> resource_phase \<Rightarrow> bool" where
  here: "phase_reach p p"
| later: "phase_reach p q \<Longrightarrow> phase_step q r \<Longrightarrow> phase_reach p r"

text \<open>Succeeded, Failed and Cancelled have no way out; Interrupted does.\<close>

definition absorbing :: "resource_phase \<Rightarrow> bool" where
  "absorbing p \<longleftrightarrow> p \<in> {PhaseSucceeded, PhaseFailed, PhaseCancelled}"

lemma absorbing_step: "absorbing p \<Longrightarrow> phase_step p q \<Longrightarrow> q = p"
  by (auto simp: absorbing_def phase_step_simps transitions_def)

lemma absorbing_reach: "phase_reach p q \<Longrightarrow> absorbing p \<Longrightarrow> q = p"
  by (induction rule: phase_reach.induct) (auto dest: absorbing_step)

lemma terminal_cases: "is_terminal p \<longleftrightarrow> absorbing p \<or> p = PhaseInterrupted"
  by (auto simp: is_terminal_def absorbing_def split: resource_phase.splits)

text \<open>From every phase with an entry in the table a failed end is reachable.\<close>

lemma transitions_to_failed:
  "transitions p = Some qs \<Longrightarrow> p \<noteq> NoPhase \<Longrightarrow> PhaseFailed \<in> set qs"
  by (cases p) (auto simp: transitions_def)

subsection \<open>The retry counters\<close>

lemma max_retry_ge: "m \<le> max_retry p as m"
proof (induction as arbitrary: m)
  case (Cons a as)
  let ?m = "if p a \<and> sa_retryNumber (spec a) > m then sa_retryNumber (spec a) else m"
  have "m \<le> ?m" by simp
  also have "?m \<le> max_retry p as ?m" by (rule Cons.IH)
  finally show ?case by simp
qed simp

lemma max_retry_upper:
  "a \<in> set as \<Longrightarrow> p a \<Longrightarrow> sa_retryNumber (spec a) \<le> max_retry p as m"
proof (induction as arbitrary: m)
  case (Cons b as)
  let ?m = "if p b \<and> sa_retryNumber (spec b) > m then sa_retryNumber (spec b) else m"
  show ?case
  proof (cases "a = b")
    case True
    with Cons.prems(2) have "sa_retryNumber (spec a) \<le> ?m" by simp
    also have "\<dots> \<le> max_retry p as ?m" by (rule max_retry_ge)
    finally show ?thesis by simp
  qed (use Cons in auto)
qed simp

lemma max_retry_attained:
  "max_retry p as m = m \<or> (\<exists>a \<in> set as. p a \<and> max_retry p as m = sa_retryNumber (spec a))"
proof (induction as arbitrary: m)
  case (Cons a as)
  let ?m = "if p a \<and> sa_retryNumber (spec a) > m then sa_retryNumber (spec a) else m"
  show ?case using Cons.IH [of ?m] by (auto split: if_splits)
qed simp

lemma max_retry_bound:
  "\<forall>a \<in> set as. sa_retryNumber (spec a) \<le> b \<Longrightarrow> m \<le> b \<Longrightarrow> max_retry p as m \<le> b"
  by (induction as arbitrary: m) auto

subsection \<open>Properties\<close>



text \<open>
  \<open>NextRetryNumber\<close> gives a number no attempt of the step in the same workflow attempt has
  used: it is above every one of them and follows the largest (or is 1 when there is none),
  as long as the counter has not reached the largest int32.
\<close>

theorem next_retry_number_is_fresh:
  assumes "\<forall>a \<in> set attempts. sa_retryNumber (spec a) < max_int32"
  shows "(\<forall>a \<in> set attempts. sa_stepName (spec a) = stepName
            \<and> sa_workflowAttempt (spec a) = workflowAttempt
          \<longrightarrow> sa_retryNumber (spec a) < next_retry_number attempts stepName workflowAttempt)
    \<and> (next_retry_number attempts stepName workflowAttempt = 1
       \<or> (\<exists>a \<in> set attempts. sa_stepName (spec a) = stepName
            \<and> sa_workflowAttempt (spec a) = workflowAttempt
            \<and> next_retry_number attempts stepName workflowAttempt = sa_retryNumber (spec a) + 1))"
proof -
  let ?p = "\<lambda>a. sa_stepName (spec a) = stepName \<and> sa_workflowAttempt (spec a) = workflowAttempt"
  have "max_retry ?p attempts 0 \<le> max_int32 - 1"
    by (rule max_retry_bound) (use assms in \<open>auto simp: max_int32_def\<close>)
  moreover have "0 \<le> max_retry ?p attempts 0" by (rule max_retry_ge)
  ultimately have "next_retry_number attempts stepName workflowAttempt = max_retry ?p attempts 0 + 1"
    by (simp add: next_retry_number_def max_int32_def)
  then show ?thesis
    using max_retry_upper [of _ attempts ?p 0] max_retry_attained [of ?p attempts 0] by fastforce
qed

definition sample_attempt :: "int \<Rightarrow> step_attempt" where
  "sample_attempt n = \<lparr>meta = undefined, spec = \<lparr>sa_workflowRef = \<lparr>ref_name = ''w'', ref_uid = ''u''\<rparr>,
     sa_stepName = ''build'', sa_retryNumber = n, sa_workflowAttempt = 0, sa_kind = ExecutionKindAgent\<rparr>,
     status = undefined\<rparr>"

theorem next_retry_number_is_fresh_witness:
  "next_retry_number [sample_attempt 2, sample_attempt 1] ''build'' 0 = 3
   \<and> sa_retryNumber (spec (sample_attempt 2)) < next_retry_number [sample_attempt 2, sample_attempt 1] ''build'' 0"
  using next_retry_number_is_fresh [of "[sample_attempt 2, sample_attempt 1]" "''build''" 0]
  by (simp add: sample_attempt_def max_int32_def next_retry_number_def)

end
