(* ===== verification/Go_Strings.thy ===== *)
theory Go_Strings
  imports Prelude "HOL-Library.Char_ord" "HOL-Library.List_Lexorder" "HOL-Library.Product_Lexorder"
begin

section \<open>Go strings as byte sequences\<close>

text \<open>
  What the code uses of Go's \<open>strings\<close>, \<open>unicode/utf8\<close>, \<open>bufio\<close> and \<open>sort\<close> packages, on
  strings as sequences of bytes (\<open>char\<close> is a byte, \<open>length\<close> is Go's \<open>len\<close>, the order is Go's
  bytewise order of strings).
\<close>

subsection \<open>Prefixes, substrings, splitting\<close>

definition has_prefix :: "string \<Rightarrow> string \<Rightarrow> bool" where
  "has_prefix s p \<longleftrightarrow> take (length p) s = p"

definition has_suffix :: "string \<Rightarrow> string \<Rightarrow> bool" where
  "has_suffix s p \<longleftrightarrow> length p \<le> length s \<and> drop (length s - length p) s = p"

definition cut_prefix :: "string \<Rightarrow> string \<Rightarrow> string option" where
  "cut_prefix s p = (if has_prefix s p then Some (drop (length p) s) else None)"

definition trim_suffix :: "string \<Rightarrow> string \<Rightarrow> string" where
  "trim_suffix s p = (if has_suffix s p then take (length s - length p) s else s)"

fun contains :: "string \<Rightarrow> string \<Rightarrow> bool" where
  "contains [] p = (p = [])"
| "contains (c # s) p = (has_prefix (c # s) p \<or> contains s p)"

definition contains_byte :: "string \<Rightarrow> char \<Rightarrow> bool" where
  "contains_byte s c \<longleftrightarrow> c \<in> set s"

definition contains_any :: "string \<Rightarrow> string \<Rightarrow> bool" where
  "contains_any s cs \<longleftrightarrow> list_ex (\<lambda>c. List.member cs c) s"

text \<open>\<open>strings.Split\<close> on a one-byte separator.\<close>

fun split_on :: "char \<Rightarrow> string \<Rightarrow> string list" where
  "split_on d [] = [[]]"
| "split_on d (c # s) =
     (if c = d then [] # split_on d s
      else (case split_on d s of [] \<Rightarrow> [[c]] | w # ws \<Rightarrow> (c # w) # ws))"

fun join_with :: "string \<Rightarrow> string list \<Rightarrow> string" where
  "join_with d [] = []"
| "join_with d [w] = w"
| "join_with d (w # v # ws) = w @ d @ join_with d (v # ws)"

text \<open>
  \<open>strings.Count\<close> and \<open>strings.Replace\<close>: non-overlapping occurrences from the left, of a
  non-empty \<open>old\<close>. The first argument is the number of replacements left.
\<close>

function count_sub :: "string \<Rightarrow> string \<Rightarrow> nat" where
  "count_sub [] old = 0"
| "count_sub (c # s) old =
     (if old \<noteq> [] \<and> has_prefix (c # s) old then Suc (count_sub (drop (length old) (c # s)) old)
      else count_sub s old)"
  by pat_completeness auto
termination
  by (relation "measure (\<lambda>(s, old). length s)") auto

function replace_n :: "nat \<Rightarrow> string \<Rightarrow> string \<Rightarrow> string \<Rightarrow> string" where
  "replace_n n [] old new = []"
| "replace_n n (c # s) old new =
     (if n > 0 \<and> old \<noteq> [] \<and> has_prefix (c # s) old
      then new @ replace_n (n - 1) (drop (length old) (c # s)) old new
      else c # replace_n n s old new)"
  by pat_completeness auto
termination
  by (relation "measure (\<lambda>(n, s, old, new). length s)") auto

definition replace_all :: "string \<Rightarrow> string \<Rightarrow> string \<Rightarrow> string" where
  "replace_all s old new = replace_n (length s) s old new"

subsection \<open>Blank text\<close>

definition ascii_space :: "char \<Rightarrow> bool" where
  "ascii_space c \<longleftrightarrow> of_char c \<in> {9, 10, 11, 12, 13, 32 :: nat}"

text \<open>The UTF-8 encodings of the runes that \<open>unicode.IsSpace\<close> accepts beyond ASCII.\<close>

definition wide_spaces :: "nat list list" where
  "wide_spaces = [[194, 133], [194, 160], [225, 154, 128], [226, 128, 168], [226, 128, 169],
     [226, 128, 175], [226, 129, 159], [227, 128, 128]] @ map (\<lambda>i. [226, 128, 128 + i]) [0..<11]"

definition wide_space_at :: "string \<Rightarrow> bool" where
  "wide_space_at s \<longleftrightarrow> list_ex (\<lambda>w. map of_char (take (length w) s) = w) wide_spaces"

definition wide_space_len :: "string \<Rightarrow> nat" where
  "wide_space_len s = (if map of_char (take 1 s) = [194 :: nat] then 2 else 3)"

function trim_left_space :: "string \<Rightarrow> string" where
  "trim_left_space [] = []"
| "trim_left_space (c # s) =
     (if ascii_space c then trim_left_space s
      else if wide_space_at (c # s) then trim_left_space (drop (wide_space_len (c # s)) (c # s))
      else c # s)"
  by pat_completeness auto
termination
  by (relation "measure length") (auto simp: wide_space_len_def)

definition wide_space_end :: "string \<Rightarrow> bool" where
  "wide_space_end r \<longleftrightarrow> list_ex (\<lambda>w. map of_char (take (length w) r) = rev w) wide_spaces"

text \<open>Trimming on the right, on the reversed string.\<close>

function trim_right_space_rev :: "string \<Rightarrow> string" where
  "trim_right_space_rev [] = []"
| "trim_right_space_rev (c # r) =
     (if ascii_space c then trim_right_space_rev r
      else if wide_space_end (c # r)
      then trim_right_space_rev
             (drop (if map of_char (take 1 (drop 1 (c # r))) = [194 :: nat] then 2 else 3) (c # r))
      else c # r)"
  by pat_completeness auto
termination
  by (relation "measure length") auto

definition trim_space :: "string \<Rightarrow> string" where
  "trim_space s = rev (trim_right_space_rev (rev (trim_left_space s)))"

definition blank :: "string \<Rightarrow> bool" where
  "blank s \<longleftrightarrow> trim_space s = []"

subsection \<open>UTF-8\<close>

definition cont_byte :: "nat \<Rightarrow> bool" where
  "cont_byte b \<longleftrightarrow> 128 \<le> b \<and> b \<le> 191"

text \<open>\<open>utf8.Valid\<close>, with the ranges of the second byte of the Unicode standard.\<close>

fun utf8_valid_bytes :: "nat list \<Rightarrow> bool" where
  "utf8_valid_bytes [] = True"
| "utf8_valid_bytes (a # s) =
     (if a < 128 then utf8_valid_bytes s
      else if 194 \<le> a \<and> a \<le> 223
      then (case s of b # t \<Rightarrow> cont_byte b \<and> utf8_valid_bytes t | _ \<Rightarrow> False)
      else if 224 \<le> a \<and> a \<le> 239
      then (case s of b # c # t \<Rightarrow>
              cont_byte b \<and> (a = 224 \<longrightarrow> 160 \<le> b) \<and> (a = 237 \<longrightarrow> b \<le> 159) \<and> cont_byte c
              \<and> utf8_valid_bytes t
            | _ \<Rightarrow> False)
      else if 240 \<le> a \<and> a \<le> 244
      then (case s of b # c # d # t \<Rightarrow>
              cont_byte b \<and> (a = 240 \<longrightarrow> 144 \<le> b) \<and> (a = 244 \<longrightarrow> b \<le> 143) \<and> cont_byte c
              \<and> cont_byte d \<and> utf8_valid_bytes t
            | _ \<Rightarrow> False)
      else False)"

definition utf8_valid :: "string \<Rightarrow> bool" where
  "utf8_valid s \<longleftrightarrow> utf8_valid_bytes (map of_char s)"

definition nul :: char where
  "nul = CHR 0x00"

subsection \<open>Character classes and the anchored patterns\<close>

definition byte_in :: "nat \<Rightarrow> nat \<Rightarrow> char \<Rightarrow> bool" where
  "byte_in lo hi c \<longleftrightarrow> lo \<le> of_char c \<and> of_char c \<le> hi"

definition is_digit :: "char \<Rightarrow> bool" where "is_digit = byte_in 48 57"
definition is_lower :: "char \<Rightarrow> bool" where "is_lower = byte_in 97 122"
definition is_upper :: "char \<Rightarrow> bool" where "is_upper = byte_in 65 90"

definition is_lower_hex :: "char \<Rightarrow> bool" where
  "is_lower_hex c \<longleftrightarrow> is_digit c \<or> byte_in 97 102 c"

definition is_hex :: "char \<Rightarrow> bool" where
  "is_hex c \<longleftrightarrow> is_lower_hex c \<or> byte_in 65 70 c"

definition is_alnum :: "char \<Rightarrow> bool" where
  "is_alnum c \<longleftrightarrow> is_digit c \<or> is_lower c \<or> is_upper c"

definition ascii_lower :: "char \<Rightarrow> char" where
  "ascii_lower c = (if is_upper c then char_of (of_char c + 32 :: nat) else c)"

text \<open>
  \<open>strings.ToLower\<close> on the bytes of ASCII letters. Other runes are left alone: the code
  compares the result with ASCII constants only, and none of them contains a letter that a
  non-ASCII rune is lowered to.
\<close>

definition to_lower :: "string \<Rightarrow> string" where
  "to_lower s = map ascii_lower s"

subsection \<open>Lines\<close>

text \<open>
  \<open>bufio.Scanner\<close> over lines with its default buffer: the lines without their line feed and
  without one carriage return before it; scanning stops with an error at a line of
  \<open>bufio.MaxScanTokenSize\<close> bytes or more.
\<close>

definition max_scan_token :: nat where
  "max_scan_token = 65536"

definition drop_cr :: "string \<Rightarrow> string" where
  "drop_cr s = trim_suffix s [CHR 0x0D]"

fun take_until_long :: "nat \<Rightarrow> string list \<Rightarrow> string list \<times> bool" where
  "take_until_long m [] = ([], False)"
| "take_until_long m (l # ls) =
     (if m \<le> length l then ([], True)
      else (case take_until_long m ls of (r, e) \<Rightarrow> (drop_cr l # r, e)))"

definition raw_lines :: "string \<Rightarrow> string list" where
  "raw_lines s = (let ws = split_on (CHR 0x0A) s in if last ws = [] then butlast ws else ws)"

definition scan_lines :: "string \<Rightarrow> string list \<times> bool" where
  "scan_lines s = take_until_long max_scan_token (raw_lines s)"

subsection \<open>Lemmas\<close>

lemma has_prefix_append [simp]: "has_prefix (p @ s) p"
  by (simp add: has_prefix_def)

lemma has_prefix_Nil [simp]: "has_prefix s []"
  by (simp add: has_prefix_def)

lemma has_prefix_iff: "has_prefix s p \<longleftrightarrow> (\<exists>t. s = p @ t)"
  unfolding has_prefix_def by (metis append_eq_conv_conj append_take_drop_id)

lemma has_suffix_iff: "has_suffix s p \<longleftrightarrow> (\<exists>t. s = t @ p)"
proof
  assume "has_suffix s p"
  then have "s = take (length s - length p) s @ p"
    unfolding has_suffix_def by (metis append_take_drop_id)
  then show "\<exists>t. s = t @ p" ..
next
  assume "\<exists>t. s = t @ p"
  then show "has_suffix s p" by (auto simp: has_suffix_def)
qed

lemma split_on_nonempty [simp]: "split_on d s \<noteq> []"
  by (induction s) (auto split: list.splits)

lemma split_on_no_sep: "w \<in> set (split_on d s) \<Longrightarrow> d \<notin> set w"
  by (induction s arbitrary: w) (auto split: list.splits if_splits)

lemma join_split: "join_with [d] (split_on d s) = s"
proof (induction s)
  case (Cons c s)
  then show ?case
    by (cases "split_on d s"; cases "tl (split_on d s)") (auto split: list.splits)
qed simp

lemma split_on_single: "d \<notin> set w \<Longrightarrow> split_on d w = [w]"
  by (induction w) auto

lemma split_on_append: "d \<notin> set w \<Longrightarrow> split_on d (w @ d # s) = w # split_on d s"
  by (induction w) auto

lemma split_join:
  "\<forall>w \<in> set ws. d \<notin> set w \<Longrightarrow> ws \<noteq> [] \<Longrightarrow> split_on d (join_with [d] ws) = ws"
  by (induction ws rule: induct_list012) (auto simp: split_on_single split_on_append)

lemma contains_iff: "contains s p \<longleftrightarrow> (\<exists>a b. s = a @ p @ b)"
proof (induction s)
  case IH: (Cons c s)
  show ?case
  proof
    assume "contains (c # s) p"
    then consider "has_prefix (c # s) p" | "contains s p" by auto
    then show "\<exists>a b. c # s = a @ p @ b"
    proof cases
      case 1
      then show ?thesis by (metis append_Nil has_prefix_iff)
    next
      case 2
      then show ?thesis using IH by (metis append_Cons)
    qed
  next
    assume "\<exists>a b. c # s = a @ p @ b"
    then obtain a b where "c # s = a @ p @ b" by blast
    then show "contains (c # s) p"
    proof (cases a)
      case Nil
      with \<open>c # s = a @ p @ b\<close> have "has_prefix (c # s) p" by simp
      then show ?thesis by simp
    next
      case (Cons d e)
      with \<open>c # s = a @ p @ b\<close> have "s = e @ p @ b" by simp
      with IH show ?thesis by auto
    qed
  qed
qed auto

lemma contains_single: "contains s [c] \<longleftrightarrow> c \<in> set s"
  by (induction s) (auto simp: has_prefix_def)

subsection \<open>Numbers as text\<close>

text \<open>\<open>fmt.Sprint\<close> of an integer: decimal digits, a minus sign for negative values.\<close>

fun show_nat :: "nat \<Rightarrow> string" where
  "show_nat n = (if n < 10 then [char_of (48 + n)] else show_nat (n div 10) @ [char_of (48 + n mod 10)])"

declare show_nat.simps [simp del]

definition show_int :: "int \<Rightarrow> string" where
  "show_int i = (if i < 0 then ''-'' @ show_nat (nat (- i)) else show_nat (nat i))"

definition digits_value :: "string \<Rightarrow> nat" where
  "digits_value s = foldl (\<lambda>a c. 10 * a + (of_char c - 48)) 0 s"

lemma digit_char: "n < 10 \<Longrightarrow> of_char (char_of (48 + n) :: char) = 48 + (n :: nat)"
  by simp

lemma digits_value_show: "digits_value (show_nat n) = n"
proof (induction n rule: show_nat.induct)
  case (1 n)
  show ?case
  proof (cases "n < 10")
    case True
    then show ?thesis by (subst show_nat.simps) (simp add: digits_value_def)
  next
    case False
    then have "digits_value (show_nat n) = 10 * digits_value (show_nat (n div 10)) + n mod 10"
      by (subst show_nat.simps) (simp add: digits_value_def)
    with 1 False show ?thesis by simp
  qed
qed

lemma show_nat_inject: "show_nat a = show_nat b \<longleftrightarrow> a = b"
  by (metis digits_value_show)

lemma show_nat_digits: "c \<in> set (show_nat n) \<Longrightarrow> is_digit c"
proof (induction n rule: show_nat.induct)
  case (1 n)
  then show ?case
    by (subst (asm) (2) show_nat.simps) (auto simp: is_digit_def byte_in_def split: if_splits)
qed

lemma show_nat_not_minus: "show_nat n \<noteq> ''-'' @ s"
  using show_nat_digits [of "CHR ''-''" n] by (auto simp: is_digit_def byte_in_def)

lemma show_int_inject: "show_int a = show_int b \<longleftrightarrow> a = b"
  using show_nat_not_minus [of "nat a" "show_nat (nat (- b))"]
    show_nat_not_minus [of "nat b" "show_nat (nat (- a))"]
  by (auto simp: show_int_def show_nat_inject nat_eq_iff split: if_splits dest: sym)

lemma show_int_no_nul: "nul \<notin> set (show_int i)"
  using show_nat_digits [of nul "nat i"] show_nat_digits [of nul "nat (- i)"]
  by (auto simp: show_int_def nul_def is_digit_def byte_in_def)

end
