(* ===== verification/Audit_Trail.thy ===== *)
theory Audit_Trail
  imports Api_Types Go_Strings
begin

section \<open>The audit trail (internal/audit)\<close>

text \<open>
  Events, their deterministic identities, the builder that fills in their fields, and the three
  recorders: the in-memory map, the PostgreSQL table and the JSON-lines file. SHA-256 is a
  parameter \<open>sha\<close> of the definitions (a function from bytes to the hex digest), and so are the
  JSON encoder and decoder of the file recorder. An event's \<open>Data\<close>, raw JSON in Go, is kept as
  the value that is marshalled.
\<close>

subsection \<open>Payloads (types.go, approval.go)\<close>

record resource_ref =
  rr_schemaVersion :: string
  rr_apiVersion :: string
  rr_kind :: string
  rr_namespace :: string
  rr_name :: string
  rr_uid :: string

record criterion_evidence =
  ce_id :: string
  ce_digest :: string

record artifact_evidence =
  ae_acceptanceCriteria :: "criterion_evidence list"
  ae_acceptanceCriteriaSetDigest :: string
  ae_schemaVersion :: string
  ae_artifact :: resource_ref
  ae_contract :: string
  ae_digest :: string
  ae_producer :: resource_ref
  ae_producerGrant :: "resource_ref option"
  ae_sourceRevision :: string
  ae_classification :: string

record invariant_result =
  inv_schemaVersion :: string
  inv_id :: string
  inv_outcome :: string
  inv_expected :: string
  inv_observed :: string
  inv_reason :: string

record decision_ref =
  dr_schemaVersion :: string
  dr_id :: string
  dr_kind :: string
  dr_revision :: string
  dr_sourceDigest :: string
  dr_inputDigest :: string
  dr_outcome :: string

record inputs_resolved =
  in_schemaVersion :: string
  in_consumer :: resource_ref
  in_inputs :: "artifact_evidence list"

record workspace_authority =
  wsa_schemaVersion :: string
  wsa_lease :: resource_ref
  wsa_holderIdentity :: string
  wsa_writerEpoch :: int
  wsa_capabilities :: "string list"

record authority_established =
  au_schemaVersion :: string
  au_workflow :: resource_ref
  au_stepAttempt :: resource_ref
  au_primitive :: resource_ref
  au_workspaceWrite :: "workspace_authority option"
  au_invariants :: "invariant_result list"

record decision_evaluated =
  de_approvalBinding :: "resolved_approval option"
  de_schemaVersion :: string
  de_primitive :: resource_ref
  de_decision :: decision_ref
  de_authorityEvent :: string
  de_inputEvent :: string
  de_evidenceEvents :: "string list"
  de_invariants :: "invariant_result list"

record consequence_evidence =
  cq_schemaVersion :: string
  cq_kind :: string
  cq_resource :: "resource_ref option"
  cq_artifact :: "artifact_evidence option"
  cq_digest :: string
  cq_externalID :: string
  cq_target :: string
  cq_before :: string
  cq_after :: string

record consequence_recorded =
  cs_schemaVersion :: string
  cs_decisionEvent :: string
  cs_consequences :: "consequence_evidence list"

record approval_decision_evidence =
  ade_schemaVersion :: string
  ade_workflow :: uid_reference
  ade_stepAttempt :: uid_reference
  ade_request :: uid_reference
  ade_decision :: uid_reference
  ade_approver :: subject
  ade_choice :: approval_choice
  ade_reason :: string
  ade_approvalPolicy :: approval_spec
  ade_reviewedInputs :: "artifact_reference list"
  ade_authoredAt :: int
  ade_admittedAt :: "int option"
  ade_submissionEvent :: string
  ade_inputEvent :: string

record workflow_recovery_decision =
  wrd_decision :: decision_evaluated
  wrd_action :: string
  wrd_restartStep :: string
  wrd_toWorkflowAttempt :: int
  wrd_nextAttemptName :: string
  wrd_recovery :: workflow_recovery_evidence

record workflow_retry_recorded =
  wrr_observedAt :: "int option"
  wrr_schemaVersion :: string
  wrr_workflow :: resource_ref
  wrr_decisionEvent :: string
  wrr_retryOf :: "uid_reference option"
  wrr_triggeredBy :: uid_reference
  wrr_attempt :: resource_ref
  wrr_execution :: resource_ref
  wrr_workflowAttempt :: int
  wrr_feedback :: "failed_agent_attempt option"
  wrr_inputs :: "artifact_reference list"

datatype json_value = JString string | JInt int | JBool bool | JStrings "string list"
  | JObject "(string \<times> json_value) list"

datatype event_data =
    NoData
  | Fields "(string \<times> json_value) list"
  | InputsData inputs_resolved
  | DecisionData decision_evaluated
  | ConsequenceData consequence_recorded
  | ApprovalData approval_decision_evidence
  | RecoveryData workflow_recovery_decision
  | RetryData workflow_retry_recorded
  | AuthorityData authority_established

subsection \<open>Events (audit.go, builder.go)\<close>

record actor =
  actor_kind :: string
  actor_id :: string

record audit_subject =
  sub_project :: string
  sub_namespace :: string
  sub_workflow :: string
  sub_step :: string
  sub_attempt :: int

record event =
  ev_id :: string
  ev_type :: string
  ev_schemaVersion :: string
  ev_occurredAt :: int
  ev_recordedAt :: "int option"
  ev_actor :: actor
  ev_requester :: "actor option"
  ev_subject :: audit_subject
  ev_action :: string
  ev_target :: string
  ev_outcome :: string
  ev_reason :: string
  ev_correlationID :: string
  ev_causationID :: string
  ev_decisionID :: string
  ev_references :: "(string \<times> string) list"
  ev_data :: event_data

record event_options =
  op_instanceID :: string
  op_source :: string
  op_type :: string
  op_occurredAt :: "int option"
  op_actor :: actor
  op_requester :: "actor option"
  op_subject :: audit_subject
  op_action :: string
  op_target :: string
  op_outcome :: string
  op_reason :: string
  op_correlationID :: string
  op_causationID :: string
  op_decisionID :: string
  op_references :: "(string \<times> string) list"
  op_data :: event_data

text \<open>\<open>DeterministicID\<close>: each part is hashed after a zero byte.\<close>

definition id_preimage :: "string list \<Rightarrow> string" where
  "id_preimage parts = concat (map (\<lambda>p. nul # p) parts)"

definition deterministic_id :: "(string \<Rightarrow> string) \<Rightarrow> string list \<Rightarrow> string" where
  "deterministic_id sha parts = sha (id_preimage parts)"

text \<open>
  The parts \<open>NewEvent\<close> hashes: who recorded what about which subject, with what outcome.
\<close>

definition event_source :: "event_options \<Rightarrow> string" where
  "event_source opts = (if op_source opts = '''' then ''unknown'' else op_source opts)"

definition event_id_parts :: "event_options \<Rightarrow> string list" where
  "event_id_parts opts =
     [event_source opts, op_type opts, sub_project (op_subject opts),
      sub_namespace (op_subject opts), sub_workflow (op_subject opts),
      sub_step (op_subject opts), show_int (sub_attempt (op_subject opts)), op_action opts,
      op_target opts, op_outcome opts, op_reason opts]
     @ (if op_instanceID opts \<noteq> '''' then [op_instanceID opts] else [])"

text \<open>
  \<open>NewEvent\<close>; \<open>now\<close> is \<open>time.Now()\<close>. Marshalling the payloads of the model cannot fail.
\<close>

definition new_event :: "(string \<Rightarrow> string) \<Rightarrow> int \<Rightarrow> event_options \<Rightarrow> event" where
  "new_event sha now opts =
     (let occurredAt = (case op_occurredAt opts of None \<Rightarrow> now | Some t \<Rightarrow> t);
          c0 = op_correlationID opts;
          c1 = (if c0 = '''' then sub_workflow (op_subject opts) else c0);
          correlationID = (if c1 = '''' then sub_project (op_subject opts) else c1)
      in \<lparr>ev_id = deterministic_id sha (event_id_parts opts), ev_type = op_type opts, ev_schemaVersion = ''v1'',
          ev_occurredAt = occurredAt, ev_recordedAt = None, ev_actor = op_actor opts,
          ev_requester = op_requester opts, ev_subject = op_subject opts,
          ev_action = op_action opts, ev_target = op_target opts, ev_outcome = op_outcome opts,
          ev_reason = op_reason opts, ev_correlationID = correlationID,
          ev_causationID = op_causationID opts, ev_decisionID = op_decisionID opts,
          ev_references = op_references opts, ev_data = op_data opts\<rparr>)"

text \<open>The controller fields that \<open>BuildAndAppendControllerEvent\<close> sets before it builds (append.go).\<close>

definition controller_options :: "string \<Rightarrow> int \<Rightarrow> event_options \<Rightarrow> event_options" where
  "controller_options controllerID now opts =
     opts\<lparr>op_source := controllerID, op_occurredAt := Some now,
          op_actor := \<lparr>actor_kind = ''Controller'', actor_id = controllerID\<rparr>\<rparr>"

subsection \<open>The in-memory recorder (memory.go)\<close>

text \<open>
  The map from event IDs to events is the list of its values; iteration order does not matter,
  because what is read is sorted by time and ID.
\<close>

type_synonym memory = "event list"

definition mem_append :: "int \<Rightarrow> event \<Rightarrow> memory \<Rightarrow> memory" where
  "mem_append now e m =
     (if find_by ev_id (ev_id e) m \<noteq> None then m
      else m @ [if ev_recordedAt e = None then e\<lparr>ev_recordedAt := Some now\<rparr> else e])"

definition event_order :: "event \<Rightarrow> int \<times> string" where
  "event_order e = (ev_occurredAt e, ev_id e)"

definition mem_list_workflow :: "string \<Rightarrow> memory \<Rightarrow> event list" where
  "mem_list_workflow workflowName m =
     sort_key event_order (filter (\<lambda>e. sub_workflow (ev_subject e) = workflowName) m)"

definition mem_has :: "string \<Rightarrow> memory \<Rightarrow> bool" where
  "mem_has eventType m = list_ex (\<lambda>e. ev_type e = eventType) m"

definition mem_all_events :: "memory \<Rightarrow> event list" where
  "mem_all_events m = sort_key event_order m"

subsection \<open>The PostgreSQL recorder (postgres.go)\<close>

text \<open>
  The rows of \<open>audit_events\<close>: the primary key, the columns the queries use and the payload.
  \<open>INSERT ... ON CONFLICT (id) DO NOTHING\<close>, \<open>SELECT ... WHERE workflow_id=$1 ORDER BY
  occurred_at,id\<close>. \<open>Has\<close> is the stub of the source.
\<close>

record audit_row =
  row_id :: string
  row_occurred_at :: int
  row_workflow_id :: string
  row_payload :: event

definition pg_append :: "event \<Rightarrow> audit_row list \<Rightarrow> audit_row list" where
  "pg_append e rows =
     (if find_by row_id (ev_id e) rows \<noteq> None then rows
      else rows @ [\<lparr>row_id = ev_id e, row_occurred_at = ev_occurredAt e,
                    row_workflow_id = sub_workflow (ev_subject e), row_payload = e\<rparr>])"

definition pg_list_workflow :: "string \<Rightarrow> audit_row list \<Rightarrow> event list" where
  "pg_list_workflow workflow rows =
     map row_payload (sort_key (\<lambda>r. (row_occurred_at r, row_id r))
       (filter (\<lambda>r. row_workflow_id r = workflow) rows))"

definition pg_has :: "string \<Rightarrow> audit_row list \<Rightarrow> bool" where
  "pg_has eventType rows = False"

subsection \<open>The file recorder (file.go)\<close>

text \<open>The file's contents as bytes; \<open>None\<close> where there is no file.\<close>

definition file_append :: "(event \<Rightarrow> string) \<Rightarrow> int \<Rightarrow> event \<Rightarrow> string option \<Rightarrow> string option" where
  "file_append encode now e file =
     (let e' = (if ev_recordedAt e = None then e\<lparr>ev_recordedAt := Some now\<rparr> else e)
      in Some ((case file of None \<Rightarrow> [] | Some c \<Rightarrow> c) @ encode e' @ [CHR 0x0A]))"

fun decode_lines :: "(string \<Rightarrow> event option) \<Rightarrow> string list \<Rightarrow> go_error + event list" where
  "decode_lines decode [] = Inr []"
| "decode_lines decode (l # ls) =
     (case decode l of
        None \<Rightarrow> Inl (Invalid ''decode audit event line'')
      | Some e \<Rightarrow> (case decode_lines decode ls of Inl err \<Rightarrow> Inl err | Inr es \<Rightarrow> Inr (e # es)))"

definition read_event_file :: "(string \<Rightarrow> event option) \<Rightarrow> string option \<Rightarrow> go_error + event list" where
  "read_event_file decode file =
     (case file of
        None \<Rightarrow> Inr []
      | Some c \<Rightarrow>
          (case scan_lines c of (ls, tooLong) \<Rightarrow>
             (case decode_lines decode ls of
                Inl err \<Rightarrow> Inl err
              | Inr es \<Rightarrow> if tooLong then Inl (Invalid ''read audit event file'') else Inr es)))"

definition file_list_workflow ::
  "(string \<Rightarrow> event option) \<Rightarrow> string \<Rightarrow> string option \<Rightarrow> go_error + event list" where
  "file_list_workflow decode workflowName file =
     (case read_event_file decode file of
        Inl err \<Rightarrow> Inl err
      | Inr es \<Rightarrow> Inr (sort_key event_order
          (filter (\<lambda>e. sub_workflow (ev_subject e) = workflowName
                      \<or> ev_correlationID e = workflowName) es)))"

definition file_has :: "(string \<Rightarrow> event option) \<Rightarrow> string \<Rightarrow> string option \<Rightarrow> bool" where
  "file_has decode eventType file =
     (case read_event_file decode file of
        Inl err \<Rightarrow> False
      | Inr es \<Rightarrow> list_ex (\<lambda>e. ev_type e = eventType) es)"


subsection \<open>The contract of a recorder\<close>

text \<open>
  What the controllers rely on when they append again after a crash: an event whose ID is
  recorded is not recorded again, nothing recorded is lost, and a workflow's events are read in
  the order of their time and ID.
\<close>

locale recorder =
  fixes append_ev :: "event \<Rightarrow> 'r \<Rightarrow> 'r"
    and list_wf :: "string \<Rightarrow> 'r \<Rightarrow> event list"
    and invar :: "'r \<Rightarrow> bool"
  assumes invar_append: "invar r \<Longrightarrow> invar (append_ev e r)"
    and append_known: "invar r \<Longrightarrow> e' \<in> set (list_wf w r) \<Longrightarrow> ev_id e' = ev_id e \<Longrightarrow> append_ev e r = r"
    and append_keeps: "invar r \<Longrightarrow> set (list_wf w r) \<subseteq> set (list_wf w (append_ev e r))"
    and append_lists: "invar r \<Longrightarrow> \<exists>w e'. e' \<in> set (list_wf w (append_ev e r)) \<and> ev_id e' = ev_id e"
    and list_ordered: "invar r \<Longrightarrow> sorted (map event_order (list_wf w r))"
begin

lemma invar_fold: "invar r \<Longrightarrow> invar (fold append_ev es r)"
  by (induction es arbitrary: r) (auto intro: invar_append)

lemma fold_keeps: "invar r \<Longrightarrow> set (list_wf w r) \<subseteq> set (list_wf w (fold append_ev es r))"
proof (induction es arbitrary: r)
  case (Cons e es)
  then show ?case using append_keeps [of r w e] invar_append [of r e] by auto
qed simp

lemma fold_known:
  assumes "invar r" and "\<forall>e \<in> set es. \<exists>w e'. e' \<in> set (list_wf w r) \<and> ev_id e' = ev_id e"
  shows "fold append_ev es r = r"
  using assms by (induction es) (auto dest: append_known)

lemma fold_lists:
  "invar r \<Longrightarrow> e \<in> set es \<Longrightarrow>
   \<exists>w e'. e' \<in> set (list_wf w (fold append_ev es r)) \<and> ev_id e' = ev_id e"
proof (induction es arbitrary: r)
  case (Cons x es)
  show ?case
  proof (cases "e = x")
    case True
    obtain w e' where "e' \<in> set (list_wf w (append_ev e r))" and "ev_id e' = ev_id e"
      using append_lists [OF Cons.prems(1)] by blast
    then show ?thesis
      using fold_keeps [OF invar_append [OF Cons.prems(1)], where es = es and w = w] True by auto
  next
    case False
    with Cons.prems have "e \<in> set es" by simp
    from Cons.IH [OF invar_append [OF Cons.prems(1)] this] show ?thesis by simp
  qed
qed simp

lemma replay: "invar r \<Longrightarrow> fold append_ev es (fold append_ev es r) = fold append_ev es r"
  by (rule fold_known) (auto intro: invar_fold fold_lists)

end

subsection \<open>The memory recorder keeps the contract\<close>

definition mem_invar :: "memory \<Rightarrow> bool" where
  "mem_invar m \<longleftrightarrow> distinct (map ev_id m)"

lemma set_mem_list: "set (mem_list_workflow w m) = {e \<in> set m. sub_workflow (ev_subject e) = w}"
  by (simp add: mem_list_workflow_def)

lemma mem_append_known: "ev_id e \<in> ev_id ` set m \<Longrightarrow> mem_append now e m = m"
  by (simp add: mem_append_def find_by_None)

lemma mem_append_new:
  "ev_id e \<notin> ev_id ` set m \<Longrightarrow>
   \<exists>e'. mem_append now e m = m @ [e'] \<and> ev_id e' = ev_id e \<and> ev_subject e' = ev_subject e
        \<and> ev_recordedAt e' \<noteq> None"
  by (auto simp: mem_append_def find_by_None [symmetric])

lemma mem_append_cases:
  obtains "ev_id e \<in> ev_id ` set m" and "mem_append now e m = m"
  | e' where "ev_id e \<notin> ev_id ` set m" and "mem_append now e m = m @ [e']"
      and "ev_id e' = ev_id e" and "ev_subject e' = ev_subject e"
  using mem_append_known mem_append_new by blast

interpretation mem: recorder "mem_append now" mem_list_workflow mem_invar
proof unfold_locales
  fix r e assume "mem_invar r"
  then show "mem_invar (mem_append now e r)"
    by (cases rule: mem_append_cases [where e = e and m = r and now = now]) (auto simp: mem_invar_def)
next
  fix r w and e e' :: event
  assume "e' \<in> set (mem_list_workflow w r)" and "ev_id e' = ev_id e"
  then show "mem_append now e r = r"
    by (metis (mono_tags, lifting) image_eqI mem_Collect_eq mem_append_known set_mem_list)
next
  fix r e w
  show "set (mem_list_workflow w r) \<subseteq> set (mem_list_workflow w (mem_append now e r))"
    by (cases rule: mem_append_cases [where e = e and m = r and now = now]) (auto simp: set_mem_list)
next
  fix r e
  show "\<exists>w e'. e' \<in> set (mem_list_workflow w (mem_append now e r)) \<and> ev_id e' = ev_id e"
    by (cases rule: mem_append_cases [where e = e and m = r and now = now]) (auto simp: set_mem_list)
next
  fix r w
  show "sorted (map event_order (mem_list_workflow w r))"
    by (simp add: mem_list_workflow_def)
qed

subsection \<open>The database recorder keeps the contract\<close>

definition pg_invar :: "audit_row list \<Rightarrow> bool" where
  "pg_invar rows \<longleftrightarrow> distinct (map row_id rows) \<and>
     (\<forall>r \<in> set rows. row_id r = ev_id (row_payload r)
        \<and> row_occurred_at r = ev_occurredAt (row_payload r)
        \<and> row_workflow_id r = sub_workflow (ev_subject (row_payload r)))"

lemma set_pg_list:
  "set (pg_list_workflow w rows) = row_payload ` {r \<in> set rows. row_workflow_id r = w}"
  by (simp add: pg_list_workflow_def)

lemma map_sort_key: "sort_key f (map g xs) = map g (sort_key (\<lambda>x. f (g x)) xs)"
proof -
  have "insort_key f (g x) (map g ys) = map g (insort_key (\<lambda>x. f (g x)) x ys)" for x ys
    by (induction ys) auto
  then show ?thesis by (induction xs) auto
qed

lemma sort_key_cong: "\<forall>x \<in> set xs. f x = g x \<Longrightarrow> sort_key f xs = sort_key g xs"
proof -
  have "\<forall>y \<in> set (x # ys). f y = g y \<Longrightarrow> insort_key f x ys = insort_key g x ys" for x ys
    by (induction ys) auto
  then show "\<forall>x \<in> set xs. f x = g x \<Longrightarrow> sort_key f xs = sort_key g xs"
    by (induction xs) auto
qed

lemma pg_list_sorted:
  assumes "pg_invar rows"
  shows "pg_list_workflow w rows =
    sort_key event_order (filter (\<lambda>e. sub_workflow (ev_subject e) = w) (map row_payload rows))"
proof -
  let ?rs = "filter (\<lambda>r. row_workflow_id r = w) rows"
  have "filter (\<lambda>e. sub_workflow (ev_subject e) = w) (map row_payload rows) = map row_payload ?rs"
    using assms by (induction rows) (auto simp: pg_invar_def)
  moreover have "sort_key (\<lambda>r. (row_occurred_at r, row_id r)) ?rs =
      sort_key (\<lambda>r. event_order (row_payload r)) ?rs"
    using assms by (intro sort_key_cong) (auto simp: pg_invar_def event_order_def)
  ultimately show ?thesis by (simp add: pg_list_workflow_def map_sort_key)
qed

interpretation pg: recorder pg_append pg_list_workflow pg_invar
proof unfold_locales
  fix r e assume "pg_invar r"
  then show "pg_invar (pg_append e r)"
    by (auto simp: pg_invar_def pg_append_def find_by_None image_iff)
next
  fix r w and e e' :: event
  assume "pg_invar r" and "e' \<in> set (pg_list_workflow w r)" and "ev_id e' = ev_id e"
  then show "pg_append e r = r"
    by (force simp: pg_append_def set_pg_list find_by_None pg_invar_def image_iff)
next
  fix r e w
  show "set (pg_list_workflow w r) \<subseteq> set (pg_list_workflow w (pg_append e r))"
    by (auto simp: pg_append_def set_pg_list)
next
  fix r e assume inv: "pg_invar r"
  show "\<exists>w e'. e' \<in> set (pg_list_workflow w (pg_append e r)) \<and> ev_id e' = ev_id e"
  proof (cases "find_by row_id (ev_id e) r")
    case None
    then show ?thesis by (auto simp: pg_append_def set_pg_list)
  next
    case (Some row)
    then have "row \<in> set r" and "row_id row = ev_id e" by (auto dest: find_by_set)
    then show ?thesis
      using inv Some by (auto simp: pg_append_def set_pg_list pg_invar_def)
  qed
next
  fix r w assume "pg_invar r"
  then show "sorted (map event_order (pg_list_workflow w r))"
    by (simp add: pg_list_sorted)
qed


subsection \<open>Identities\<close>

lemma id_preimage_Cons: "id_preimage (p # ps) = nul # p @ id_preimage ps"
  by (simp add: id_preimage_def)

lemma id_preimage_starts: "id_preimage ps = [] \<or> hd (id_preimage ps) = nul"
  by (cases ps) (auto simp: id_preimage_def)

lemma takeWhile_to_nul:
  assumes "nul \<notin> set p" and "xs = [] \<or> hd xs = nul"
  shows "takeWhile (\<lambda>c. c \<noteq> nul) (p @ xs) = p"
proof -
  have "takeWhile (\<lambda>c. c \<noteq> nul) xs = []" using assms(2) by (cases xs) auto
  with assms(1) show ?thesis by (subst takeWhile_append2) auto
qed

lemma append_nul_split:
  assumes "p @ xs = q @ ys" and "nul \<notin> set p" and "nul \<notin> set q"
    and "xs = [] \<or> hd xs = nul" and "ys = [] \<or> hd ys = nul"
  shows "p = q \<and> xs = ys"
proof -
  have "p = takeWhile (\<lambda>c. c \<noteq> nul) (p @ xs)" using assms(2,4) by (simp add: takeWhile_to_nul)
  also have "\<dots> = q" unfolding assms(1) using assms(3,5) by (simp add: takeWhile_to_nul)
  finally show ?thesis using assms(1) by simp
qed

lemma id_preimage_eq:
  "\<forall>p \<in> set ps. nul \<notin> set p \<Longrightarrow> \<forall>q \<in> set qs. nul \<notin> set q \<Longrightarrow>
   id_preimage ps = id_preimage qs \<Longrightarrow> ps = qs"
proof (induction ps arbitrary: qs)
  case Nil
  then show ?case by (cases qs) (auto simp: id_preimage_def)
next
  case (Cons p ps)
  then obtain q qs' where qs: "qs = q # qs'"
    by (cases qs) (simp_all add: id_preimage_def)
  have "p @ id_preimage ps = q @ id_preimage qs'"
    using Cons.prems(3) by (simp add: qs id_preimage_Cons)
  then have "p = q \<and> id_preimage ps = id_preimage qs'"
    using Cons.prems(1,2) by (intro append_nul_split) (simp_all add: qs id_preimage_starts)
  moreover have "ps = qs'" if "id_preimage ps = id_preimage qs'"
    using Cons.prems(1,2) that by (intro Cons.IH) (simp_all add: qs)
  ultimately show ?case by (simp add: qs)
qed

definition same_occurrence :: "event_options \<Rightarrow> event_options \<Rightarrow> bool" where
  "same_occurrence a b \<longleftrightarrow>
     event_source a = event_source b \<and> op_type a = op_type b \<and> op_subject a = op_subject b
     \<and> op_action a = op_action b \<and> op_target a = op_target b \<and> op_outcome a = op_outcome b
     \<and> op_reason a = op_reason b \<and> op_instanceID a = op_instanceID b"

lemma event_id_parts_eq: "event_id_parts a = event_id_parts b \<longleftrightarrow> same_occurrence a b"
  by (auto simp: event_id_parts_def same_occurrence_def show_int_inject)

lemma ev_id_new_event: "ev_id (new_event sha now opts) = sha (id_preimage (event_id_parts opts))"
  by (simp add: new_event_def deterministic_id_def Let_def)

subsection \<open>The file\<close>

definition recorded :: "int \<Rightarrow> event \<Rightarrow> event" where
  "recorded now e = (if ev_recordedAt e = None then e\<lparr>ev_recordedAt := Some now\<rparr> else e)"

lemma fold_file_append:
  "fold (file_append encode now) es (Some c) =
   Some (c @ concat (map (\<lambda>e. encode (recorded now e) @ [CHR 0x0A]) es))"
  by (induction es arbitrary: c) (auto simp: file_append_def recorded_def Let_def)

lemma fold_file_append_None:
  "es \<noteq> [] \<Longrightarrow> fold (file_append encode now) es None =
   Some (concat (map (\<lambda>e. encode (recorded now e) @ [CHR 0x0A]) es))"
  by (cases es) (auto simp: fold_file_append file_append_def recorded_def Let_def)

lemma split_terminated_lines:
  "\<forall>l \<in> set ls. d \<notin> set l \<Longrightarrow> split_on d (concat (map (\<lambda>l. l @ [d]) ls)) = ls @ [[]]"
  by (induction ls) (auto simp: split_on_append)

lemma raw_terminated_lines:
  "\<forall>l \<in> set ls. CHR 0x0A \<notin> set l \<Longrightarrow> raw_lines (concat (map (\<lambda>l. l @ [CHR 0x0A]) ls)) = ls"
  by (simp add: raw_lines_def split_terminated_lines)

lemma drop_cr_id: "l = [] \<or> last l \<noteq> CHR 0x0D \<Longrightarrow> drop_cr l = l"
  by (auto simp: drop_cr_def trim_suffix_def has_suffix_iff)

lemma take_until_long_all:
  "\<forall>l \<in> set ls. length l < m \<and> drop_cr l = l \<Longrightarrow> take_until_long m ls = (ls, False)"
  by (induction ls) auto

lemma take_until_long_stops: "\<exists>l \<in> set ls. m \<le> length l \<Longrightarrow> snd (take_until_long m ls)"
  by (induction ls) (force split: prod.splits)+

lemma decode_lines_all:
  "\<forall>e \<in> set es. decode (encode e) = Some e \<Longrightarrow> decode_lines decode (map encode es) = Inr es"
  by (induction es) auto

text \<open>What a JSON line of the file is: no line feed, not empty, and not ended by a carriage return.\<close>

definition json_line :: "string \<Rightarrow> bool" where
  "json_line l \<longleftrightarrow> CHR 0x0A \<notin> set l \<and> l \<noteq> [] \<and> last l \<noteq> CHR 0x0D"

lemma file_lines:
  assumes "es \<noteq> []" and "\<forall>e \<in> set es. json_line (encode (recorded now e))"
  shows "read_event_file decode (fold (file_append encode now) es None) =
    (case take_until_long max_scan_token (map (\<lambda>e. encode (recorded now e)) es) of (ls, tooLong) \<Rightarrow>
       (case decode_lines decode ls of
          Inl err \<Rightarrow> Inl err
        | Inr es \<Rightarrow> if tooLong then Inl (Invalid ''read audit event file'') else Inr es))"
proof -
  let ?ls = "map (\<lambda>e. encode (recorded now e)) es"
  have "concat (map (\<lambda>e. encode (recorded now e) @ [CHR 0x0A]) es) = concat (map (\<lambda>l. l @ [CHR 0x0A]) ?ls)"
    by (simp add: comp_def)
  moreover have "raw_lines (concat (map (\<lambda>l. l @ [CHR 0x0A]) ?ls)) = ?ls"
    using assms(2) by (intro raw_terminated_lines) (auto simp: json_line_def)
  ultimately show ?thesis
    using assms(1) by (simp add: read_event_file_def fold_file_append_None scan_lines_def)
qed

subsection \<open>Memory and database side by side\<close>

definition unstamped :: "event \<Rightarrow> event" where
  "unstamped e = e\<lparr>ev_recordedAt := None\<rparr>"

lemma unstamped_fields [simp]:
  "ev_id (unstamped e) = ev_id e" "event_order (unstamped e) = event_order e"
  "ev_subject (unstamped e) = ev_subject e"
  by (simp_all add: unstamped_def event_order_def)

lemma unstamped_id: "ev_recordedAt e = None \<Longrightarrow> unstamped e = e"
  by (simp add: unstamped_def)

lemma mem_pg_append:
  assumes "map unstamped m = map row_payload rows" and "pg_invar rows" and "ev_recordedAt e = None"
  shows "map unstamped (mem_append now e m) = map row_payload (pg_append e rows)"
proof -
  have "ev_id ` set m = (\<lambda>p. ev_id p) ` set (map unstamped m)"
    by (simp add: image_image)
  also have "\<dots> = row_id ` set rows"
    using assms(1,2) by (auto simp: pg_invar_def image_image image_iff)
  finally have "find_by ev_id (ev_id e) m = None \<longleftrightarrow> find_by row_id (ev_id e) rows = None"
    by (simp add: find_by_None)
  with assms(1,3) show ?thesis
    by (auto simp: mem_append_def pg_append_def unstamped_def)
qed

lemma mem_pg_fold:
  assumes "map unstamped m = map row_payload rows" and "pg_invar rows"
    and "\<forall>e \<in> set es. ev_recordedAt e = None"
  shows "map unstamped (fold (mem_append now) es m) = map row_payload (fold pg_append es rows)"
  using assms
proof (induction es arbitrary: m rows)
  case (Cons e es)
  then show ?case by (simp add: mem_pg_append pg.invar_append)
qed simp

lemma mem_pg_list:
  assumes "map unstamped m = map row_payload rows" and "pg_invar rows"
  shows "map unstamped (mem_list_workflow w m) = pg_list_workflow w rows"
proof -
  have "map unstamped (filter (\<lambda>e. sub_workflow (ev_subject e) = w) m) =
      filter (\<lambda>e. sub_workflow (ev_subject e) = w) (map unstamped m)"
    by (induction m) auto
  with assms show ?thesis
    using map_sort_key [of event_order unstamped "filter (\<lambda>e. sub_workflow (ev_subject e) = w) m"]
    by (simp add: mem_list_workflow_def pg_list_sorted)
qed


section \<open>Properties of the audit trail\<close>

text \<open>A concrete event for the witnesses.\<close>

definition sample_options :: "string \<Rightarrow> event_options" where
  "sample_options t =
     \<lparr>op_instanceID = '''', op_source = ''c'', op_type = t, op_occurredAt = None,
      op_actor = \<lparr>actor_kind = '''', actor_id = ''''\<rparr>, op_requester = None,
      op_subject = \<lparr>sub_project = ''p'', sub_namespace = ''n'', sub_workflow = ''w'', sub_step = ''s'',
        sub_attempt = 1\<rparr>,
      op_action = ''a'', op_target = ''t'', op_outcome = ''o'', op_reason = '''',
      op_correlationID = '''', op_causationID = '''', op_decisionID = '''', op_references = [],
      op_data = NoData\<rparr>"




text \<open>
  An event's ID identifies the occurrence and nothing else. For fields without zero bytes
  and as long as the hash does not collide on the two inputs, two events the builder makes have
  the same ID exactly when they agree on the recording component, type, subject, attempt,
  action, target, outcome, reason and instance; time, actor, references and data do not matter.
\<close>

theorem event_id_identifies_occurrence:
  assumes "\<forall>x \<in> set (event_id_parts a) \<union> set (event_id_parts b). nul \<notin> set x"
    and "inj_on sha {id_preimage (event_id_parts a), id_preimage (event_id_parts b)}"
  shows "ev_id (new_event sha t a) = ev_id (new_event sha u b) \<longleftrightarrow> same_occurrence a b"
proof -
  have "ev_id (new_event sha t a) = ev_id (new_event sha u b) \<longleftrightarrow>
      id_preimage (event_id_parts a) = id_preimage (event_id_parts b)"
    unfolding ev_id_new_event by (rule inj_on_eq_iff [OF assms(2)]) simp_all
  also have "\<dots> \<longleftrightarrow> event_id_parts a = event_id_parts b"
    using assms(1) id_preimage_eq by fastforce
  finally show ?thesis by (simp add: event_id_parts_eq)
qed

theorem event_id_identifies_occurrence_witness:
  "ev_id (new_event (\<lambda>x. x) 5 (sample_options ''A'')) \<noteq> ev_id (new_event (\<lambda>x. x) 5 (sample_options ''B''))"
proof -
  have parts: "nul \<notin> set x" if "x \<in> set (event_id_parts (sample_options ''A''))
      \<union> set (event_id_parts (sample_options ''B''))" for x
    using that show_int_no_nul [of 1]
    by (auto simp: event_id_parts_def event_source_def sample_options_def nul_def)
  have "\<not> same_occurrence (sample_options ''A'') (sample_options ''B'')"
    by (simp add: same_occurrence_def sample_options_def)
  then show ?thesis
    using event_id_identifies_occurrence [of "sample_options ''A''" "sample_options ''B''" "\<lambda>x. x" 5 5] parts
    by simp
qed



text \<open>
  One event whose encoding reaches the scanner's 64 KiB limit makes the whole file
  unreadable: appending succeeds, but from then on reading returns an error whatever else is
  in the file, so no event of it can be listed or ingested.
\<close>

theorem event_file_blocked_by_long_event:
  assumes "\<forall>e \<in> set es. json_line (encode (recorded now e))"
    and "\<exists>e \<in> set es. max_scan_token \<le> length (encode (recorded now e))"
  shows "\<exists>err. read_event_file decode (fold (file_append encode now) es None) = Inl err"
proof -
  let ?ls = "map (\<lambda>e. encode (recorded now e)) es"
  have "snd (take_until_long max_scan_token ?ls)"
    using assms(2) by (intro take_until_long_stops) auto
  moreover have "es \<noteq> []" using assms(2) by auto
  ultimately show ?thesis
    using assms(1) by (auto simp: file_lines split: prod.splits sum.splits)
qed

theorem event_file_blocked_by_long_event_witness:
  "\<exists>err. read_event_file (\<lambda>_. Some (new_event (\<lambda>x. x) 2 (sample_options ''A'')))
     (fold (file_append (\<lambda>_. replicate 65536 (CHR ''x'')) 9) [new_event (\<lambda>x. x) 2 (sample_options ''A'')] None) = Inl err"
  by (rule event_file_blocked_by_long_event) (simp_all add: json_line_def max_scan_token_def)

text \<open>
  \<open>PostgresRecorder.Has\<close> is a stub: it denies an event that was just recorded, where the
  memory recorder finds it.
\<close>

lemma pg_has_denies_recorded:
  "mem_has (ev_type e) (mem_append now e []) \<and> \<not> pg_has (ev_type e) (pg_append e [])"
  by (simp add: mem_has_def mem_append_def pg_has_def)

end
