(* ===== verification/Cluster.thy ===== *)
theory Cluster
  imports Audit_Trail
begin

section \<open>The cluster the controllers reconcile\<close>

text \<open>
  The controllers' shared state: the objects the API server holds, the audit log, the clock, and
  a script of faults. \<open>k_get\<close>, \<open>k_list\<close>, \<open>k_create\<close>, \<open>k_update\<close> and \<open>k_update_status\<close> follow the
  documented behaviour of the Kubernetes API as controller-runtime's client presents it:
  optimistic concurrency on the resource version, a status subresource, UIDs given by the
  server. Each call consumes one entry of the script: \<open>Pass\<close> lets it through, \<open>Deny e\<close> makes it
  fail with no effect (a conflict with another writer, a stale cache, an outage), \<open>Lose e\<close>
  makes it take effect but report an error (a lost response). An empty script is a service
  without faults. Facts proved for every script hold for every such failure. That the server drops an
  object when its last finalizer is removed is a step of the server and not part of the calls.
\<close>

datatype fault = Pass | Deny go_error | Lose go_error

record lease_holder_spec =
  holderIdentity :: "string option"
  acquireTime :: "int option"
  renewTime :: "int option"
  leaseTransitions :: "int option"

datatype pod_phase = PodPending | PodRunning | PodSucceeded | PodFailed | PodUnknown

record container_status =
  cst_name :: string
  cst_terminated :: "(int \<times> string) option"

record pod_status =
  pod_phase :: pod_phase
  pod_conditions :: "(string \<times> condition_status) list"
  pod_containerStatuses :: "container_status list"

record job_status =
  job_active :: int
  job_succeeded :: int
  job_failed :: int

text \<open>Of the native kinds, what the controllers write or read.\<close>

record volume_mount =
  vm_name :: string
  vm_path :: string
  vm_readOnly :: bool

record probe =
  probe_path :: string
  probe_port :: int
  probe_timeout :: int
  probe_period :: int
  probe_failureThreshold :: int

record container_security =
  cs_privileged :: "bool option"
  cs_allowPrivilegeEscalation :: "bool option"
  cs_readOnlyRootFilesystem :: "bool option"
  cs_dropCapabilities :: "string list"
  cs_addCapabilities :: "string list"
  cs_runAsUser :: "int option"
  cs_runAsGroup :: "int option"
  cs_seccompProfile :: string
  cs_appArmorProfile :: string

record container =
  ctr_name :: string
  ctr_image :: string
  ctr_command :: "string list"
  ctr_args :: "string list"
  ctr_env :: "(string \<times> string) list"
  ctr_mounts :: "volume_mount list"
  ctr_security :: "container_security option"
  ctr_restartPolicy :: string
  ctr_ports :: "(string \<times> int) list"
  ctr_limits :: "(string \<times> string) list"
  ctr_readinessProbe :: "probe option"
  ctr_startupProbe :: "probe option"

text \<open>A secret is mounted with the keys it projects, none for all; an empty directory has a medium and a limit.\<close>

datatype volume_source =
    ClaimVolume string
  | ConfigMapVolume string
  | SecretVolume string "(string \<times> string) list" "int option"
  | EmptyDirVolume string "string option"

record pod_security =
  ps_runAsNonRoot :: "bool option"
  ps_runAsUser :: "int option"
  ps_runAsGroup :: "int option"
  ps_fsGroup :: "int option"
  ps_seccompProfile :: string

record pod_spec =
  pod_restartPolicy :: string
  pod_serviceAccountName :: string
  pod_automountToken :: "bool option"
  pod_security :: "pod_security option"
  pod_initContainers :: "container list"
  pod_containers :: "container list"
  pod_volumes :: "(string \<times> volume_source) list"
  pod_nodeName :: string
  pod_nodeSelector :: "(string \<times> string) list"
  pod_runtimeClassName :: "string option"
  pod_terminationGracePeriod :: "int option"

record job_spec =
  job_podLabels :: "(string \<times> string) list"
  job_podAnnotations :: "(string \<times> string) list"
  job_pod :: pod_spec
  job_backoffLimit :: "int option"
  job_activeDeadlineSeconds :: "int option"
  job_ttlSecondsAfterFinished :: "int option"

record service_spec =
  svc_type :: string
  svc_selector :: "(string \<times> string) list"
  svc_ports :: "(string \<times> int \<times> int) list"

record secret_data =
  sec_type :: string
  sec_immutable :: "bool option"
  sec_data :: "(string \<times> string) list"

record policy_rule =
  rule_apiGroups :: "string list"
  rule_resources :: "string list"
  rule_verbs :: "string list"

record role_binding_data =
  rb_subjects :: "(string \<times> string \<times> string) list"
  rb_roleRef :: "string \<times> string \<times> string"

record claim_spec =
  claim_size :: string
  claim_storageClass :: "string option"

record config_map_data =
  cm_immutable :: "bool option"
  cm_data :: "(string \<times> string) list"
  cm_binaryData :: "(string \<times> string) list"

type_synonym pod = "(pod_spec, pod_status) kobj"
type_synonym service = "(service_spec, unit) kobj"
type_synonym secret = "(secret_data, unit) kobj"
type_synonym service_account = "(bool option, unit) kobj"
type_synonym role = "(policy_rule list, unit) kobj"
type_synonym role_binding = "(role_binding_data, unit) kobj"
type_synonym job = "(job_spec, job_status) kobj"
type_synonym writer_lease = "(lease_holder_spec, unit) kobj"
type_synonym namespace = "(unit, unit) kobj"
type_synonym volume_claim = "(claim_spec, unit) kobj"
type_synonym config_map = "(config_map_data, unit) kobj"

record cluster =
  faults :: "fault list"
  clock :: int
  next_uid :: nat
  audit_log :: "memory option"
  namespaces :: "namespace list"
  claims :: "volume_claim list"
  config_maps :: "config_map list"
  writer_leases :: "writer_lease list"
  pods :: "pod list"
  jobs :: "job list"
  services :: "service list"
  secrets :: "secret list"
  service_accounts :: "service_account list"
  roles :: "role list"
  role_bindings :: "role_binding list"
  projects :: "project list"
  human_sessions :: "human_session list"
  workflows :: "workflow list"
  step_attempts :: "step_attempt list"
  agent_runs :: "agent_run list"
  utility_operations :: "utility_operation list"
  approval_requests :: "approval_request list"
  approval_decisions :: "approval_decision list"
  validation_runs :: "validation_run list"
  artifacts :: "artifact list"
  endpoints :: "endpoint list"
  inference_leases :: "inference_lease list"

type_synonym 'a action = "(cluster, 'a) io"

text \<open>A kind of object: where the cluster keeps its objects.\<close>

record ('s, 't) kind =
  items :: "cluster \<Rightarrow> ('s, 't) kobj list"
  upd_items :: "(('s, 't) kobj list \<Rightarrow> ('s, 't) kobj list) \<Rightarrow> cluster \<Rightarrow> cluster"

definition Namespaces :: "(unit, unit) kind" where
  "Namespaces = \<lparr>items = namespaces, upd_items = namespaces_update\<rparr>"
definition Claims :: "(claim_spec, unit) kind" where
  "Claims = \<lparr>items = claims, upd_items = claims_update\<rparr>"
definition ConfigMaps :: "(config_map_data, unit) kind" where
  "ConfigMaps = \<lparr>items = config_maps, upd_items = config_maps_update\<rparr>"
definition WriterLeases :: "(lease_holder_spec, unit) kind" where
  "WriterLeases = \<lparr>items = writer_leases, upd_items = writer_leases_update\<rparr>"
definition Pods :: "(pod_spec, pod_status) kind" where
  "Pods = \<lparr>items = pods, upd_items = pods_update\<rparr>"
definition Jobs :: "(job_spec, job_status) kind" where
  "Jobs = \<lparr>items = jobs, upd_items = jobs_update\<rparr>"
definition Services :: "(service_spec, unit) kind" where
  "Services = \<lparr>items = services, upd_items = services_update\<rparr>"
definition Secrets :: "(secret_data, unit) kind" where
  "Secrets = \<lparr>items = secrets, upd_items = secrets_update\<rparr>"
definition ServiceAccounts :: "(bool option, unit) kind" where
  "ServiceAccounts = \<lparr>items = service_accounts, upd_items = service_accounts_update\<rparr>"
definition Roles :: "(policy_rule list, unit) kind" where
  "Roles = \<lparr>items = roles, upd_items = roles_update\<rparr>"
definition RoleBindings :: "(role_binding_data, unit) kind" where
  "RoleBindings = \<lparr>items = role_bindings, upd_items = role_bindings_update\<rparr>"
definition Projects :: "(project_spec, project_status) kind" where
  "Projects = \<lparr>items = projects, upd_items = projects_update\<rparr>"
definition HumanSessions :: "(human_session_spec, human_session_status) kind" where
  "HumanSessions = \<lparr>items = human_sessions, upd_items = human_sessions_update\<rparr>"
definition Workflows :: "(workflow_spec, workflow_status) kind" where
  "Workflows = \<lparr>items = workflows, upd_items = workflows_update\<rparr>"
definition StepAttempts :: "(step_attempt_spec, step_attempt_status) kind" where
  "StepAttempts = \<lparr>items = step_attempts, upd_items = step_attempts_update\<rparr>"
definition AgentRuns :: "(agent_run_spec, agent_run_status) kind" where
  "AgentRuns = \<lparr>items = agent_runs, upd_items = agent_runs_update\<rparr>"
definition UtilityOperations :: "(utility_operation_spec, utility_operation_status) kind" where
  "UtilityOperations = \<lparr>items = utility_operations, upd_items = utility_operations_update\<rparr>"
definition ApprovalRequests :: "(approval_request_spec, approval_request_status) kind" where
  "ApprovalRequests = \<lparr>items = approval_requests, upd_items = approval_requests_update\<rparr>"
definition ApprovalDecisions :: "(approval_decision_spec, approval_decision_status) kind" where
  "ApprovalDecisions = \<lparr>items = approval_decisions, upd_items = approval_decisions_update\<rparr>"
definition ValidationRuns :: "(validation_run_spec, validation_run_status) kind" where
  "ValidationRuns = \<lparr>items = validation_runs, upd_items = validation_runs_update\<rparr>"
definition Artifacts :: "(artifact_spec, artifact_status) kind" where
  "Artifacts = \<lparr>items = artifacts, upd_items = artifacts_update\<rparr>"
definition Endpoints :: "(endpoint_spec, endpoint_status) kind" where
  "Endpoints = \<lparr>items = endpoints, upd_items = endpoints_update\<rparr>"
definition InferenceLeases :: "(lease_spec, lease_status) kind" where
  "InferenceLeases = \<lparr>items = inference_leases, upd_items = inference_leases_update\<rparr>"

lemmas kind_defs = Namespaces_def Claims_def ConfigMaps_def WriterLeases_def Pods_def Jobs_def
  Services_def Secrets_def ServiceAccounts_def Roles_def RoleBindings_def Projects_def HumanSessions_def
  Workflows_def StepAttempts_def
  AgentRuns_def UtilityOperations_def ApprovalRequests_def ApprovalDecisions_def
  ValidationRuns_def Artifacts_def Endpoints_def InferenceLeases_def

subsection \<open>Calls to the API server\<close>

definition api_call :: "'a action \<Rightarrow> 'a action" where
  "api_call m = (\<lambda>w. case faults w of
       [] \<Rightarrow> m w
     | Pass # fs \<Rightarrow> m (w\<lparr>faults := fs\<rparr>)
     | Deny e # fs \<Rightarrow> (Inl e, w\<lparr>faults := fs\<rparr>)
     | Lose e # fs \<Rightarrow> (case m (w\<lparr>faults := fs\<rparr>) of
           (Inl e', w') \<Rightarrow> (Inl e', w') | (Inr _, w') \<Rightarrow> (Inl e, w')))"

definition k_get :: "('s, 't) kind \<Rightarrow> string \<Rightarrow> string \<Rightarrow> ('s, 't) kobj action" where
  "k_get K ns n = api_call (\<lambda>w. case find_by obj_key (ns, n) (items K w) of
       None \<Rightarrow> (Inl NotFound, w) | Some x \<Rightarrow> (Inr x, w))"

definition k_list :: "('s, 't) kind \<Rightarrow> string \<Rightarrow> ('s, 't) kobj list action" where
  "k_list K ns = api_call (\<lambda>w. (Inr (filter (\<lambda>x. namespace_of x = ns) (items K w)), w))"

definition k_list_all :: "('s, 't) kind \<Rightarrow> ('s, 't) kobj list action" where
  "k_list_all K = api_call (\<lambda>w. (Inr (items K w), w))"

text \<open>The UID of the \<open>n\<close>-th object the server creates.\<close>

definition uid_text :: "nat \<Rightarrow> string" where
  "uid_text n = replicate (Suc n) (CHR ''u'')"

definition k_create :: "('s, 't) kind \<Rightarrow> ('s, 't) kobj \<Rightarrow> ('s, 't) kobj action" where
  "k_create K x = api_call (\<lambda>w.
     if find_by obj_key (obj_key x) (items K w) \<noteq> None then (Inl AlreadyExists, w)
     else let y = x\<lparr>meta := (meta x)\<lparr>obj_uid := uid_text (next_uid w), resource_version := 1,
                    generation := 1, creation := clock w\<rparr>\<rparr>
          in (Inr y, (upd_items K (\<lambda>os. os @ [y]) w)\<lparr>next_uid := Suc (next_uid w)\<rparr>))"

definition k_write ::
  "('s, 't) kind \<Rightarrow> ('s, 't) kobj \<Rightarrow> (('s, 't) kobj \<Rightarrow> ('s, 't) kobj) \<Rightarrow> ('s, 't) kobj action" where
  "k_write K x change = api_call (\<lambda>w. case find_by obj_key (obj_key x) (items K w) of
       None \<Rightarrow> (Inl NotFound, w)
     | Some cur \<Rightarrow>
         if resource_version (meta x) \<noteq> resource_version (meta cur) then (Inl Conflict, w)
         else let y = change cur
              in (Inr y, upd_items K (replace_by obj_key (obj_key x) y) w))"

text \<open>
  \<open>Update\<close> replaces spec and metadata and keeps the status; \<open>Status().Update\<close> replaces the
  status and keeps the rest. Name, namespace, UID and creation time cannot be changed.
\<close>

definition updated_object :: "('s, 't) kobj \<Rightarrow> ('s, 't) kobj \<Rightarrow> ('s, 't) kobj" where
  "updated_object x cur = cur\<lparr>
     meta := (meta cur)\<lparr>resource_version := Suc (resource_version (meta cur)),
       generation := generation (meta cur) + (if spec x = spec cur then 0 else 1),
       labels := labels (meta x), annotations := annotations (meta x),
       finalizers := finalizers (meta x), controller_owner := controller_owner (meta x)\<rparr>,
     spec := spec x\<rparr>"

definition updated_status :: "('s, 't) kobj \<Rightarrow> ('s, 't) kobj \<Rightarrow> ('s, 't) kobj" where
  "updated_status x cur = cur\<lparr>
     meta := (meta cur)\<lparr>resource_version := Suc (resource_version (meta cur))\<rparr>,
     status := status x\<rparr>"

definition k_update :: "('s, 't) kind \<Rightarrow> ('s, 't) kobj \<Rightarrow> ('s, 't) kobj action" where
  "k_update K x = k_write K x (updated_object x)"

definition k_update_status :: "('s, 't) kind \<Rightarrow> ('s, 't) kobj \<Rightarrow> ('s, 't) kobj action" where
  "k_update_status K x = k_write K x (updated_status x)"

text \<open>\<open>Delete\<close> without a precondition: an object with finalizers is marked, another is gone.\<close>

definition k_delete :: "('s, 't) kind \<Rightarrow> ('s, 't) kobj \<Rightarrow> unit action" where
  "k_delete K x = api_call (\<lambda>w. case find_by obj_key (obj_key x) (items K w) of
       None \<Rightarrow> (Inl NotFound, w)
     | Some cur \<Rightarrow>
         if finalizers (meta cur) = [] then (Inr (), upd_items K (filter (\<lambda>o'. obj_key o' \<noteq> obj_key x)) w)
         else (Inr (), upd_items K (replace_by obj_key (obj_key x)
                (cur\<lparr>meta := (meta cur)\<lparr>deletion := (case deletion (meta cur) of None \<Rightarrow> Some (clock w) | Some t \<Rightarrow> Some t)\<rparr>\<rparr>)) w))"

lemma updated_object_simps [simp]:
  "obj_key (updated_object x cur) = obj_key cur"
  "name_of (updated_object x cur) = name_of cur"
  "namespace_of (updated_object x cur) = namespace_of cur"
  "uid_of (updated_object x cur) = uid_of cur"
  "resource_version (meta (updated_object x cur)) = Suc (resource_version (meta cur))"
  "spec (updated_object x cur) = spec x" "status (updated_object x cur) = status cur"
  "labels (meta (updated_object x cur)) = labels (meta x)"
  "controller_owner (meta (updated_object x cur)) = controller_owner (meta x)"
  "deletion (meta (updated_object x cur)) = deletion (meta cur)"
  by (simp_all add: updated_object_def obj_key_def)

lemma updated_status_simps [simp]:
  "obj_key (updated_status x cur) = obj_key cur"
  "name_of (updated_status x cur) = name_of cur"
  "namespace_of (updated_status x cur) = namespace_of cur"
  "uid_of (updated_status x cur) = uid_of cur"
  "resource_version (meta (updated_status x cur)) = Suc (resource_version (meta cur))"
  "spec (updated_status x cur) = spec cur" "status (updated_status x cur) = status x"
  "labels (meta (updated_status x cur)) = labels (meta cur)"
  "controller_owner (meta (updated_status x cur)) = controller_owner (meta cur)"
  "deletion (meta (updated_status x cur)) = deletion (meta cur)"
  by (simp_all add: updated_status_def obj_key_def)

text \<open>Appending to the audit log: nothing where no recorder is configured.\<close>

definition record_event :: "event \<Rightarrow> unit action" where
  "record_event e = (\<lambda>w. case audit_log w of
       None \<Rightarrow> (Inr (), w)
     | Some _ \<Rightarrow> api_call (\<lambda>w. (Inr (), w\<lparr>audit_log := map_option (mem_append (clock w) e) (audit_log w)\<rparr>)) w)"

text \<open>\<open>audit.AppendControllerEvent\<close> (append.go).\<close>

definition append_controller_event ::
  "(string \<Rightarrow> string) \<Rightarrow> string \<Rightarrow> event_options \<Rightarrow> unit action" where
  "append_controller_event sha controllerID opts = (\<lambda>w.
     record_event (new_event sha (clock w) (controller_options controllerID (clock w) opts)) w)"

subsection \<open>Laws of the calls\<close>

lemma keeps_api_call:
  assumes "\<And>fs w. I w \<Longrightarrow> I (w\<lparr>faults := fs\<rparr>)" and "keeps I m"
  shows "keeps I (api_call m)"
proof (rule tripleI)
  fix w x w' assume "I w" and "api_call m w = (Inr x, w')"
  then show "I w'" using assms
    by (auto simp: api_call_def split: list.splits fault.splits prod.splits sum.splits
        dest: triple_resultD [OF assms(2)] triple_errorD [OF assms(2)])
next
  fix w e w' assume "I w" and "api_call m w = (Inl e, w')"
  then show "I w'" using assms
    by (auto simp: api_call_def split: list.splits fault.splits prod.splits sum.splits
        dest: triple_resultD [OF assms(2)] triple_errorD [OF assms(2)])
qed

lemma api_call_result:
  assumes "api_call m w = (Inr x, w')"
  obtains fs where "m (w\<lparr>faults := fs\<rparr>) = (Inr x, w')"
proof (cases "faults w")
  case Nil
  then have w: "w\<lparr>faults := []\<rparr> = w" by (cases w) simp
  from Nil assms have "m w = (Inr x, w')" by (simp add: api_call_def)
  then have "m (w\<lparr>faults := []\<rparr>) = (Inr x, w')" by (simp only: w)
  then show thesis by (rule that)
next
  case (Cons f fs)
  with assms have "m (w\<lparr>faults := fs\<rparr>) = (Inr x, w')"
    by (auto simp: api_call_def split: fault.splits prod.splits sum.splits)
  then show thesis by (rule that)
qed

lemma api_call_no_faults [simp]: "faults w = [] \<Longrightarrow> api_call m w = m w"
  by (simp add: api_call_def)

text \<open>
  A script under which a call never reports an object absent that is there. A stale informer
  cache breaks it; what is proved under it says so.
\<close>

definition honest :: "cluster \<Rightarrow> bool" where
  "honest w \<longleftrightarrow> Deny NotFound \<notin> set (faults w) \<and> Lose NotFound \<notin> set (faults w)"

lemma api_call_honest:
  assumes "\<And>w. honest w \<Longrightarrow> (case m w of (Inl e, w') \<Rightarrow> honest w' \<and> (e = NotFound \<longrightarrow> A w')
     | (Inr x, w') \<Rightarrow> honest w' \<and> B x w')"
  shows "triple honest (api_call m) (\<lambda>x w. honest w \<and> B x w)
     (\<lambda>e w. honest w \<and> (e = NotFound \<longrightarrow> A w))"
proof -
  have tail: "honest (w\<lparr>faults := fs\<rparr>)" if "honest w" "faults w = f # fs" for w f fs
    using that by (auto simp: honest_def)
  show ?thesis
  proof (rule tripleI)
    fix w x w' assume h: "honest w" and r: "api_call m w = (Inr x, w')"
    show "honest w' \<and> B x w'"
    proof (cases "faults w")
      case Nil
      then show ?thesis using assms [OF h] r by (simp add: api_call_def)
    next
      case (Cons f fs)
      then show ?thesis using assms [OF tail [OF h Cons]] r
        by (auto simp: api_call_def split: fault.splits prod.splits sum.splits)
    qed
  next
    fix w e w' assume h: "honest w" and r: "api_call m w = (Inl e, w')"
    show "honest w' \<and> (e = NotFound \<longrightarrow> A w')"
    proof (cases "faults w")
      case Nil
      then show ?thesis using assms [OF h] r by (simp add: api_call_def)
    next
      case (Cons f fs)
      then have "f \<noteq> Deny NotFound" "f \<noteq> Lose NotFound" using h by (auto simp: honest_def)
      then show ?thesis using assms [OF tail [OF h Cons]] r Cons tail [OF h Cons]
        by (auto simp: api_call_def split: fault.splits prod.splits sum.splits)
    qed
  qed
qed

text \<open>The lens laws of a kind, and what the calls on it do to its objects.\<close>

locale resource_kind =
  fixes K :: "('s, 't) kind"
  assumes items_upd: "items K (upd_items K f w) = f (items K w)"
    and items_faults: "items K (w\<lparr>faults := fs\<rparr>) = items K w"
    and items_uid: "items K (w\<lparr>next_uid := n\<rparr>) = items K w"
    and items_audit: "items K (w\<lparr>audit_log := a\<rparr>) = items K w"
    and faults_upd: "faults (upd_items K f w) = faults w"
begin

definition keyed :: "cluster \<Rightarrow> bool" where
  "keyed w \<longleftrightarrow> distinct (map obj_key (items K w))"

lemma get_result:
  assumes "k_get K ns n w = (Inr x, w')"
  shows "find_by obj_key (ns, n) (items K w') = Some x" and "items K w' = items K w"
    and "\<exists>fs. w' = w\<lparr>faults := fs\<rparr>"
proof -
  from assms obtain fs where "(case find_by obj_key (ns, n) (items K (w\<lparr>faults := fs\<rparr>)) of
      None \<Rightarrow> (Inl NotFound, w\<lparr>faults := fs\<rparr>) | Some x \<Rightarrow> (Inr x, w\<lparr>faults := fs\<rparr>)) = (Inr x, w')"
    unfolding k_get_def by (rule api_call_result)
  then have "find_by obj_key (ns, n) (items K w) = Some x" and "w' = w\<lparr>faults := fs\<rparr>"
    by (auto simp: items_faults split: option.splits)
  then show "find_by obj_key (ns, n) (items K w') = Some x" and "items K w' = items K w"
    and "\<exists>fs. w' = w\<lparr>faults := fs\<rparr>"
    by (auto simp: items_faults)
qed

lemma list_result:
  assumes "k_list K ns w = (Inr xs, w')"
  shows "xs = filter (\<lambda>b. namespace_of b = ns) (items K w)" and "\<exists>fs. w' = w\<lparr>faults := fs\<rparr>"
proof -
  from assms obtain fs where "(Inr (filter (\<lambda>x. namespace_of x = ns) (items K (w\<lparr>faults := fs\<rparr>))), w\<lparr>faults := fs\<rparr>)
      = (Inr xs :: go_error + ('s, 't) kobj list, w')"
    unfolding k_list_def by (rule api_call_result)
  then show "xs = filter (\<lambda>b. namespace_of b = ns) (items K w)" "\<exists>fs. w' = w\<lparr>faults := fs\<rparr>"
    by (auto simp: items_faults)
qed

lemma write_result:
  assumes "k_write K x change w = (Inr y, w')" and "\<And>cur. obj_key (change cur) = obj_key cur"
  obtains cur where "find_by obj_key (obj_key x) (items K w) = Some cur"
    and "resource_version (meta x) = resource_version (meta cur)" and "y = change cur"
    and "items K w' = replace_by obj_key (obj_key x) y (items K w)"
    and "find_by obj_key (obj_key x) (items K w') = Some y"
    and "\<And>k. k \<noteq> obj_key x \<Longrightarrow> find_by obj_key k (items K w') = find_by obj_key k (items K w)"
proof -
  from assms(1) obtain fs where
    *: "(case find_by obj_key (obj_key x) (items K (w\<lparr>faults := fs\<rparr>)) of
       None \<Rightarrow> (Inl NotFound, w\<lparr>faults := fs\<rparr>)
     | Some cur \<Rightarrow>
         if resource_version (meta x) \<noteq> resource_version (meta cur) then (Inl Conflict, w\<lparr>faults := fs\<rparr>)
         else let y = change cur
              in (Inr y, upd_items K (replace_by obj_key (obj_key x) y) (w\<lparr>faults := fs\<rparr>))) = (Inr y, w')"
    unfolding k_write_def by (rule api_call_result)
  then obtain cur where cur: "find_by obj_key (obj_key x) (items K w) = Some cur"
    and rv: "resource_version (meta x) = resource_version (meta cur)" and y: "y = change cur"
    and w': "items K w' = replace_by obj_key (obj_key x) y (items K w)"
    by (auto simp: items_faults items_upd Let_def split: option.splits if_splits)
  have key: "obj_key y = obj_key x"
    using cur y assms(2) find_by_set by metis
  show thesis
    by (rule that [OF cur rv y w']) (use cur in \<open>simp_all add: w' store_simps key\<close>)
qed

lemma keyed_write:
  assumes "\<And>cur. obj_key (change cur) = obj_key cur"
  shows "keeps keyed (k_write K x change)"
  unfolding k_write_def
proof (rule keeps_api_call)
  fix fs w assume "keyed w" then show "keyed (w\<lparr>faults := fs\<rparr>)"
    by (simp add: keyed_def items_faults)
next
  have key: "obj_key (change cur) = obj_key x"
    if "find_by obj_key (obj_key x) (items K w) = Some cur" for w cur
    using that assms find_by_set by metis
  show "keeps keyed (\<lambda>w. case find_by obj_key (obj_key x) (items K w) of
       None \<Rightarrow> (Inl NotFound, w)
     | Some cur \<Rightarrow>
         if resource_version (meta x) \<noteq> resource_version (meta cur) then (Inl Conflict, w)
         else let y = change cur
              in (Inr y, upd_items K (replace_by obj_key (obj_key x) y) w))"
    by (rule tripleI)
      (auto simp: keyed_def items_upd Let_def store_simps key split: option.splits if_splits)
qed

lemma keyed_update: "keeps keyed (k_update K x)"
  unfolding k_update_def by (rule keyed_write) simp

lemma keyed_update_status: "keeps keyed (k_update_status K x)"
  unfolding k_update_status_def by (rule keyed_write) simp

lemma keyed_create: "keeps keyed (k_create K x)"
  unfolding k_create_def
proof (rule keeps_api_call)
  fix fs w assume "keyed w" then show "keyed (w\<lparr>faults := fs\<rparr>)"
    by (simp add: keyed_def items_faults)
next
  show "keeps keyed (\<lambda>w.
     if find_by obj_key (obj_key x) (items K w) \<noteq> None then (Inl AlreadyExists, w)
     else let y = x\<lparr>meta := (meta x)\<lparr>obj_uid := uid_text (next_uid w), resource_version := 1,
                    generation := 1, creation := clock w\<rparr>\<rparr>
          in (Inr y, (upd_items K (\<lambda>os. os @ [y]) w)\<lparr>next_uid := Suc (next_uid w)\<rparr>))"
    by (rule tripleI)
      (auto simp: keyed_def items_upd items_uid Let_def find_by_None obj_key_def split: if_splits)
qed

lemma update_status_result:
  assumes "k_update_status K x w = (Inr y, w')"
  obtains cur where "find_by obj_key (obj_key x) (items K w) = Some cur"
    and "resource_version (meta x) = resource_version (meta cur)" and "y = updated_status x cur"
    and "items K w' = replace_by obj_key (obj_key x) y (items K w)"
    and "find_by obj_key (obj_key x) (items K w') = Some y"
    and "\<And>k. k \<noteq> obj_key x \<Longrightarrow> find_by obj_key k (items K w') = find_by obj_key k (items K w)"
  using assms unfolding k_update_status_def by (rule write_result) simp_all

lemma update_result:
  assumes "k_update K x w = (Inr y, w')"
  obtains cur where "find_by obj_key (obj_key x) (items K w) = Some cur"
    and "resource_version (meta x) = resource_version (meta cur)" and "y = updated_object x cur"
    and "items K w' = replace_by obj_key (obj_key x) y (items K w)"
    and "find_by obj_key (obj_key x) (items K w') = Some y"
    and "\<And>k. k \<noteq> obj_key x \<Longrightarrow> find_by obj_key k (items K w') = find_by obj_key k (items K w)"
  using assms unfolding k_update_def by (rule write_result) simp_all

lemma honest_get:
  "triple honest (k_get K ns n) (\<lambda>x w. honest w \<and> find_by obj_key (ns, n) (items K w) = Some x)
     (\<lambda>e w. honest w \<and> (e = NotFound \<longrightarrow> find_by obj_key (ns, n) (items K w) = None))"
  unfolding k_get_def by (rule api_call_honest) (simp split: option.splits)

lemma honest_upd: "honest (upd_items K f w) \<longleftrightarrow> honest w"
  by (simp add: honest_def faults_upd)

lemma honest_update:
  "triple honest (k_update K x)
     (\<lambda>y w. honest w \<and> find_by obj_key (obj_key x) (items K w) = Some y
        \<and> (\<exists>cur. y = updated_object x cur)) (\<lambda>_. honest)"
proof -
  have same: "find_by obj_key (obj_key x)
      (replace_by obj_key (obj_key x) (updated_object x cur) os) = Some (updated_object x cur)"
    if "find_by obj_key (obj_key x) os = Some cur" for os cur
    using find_by_set [OF that] that by (simp add: store_simps)
  have "triple honest (k_update K x)
     (\<lambda>y w. honest w \<and> (find_by obj_key (obj_key x) (items K w) = Some y
        \<and> (\<exists>cur. y = updated_object x cur)))
     (\<lambda>e w. honest w \<and> (e = NotFound \<longrightarrow> True))"
    unfolding k_update_def k_write_def
    by (rule api_call_honest)
      (auto simp: honest_upd items_upd Let_def same split: option.splits)
  then show ?thesis by (rule triple_weaken) auto
qed

end

interpretation writer_lease_kind: resource_kind WriterLeases
  by unfold_locales (simp_all add: WriterLeases_def)
interpretation claim_kind: resource_kind Claims
  by unfold_locales (simp_all add: Claims_def)
interpretation config_map_kind: resource_kind ConfigMaps
  by unfold_locales (simp_all add: ConfigMaps_def)
interpretation pod_kind: resource_kind Pods
  by unfold_locales (simp_all add: Pods_def)
interpretation job_kind: resource_kind Jobs
  by unfold_locales (simp_all add: Jobs_def)
interpretation service_kind: resource_kind Services
  by unfold_locales (simp_all add: Services_def)
interpretation secret_kind: resource_kind Secrets
  by unfold_locales (simp_all add: Secrets_def)
interpretation service_account_kind: resource_kind ServiceAccounts
  by unfold_locales (simp_all add: ServiceAccounts_def)
interpretation role_kind: resource_kind Roles
  by unfold_locales (simp_all add: Roles_def)
interpretation role_binding_kind: resource_kind RoleBindings
  by unfold_locales (simp_all add: RoleBindings_def)
interpretation project_kind: resource_kind Projects
  by unfold_locales (simp_all add: Projects_def)
interpretation human_session_kind: resource_kind HumanSessions
  by unfold_locales (simp_all add: HumanSessions_def)
interpretation workflow_kind: resource_kind Workflows
  by unfold_locales (simp_all add: Workflows_def)
interpretation step_attempt_kind: resource_kind StepAttempts
  by unfold_locales (simp_all add: StepAttempts_def)
interpretation endpoint_kind: resource_kind Endpoints
  by unfold_locales (simp_all add: Endpoints_def)
interpretation inference_lease_kind: resource_kind InferenceLeases
  by unfold_locales (simp_all add: InferenceLeases_def)
interpretation artifact_kind: resource_kind Artifacts
  by unfold_locales (simp_all add: Artifacts_def)
interpretation approval_request_kind: resource_kind ApprovalRequests
  by unfold_locales (simp_all add: ApprovalRequests_def)
interpretation approval_decision_kind: resource_kind ApprovalDecisions
  by unfold_locales (simp_all add: ApprovalDecisions_def)
interpretation agent_run_kind: resource_kind AgentRuns
  by unfold_locales (simp_all add: AgentRuns_def)
interpretation utility_operation_kind: resource_kind UtilityOperations
  by unfold_locales (simp_all add: UtilityOperations_def)
interpretation validation_run_kind: resource_kind ValidationRuns
  by unfold_locales (simp_all add: ValidationRuns_def)

text \<open>
  What does not touch a collection keeps every fact about it: a predicate that depends on one
  projection of the cluster is kept by calls that leave the projection alone.
\<close>

lemma keeps_get:
  assumes "\<And>fs w. I w \<Longrightarrow> I (w\<lparr>faults := fs\<rparr>)"
  shows "keeps I (k_get K ns n)"
  unfolding k_get_def by (rule keeps_api_call, erule assms, rule tripleI)
    (auto split: option.splits)

lemma keeps_list:
  assumes "\<And>fs w. I w \<Longrightarrow> I (w\<lparr>faults := fs\<rparr>)"
  shows "keeps I (k_list K ns)"
  unfolding k_list_def by (rule keeps_api_call, erule assms, rule tripleI) auto

lemma keeps_list_all:
  assumes "\<And>fs w. I w \<Longrightarrow> I (w\<lparr>faults := fs\<rparr>)"
  shows "keeps I (k_list_all K)"
  unfolding k_list_all_def by (rule keeps_api_call, erule assms, rule tripleI) auto

lemma keeps_record_event:
  assumes "\<And>fs w. I w \<Longrightarrow> I (w\<lparr>faults := fs\<rparr>)" and "\<And>a w. I w \<Longrightarrow> I (w\<lparr>audit_log := a\<rparr>)"
  shows "keeps I (record_event e)"
proof (rule tripleI)
  fix w x w' assume I: "I w" and r: "record_event e w = (Inr x, w')"
  have "keeps I (api_call (\<lambda>w. (Inr (), w\<lparr>audit_log := map_option (mem_append (clock w) e) (audit_log w)\<rparr>)))"
    by (rule keeps_api_call, erule assms(1), rule tripleI) (auto intro: assms(2))
  from triple_resultD [OF this I] show "I w'"
    using I r by (auto simp: record_event_def split: option.splits)
next
  fix w err w' assume I: "I w" and r: "record_event e w = (Inl err, w')"
  have "keeps I (api_call (\<lambda>w. (Inr (), w\<lparr>audit_log := map_option (mem_append (clock w) e) (audit_log w)\<rparr>)))"
    by (rule keeps_api_call, erule assms(1), rule tripleI) (auto intro: assms(2))
  from triple_errorD [OF this I] show "I w'"
    using I r by (auto simp: record_event_def split: option.splits)
qed

lemma keeps_controller_event:
  assumes "\<And>fs w. I w \<Longrightarrow> I (w\<lparr>faults := fs\<rparr>)" and "\<And>a w. I w \<Longrightarrow> I (w\<lparr>audit_log := a\<rparr>)"
  shows "keeps I (append_controller_event sha c opts)"
  using keeps_record_event [OF assms] unfolding append_controller_event_def
  by (auto simp: triple_def)

text \<open>A read changes nothing but the script; a write changes only what its kind holds.\<close>

lemma same_faults: "faults w = fs \<Longrightarrow> \<exists>gs. w = w\<lparr>faults := gs\<rparr>"
  by (rule exI [of _ fs]) (cases w, simp)

lemma get_frame: "k_get K ns n w = (res, w') \<Longrightarrow> \<exists>fs. w' = w\<lparr>faults := fs\<rparr>"
proof (cases "faults w")
  case Nil
  moreover assume "k_get K ns n w = (res, w')"
  ultimately have "w' = w" by (auto simp: k_get_def split: option.splits)
  then show ?thesis using same_faults by blast
next
  case (Cons f fs)
  moreover assume "k_get K ns n w = (res, w')"
  ultimately show ?thesis
    by (auto simp: k_get_def api_call_def split: option.splits fault.splits prod.splits sum.splits)
qed

lemma keeps_write:
  assumes "\<And>fs w. I w \<Longrightarrow> I (w\<lparr>faults := fs\<rparr>)" and "\<And>g w. I w \<Longrightarrow> I (upd_items K g w)"
  shows "keeps I (k_write K x change)"
  unfolding k_write_def by (rule keeps_api_call, erule assms(1), rule tripleI)
    (auto simp: Let_def intro: assms(2) split: option.splits if_splits)

lemma keeps_update:
  assumes "\<And>fs w. I w \<Longrightarrow> I (w\<lparr>faults := fs\<rparr>)" and "\<And>g w. I w \<Longrightarrow> I (upd_items K g w)"
  shows "keeps I (k_update K x)"
  unfolding k_update_def by (rule keeps_write) (rule assms, assumption)+

lemma keeps_update_status:
  assumes "\<And>fs w. I w \<Longrightarrow> I (w\<lparr>faults := fs\<rparr>)" and "\<And>g w. I w \<Longrightarrow> I (upd_items K g w)"
  shows "keeps I (k_update_status K x)"
  unfolding k_update_status_def by (rule keeps_write) (rule assms, assumption)+

lemma keeps_delete:
  assumes "\<And>fs w. I w \<Longrightarrow> I (w\<lparr>faults := fs\<rparr>)" and "\<And>g w. I w \<Longrightarrow> I (upd_items K g w)"
  shows "keeps I (k_delete K x)"
  unfolding k_delete_def by (rule keeps_api_call, erule assms(1), rule tripleI)
    (auto intro!: assms(2) split: option.splits if_splits)

lemma keeps_create:
  assumes "\<And>fs w. I w \<Longrightarrow> I (w\<lparr>faults := fs\<rparr>)" and "\<And>g w. I w \<Longrightarrow> I (upd_items K g w)"
    and "\<And>n w. I w \<Longrightarrow> I (w\<lparr>next_uid := n\<rparr>)"
  shows "keeps I (k_create K x)"
  unfolding k_create_def by (rule keeps_api_call, erule assms(1), rule tripleI)
    (auto simp: Let_def intro!: assms(3) assms(2) split: if_splits)

text \<open>A script in which what is reported as failed has had no effect.\<close>

definition lossless :: "cluster \<Rightarrow> bool" where
  "lossless w \<longleftrightarrow> (\<forall>e. Lose e \<notin> set (faults w))"

lemma lossless_api_call_error:
  assumes "api_call m w = (Inl e, w')" and "lossless w"
    and "\<And>v e v'. m v = (Inl e, v') \<Longrightarrow> v' = v"
  shows "lossless w' \<and> (\<exists>fs. w' = w\<lparr>faults := fs\<rparr>)"
proof (cases "faults w")
  case Nil
  then have "m w = (Inl e, w')" using assms(1) by (simp add: api_call_def)
  then have "w' = w" by (rule assms(3))
  then show ?thesis using assms(2) same_faults by blast
next
  case (Cons f fs)
  have tail: "lossless (w\<lparr>faults := fs\<rparr>)" using Cons assms(2) by (simp add: lossless_def)
  have "w' = w\<lparr>faults := fs\<rparr>"
    using Cons assms(1,2) by (auto simp: api_call_def lossless_def dest: assms(3) split: fault.splits)
  with tail show ?thesis by blast
qed

lemma lossless_api_call_result:
  assumes "api_call m w = (Inr x, w')" and "lossless w" and "\<And>v y v'. m v = (Inr y, v') \<Longrightarrow> faults v' = faults v"
  shows "lossless w'"
  using assms(1,2)
  by (cases "faults w")
    (auto simp: api_call_def lossless_def dest!: assms(3) split: fault.splits prod.splits sum.splits)

lemma lossless_get:
  assumes "k_get K ns n w = (res, w')" and "lossless w"
  shows "lossless w' \<and> (\<exists>fs. w' = w\<lparr>faults := fs\<rparr>)"
proof (cases res)
  case (Inl e)
  with assms(1) show ?thesis unfolding k_get_def
    by (intro lossless_api_call_error [OF _ assms(2)]) (auto split: option.splits)
next
  case (Inr x)
  have "lossless w'"
    using assms(1) unfolding Inr k_get_def
    by (rule lossless_api_call_result [OF _ assms(2)]) (auto split: option.splits)
  with get_frame [OF assms(1)] show ?thesis by simp
qed

lemma lossless_update_status_error:
  assumes "k_update_status K x w = (Inl e, w')" and "lossless w"
  shows "lossless w' \<and> (\<exists>fs. w' = w\<lparr>faults := fs\<rparr>)"
  using assms(1) unfolding k_update_status_def k_write_def
  by (rule lossless_api_call_error [OF _ assms(2)]) (auto simp: Let_def split: option.splits if_splits)

subsection \<open>Small clusters\<close>

text \<open>A container, a pod and the status of a new one with every optional setting left out.\<close>

definition plain_container :: "string \<Rightarrow> string \<Rightarrow> container" where
  "plain_container n img = \<lparr>ctr_name = n, ctr_image = img, ctr_command = [], ctr_args = [], ctr_env = [], ctr_mounts = [],
     ctr_security = None, ctr_restartPolicy = '''', ctr_ports = [], ctr_limits = [], ctr_readinessProbe = None,
     ctr_startupProbe = None\<rparr>"

definition no_security :: container_security where
  "no_security = \<lparr>cs_privileged = None, cs_allowPrivilegeEscalation = None, cs_readOnlyRootFilesystem = None,
     cs_dropCapabilities = [], cs_addCapabilities = [], cs_runAsUser = None, cs_runAsGroup = None,
     cs_seccompProfile = '''', cs_appArmorProfile = ''''\<rparr>"

definition plain_pod :: pod_spec where
  "plain_pod = \<lparr>pod_restartPolicy = '''', pod_serviceAccountName = '''', pod_automountToken = None, pod_security = None,
     pod_initContainers = [], pod_containers = [], pod_volumes = [], pod_nodeName = '''', pod_nodeSelector = [],
     pod_runtimeClassName = None, pod_terminationGracePeriod = None\<rparr>"

definition new_pod_status :: pod_status where
  "new_pod_status = \<lparr>pod_phase = PodPending, pod_conditions = [], pod_containerStatuses = []\<rparr>"

definition new_job_status :: job_status where
  "new_job_status = \<lparr>job_active = 0, job_succeeded = 0, job_failed = 0\<rparr>"

text \<open>An object's metadata with nothing but its names, and a cluster with no object, for examples.\<close>

definition bare_meta :: "string \<Rightarrow> string \<Rightarrow> string \<Rightarrow> object_meta" where
  "bare_meta ns n u = \<lparr>obj_name = n, obj_namespace = ns, obj_uid = u, resource_version = 1,
     generation = 1, labels = [], annotations = [], finalizers = [], creation = 0, deletion = None,
     controller_owner = None\<rparr>"

definition empty_cluster :: cluster where
  "empty_cluster = \<lparr>faults = [], clock = 0, next_uid = 0, audit_log = None, namespaces = [],
     claims = [], config_maps = [], writer_leases = [], pods = [], jobs = [],
     services = [], secrets = [], service_accounts = [], roles = [], role_bindings = [], projects = [],
     human_sessions = [], workflows = [], step_attempts = [],
     agent_runs = [], utility_operations = [], approval_requests = [], approval_decisions = [],
     validation_runs = [], artifacts = [], endpoints = [], inference_leases = []\<rparr>"

lemma bare_meta_simps [simp]:
  "obj_name (bare_meta ns n u) = n" "obj_namespace (bare_meta ns n u) = ns"
  "obj_uid (bare_meta ns n u) = u" "resource_version (bare_meta ns n u) = 1"
  "generation (bare_meta ns n u) = 1" "labels (bare_meta ns n u) = []"
  "deletion (bare_meta ns n u) = None" "controller_owner (bare_meta ns n u) = None"
  "creation (bare_meta ns n u) = 0"
  by (simp_all add: bare_meta_def)

end
