(* ===== verification/Workspace_Writer.thy ===== *)
theory Workspace_Writer
  imports Cluster
begin

section \<open>Workspace write authority (internal/controllers/workspace_writer.go)\<close>

text \<open>
  Every execution that mounts a workflow's volume writable must hold the workflow's writer
  lease. Definitions: the identity of a writer, the decision one attempt takes on the lease it
  has read (\<open>acquire_decision\<close>, \<open>release_decision\<close>), the operations of the code over the cluster
  (\<open>acquire_workspace_writer\<close>, \<open>release_workspace_writer\<close>), and \<open>writer_step\<close>, any number of
  controllers that read and write one lease concurrently, with the API server's
  resource-version check. Lemmas: epochs only grow, a term of the lease is granted to one
  writer, a term that has ended never comes back.
\<close>

subsection \<open>Data\<close>

datatype writer_state = WorkspaceWriterGranted | WorkspaceWriterBlocked | WorkspaceWriterLost

record writer_grant =
  grant_lease :: string
  grant_holder :: string
  grant_epoch :: int

definition workspace_workload_security_context :: pod_security where
  "workspace_workload_security_context = \<lparr>ps_runAsNonRoot = Some True, ps_runAsUser = Some 65532, ps_runAsGroup = Some 65532,
     ps_fsGroup = Some 65532, ps_seccompProfile = ''''\<rparr>"

definition workspace_writer_identity :: "string \<Rightarrow> ('s, 't) kobj \<Rightarrow> go_error + string" where
  "workspace_writer_identity kind object =
     (if uid_of object = '''' then Inl (Invalid ''no UID'')
      else Inr (join_with ''/'' [kind, namespace_of object, name_of object, uid_of object]))"

definition workspace_writer_annotations :: "writer_grant \<Rightarrow> (string \<times> string) list" where
  "workspace_writer_annotations grant =
     [(''sovereign-ai.io/workspace-writer-lease'', grant_lease grant),
      (''sovereign-ai.io/workspace-writer-holder'', grant_holder grant),
      (''sovereign-ai.io/workspace-writer-epoch'', show_int (grant_epoch grant))]"

definition workspace_writer_env :: "writer_grant \<Rightarrow> (string \<times> string) list" where
  "workspace_writer_env grant =
     [(''SOVEREIGN_WORKSPACE_WRITER_LEASE'', grant_lease grant),
      (''SOVEREIGN_WORKSPACE_WRITER_HOLDER'', grant_holder grant),
      (''SOVEREIGN_WORKSPACE_WRITER_EPOCH'', show_int (grant_epoch grant))]"

text \<open>A nil holder reads as the empty string, nil transitions as epoch 0.\<close>

definition current_holder :: "writer_lease \<Rightarrow> string" where
  "current_holder lease = (case holderIdentity (spec lease) of None \<Rightarrow> '''' | Some h \<Rightarrow> h)"

definition current_epoch :: "writer_lease \<Rightarrow> int" where
  "current_epoch lease = (case leaseTransitions (spec lease) of None \<Rightarrow> 0 | Some e \<Rightarrow> e)"

subsection \<open>Operations\<close>

text \<open>What one attempt does after it has read the lease: answer, or try to swap it.\<close>

datatype acquire_outcome =
    Settled writer_grant writer_state
  | Swap writer_lease writer_grant

definition acquire_decision ::
  "('s, 't) kobj \<Rightarrow> string \<Rightarrow> string \<Rightarrow> int \<Rightarrow> int \<Rightarrow> writer_lease \<Rightarrow> go_error + acquire_outcome" where
  "acquire_decision workflow leaseName holder expectedEpoch now lease =
     (let grant = \<lparr>grant_lease = leaseName, grant_holder = holder, grant_epoch = 0\<rparr>;
          epoch = current_epoch lease
      in if \<not> is_controlled_by lease workflow then Inl (Invalid ''lease is not controlled by workflow'')
         else if expectedEpoch > 0 then
           Inr (Settled (grant\<lparr>grant_epoch := expectedEpoch\<rparr>)
                  (if current_holder lease = holder \<and> epoch = expectedEpoch
                   then WorkspaceWriterGranted else WorkspaceWriterLost))
         else if current_holder lease = holder then
           (if epoch < 1 then Inl (Invalid ''holder without a positive epoch'')
            else Inr (Settled (grant\<lparr>grant_epoch := epoch\<rparr>) WorkspaceWriterGranted))
         else if current_holder lease \<noteq> '''' then Inr (Settled grant WorkspaceWriterBlocked)
         else if epoch = max_int32 then Inl (Invalid ''epoch exhausted'')
         else let next = int32 (epoch + 1)
              in Inr (Swap (lease\<lparr>spec := (spec lease)\<lparr>holderIdentity := Some holder,
                              acquireTime := Some now, renewTime := Some now,
                              leaseTransitions := Some next\<rparr>\<rparr>)
                        (grant\<lparr>grant_epoch := next\<rparr>)))"

definition acquire_workspace_writer ::
  "('a, 'b) kobj \<Rightarrow> string \<Rightarrow> string \<Rightarrow> ('s, 't) kobj \<Rightarrow> int \<Rightarrow> int \<Rightarrow> (writer_grant \<times> writer_state) action"
where
  "acquire_workspace_writer workflow leaseName kind object expectedEpoch now =
     (case workspace_writer_identity kind object of
        Inl e \<Rightarrow> raise e
      | Inr holder \<Rightarrow> retry_on_conflict (
          bind_io (k_get WriterLeases (namespace_of workflow) leaseName) (\<lambda>lease.
            case acquire_decision workflow leaseName holder expectedEpoch now lease of
              Inl e \<Rightarrow> raise e
            | Inr (Settled grant state) \<Rightarrow> ret (grant, state)
            | Inr (Swap lease' grant) \<Rightarrow>
                bind_io (k_update WriterLeases lease') (\<lambda>_. ret (grant, WorkspaceWriterGranted)))))"

definition release_decision :: "writer_grant \<Rightarrow> int \<Rightarrow> writer_lease \<Rightarrow> writer_lease option" where
  "release_decision grant now lease =
     (if deletion (meta lease) \<noteq> None then None
      else if current_holder lease = '''' \<or> current_holder lease \<noteq> grant_holder grant
              \<or> current_epoch lease \<noteq> grant_epoch grant then None
      else Some (lease\<lparr>spec := (spec lease)\<lparr>holderIdentity := Some '''', acquireTime := None,
                   renewTime := Some now\<rparr>\<rparr>))"

definition release_workspace_writer :: "string \<Rightarrow> writer_grant \<Rightarrow> int \<Rightarrow> unit action" where
  "release_workspace_writer ns grant now =
     (if grant_lease grant = '''' \<or> grant_holder grant = '''' \<or> grant_epoch grant < 1 then ret ()
      else retry_on_conflict (
        bind_io (attempt_io (k_get WriterLeases ns (grant_lease grant))) (\<lambda>r.
          case r of
            Inl e \<Rightarrow> (if e = NotFound then ret () else raise e)
          | Inr lease \<Rightarrow> (case release_decision grant now lease of
               None \<Rightarrow> ret ()
             | Some lease' \<Rightarrow> bind_io (k_update WriterLeases lease') (\<lambda>_. ret ())))))"

definition pod_writer_quiescent :: "string \<Rightarrow> string \<Rightarrow> bool action" where
  "pod_writer_quiescent ns n =
     (if n = '''' then ret True
      else bind_io (attempt_io (k_get Pods ns n)) (\<lambda>r. case r of
          Inl e \<Rightarrow> (if e = NotFound then ret True else raise e)
        | Inr pod \<Rightarrow> ret (pod_phase (status pod) = PodSucceeded \<or> pod_phase (status pod) = PodFailed)))"

definition job_writer_quiescent :: "string \<Rightarrow> string \<Rightarrow> bool action" where
  "job_writer_quiescent ns n =
     (if n = '''' then ret True
      else bind_io (attempt_io (k_get Jobs ns n)) (\<lambda>r. case r of
          Inl e \<Rightarrow> (if e = NotFound then ret True else raise e)
        | Inr job \<Rightarrow> ret (job_active (status job) = 0
                        \<and> (job_succeeded (status job) > 0 \<or> job_failed (status job) > 0))))"

subsection \<open>One attempt\<close>

lemma acquire_decision_swap:
  assumes "acquire_decision workflow leaseName holder expectedEpoch now lease = Inr (Swap l g)"
  shows "current_holder lease = ''''" and "current_epoch lease \<noteq> max_int32"
    and "grant_epoch g = int32 (current_epoch lease + 1)" and "grant_holder g = holder"
    and "current_holder l = holder" and "current_epoch l = grant_epoch g" and "meta l = meta lease"
    and "expectedEpoch \<le> 0" and "is_controlled_by lease workflow" and "grant_lease g = leaseName"
  using assms
  by (auto simp: acquire_decision_def Let_def current_holder_def current_epoch_def split: if_splits)

lemma acquire_decision_granted:
  assumes "acquire_decision workflow leaseName holder expectedEpoch now lease
    = Inr (Settled g WorkspaceWriterGranted)"
  shows "current_holder lease = holder" and "current_epoch lease = grant_epoch g"
    and "grant_epoch g > 0" and "grant_holder g = holder" and "grant_lease g = leaseName"
    and "is_controlled_by lease workflow"
  using assms by (auto simp: acquire_decision_def Let_def split: if_splits)

lemma release_decision_Some:
  assumes "release_decision grant now lease = Some l"
  shows "current_holder lease = grant_holder grant" and "current_epoch lease = grant_epoch grant"
    and "current_holder l = ''''" and "current_epoch l = current_epoch lease" and "meta l = meta lease"
    and "current_holder lease \<noteq> ''''"
  using assms by (auto simp: release_decision_def current_holder_def current_epoch_def split: if_splits)

lemma obj_key_meta: "meta x = meta y \<Longrightarrow> obj_key x = obj_key y"
  by (simp add: obj_key_def)

lemma current_updated [simp]:
  "current_holder (updated_object l cur) = current_holder l"
  "current_epoch (updated_object l cur) = current_epoch l"
  by (simp_all add: current_holder_def current_epoch_def)

lemma join_with_slash_nonempty:
  "workspace_writer_identity kind object = Inr holder \<Longrightarrow> holder \<noteq> ''''"
  by (auto simp: workspace_writer_identity_def split: if_splits)

subsection \<open>Concurrent controllers\<close>

text \<open>
  One lease, and any number of controllers with a copy of it they have read. \<open>grants\<close> is the
  history of the terms granted, newest first. A controller may read at any time, and act on its
  copy later: answer, swap the lease, or lose the race and forget the copy. A controller that
  stops after any step is one that takes no further step.
\<close>

record writer_system =
  sys_lease :: writer_lease
  copies :: "(string \<times> writer_lease) list"
  grants :: "(string \<times> int) list"

inductive writer_step :: "('s, 't) kobj \<Rightarrow> string \<Rightarrow> writer_system \<Rightarrow> writer_system \<Rightarrow> bool"
  for workflow leaseName where
  read: "writer_step workflow leaseName s (s\<lparr>copies := (h, sys_lease s) # copies s\<rparr>)"
| forget: "writer_step workflow leaseName s (s\<lparr>copies := filter P (copies s)\<rparr>)"
| acquire: "(h, l) \<in> set (copies s) \<Longrightarrow> h \<noteq> '''' \<Longrightarrow>
    acquire_decision workflow leaseName h expected now l = Inr (Swap l' g) \<Longrightarrow>
    resource_version (meta l') = resource_version (meta (sys_lease s)) \<Longrightarrow>
    writer_step workflow leaseName s
      (s\<lparr>sys_lease := updated_object l' (sys_lease s), grants := (h, grant_epoch g) # grants s\<rparr>)"
| release: "(h, l) \<in> set (copies s) \<Longrightarrow> release_decision grant now l = Some l' \<Longrightarrow>
    resource_version (meta l') = resource_version (meta (sys_lease s)) \<Longrightarrow>
    writer_step workflow leaseName s (s\<lparr>sys_lease := updated_object l' (sys_lease s)\<rparr>)"

inductive writer_reach :: "('s, 't) kobj \<Rightarrow> string \<Rightarrow> writer_system \<Rightarrow> writer_system \<Rightarrow> bool"
  for workflow leaseName where
  start: "writer_reach workflow leaseName s s"
| further: "writer_reach workflow leaseName s t \<Longrightarrow> writer_step workflow leaseName t u \<Longrightarrow>
    writer_reach workflow leaseName s u"

text \<open>
  A lease as the workflow controller creates it: no holder, epoch 0, nobody has read it.
\<close>

definition fresh_lease :: "writer_system \<Rightarrow> bool" where
  "fresh_lease s \<longleftrightarrow> current_holder (sys_lease s) = '''' \<and> current_epoch (sys_lease s) = 0
     \<and> copies s = [] \<and> grants s = []"

definition last_epoch :: "writer_system \<Rightarrow> int" where
  "last_epoch s = (case grants s of [] \<Rightarrow> 0 | (_, e) # _ \<Rightarrow> e)"

definition writer_inv :: "writer_system \<Rightarrow> bool" where
  "writer_inv s \<longleftrightarrow>
     (\<forall>(h, l) \<in> set (copies s). resource_version (meta l) < resource_version (meta (sys_lease s))
        \<or> l = sys_lease s)
   \<and> sorted_wrt (\<lambda>(_, e) (_, e'). e > e') (grants s)
   \<and> (\<forall>(h, e) \<in> set (grants s). 0 < e \<and> e \<le> max_int32 \<and> h \<noteq> '''')
   \<and> current_epoch (sys_lease s) = last_epoch s
   \<and> (current_holder (sys_lease s) \<noteq> '''' \<longrightarrow>
        grants s \<noteq> [] \<and> hd (grants s) = (current_holder (sys_lease s), current_epoch (sys_lease s)))"

lemma writer_inv_fresh: "fresh_lease s \<Longrightarrow> writer_inv s"
  by (simp add: fresh_lease_def writer_inv_def last_epoch_def)

lemma writer_inv_last: "writer_inv s \<Longrightarrow> 0 \<le> last_epoch s \<and> last_epoch s \<le> max_int32"
  by (auto simp: writer_inv_def last_epoch_def max_int32_def split: list.splits)

text \<open>A copy with the current resource version is the current lease.\<close>

lemma writer_inv_copy:
  "writer_inv s \<Longrightarrow> (h, l) \<in> set (copies s) \<Longrightarrow>
   resource_version (meta l) = resource_version (meta (sys_lease s)) \<Longrightarrow> l = sys_lease s"
  by (force simp: writer_inv_def)

lemma writer_inv_acquire:
  assumes inv: "writer_inv s" and copy: "(h, l) \<in> set (copies s)" and h: "h \<noteq> ''''"
    and dec: "acquire_decision workflow leaseName h expected now l = Inr (Swap l' g)"
    and rv: "resource_version (meta l') = resource_version (meta (sys_lease s))"
  shows "writer_inv (s\<lparr>sys_lease := updated_object l' (sys_lease s), grants := (h, grant_epoch g) # grants s\<rparr>)"
    and "grant_epoch g = last_epoch s + 1"
proof -
  note d = acquire_decision_swap [OF dec]
  have l: "l = sys_lease s" using writer_inv_copy [OF inv copy] rv d(7) by simp
  have ep: "current_epoch l = last_epoch s" using inv l by (simp add: writer_inv_def)
  have b: "0 \<le> last_epoch s" "last_epoch s < max_int32"
    using writer_inv_last [OF inv] d(2) ep by auto
  then show epoch: "grant_epoch g = last_epoch s + 1"
    using d(3) ep by (simp add: max_int32_def)
  have le: "\<forall>(h, e) \<in> set (grants s). e \<le> last_epoch s"
    using inv by (cases "grants s") (auto simp: writer_inv_def last_epoch_def)
  show "writer_inv (s\<lparr>sys_lease := updated_object l' (sys_lease s), grants := (h, grant_epoch g) # grants s\<rparr>)"
    using inv le epoch b h d(5,6) unfolding writer_inv_def
    by (auto simp: last_epoch_def less_Suc_eq)
qed

lemma writer_inv_release:
  assumes inv: "writer_inv s" and copy: "(h, l) \<in> set (copies s)"
    and dec: "release_decision grant now l = Some l'"
    and rv: "resource_version (meta l') = resource_version (meta (sys_lease s))"
  shows "writer_inv (s\<lparr>sys_lease := updated_object l' (sys_lease s)\<rparr>)"
proof -
  note d = release_decision_Some [OF dec]
  have l: "l = sys_lease s" using writer_inv_copy [OF inv copy] rv d(5) by simp
  have ep: "current_epoch l' = last_epoch s" using inv l d(4) by (simp add: writer_inv_def)
  show ?thesis
    using inv ep d(3) unfolding writer_inv_def by (auto simp: last_epoch_def less_Suc_eq)
qed

lemma writer_inv_step:
  assumes "writer_step workflow leaseName s t" and "writer_inv s"
  shows "writer_inv t"
  using assms
proof (cases rule: writer_step.cases)
  case (read h)
  then show ?thesis using assms(2) by (auto simp: writer_inv_def last_epoch_def)
next
  case (forget P)
  then show ?thesis using assms(2) by (auto simp: writer_inv_def last_epoch_def)
next
  case (acquire h l expected now l' g)
  then show ?thesis using writer_inv_acquire [OF assms(2)] by blast
next
  case (release h l grant now l')
  then show ?thesis using writer_inv_release [OF assms(2)] by blast
qed

lemma writer_inv_reach: "writer_reach workflow leaseName s t \<Longrightarrow> writer_inv s \<Longrightarrow> writer_inv t"
  by (induction rule: writer_reach.induct) (auto intro: writer_inv_step)

text \<open>A term that is over: granted before, and not the one the lease shows.\<close>

definition term_over :: "writer_system \<Rightarrow> string \<Rightarrow> int \<Rightarrow> bool" where
  "term_over s h e \<longleftrightarrow> (h, e) \<in> set (grants s)
     \<and> (current_holder (sys_lease s), current_epoch (sys_lease s)) \<noteq> (h, e)"

lemma granted_le_last: "writer_inv s \<Longrightarrow> (h, e) \<in> set (grants s) \<Longrightarrow> e \<le> last_epoch s"
  by (cases "grants s") (auto simp: writer_inv_def last_epoch_def)

lemma term_over_step:
  assumes "writer_step workflow leaseName s t" and inv: "writer_inv s" and over: "term_over s h e"
  shows "term_over t h e"
  using assms(1)
proof (cases rule: writer_step.cases)
  case (acquire h' l expected now l' g)
  have "e \<le> last_epoch s" using granted_le_last [OF inv, of h e] over by (simp add: term_over_def)
  moreover have "grant_epoch g = last_epoch s + 1"
    using writer_inv_acquire(2) [OF inv] acquire by blast
  ultimately show ?thesis
    using over acquire acquire_decision_swap(6) by (fastforce simp: term_over_def)
next
  case (release h' l grant now l')
  have "h \<noteq> ''''" using inv over by (auto simp: writer_inv_def term_over_def)
  then show ?thesis
    using over release release_decision_Some(3) by (fastforce simp: term_over_def)
qed (use over in \<open>simp_all add: term_over_def\<close>)

lemma term_over_reach:
  "writer_reach workflow leaseName s t \<Longrightarrow> writer_inv s \<Longrightarrow> term_over s h e \<Longrightarrow> term_over t h e"
proof (induction rule: writer_reach.induct)
  case (further t u)
  then show ?case using term_over_step writer_inv_reach by blast
qed

subsection \<open>The operations on the cluster, whatever fails\<close>

lemma acquire_attempt_granted:
  assumes "bind_io (k_get WriterLeases ns leaseName) (\<lambda>lease.
      case acquire_decision workflow leaseName holder expectedEpoch now lease of
        Inl e \<Rightarrow> raise e
      | Inr (Settled grant state) \<Rightarrow> ret (grant, state)
      | Inr (Swap lease' grant) \<Rightarrow>
          bind_io (k_update WriterLeases lease') (\<lambda>_. ret (grant, WorkspaceWriterGranted))) w
    = (Inr (g, WorkspaceWriterGranted), w')"
    and "holder \<noteq> ''''"
  shows "\<exists>lease. find_by obj_key (ns, leaseName) (writer_leases w') = Some lease
     \<and> current_holder lease = holder \<and> current_epoch lease = grant_epoch g
     \<and> is_controlled_by lease workflow \<and> grant_holder g = holder"
proof -
  from assms(1) obtain lease v where get: "k_get WriterLeases ns leaseName w = (Inr lease, v)"
    and rest: "(case acquire_decision workflow leaseName holder expectedEpoch now lease of
        Inl e \<Rightarrow> raise e
      | Inr (Settled grant state) \<Rightarrow> ret (grant, state)
      | Inr (Swap lease' grant) \<Rightarrow>
          bind_io (k_update WriterLeases lease') (\<lambda>_. ret (grant, WorkspaceWriterGranted))) v
      = (Inr (g, WorkspaceWriterGranted), w')"
    by (rule bind_io_result)
  have found: "find_by obj_key (ns, leaseName) (writer_leases v) = Some lease"
    using writer_lease_kind.get_result(1) [OF get] by (simp add: WriterLeases_def)
  show ?thesis
  proof (cases "acquire_decision workflow leaseName holder expectedEpoch now lease")
    case (Inl e)
    with rest show ?thesis by (simp add: raise_def)
  next
    case (Inr out)
    show ?thesis
    proof (cases out)
      case (Settled grant state)
      with Inr rest have eq: "state = WorkspaceWriterGranted" "grant = g" "w' = v"
        by (simp_all add: ret_def)
      then show ?thesis
        using acquire_decision_granted [of workflow leaseName holder expectedEpoch now lease g] Settled Inr found
        by auto
    next
      case (Swap lease' grant)
      note d = acquire_decision_swap [OF Inr [unfolded Swap]]
      from rest Inr Swap have "bind_io (k_update WriterLeases lease') (\<lambda>_. ret (grant, WorkspaceWriterGranted)) v
          = (Inr (g, WorkspaceWriterGranted), w')" by simp
      then obtain y where upd: "k_update WriterLeases lease' v = (Inr y, w')" and g: "grant = g"
        by (auto simp: ret_def elim: bind_io_result)
      have key: "obj_key lease' = (ns, leaseName)"
        using obj_key_meta [OF d(7)] find_by_set [OF found] by simp
      from upd obtain cur where "y = updated_object lease' cur"
        and "find_by obj_key (ns, leaseName) (items WriterLeases w') = Some y"
        by (rule writer_lease_kind.update_result) (simp only: key)
      then show ?thesis
        using d g by (auto simp: WriterLeases_def is_controlled_by_def)
    qed
  qed
qed

lemma release_attempt_done:
  assumes "grant_holder grant \<noteq> ''''"
  shows "triple honest (bind_io (attempt_io (k_get WriterLeases ns (grant_lease grant))) (\<lambda>r.
      case r of
        Inl e \<Rightarrow> (if e = NotFound then ret () else raise e)
      | Inr lease \<Rightarrow> (case release_decision grant now lease of
           None \<Rightarrow> ret ()
         | Some lease' \<Rightarrow> bind_io (k_update WriterLeases lease') (\<lambda>_. ret ()))))
    (\<lambda>_ w. \<forall>lease. find_by obj_key (ns, grant_lease grant) (writer_leases w) = Some lease \<longrightarrow>
        deletion (meta lease) \<noteq> None \<or> current_holder lease \<noteq> grant_holder grant
        \<or> current_epoch lease \<noteq> grant_epoch grant)
    (\<lambda>_. honest)" (is "triple _ _ ?Q _")
proof (rule triple_bind)
  show "triple honest (attempt_io (k_get WriterLeases ns (grant_lease grant)))
    (\<lambda>r w. honest w \<and> (case r of
        Inl e \<Rightarrow> e = NotFound \<longrightarrow> find_by obj_key (ns, grant_lease grant) (writer_leases w) = None
      | Inr lease \<Rightarrow> find_by obj_key (ns, grant_lease grant) (writer_leases w) = Some lease)) (\<lambda>_. honest)"
    by (rule triple_weaken [OF triple_attempt [OF writer_lease_kind.honest_get]])
      (auto simp: WriterLeases_def split: sum.splits)
next
  fix r :: "go_error + writer_lease"
  show "triple (\<lambda>w. honest w \<and> (case r of
        Inl e \<Rightarrow> e = NotFound \<longrightarrow> find_by obj_key (ns, grant_lease grant) (writer_leases w) = None
      | Inr lease \<Rightarrow> find_by obj_key (ns, grant_lease grant) (writer_leases w) = Some lease))
    (case r of Inl e \<Rightarrow> (if e = NotFound then ret () else raise e)
      | Inr lease \<Rightarrow> (case release_decision grant now lease of
           None \<Rightarrow> ret ()
         | Some lease' \<Rightarrow> bind_io (k_update WriterLeases lease') (\<lambda>_. ret ()))) ?Q (\<lambda>_. honest)"
  proof (cases r)
    case (Inl e)
    then show ?thesis by (simp add: triple_def ret_def raise_def)
  next
    case (Inr lease)
    show ?thesis
    proof (cases "release_decision grant now lease")
      case None
      then show ?thesis using Inr assms
        by (auto simp: triple_def ret_def release_decision_def split: if_splits)
    next
      case (Some lease')
      note d = release_decision_Some [OF Some]
      have upd: "?Q () w'"
        if "k_update WriterLeases lease' w = (Inr y, w')" "honest w" "obj_key lease = (ns, grant_lease grant)"
        for w y w'
        using triple_resultD [OF writer_lease_kind.honest_update that(2,1)] d(3) assms that(3)
          obj_key_meta [OF d(5)]
        by (auto simp: WriterLeases_def)
      have err: "honest w'" if "k_update WriterLeases lease' w = (Inl e, w')" "honest w" for w e w'
        using triple_errorD [OF writer_lease_kind.honest_update that(2,1)] .
      show ?thesis
        unfolding Inr Some sum.case option.case
      proof (rule tripleI)
        fix w x w'
        assume pre: "honest w \<and> find_by obj_key (ns, grant_lease grant) (writer_leases w) = Some lease"
          and run: "bind_io (k_update WriterLeases lease') (\<lambda>_. ret ()) w = (Inr x, w')"
        from run obtain y where "k_update WriterLeases lease' w = (Inr y, w')"
          by (auto simp: ret_def elim: bind_io_result)
        from upd [OF this] pre find_by_set [of obj_key "(ns, grant_lease grant)"] show "?Q x w'" by blast
      next
        fix w e w'
        assume pre: "honest w \<and> find_by obj_key (ns, grant_lease grant) (writer_leases w) = Some lease"
          and run: "bind_io (k_update WriterLeases lease') (\<lambda>_. ret ()) w = (Inl e, w')"
        from run have "k_update WriterLeases lease' w = (Inl e, w')"
          by (auto simp: bind_io_def ret_def split: prod.splits sum.splits)
        from err [OF this] pre show "honest w'" by simp
      qed
    qed
  qed
qed

lemma decreasing_distinct: "sorted_wrt (>) (xs :: int list) \<Longrightarrow> distinct xs"
  by (induction xs) auto

subsection \<open>An example run\<close>

definition demo_workflow :: namespace where
  "demo_workflow = \<lparr>meta = bare_meta ''t'' ''wf'' ''u1'', spec = (), status = ()\<rparr>"

definition demo_lease :: writer_lease where
  "demo_lease = \<lparr>meta = (bare_meta ''t'' ''wl'' ''u2'')\<lparr>controller_owner :=
       Some \<lparr>owner_apiVersion = group_version, owner_kind = ''SovereignWorkflow'', owner_name = ''wf'', owner_uid = ''u1''\<rparr>\<rparr>,
     spec = \<lparr>holderIdentity = None, acquireTime = None, renewTime = None, leaseTransitions = Some 0\<rparr>,
     status = ()\<rparr>"

definition demo_cluster :: cluster where
  "demo_cluster = empty_cluster\<lparr>writer_leases := [demo_lease]\<rparr>"

definition demo_start :: writer_system where
  "demo_start = \<lparr>sys_lease = demo_lease, copies = [], grants = []\<rparr>"

definition demo_granted :: writer_system where
  "demo_granted = \<lparr>sys_lease = updated_object (demo_lease\<lparr>spec := \<lparr>holderIdentity = Some ''a'',
       acquireTime = Some 5, renewTime = Some 5, leaseTransitions = Some 1\<rparr>\<rparr>) demo_lease,
     copies = [(''a'', demo_lease)], grants = [(''a'', 1)]\<rparr>"

definition demo_released :: writer_system where
  "demo_released = demo_granted\<lparr>sys_lease := updated_object ((sys_lease demo_granted)\<lparr>spec :=
       \<lparr>holderIdentity = Some '''', acquireTime = None, renewTime = Some 6, leaseTransitions = Some 1\<rparr>\<rparr>)
         (sys_lease demo_granted),
     copies := [(''a'', sys_lease demo_granted), (''a'', demo_lease)]\<rparr>"

lemma demo_fresh: "fresh_lease demo_start"
  by (simp add: fresh_lease_def demo_start_def demo_lease_def current_holder_def current_epoch_def)

lemma demo_acquires:
  "acquire_decision demo_workflow ''wl'' ''a'' 0 5 demo_lease = Inr (Swap (demo_lease\<lparr>spec :=
     \<lparr>holderIdentity = Some ''a'', acquireTime = Some 5, renewTime = Some 5, leaseTransitions = Some 1\<rparr>\<rparr>)
     \<lparr>grant_lease = ''wl'', grant_holder = ''a'', grant_epoch = 1\<rparr>)"
  by (simp add: acquire_decision_def Let_def demo_lease_def demo_workflow_def is_controlled_by_def
      current_holder_def current_epoch_def max_int32_def)

lemma demo_reach_granted: "writer_reach demo_workflow ''wl'' demo_start demo_granted"
proof -
  let ?s = "demo_start\<lparr>copies := (''a'', sys_lease demo_start) # copies demo_start\<rparr>"
  have "writer_step demo_workflow ''wl'' ?s demo_granted"
    using writer_step.acquire [where s = ?s, OF _ _ demo_acquires]
    by (simp add: demo_start_def demo_granted_def)
  moreover have "writer_step demo_workflow ''wl'' demo_start ?s" by (rule writer_step.read)
  ultimately show ?thesis by (blast intro: writer_reach.intros)
qed

lemma demo_reach_released: "writer_reach demo_workflow ''wl'' demo_start demo_released"
proof -
  let ?s = "demo_granted\<lparr>copies := (''a'', sys_lease demo_granted) # copies demo_granted\<rparr>"
  have "release_decision \<lparr>grant_lease = ''wl'', grant_holder = ''a'', grant_epoch = 1\<rparr> 6 (sys_lease demo_granted)
     = Some ((sys_lease demo_granted)\<lparr>spec := \<lparr>holderIdentity = Some '''', acquireTime = None,
        renewTime = Some 6, leaseTransitions = Some 1\<rparr>\<rparr>)"
    by (simp add: release_decision_def demo_granted_def demo_lease_def current_holder_def
        current_epoch_def updated_object_def)
  from writer_step.release [where s = ?s and h = "''a''" and workflow = demo_workflow and leaseName = "''wl''", OF _ this]
  have "writer_step demo_workflow ''wl'' ?s demo_released"
    by (simp add: demo_released_def) (simp add: demo_granted_def)
  moreover have "writer_step demo_workflow ''wl'' demo_granted ?s" by (rule writer_step.read)
  ultimately show ?thesis using demo_reach_granted by (blast intro: writer_reach.intros)
qed

subsection \<open>Properties\<close>

text \<open>
  C3: From a freshly created lease, however many controllers read and write it concurrently
  and wherever they stop, the terms granted have strictly increasing epochs between 1 and the
  largest int32, so no epoch is ever granted to two writers; and a writer that the lease shows as its holder
  is the one granted last, under the epoch shown.
\<close>

theorem writer_terms_increase:
  assumes "fresh_lease s" and "writer_reach workflow leaseName s t"
  shows "sorted_wrt (>) (map snd (grants t)) \<and> distinct (map snd (grants t))
    \<and> (\<forall>e \<in> set (map snd (grants t)). 1 \<le> e \<and> e \<le> max_int32)
    \<and> (current_holder (sys_lease t) \<noteq> '''' \<longrightarrow>
         hd (grants t) = (current_holder (sys_lease t), current_epoch (sys_lease t)))"
proof -
  have inv: "writer_inv t" using writer_inv_reach [OF assms(2) writer_inv_fresh [OF assms(1)]] .
  then have sorted: "sorted_wrt (>) (map snd (grants t))"
    by (simp add: writer_inv_def sorted_wrt_map case_prod_unfold)
  moreover have "distinct (map snd (grants t))" using decreasing_distinct [OF sorted] .
  ultimately show ?thesis using inv by (auto simp: writer_inv_def)
qed

theorem writer_terms_increase_witness:
  "sorted_wrt (>) (map snd (grants demo_granted)) \<and> grants demo_granted = [(''a'', 1)]"
  using writer_terms_increase [OF demo_fresh demo_reach_granted]
  by (simp add: demo_granted_def)

text \<open>
  C4: A term that has ended never comes back: once the lease no longer shows holder \<open>h\<close> at
  epoch \<open>e\<close>, every later attempt of \<open>h\<close> that presents epoch \<open>e\<close> is answered Lost, never Granted,
  and does not touch the lease.
\<close>

theorem writer_ended_term_is_lost:
  assumes "fresh_lease s" and "writer_reach workflow leaseName s t" and "term_over t h e"
    and "writer_reach workflow leaseName t u" and "is_controlled_by (sys_lease u) workflow"
  shows "acquire_decision workflow leaseName h e now (sys_lease u) =
    Inr (Settled \<lparr>grant_lease = leaseName, grant_holder = h, grant_epoch = e\<rparr> WorkspaceWriterLost)"
proof -
  have inv: "writer_inv t" using writer_inv_reach [OF assms(2) writer_inv_fresh [OF assms(1)]] .
  have "term_over u h e" using term_over_reach [OF assms(4) inv assms(3)] .
  moreover have "e > 0" using inv assms(3) by (auto simp: writer_inv_def term_over_def)
  ultimately show ?thesis using assms(5) by (auto simp: acquire_decision_def term_over_def)
qed

theorem writer_ended_term_is_lost_witness:
  "acquire_decision demo_workflow ''wl'' ''a'' 1 7 (sys_lease demo_released) =
    Inr (Settled \<lparr>grant_lease = ''wl'', grant_holder = ''a'', grant_epoch = 1\<rparr> WorkspaceWriterLost)"
proof (rule writer_ended_term_is_lost)
  show "fresh_lease demo_start" by (rule demo_fresh)
  show "writer_reach demo_workflow ''wl'' demo_start demo_released" by (rule demo_reach_released)
  show "term_over demo_released ''a'' 1"
    by (simp add: term_over_def demo_released_def demo_granted_def current_holder_def)
  show "writer_reach demo_workflow ''wl'' demo_released demo_released" by (rule writer_reach.start)
  show "is_controlled_by (sys_lease demo_released) demo_workflow"
    by (simp add: is_controlled_by_def demo_released_def demo_granted_def demo_lease_def demo_workflow_def
        updated_object_def)
qed

text \<open>
  C17: A granted acquisition is on record: whatever calls failed, raced or were retried on the
  way, when \<open>AcquireWorkspaceWriter\<close> answers Granted the cluster holds the lease, controlled by
  the workflow, with the caller's identity as holder at the epoch of the grant.
\<close>

theorem acquire_granted_is_recorded:
  assumes "acquire_workspace_writer workflow leaseName kind object expectedEpoch now w
    = (Inr (g, WorkspaceWriterGranted), w')"
  shows "\<exists>lease. find_by obj_key (namespace_of workflow, leaseName) (writer_leases w') = Some lease
    \<and> workspace_writer_identity kind object = Inr (current_holder lease)
    \<and> current_epoch lease = grant_epoch g \<and> is_controlled_by lease workflow"
proof (cases "workspace_writer_identity kind object")
  case (Inl e)
  then show ?thesis using assms by (simp add: acquire_workspace_writer_def raise_def)
next
  case (Inr holder)
  from assms [unfolded acquire_workspace_writer_def Inr sum.case, THEN retry_on_conflict_resultD]
  obtain v where "bind_io (k_get WriterLeases (namespace_of workflow) leaseName) (\<lambda>lease.
      case acquire_decision workflow leaseName holder expectedEpoch now lease of
        Inl e \<Rightarrow> raise e
      | Inr (Settled grant state) \<Rightarrow> ret (grant, state)
      | Inr (Swap lease' grant) \<Rightarrow>
          bind_io (k_update WriterLeases lease') (\<lambda>_. ret (grant, WorkspaceWriterGranted))) v
    = (Inr (g, WorkspaceWriterGranted), w')" by blast
  from acquire_attempt_granted [OF this join_with_slash_nonempty [OF Inr]] Inr
  show ?thesis by auto
qed

theorem acquire_granted_is_recorded_witness:
  "\<exists>w' g. acquire_workspace_writer demo_workflow ''wl'' ''AgentRun'' demo_workflow 0 5 demo_cluster
     = (Inr (g, WorkspaceWriterGranted), w')
   \<and> (\<exists>lease. find_by obj_key (''t'', ''wl'') (writer_leases w') = Some lease \<and> current_epoch lease = grant_epoch g)"
proof -
  obtain g w' where run: "acquire_workspace_writer demo_workflow ''wl'' ''AgentRun'' demo_workflow 0 5 demo_cluster
     = (Inr (g, WorkspaceWriterGranted), w')"
    by (simp add: acquire_workspace_writer_def workspace_writer_identity_def retry_on_conflict_def
        eval_nat_numeral bind_io_def k_get_def k_update_def k_write_def acquire_decision_def Let_def
        demo_cluster_def demo_workflow_def demo_lease_def empty_cluster_def WriterLeases_def
        is_controlled_by_def current_holder_def current_epoch_def max_int32_def ret_def obj_key_def)
  show ?thesis using acquire_granted_is_recorded [OF run] run by (auto simp: demo_workflow_def)
qed

text \<open>
  A release that reports success has ended the term: the lease is gone, is being deleted,
  or no longer shows the holder and epoch of the grant, whatever calls failed, raced or were
  retried, as long as no read reports the lease absent while it is there.
\<close>

theorem release_ends_the_term:
  assumes "release_workspace_writer ns grant now w = (Inr (), w')" and "honest w"
    and "grant_lease grant \<noteq> ''''" and "grant_holder grant \<noteq> ''''" and "1 \<le> grant_epoch grant"
    and "find_by obj_key (ns, grant_lease grant) (writer_leases w') = Some lease"
  shows "deletion (meta lease) \<noteq> None \<or> current_holder lease \<noteq> grant_holder grant
    \<or> current_epoch lease \<noteq> grant_epoch grant"
proof -
  note released = triple_retry_io [OF release_attempt_done [OF assms(4), of ns now], of 4]
  show ?thesis
    using triple_resultD [OF released assms(2)] assms(1,3-6)
    by (auto simp: release_workspace_writer_def retry_on_conflict_def)
qed

theorem release_ends_the_term_witness:
  "\<exists>w' lease. release_workspace_writer ''t'' \<lparr>grant_lease = ''wl'', grant_holder = ''a'', grant_epoch = 1\<rparr> 6
       (demo_cluster\<lparr>writer_leases := [sys_lease demo_granted]\<rparr>) = (Inr (), w')
     \<and> find_by obj_key (''t'', ''wl'') (writer_leases w') = Some lease
     \<and> (deletion (meta lease) \<noteq> None \<or> current_holder lease \<noteq> ''a'' \<or> current_epoch lease \<noteq> 1)"
proof -
  obtain w' lease where run: "release_workspace_writer ''t'' \<lparr>grant_lease = ''wl'', grant_holder = ''a'', grant_epoch = 1\<rparr> 6
       (demo_cluster\<lparr>writer_leases := [sys_lease demo_granted]\<rparr>) = (Inr (), w')"
    and found: "find_by obj_key (''t'', ''wl'') (writer_leases w') = Some lease"
    by (simp add: release_workspace_writer_def retry_on_conflict_def eval_nat_numeral bind_io_def
        attempt_io_def k_get_def k_update_def k_write_def release_decision_def Let_def demo_cluster_def
        demo_granted_def demo_lease_def empty_cluster_def WriterLeases_def updated_object_def
        current_holder_def current_epoch_def ret_def obj_key_def)
  have "honest (demo_cluster\<lparr>writer_leases := [sys_lease demo_granted]\<rparr>)"
    by (simp add: honest_def demo_cluster_def empty_cluster_def)
  from release_ends_the_term [OF run this] found run show ?thesis by auto
qed

end
