(* ===== verification/Inference_Admission.thy ===== *)
theory Inference_Admission
  imports Cluster
begin

section \<open>Inference admission (internal/inference/admission.go, profile.go)\<close>

text \<open>
  \<open>Select\<close>, the pure decision on a lease request given snapshots of the endpoints and their
  leases: reuse an endpoint, evict leases of lower priority, create an endpoint, or wait; and
  the validation of the inference profile. Sizes are \<open>int64\<close> values whose sums wrap around as in
  Go. \<open>sort.Slice\<close> is modelled by a stable sort, which it is for up to twelve candidates; beyond
  that the order of candidates with the same priority and creation time is not determined.
\<close>

subsection \<open>Data\<close>

datatype admission_action = ActionReuse | ActionCreate | ActionEvict | ActionWait

record admission_decision =
  adm_action :: admission_action
  adm_endpointRef :: namespaced_reference
  adm_evictLeases :: "namespaced_reference list"
  adm_reason :: string

record endpoint_snapshot =
  snap_endpoint :: endpoint
  snap_leases :: "inference_lease list"

definition no_reference :: namespaced_reference where
  "no_reference = \<lparr>ns_namespace = '''', ns_name = ''''\<rparr>"

subsection \<open>Operations\<close>

definition compatible :: "inference_lease \<Rightarrow> endpoint \<Rightarrow> bool" where
  "compatible lease endpoint =
     (if il_model (spec lease) \<noteq> ep_model (spec endpoint)
         \<or> il_modelRevision (spec lease) \<noteq> ep_modelRevision (spec endpoint) then False
      else if il_tenant (spec lease) \<noteq> ep_tenant (spec endpoint)
         \<or> il_classification (spec lease) \<noteq> ep_classification (spec endpoint) then False
      else (case il_sharingScope (spec lease) of
          SharingDedicated \<Rightarrow> False
        | SharingWithinWorkflow \<Rightarrow>
            go_map_get (labels (meta endpoint)) ''sovereign-ai.io/workflow-id'' = ref_name (il_workflowRef (spec lease))
        | SharingWithinProject \<Rightarrow>
            go_map_get (labels (meta endpoint)) ''sovereign-ai.io/project'' = il_projectRef (spec lease)
        | SharingWithinTenant \<Rightarrow> True
        | SharingWithinClassification \<Rightarrow> True
        | OtherScope _ \<Rightarrow> False))"

definition available :: "endpoint \<Rightarrow> int" where
  "available endpoint =
     (let capacity = int64 (int64 (ep_maxKVRAMMiB (spec endpoint) - ep_safetyHeadroomMiB (spec endpoint))
                            - ep_allocatedKVRAMMiB (status endpoint))
      in if capacity < 0 then 0 else capacity)"

definition evictable_for :: "inference_lease \<Rightarrow> inference_lease \<Rightarrow> bool" where
  "evictable_for request lease \<longleftrightarrow> il_evictable (spec lease)
     \<and> il_priority (spec lease) < il_priority (spec request) \<and> il_phase (status lease) = PhaseRunning"

definition eviction_order :: "inference_lease \<Rightarrow> int \<times> int" where
  "eviction_order lease = (il_priority (spec lease), creation (meta lease))"

definition eviction_candidates :: "inference_lease \<Rightarrow> inference_lease list \<Rightarrow> inference_lease list" where
  "eviction_candidates request leases = sort_key eviction_order (filter (evictable_for request) leases)"

text \<open>
  The loop over the victims: \<open>avail\<close> and \<open>need\<close> stay fixed, \<open>freed\<close> and \<open>names\<close> grow; the names
  collected when the request fits.
\<close>

fun evict_loop ::
  "int \<Rightarrow> int \<Rightarrow> int \<Rightarrow> namespaced_reference list \<Rightarrow> inference_lease list \<Rightarrow> namespaced_reference list option"
where
  "evict_loop avail need freed names [] = None"
| "evict_loop avail need freed names (v # vs) =
     (let freed' = int64 (freed + il_estimatedKVRAMMiB (spec v));
          names' = names @ [reference_of v]
      in if int64 (avail + freed') \<ge> need then Some names'
         else evict_loop avail need freed' names' vs)"

fun select_from :: "inference_lease \<Rightarrow> endpoint_snapshot list \<Rightarrow> bool \<Rightarrow> admission_decision" where
  "select_from request [] allowCreate =
     (if allowCreate
      then \<lparr>adm_action = ActionCreate, adm_endpointRef = no_reference, adm_evictLeases = [],
            adm_reason = ''no compatible warm endpoint is available''\<rparr>
      else \<lparr>adm_action = ActionWait, adm_endpointRef = no_reference, adm_evictLeases = [],
            adm_reason = ''capacity is unavailable and endpoint creation is disabled''\<rparr>)"
| "select_from request (s # ss) allowCreate =
     (if \<not> compatible request (snap_endpoint s) then select_from request ss allowCreate
      else if available (snap_endpoint s) \<ge> il_estimatedKVRAMMiB (spec request) then
        \<lparr>adm_action = ActionReuse, adm_endpointRef = reference_of (snap_endpoint s), adm_evictLeases = [],
         adm_reason = ''compatible warm endpoint has capacity''\<rparr>
      else (case evict_loop (available (snap_endpoint s)) (il_estimatedKVRAMMiB (spec request)) 0 []
                   (eviction_candidates request (snap_leases s)) of
          Some names \<Rightarrow>
            \<lparr>adm_action = ActionEvict, adm_endpointRef = reference_of (snap_endpoint s), adm_evictLeases = names,
             adm_reason = ''higher-priority lease can reclaim KV budget''\<rparr>
        | None \<Rightarrow> select_from request ss allowCreate))"

subsection \<open>The inference profile\<close>

record inference_profile =
  pf_runtimeImage :: string
  pf_modelID :: string
  pf_modelRevision :: string
  pf_servedModelName :: string
  pf_dtype :: string
  pf_maxModelLen :: int
  pf_kvCacheMemoryBytes :: int
  pf_cachePVCName :: string
  pf_cachePath :: string
  pf_gpuNodeLabelKey :: string
  pf_gpuNodeLabelValue :: string
  pf_startupTimeout :: int
  pf_requestTimeout :: int
  pf_maxOutputTokens :: int
  pf_maxResponseBytes :: int

text \<open>\<open>hex.DecodeString\<close> rejects an odd number of digits, which both lengths used exclude.\<close>

definition valid_hex :: "string \<Rightarrow> nat \<Rightarrow> bool" where
  "valid_hex s n = (length s = n \<and> even n \<and> list_all is_hex s)"

text \<open>\<open>strings.Cut\<close> around the first occurrence of a separator.\<close>

fun cut_around :: "string \<Rightarrow> string \<Rightarrow> (string \<times> string) option" where
  "cut_around sep [] = (if sep = [] then Some ([], []) else None)"
| "cut_around sep (c # s) =
     (case cut_prefix (c # s) sep of
        Some rest \<Rightarrow> Some ([], rest)
      | None \<Rightarrow> (case cut_around sep s of None \<Rightarrow> None | Some (a, b) \<Rightarrow> Some (c # a, b)))"

definition validate_profile :: "inference_profile \<Rightarrow> go_error option" where
  "validate_profile p =
     (if (case cut_around ''@sha256:'' (pf_runtimeImage p) of
            None \<Rightarrow> True | Some (img, digest) \<Rightarrow> img = '''' \<or> \<not> valid_hex digest 64)
        then Some (Invalid ''runtime image must use a valid sha256 digest'')
      else if \<not> valid_hex (pf_modelRevision p) 40 then Some (Invalid ''invalid model revision'')
      else if blank (pf_modelID p) then Some (Invalid ''model id must not be empty or blank'')
      else if blank (pf_servedModelName p) then Some (Invalid ''served model name must not be empty or blank'')
      else if blank (pf_dtype p) then Some (Invalid ''model dtype must not be empty or blank'')
      else if pf_maxModelLen p \<le> 0 then Some (Invalid ''max model length must be > 0'')
      else if pf_kvCacheMemoryBytes p < 0 then Some (Invalid ''kv cache memory bytes must be >= 0'')
      else if blank (pf_gpuNodeLabelKey p) \<or> blank (pf_gpuNodeLabelValue p)
        then Some (Invalid ''gpu node label key selector and label value must not be empty or blank'')
      else if blank (pf_cachePVCName p) then Some (Invalid ''cache pvc name must not be empty or blank'')
      else if \<not> has_prefix (pf_cachePath p) ''/'' then Some (Invalid ''cache path must be absolute'')
      else if pf_requestTimeout p \<le> 0 then Some (Invalid ''request timeout must be > 0'')
      else if pf_startupTimeout p \<le> 0 then Some (Invalid ''startup timeout must be > 0'')
      else if pf_maxOutputTokens p \<le> 0 then Some (Invalid ''max output tokens must be > 0'')
      else if pf_maxResponseBytes p \<le> 0 then Some (Invalid ''max response bytes must be > 0'')
      else None)"

subsection \<open>What the decision means\<close>

text \<open>
  \<open>serves request s k\<close>: the endpoint of snapshot \<open>s\<close> may take the request, and its free KV budget
  and that of the \<open>k\<close> cheapest leases the request may evict are enough for it.
\<close>

definition freed_by :: "inference_lease list \<Rightarrow> int" where
  "freed_by ls = sum_list (map (\<lambda>l. il_estimatedKVRAMMiB (spec l)) ls)"

definition serves :: "inference_lease \<Rightarrow> endpoint_snapshot \<Rightarrow> nat \<Rightarrow> bool" where
  "serves request s k \<longleftrightarrow> compatible request (snap_endpoint s)
     \<and> k \<le> length (eviction_candidates request (snap_leases s))
     \<and> il_estimatedKVRAMMiB (spec request) \<le>
         int64 (available (snap_endpoint s) + freed_by (take k (eviction_candidates request (snap_leases s))))"

lemma int64_mod: "int64 x mod 2 ^ 64 = x mod 2 ^ 64"
  unfolding int64_def by (simp only: mod_diff_left_eq) simp

lemma int64_cong: "x mod 2 ^ 64 = y mod 2 ^ 64 \<Longrightarrow> int64 x = int64 y"
  unfolding int64_def using mod_add_cong [OF _ refl] by fastforce

lemma int64_add_left [simp]: "int64 (int64 x + y) = int64 (x + y)"
  by (rule int64_cong, rule mod_add_cong [OF int64_mod refl])

lemma int64_add_right [simp]: "int64 (x + int64 y) = int64 (x + y)"
  using int64_add_left [of y x] by (simp add: add.commute)

lemma available_int64 [simp]: "int64 (available e) = available e"
  using int64_range by (simp add: available_def Let_def)

lemma evict_loop_spec:
  "case evict_loop avail need freed names vs of
     None \<Rightarrow> \<forall>k. 0 < k \<and> k \<le> length vs \<longrightarrow> int64 (avail + (freed + freed_by (take k vs))) < need
   | Some ns \<Rightarrow> \<exists>k. 0 < k \<and> k \<le> length vs \<and> need \<le> int64 (avail + (freed + freed_by (take k vs)))
       \<and> (\<forall>j. 0 < j \<and> j < k \<longrightarrow> int64 (avail + (freed + freed_by (take j vs))) < need)
       \<and> ns = names @ map reference_of (take k vs)"
proof (induction avail need freed names vs rule: evict_loop.induct)
  case (1 avail need freed names)
  then show ?case by simp
next
  case (2 avail need freed names v vs)
  let ?e = "il_estimatedKVRAMMiB (spec v)"
  have shift: "int64 (avail + (int64 (freed + ?e) + freed_by (take k vs)))
      = int64 (avail + (freed + freed_by (take (Suc k) (v # vs))))" for k
  proof -
    have "int64 (avail + (int64 (freed + ?e) + freed_by (take k vs)))
        = int64 (int64 (freed + ?e) + (avail + freed_by (take k vs)))" by (simp only: add.left_commute)
    also have "\<dots> = int64 (freed + ?e + (avail + freed_by (take k vs)))" by (rule int64_add_left)
    finally show ?thesis by (simp add: freed_by_def algebra_simps)
  qed
  have one: "int64 (avail + int64 (freed + ?e)) = int64 (avail + (freed + freed_by (take (Suc 0) (v # vs))))"
    using shift [of 0] by (simp add: freed_by_def)
  show ?case
  proof (cases "need \<le> int64 (avail + int64 (freed + ?e))")
    case True
    then show ?thesis using one by (auto simp: Let_def intro!: exI [of _ "Suc 0"])
  next
    case False
    note IH = 2 [OF refl refl False, unfolded shift]
    show ?thesis
    proof (cases "evict_loop avail need (int64 (freed + ?e)) (names @ [reference_of v]) vs")
      case None
      have "int64 (avail + (freed + freed_by (take k (v # vs)))) < need" if "0 < k" "k \<le> length (v # vs)" for k
      proof (cases "k = Suc 0")
        case True
        then show ?thesis using False one by simp
      next
        case False
        with that obtain j where "k = Suc j" "0 < j" "j \<le> length vs" by (cases k) auto
        then show ?thesis using IH None by simp
      qed
      then show ?thesis using None False by (simp add: Let_def)
    next
      case (Some ns)
      from IH Some obtain k where k: "0 < k" "k \<le> length vs"
        "need \<le> int64 (avail + (freed + freed_by (take (Suc k) (v # vs))))"
        "\<forall>j. 0 < j \<and> j < k \<longrightarrow> int64 (avail + (freed + freed_by (take (Suc j) (v # vs)))) < need"
        "ns = (names @ [reference_of v]) @ map reference_of (take k vs)" by auto
      have "int64 (avail + (freed + freed_by (take j (v # vs)))) < need" if "0 < j" "j < Suc k" for j
      proof (cases "j = Suc 0")
        case True
        then show ?thesis using False one by simp
      next
        case False
        with that obtain i where "j = Suc i" "0 < i" "i < k" by (cases j) auto
        then show ?thesis using k(4) by blast
      qed
      then show ?thesis using Some False k by (auto simp: Let_def intro!: exI [of _ "Suc k"])
    qed
  qed
qed

lemma evict_loop_serves:
  assumes "compatible request (snap_endpoint s)"
    and "\<not> il_estimatedKVRAMMiB (spec request) \<le> available (snap_endpoint s)"
  shows "case evict_loop (available (snap_endpoint s)) (il_estimatedKVRAMMiB (spec request)) 0 []
           (eviction_candidates request (snap_leases s)) of
      None \<Rightarrow> \<forall>k. \<not> serves request s k
    | Some ns \<Rightarrow> \<exists>k>0. serves request s k \<and> (\<forall>j<k. \<not> serves request s j)
        \<and> ns = map reference_of (take k (eviction_candidates request (snap_leases s)))"
proof -
  have zero: "\<not> serves request s 0" using assms by (simp add: serves_def freed_by_def)
  let ?cs = "eviction_candidates request (snap_leases s)"
  let ?r = "evict_loop (available (snap_endpoint s)) (il_estimatedKVRAMMiB (spec request)) 0 [] ?cs"
  note loop = evict_loop_spec [where avail = "available (snap_endpoint s)"
      and need = "il_estimatedKVRAMMiB (spec request)" and freed = 0 and names = "[]" and vs = ?cs]
  show ?thesis
  proof (cases ?r)
    case None
    have "\<not> serves request s k" for k
      using loop None zero by (cases "k = 0") (auto simp: serves_def not_le)
    then show ?thesis using None by simp
  next
    case (Some ns)
    with loop obtain k where k: "0 < k" "k \<le> length ?cs"
      "il_estimatedKVRAMMiB (spec request) \<le> int64 (available (snap_endpoint s) + freed_by (take k ?cs))"
      "\<forall>j. 0 < j \<and> j < k \<longrightarrow> int64 (available (snap_endpoint s) + freed_by (take j ?cs)) < il_estimatedKVRAMMiB (spec request)"
      "ns = map reference_of (take k ?cs)" by auto
    have "\<not> serves request s j" if "j < k" for j
      using k(4) that zero by (cases "j = 0") (auto simp: serves_def not_le)
    then show ?thesis using k Some assms by (auto simp: serves_def intro!: exI [of _ k])
  qed
qed

lemma eviction_candidates_set:
  "set (eviction_candidates request ls) = {l \<in> set ls. evictable_for request l}"
  by (auto simp: eviction_candidates_def)

lemma eviction_candidates_sorted:
  "sorted (map eviction_order (eviction_candidates request ls))"
  by (simp add: eviction_candidates_def)

text \<open>The first snapshot that serves, with the least number of evictions.\<close>

lemma select_from_first:
  "(\<exists>pre s post k. snaps = pre @ s # post \<and> (\<forall>p \<in> set pre. \<forall>j. \<not> serves request p j)
      \<and> serves request s k \<and> (\<forall>j < k. \<not> serves request s j)
      \<and> adm_action (select_from request snaps allow) = (if k = 0 then ActionReuse else ActionEvict)
      \<and> adm_endpointRef (select_from request snaps allow) = reference_of (snap_endpoint s)
      \<and> adm_evictLeases (select_from request snaps allow)
          = map reference_of (take k (eviction_candidates request (snap_leases s))))
   \<or> (\<forall>p \<in> set snaps. \<forall>j. \<not> serves request p j)
      \<and> adm_action (select_from request snaps allow) = (if allow then ActionCreate else ActionWait)
      \<and> adm_evictLeases (select_from request snaps allow) = []"
  (is "?P snaps \<or> ?N snaps")
proof (induction snaps)
  case Nil
  then show ?case by simp
next
  case (Cons s snaps)
  have skip: "?P (s # snaps) \<or> ?N (s # snaps)"
    if none: "\<forall>j. \<not> serves request s j" and eq: "select_from request (s # snaps) allow = select_from request snaps allow"
    using Cons
  proof
    assume "?P snaps"
    then obtain pre t post k where *: "snaps = pre @ t # post" "\<forall>p \<in> set pre. \<forall>j. \<not> serves request p j"
      "serves request t k" "\<forall>j < k. \<not> serves request t j"
      "adm_action (select_from request snaps allow) = (if k = 0 then ActionReuse else ActionEvict)"
      "adm_endpointRef (select_from request snaps allow) = reference_of (snap_endpoint t)"
      "adm_evictLeases (select_from request snaps allow)
          = map reference_of (take k (eviction_candidates request (snap_leases t)))" by blast
    have "?P (s # snaps)"
      by (rule exI [of _ "s # pre"], rule exI [of _ t], rule exI [of _ post], rule exI [of _ k])
        (use * none eq in simp_all)
    then show ?thesis ..
  next
    assume "?N snaps"
    then show ?thesis using none eq by simp
  qed
  show ?case
  proof (cases "compatible request (snap_endpoint s)")
    case False
    then show ?thesis by (intro skip) (simp_all add: serves_def)
  next
    case comp: True
    show ?thesis
    proof (cases "il_estimatedKVRAMMiB (spec request) \<le> available (snap_endpoint s)")
      case True
      then have "serves request s 0" using comp by (simp add: serves_def freed_by_def)
      then have "?P (s # snaps)"
        by (intro exI [of _ "[]"] exI [of _ s] exI [of _ snaps] exI [of _ 0]) (use True comp in simp_all)
      then show ?thesis ..
    next
      case False
      note loop = evict_loop_serves [OF comp False]
      show ?thesis
      proof (cases "evict_loop (available (snap_endpoint s)) (il_estimatedKVRAMMiB (spec request)) 0 []
           (eviction_candidates request (snap_leases s))")
        case None
        then show ?thesis using loop comp False by (intro skip) simp_all
      next
        case (Some ns)
        with loop obtain k where k: "k > 0" "serves request s k" "\<forall>j<k. \<not> serves request s j"
          "ns = map reference_of (take k (eviction_candidates request (snap_leases s)))" by auto
        then have "?P (s # snaps)"
          by (intro exI [of _ "[]"] exI [of _ s] exI [of _ snaps] exI [of _ k]) (use Some comp False in simp_all)
        then show ?thesis ..
      qed
    qed
  qed
qed

subsection \<open>Properties\<close>

definition sample_request :: "int \<Rightarrow> int \<Rightarrow> resource_phase \<Rightarrow> string \<Rightarrow> inference_lease" where
  "sample_request kv prio phase n =
     \<lparr>meta = bare_meta ''team'' n ('' u'' @ n),
      spec = \<lparr>il_workflowRef = \<lparr>ref_name = ''wf'', ref_uid = ''u''\<rparr>, il_attemptRef = ''a'', il_projectRef = ''p'',
        il_tenant = ''t'', il_classification = ''c'', il_sharingScope = SharingWithinTenant,
        il_model = ''m'', il_modelRevision = ''r'', il_estimatedKVRAMMiB = kv, il_priority = prio,
        il_evictable = True\<rparr>,
      status = \<lparr>il_observedGeneration = 0, il_phase = phase,
        il_endpointRef = \<lparr>ns_namespace = ''i'', ns_name = ''e''\<rparr>, il_endpointURL = '''', il_decisionID = '''',
        il_reason = '''', il_conditions = []\<rparr>\<rparr>"

definition sample_endpoint :: "int \<Rightarrow> string \<Rightarrow> endpoint" where
  "sample_endpoint allocated n =
     \<lparr>meta = bare_meta ''i'' n (''u'' @ n),
      spec = \<lparr>ep_provider = ''vllm'', ep_model = ''m'', ep_modelRevision = ''r'', ep_runtimeImage = '''',
        ep_tenant = ''t'', ep_classification = ''c'', ep_sharingScope = SharingWithinTenant,
        ep_staticVRAMMiB = 0, ep_maxKVRAMMiB = 100, ep_safetyHeadroomMiB = 10, ep_idleTTL = None\<rparr>,
      status = \<lparr>ep_observedGeneration = 0, ep_phase = PhaseRunning, ep_podRef = '''', ep_serviceRef = '''',
        ep_nodeName = '''', ep_deviceName = '''', ep_allocatedKVRAMMiB = allocated, ep_activeLeaseCount = 0,
        ep_activeLeases = [], ep_lastUsedAt = None, ep_conditions = []\<rparr>\<rparr>"

definition sample_snapshots :: "endpoint_snapshot list" where
  "sample_snapshots = [\<lparr>snap_endpoint = sample_endpoint 85 ''e'',
      snap_leases = [sample_request 40 1 PhaseRunning ''x'', sample_request 45 0 PhaseRunning ''y'']\<rparr>]"

lemma sample_eviction:
  "adm_action (select_from (sample_request 30 5 PhasePending ''q'') sample_snapshots True) = ActionEvict"
  by (simp add: sample_snapshots_def sample_request_def sample_endpoint_def compatible_def available_def Let_def
      eviction_candidates_def evictable_for_def eviction_order_def)

text \<open>
  C22: \<open>Select\<close> answers with the first snapshot that can serve the request, evicting the least
  number of the cheapest evictable leases that makes room there (none where the endpoint is
  reused); it creates an endpoint or waits exactly when no snapshot can serve the request even
  if everything the request outranks is evicted.
\<close>

theorem select_takes_first_that_serves:
  assumes "d = select_from request snaps allow"
  shows "(\<exists>pre s post k. snaps = pre @ s # post \<and> (\<forall>p \<in> set pre. \<forall>j. \<not> serves request p j)
      \<and> serves request s k \<and> (\<forall>j < k. \<not> serves request s j)
      \<and> adm_action d = (if k = 0 then ActionReuse else ActionEvict)
      \<and> adm_endpointRef d = reference_of (snap_endpoint s)
      \<and> adm_evictLeases d = map reference_of (take k (eviction_candidates request (snap_leases s))))
   \<or> (\<forall>p \<in> set snaps. \<forall>j. \<not> serves request p j)
      \<and> adm_action d = (if allow then ActionCreate else ActionWait) \<and> adm_evictLeases d = []"
  unfolding assms by (rule select_from_first)

theorem select_takes_first_that_serves_witness:
  "\<exists>pre s post k. sample_snapshots = pre @ s # post \<and> serves (sample_request 30 5 PhasePending ''q'') s k \<and> k > 0"
proof -
  note disj = select_takes_first_that_serves [OF refl,
      where request = "sample_request 30 5 PhasePending ''q''" and snaps = sample_snapshots and allow = True]
  from disj show ?thesis
  proof (elim disjE exE conjE)
    fix pre s post k
    assume a: "sample_snapshots = pre @ s # post" "serves (sample_request 30 5 PhasePending ''q'') s k"
      "adm_action (select_from (sample_request 30 5 PhasePending ''q'') sample_snapshots True)
        = (if k = 0 then ActionReuse else ActionEvict)"
    then have "k > 0" using sample_eviction by (cases "k = 0") simp_all
    with a show ?thesis by blast
  qed (use sample_eviction in simp)
qed

text \<open>
  C23: Nobody is evicted by an equal: every lease \<open>Select\<close> evicts is a running, evictable lease
  of the chosen endpoint with strictly lower priority than the request, and no lease it spares
  there and could have evicted comes before one it evicts (lower priority, or same priority and older).
\<close>

theorem evicted_leases_are_the_cheapest:
  assumes "adm_action (select_from request snaps allow) = ActionEvict"
  shows "\<exists>s \<in> set snaps. \<exists>victims spared.
      adm_endpointRef (select_from request snaps allow) = reference_of (snap_endpoint s)
    \<and> adm_evictLeases (select_from request snaps allow) = map reference_of victims \<and> victims \<noteq> []
    \<and> set (victims @ spared) = {l \<in> set (snap_leases s). evictable_for request l}
    \<and> (\<forall>v \<in> set victims. il_priority (spec v) < il_priority (spec request) \<and> il_phase (status v) = PhaseRunning
         \<and> (\<forall>l \<in> set spared. eviction_order v \<le> eviction_order l))"
proof -
  obtain s k where s: "s \<in> set snaps" and k: "k > 0" "serves request s k"
    and ref: "adm_endpointRef (select_from request snaps allow) = reference_of (snap_endpoint s)"
    and ev: "adm_evictLeases (select_from request snaps allow)
       = map reference_of (take k (eviction_candidates request (snap_leases s)))"
    using select_from_first [of snaps request allow]
  proof (elim disjE exE conjE)
    fix pre s post k
    assume a: "snaps = pre @ s # post" "serves request s k"
      "adm_action (select_from request snaps allow) = (if k = 0 then ActionReuse else ActionEvict)"
      "adm_endpointRef (select_from request snaps allow) = reference_of (snap_endpoint s)"
      "adm_evictLeases (select_from request snaps allow)
         = map reference_of (take k (eviction_candidates request (snap_leases s)))"
    have "s \<in> set snaps" using a(1) by simp
    moreover have "k > 0" using a(3) assms by (cases "k = 0") simp_all
    ultimately show thesis by (rule that [OF _ _ a(2,4,5)])
  next
    assume "adm_action (select_from request snaps allow) = (if allow then ActionCreate else ActionWait)"
    then show thesis using assms by (cases allow) simp_all
  qed
  let ?c = "eviction_candidates request (snap_leases s)"
  have all: "set (take k ?c @ drop k ?c) = {l \<in> set (snap_leases s). evictable_for request l}"
    by (simp add: eviction_candidates_set)
  have sep: "eviction_order v \<le> eviction_order l" if "v \<in> set (take k ?c)" "l \<in> set (drop k ?c)" for v l
  proof -
    have "sorted (map eviction_order (take k ?c) @ map eviction_order (drop k ?c))"
      using eviction_candidates_sorted by (metis append_take_drop_id map_append)
    with that show ?thesis by (auto simp: sorted_append)
  qed
  have ne: "take k ?c \<noteq> []" using k by (auto simp: serves_def)
  have low: "il_priority (spec v) < il_priority (spec request) \<and> il_phase (status v) = PhaseRunning"
    if "v \<in> set (take k ?c)" for v
    using in_set_takeD [OF that] by (simp add: eviction_candidates_set evictable_for_def)
  show ?thesis
    using s ref ev ne all low sep by blast
qed

theorem evicted_leases_are_the_cheapest_witness:
  "\<exists>victims :: inference_lease list. adm_evictLeases (select_from (sample_request 30 5 PhasePending ''q'') sample_snapshots True)
    = map reference_of victims \<and> victims \<noteq> []"
  using evicted_leases_are_the_cheapest [OF sample_eviction]
  by blast

text \<open>
  The decision looks at one snapshot after the other: an earlier endpoint where it can evict
  is taken although a later one has room.
\<close>

lemma select_evicts_although_room_is_left:
  "adm_action (select_from (sample_request 30 5 PhasePending ''q'')
      [\<lparr>snap_endpoint = sample_endpoint 85 ''e'', snap_leases = [sample_request 40 1 PhaseRunning ''x'']\<rparr>,
       \<lparr>snap_endpoint = sample_endpoint 0 ''f'', snap_leases = []\<rparr>] True) = ActionEvict"
  by (simp add: sample_request_def sample_endpoint_def compatible_def available_def Let_def
      eviction_candidates_def evictable_for_def eviction_order_def)

end
