(* ===== verification/Inference_Lease.thy ===== *)
theory Inference_Lease
  imports Inference_Admission Phase_Machine
begin

section \<open>The inference lease controller (internal/controllers/inference_lease_controller.go)\<close>

text \<open>
  The reconciler of inference leases over the cluster: admission under the policy, binding to an
  endpoint with its KV budget, creation of endpoints, eviction, release and deletion. Parameters
  of the model (\<open>lease_env\<close>): SHA-256, the JSON encoder of the decision input, the policy engine
  (a third-party evaluator; \<open>None\<close> where the field is nil) and the reconciler's configuration.
\<close>

subsection \<open>Configuration and queries\<close>

record policy_decision =
  pd_id :: string
  pd_allowed :: bool
  pd_reasons :: "string list"

record lease_query =
  q_model :: string
  q_modelRevision :: string
  q_tenant :: string
  q_classification :: string
  q_sharingScope :: sharing_scope
  q_priority :: int

datatype policy_query =
    ShareQuery lease_query string string string string
  | CreateQuery lease_query

record lease_env =
  env_sha :: "string \<Rightarrow> string"
  env_marshal :: "lease_spec \<Rightarrow> namespaced_reference \<Rightarrow> string \<Rightarrow> string \<Rightarrow> string"
  env_policy :: "(policy_query \<Rightarrow> go_error + policy_decision) option"
  env_staticVRAMMiB :: int
  env_maxKVRAMMiB :: int
  env_headroomMiB :: int
  env_runtimeImage :: string

definition inference_namespace :: string where
  "inference_namespace = ''sovereign-inference''"

definition lease_finalizer :: string where
  "lease_finalizer = ''sovereign-ai.io/inference-reservation-release''"

definition release_annotation :: string where
  "release_annotation = ''sovereign-ai.io/inference-lease-release-request''"

definition scope_text :: "sharing_scope \<Rightarrow> string" where
  "scope_text s = (case s of SharingDedicated \<Rightarrow> ''Dedicated'' | SharingWithinWorkflow \<Rightarrow> ''SharedWithinWorkflow''
     | SharingWithinProject \<Rightarrow> ''SharedWithinProject'' | SharingWithinTenant \<Rightarrow> ''SharedWithinTenant''
     | SharingWithinClassification \<Rightarrow> ''SharedWithinClassification'' | OtherScope t \<Rightarrow> t)"

text \<open>\<open>endpointName\<close>: \<open>fmt.Sprint\<close> of the slice, in brackets with blanks between the parts.\<close>

definition sprint_list :: "string list \<Rightarrow> string" where
  "sprint_list xs = ''['' @ join_with '' '' xs @ '']''"

definition endpoint_name :: "lease_env \<Rightarrow> string list \<Rightarrow> string" where
  "endpoint_name r parts = ''vllm-'' @ take 12 (env_sha r (sprint_list parts))"

definition inference_policy_request :: "inference_lease \<Rightarrow> lease_query" where
  "inference_policy_request lease =
     \<lparr>q_model = il_model (spec lease), q_modelRevision = il_modelRevision (spec lease),
      q_tenant = il_tenant (spec lease), q_classification = il_classification (spec lease),
      q_sharingScope = il_sharingScope (spec lease), q_priority = il_priority (spec lease)\<rparr>"

subsection \<open>Audit events\<close>

definition inference_lease_event_data :: "inference_lease \<Rightarrow> event_data" where
  "inference_lease_event_data lease = Fields
     [(''model'', JString (il_model (spec lease))),
      (''modelRevision'', JString (il_modelRevision (spec lease))),
      (''tenant'', JString (il_tenant (spec lease))),
      (''classification'', JString (il_classification (spec lease))),
      (''sharingScope'', JString (scope_text (il_sharingScope (spec lease)))),
      (''estimatedKVRAMMiB'', JInt (il_estimatedKVRAMMiB (spec lease))),
      (''priority'', JInt (il_priority (spec lease))),
      (''evictable'', JBool (il_evictable (spec lease)))]"

definition append_lease_event_with_data ::
  "lease_env \<Rightarrow> inference_lease \<Rightarrow> string \<Rightarrow> string \<Rightarrow> string \<Rightarrow> string \<Rightarrow> string
   \<Rightarrow> (string \<times> string) list \<Rightarrow> event_data \<Rightarrow> unit action" where
  "append_lease_event_with_data r lease eventType action target outcome reason references payload =
     append_controller_event (env_sha r) ''inferencelease-controller''
       \<lparr>op_instanceID = '''', op_source = '''', op_type = eventType, op_occurredAt = None,
        op_actor = \<lparr>actor_kind = '''', actor_id = ''''\<rparr>, op_requester = None,
        op_subject = \<lparr>sub_project = il_projectRef (spec lease), sub_namespace = namespace_of lease,
          sub_workflow = ref_name (il_workflowRef (spec lease)), sub_step = '''', sub_attempt = 0\<rparr>,
        op_action = action, op_target = target, op_outcome = outcome, op_reason = reason,
        op_correlationID = '''', op_causationID = '''',
        op_decisionID = (case payload of DecisionData d \<Rightarrow> dr_id (de_decision d) | _ \<Rightarrow> il_decisionID (status lease)),
        op_references = references @ [(''lease'', name_of lease), (''attempt'', il_attemptRef (spec lease))],
        op_data = payload\<rparr>"

definition append_lease_event ::
  "lease_env \<Rightarrow> inference_lease \<Rightarrow> string \<Rightarrow> string \<Rightarrow> string \<Rightarrow> string \<Rightarrow> string
   \<Rightarrow> (string \<times> string) list \<Rightarrow> unit action" where
  "append_lease_event r lease eventType action target outcome reason references =
     append_lease_event_with_data r lease eventType action target outcome reason references
       (inference_lease_event_data lease)"

definition inference_lease_admission_decision ::
  "lease_env \<Rightarrow> inference_lease \<Rightarrow> namespaced_reference \<Rightarrow> string \<Rightarrow> string \<Rightarrow> decision_evaluated" where
  "inference_lease_admission_decision r lease endpointRef policyDecisionID reason =
     (let inputDigest = ''sha256:'' @ env_sha r (env_marshal r (spec lease) endpointRef policyDecisionID reason);
          missing = (policyDecisionID = '''');
          policyRef = (if missing then ''missing'' else policyDecisionID)
      in \<lparr>de_approvalBinding = None, de_schemaVersion = ''v1'',
          de_primitive = \<lparr>rr_schemaVersion = ''v1'', rr_apiVersion = group_version,
            rr_kind = ''InferenceLease'', rr_namespace = namespace_of lease, rr_name = name_of lease, rr_uid = uid_of lease\<rparr>,
          de_decision = \<lparr>dr_schemaVersion = ''v1'',
            dr_id = deterministic_id (env_sha r) [''inference-lease-admission'', uid_of lease, inputDigest],
            dr_kind = ''scheduler'', dr_revision = policyDecisionID, dr_sourceDigest = '''',
            dr_inputDigest = inputDigest, dr_outcome = ''selected''\<rparr>,
          de_authorityEvent = '''', de_inputEvent = '''', de_evidenceEvents = [],
          de_invariants =
            [\<lparr>inv_schemaVersion = ''v1'', inv_id = ''inference-policy-decision-recorded'',
              inv_outcome = (if missing then ''not-evaluated'' else ''passed''),
              inv_expected = policyRef, inv_observed = policyRef,
              inv_reason = ''the scheduler selection records the policy evaluation that constrained admission''\<rparr>,
             \<lparr>inv_schemaVersion = ''v1'', inv_id = ''endpoint-binding-committed'', inv_outcome = ''passed'',
              inv_expected = ns_namespace endpointRef @ ''/'' @ ns_name endpointRef,
              inv_observed = ns_namespace (il_endpointRef (status lease)) @ ''/'' @ ns_name (il_endpointRef (status lease)),
              inv_reason = ''the admitted endpoint is the endpoint committed to lease status''\<rparr>,
             \<lparr>inv_schemaVersion = ''v1'', inv_id = ''inference-lease-running'', inv_outcome = ''passed'',
              inv_expected = phase_text PhaseRunning, inv_observed = phase_text (il_phase (status lease)),
              inv_reason = ''the selected endpoint reservation was committed before admission was recorded''\<rparr>]\<rparr>)"

definition append_inference_lease_admission_events :: "lease_env \<Rightarrow> inference_lease \<Rightarrow> unit action" where
  "append_inference_lease_admission_events r lease =
     (let st = status lease;
          references = [(''endpoint'', ns_name (il_endpointRef st)), (''endpointURL'', il_endpointURL st)]
            @ (if il_decisionID st \<noteq> '''' then [(''policyDecision'', il_decisionID st)] else []);
          payload = inference_lease_admission_decision r lease (il_endpointRef st) (il_decisionID st) (il_reason st)
      in seq_io
           (append_lease_event_with_data r lease ''InferenceLeaseAdmitted'' ''admit'' (name_of lease) ''admitted''
              (il_reason st) references (DecisionData payload))
           (append_lease_event r lease ''InferenceLeaseBound'' ''bind'' (name_of lease) ''bound'' (il_reason st) references))"

subsection \<open>Reservations on endpoints\<close>

definition remove_first :: "'a \<Rightarrow> 'a list \<Rightarrow> 'a list" where
  "remove_first x xs = remove1 x xs"

definition remove_endpoint_reservation :: "inference_lease \<Rightarrow> unit action" where
  "remove_endpoint_reservation lease =
     (let epRef = il_endpointRef (status lease); leaseRef = reference_of lease
      in if ns_name epRef = '''' then ret ()
         else retry_on_conflict (
           bind_io (attempt_io (k_get Endpoints (ns_namespace epRef) (ns_name epRef))) (\<lambda>res. case res of
               Inl e \<Rightarrow> (if e = NotFound then ret () else raise e)
             | Inr endpoint \<Rightarrow>
                 (let st = status endpoint; rest = remove_first leaseRef (ep_activeLeases st)
                  in if leaseRef \<notin> set (ep_activeLeases st) then ret ()
                     else bind_io (k_update_status Endpoints (endpoint\<lparr>status := st\<lparr>
                            ep_activeLeases := rest,
                            ep_activeLeaseCount := int32 (int (length rest)),
                            ep_allocatedKVRAMMiB := max 0 (int64 (ep_allocatedKVRAMMiB st
                              - il_estimatedKVRAMMiB (spec lease)))\<rparr>\<rparr>)) (\<lambda>_. ret ())))))"

text \<open>
  The loop of \<open>pruneEndpointReservations\<close>: \<open>seen\<close> are the references handled, \<open>active\<close> those
  kept, \<open>allocated\<close> the sum of their estimates.
\<close>

fun prune_loop ::
  "namespaced_reference \<Rightarrow> namespaced_reference list \<Rightarrow> namespaced_reference set
   \<Rightarrow> namespaced_reference list \<Rightarrow> int \<Rightarrow> (namespaced_reference list \<times> int) action" where
  "prune_loop endpointRef [] seen active allocated = ret (active, allocated)"
| "prune_loop endpointRef (reference # rest) seen active allocated =
     (if reference \<in> seen then prune_loop endpointRef rest seen active allocated
      else bind_io (attempt_io (k_get InferenceLeases (ns_namespace reference) (ns_name reference))) (\<lambda>res.
        case res of
          Inl e \<Rightarrow> (if e = NotFound then prune_loop endpointRef rest (insert reference seen) active allocated
                    else raise e)
        | Inr activeLease \<Rightarrow>
            if deletion (meta activeLease) \<noteq> None \<or> is_terminal (il_phase (status activeLease))
              then prune_loop endpointRef rest (insert reference seen) active allocated
            else if ns_name (il_endpointRef (status activeLease)) \<noteq> ''''
                 \<and> il_endpointRef (status activeLease) \<noteq> endpointRef
              then prune_loop endpointRef rest (insert reference seen) active allocated
            else prune_loop endpointRef rest (insert reference seen) (active @ [reference])
                   (int64 (allocated + il_estimatedKVRAMMiB (spec activeLease)))))"

definition prune_endpoint_reservations :: "endpoint \<Rightarrow> (endpoint \<times> bool) action" where
  "prune_endpoint_reservations endpoint =
     bind_io (prune_loop (reference_of endpoint) (ep_activeLeases (status endpoint)) {} [] 0)
       (\<lambda>(active, allocated).
          let st = status endpoint; n = int32 (int (length active));
              changed = (ep_activeLeases st \<noteq> active \<or> ep_activeLeaseCount st \<noteq> n
                          \<or> ep_allocatedKVRAMMiB st \<noteq> allocated)
          in ret (endpoint\<lparr>status := st\<lparr>ep_activeLeases := active, ep_activeLeaseCount := n,
                    ep_allocatedKVRAMMiB := allocated\<rparr>\<rparr>, changed))"

text \<open>One attempt of \<open>bind\<close> to reserve, and the whole of it.\<close>

definition reserve_once :: "inference_lease \<Rightarrow> namespaced_reference \<Rightarrow> unit action" where
  "reserve_once lease endpointRef =
     bind_io (k_get Endpoints (ns_namespace endpointRef) (ns_name endpointRef)) (\<lambda>endpoint0.
     bind_io (prune_endpoint_reservations endpoint0) (\<lambda>(endpoint, changed).
     bind_io (gets clock) (\<lambda>now.
       let st = status endpoint; leaseRef = reference_of lease; need = il_estimatedKVRAMMiB (spec lease)
       in if leaseRef \<notin> set (ep_activeLeases st) then
            (if int64 (ep_allocatedKVRAMMiB st + need + ep_safetyHeadroomMiB (spec endpoint))
                  > ep_maxKVRAMMiB (spec endpoint)
             then raise (Invalid ''endpoint capacity changed before lease binding'')
             else bind_io (k_update_status Endpoints (endpoint\<lparr>status := st\<lparr>
                    ep_activeLeases := ep_activeLeases st @ [leaseRef],
                    ep_activeLeaseCount := int32 (int (length (ep_activeLeases st @ [leaseRef]))),
                    ep_allocatedKVRAMMiB := int64 (ep_allocatedKVRAMMiB st + need),
                    ep_lastUsedAt := Some now\<rparr>\<rparr>)) (\<lambda>_. ret ()))
          else if changed then bind_io (k_update_status Endpoints endpoint) (\<lambda>_. ret ())
          else ret ())))"

definition bind_lease ::
  "lease_env \<Rightarrow> inference_lease \<Rightarrow> namespaced_reference \<Rightarrow> string \<Rightarrow> string \<Rightarrow> unit action" where
  "bind_lease r lease endpointRef decisionID reason =
     seq_io (retry_on_conflict (reserve_once lease endpointRef))
       (bind_io (k_update_status InferenceLeases (lease\<lparr>status := (status lease)\<lparr>
            il_phase := PhaseRunning, il_endpointRef := endpointRef,
            il_endpointURL := ''http://'' @ ns_name endpointRef @ ''.'' @ ns_namespace endpointRef @ ''.svc:8000'',
            il_decisionID := decisionID, il_reason := reason,
            il_observedGeneration := generation (meta lease)\<rparr>\<rparr>))
          (\<lambda>lease'. append_inference_lease_admission_events r lease'))"

definition end_lease ::
  "lease_env \<Rightarrow> inference_lease \<Rightarrow> resource_phase \<Rightarrow> string \<Rightarrow> string \<Rightarrow> string \<Rightarrow> string \<Rightarrow> unit action" where
  "end_lease r lease phase reason eventType action outcome =
     seq_io (remove_endpoint_reservation lease)
       (bind_io (k_update_status InferenceLeases (lease\<lparr>status := (status lease)\<lparr>
            il_phase := phase, il_reason := reason, il_observedGeneration := generation (meta lease)\<rparr>\<rparr>))
          (\<lambda>lease'. append_lease_event r lease' eventType action (name_of lease') outcome reason
             [(''endpoint'', ns_name (il_endpointRef (status lease')))]))"

definition interrupt_lease :: "lease_env \<Rightarrow> namespaced_reference \<Rightarrow> string \<Rightarrow> unit action" where
  "interrupt_lease r ref reason =
     bind_io (attempt_io (k_get InferenceLeases (ns_namespace ref) (ns_name ref))) (\<lambda>res. case res of
         Inl e \<Rightarrow> (if e = NotFound then ret () else raise e)
       | Inr lease \<Rightarrow> end_lease r lease PhaseInterrupted reason ''InferenceLeaseInterrupted'' ''interrupt'' ''interrupted'')"

definition release_lease :: "lease_env \<Rightarrow> inference_lease \<Rightarrow> string \<Rightarrow> unit action" where
  "release_lease r lease reason =
     end_lease r lease PhaseSucceeded reason ''InferenceLeaseReleased'' ''release'' ''released''"

subsection \<open>Admission, creation of endpoints\<close>

definition ensure_inference_namespace :: "unit action" where
  "ensure_inference_namespace =
     bind_io (attempt_io (k_get Namespaces '''' inference_namespace)) (\<lambda>res. case res of
         Inr _ \<Rightarrow> ret ()
       | Inl e \<Rightarrow> if e \<noteq> NotFound then raise e
           else ignoring AlreadyExists (bind_io (k_create Namespaces
             \<lparr>meta = \<lparr>obj_name = inference_namespace, obj_namespace = '''', obj_uid = '''', resource_version = 0,
                generation = 0, labels = [(''app.kubernetes.io/managed-by'', ''sovereign-orchestrator''),
                  (''istio-injection'', ''enabled'')], annotations = [], finalizers = [], creation = 0,
                deletion = None, controller_owner = None\<rparr>, spec = (), status = ()\<rparr>) (\<lambda>_. ret ())))"

definition take_snapshots :: "endpoint_snapshot list action" where
  "take_snapshots =
     bind_io (k_list Endpoints inference_namespace) (\<lambda>endpoints.
     bind_io (k_list_all InferenceLeases) (\<lambda>leases.
       ret (map (\<lambda>endpoint. \<lparr>snap_endpoint = endpoint,
          snap_leases = filter (\<lambda>lease. il_endpointRef (status lease) = reference_of endpoint) leases\<rparr>) endpoints)))"

fun admit_loop ::
  "(policy_query \<Rightarrow> go_error + policy_decision) \<Rightarrow> inference_lease \<Rightarrow> endpoint_snapshot list
   \<Rightarrow> endpoint_snapshot list \<Rightarrow> string \<Rightarrow> go_error + (endpoint_snapshot list \<times> string)" where
  "admit_loop policy lease [] filtered lastDecision = Inr (filtered, lastDecision)"
| "admit_loop policy lease (s # ss) filtered lastDecision =
     (let e = spec (snap_endpoint s)
      in case policy (ShareQuery (inference_policy_request lease) (ep_model e) (ep_modelRevision e)
                       (ep_tenant e) (ep_classification e)) of
           Inl err \<Rightarrow> Inl err
         | Inr d \<Rightarrow> admit_loop policy lease ss (if pd_allowed d then filtered @ [s] else filtered) (pd_id d))"

definition admit_snapshots ::
  "lease_env \<Rightarrow> inference_lease \<Rightarrow> endpoint_snapshot list \<Rightarrow> go_error + (endpoint_snapshot list \<times> string)" where
  "admit_snapshots r lease snapshots = (case env_policy r of
       None \<Rightarrow> Inr (snapshots, ''development-no-policy'')
     | Some policy \<Rightarrow> admit_loop policy lease snapshots [] '''')"

definition evaluate_create :: "lease_env \<Rightarrow> inference_lease \<Rightarrow> go_error + policy_decision" where
  "evaluate_create r lease = (case env_policy r of
       None \<Rightarrow> Inr \<lparr>pd_id = ''development-no-policy'', pd_allowed = True, pd_reasons = []\<rparr>
     | Some policy \<Rightarrow> policy (CreateQuery (inference_policy_request lease)))"

definition lift_result :: "go_error + 'a \<Rightarrow> 'a action" where
  "lift_result x = (case x of Inl e \<Rightarrow> raise e | Inr v \<Rightarrow> ret v)"

definition lease_endpoint_name :: "lease_env \<Rightarrow> inference_lease \<Rightarrow> string" where
  "lease_endpoint_name r lease = endpoint_name r [il_model (spec lease), il_modelRevision (spec lease),
     il_tenant (spec lease), il_classification (spec lease)]"

definition new_endpoint :: "lease_env \<Rightarrow> inference_lease \<Rightarrow> endpoint" where
  "new_endpoint r lease =
     \<lparr>meta = \<lparr>obj_name = lease_endpoint_name r lease, obj_namespace = inference_namespace, obj_uid = '''',
        resource_version = 0, generation = 0,
        labels = [(''sovereign-ai.io/project'', il_projectRef (spec lease)),
          (''sovereign-ai.io/tenant'', il_tenant (spec lease)),
          (''sovereign-ai.io/classification'', il_classification (spec lease))],
        annotations = [], finalizers = [], creation = 0, deletion = None, controller_owner = None\<rparr>,
      spec = \<lparr>ep_provider = ''vllm'', ep_model = il_model (spec lease), ep_modelRevision = il_modelRevision (spec lease),
        ep_runtimeImage = env_runtimeImage r, ep_tenant = il_tenant (spec lease),
        ep_classification = il_classification (spec lease), ep_sharingScope = il_sharingScope (spec lease),
        ep_staticVRAMMiB = (if env_staticVRAMMiB r = 0 then 4096 else env_staticVRAMMiB r),
        ep_maxKVRAMMiB = (if env_maxKVRAMMiB r = 0 then 12288 else env_maxKVRAMMiB r),
        ep_safetyHeadroomMiB = env_headroomMiB r, ep_idleTTL = None\<rparr>,
      status = \<lparr>ep_observedGeneration = 0, ep_phase = NoPhase, ep_podRef = '''', ep_serviceRef = '''',
        ep_nodeName = '''', ep_deviceName = '''', ep_allocatedKVRAMMiB = 0, ep_activeLeaseCount = 0,
        ep_activeLeases = [], ep_lastUsedAt = None, ep_conditions = []\<rparr>\<rparr>"

definition ensure_endpoint :: "lease_env \<Rightarrow> inference_lease \<Rightarrow> endpoint action" where
  "ensure_endpoint r lease =
     bind_io (attempt_io (k_get Endpoints inference_namespace (lease_endpoint_name r lease))) (\<lambda>res. case res of
         Inr endpoint \<Rightarrow> ret endpoint
       | Inl e \<Rightarrow> if e \<noteq> NotFound then raise e
           else bind_io (k_create Endpoints (new_endpoint r lease)) (\<lambda>endpoint.
             seq_io (append_lease_event r lease ''InferenceEndpointCreated'' ''create'' (name_of endpoint) ''created'' ''''
                       [(''endpoint'', name_of endpoint)])
               (ret endpoint)))"

definition handle_action_create :: "lease_env \<Rightarrow> inference_lease \<Rightarrow> int option action" where
  "handle_action_create r lease =
     bind_io (lift_result (evaluate_create r lease)) (\<lambda>d.
       if \<not> pd_allowed d then
         bind_io (k_update_status InferenceLeases (lease\<lparr>status := (status lease)\<lparr>il_phase := PhaseFailed,
             il_decisionID := pd_id d, il_reason := sprint_list (pd_reasons d)\<rparr>\<rparr>)) (\<lambda>lease'.
         bind_io (append_lease_event r lease' ''InferenceLeaseRejected'' ''admit'' (name_of lease') ''rejected''
             (il_reason (status lease')) []) (\<lambda>_. ret None))
       else bind_io (ensure_endpoint r lease) (\<lambda>endpoint.
         if ep_phase (status endpoint) = PhaseRunning
         then bind_io (bind_lease r lease (reference_of endpoint) (pd_id d) ''new endpoint is ready'') (\<lambda>_. ret None)
         else ret (Some 3)))"

subsection \<open>The reconciler\<close>

text \<open>The result is the delay in seconds after which the lease is queued again.\<close>

definition admit_lease :: "lease_env \<Rightarrow> inference_lease \<Rightarrow> int option action" where
  "admit_lease r lease =
     seq_io ensure_inference_namespace
       (bind_io take_snapshots (\<lambda>snapshots.
        bind_io (lift_result (admit_snapshots r lease snapshots)) (\<lambda>(filtered, policyDecision).
          let decision = select_from lease filtered True
          in case adm_action decision of
               ActionReuse \<Rightarrow> bind_io (bind_lease r lease (adm_endpointRef decision) policyDecision (adm_reason decision))
                                 (\<lambda>_. ret None)
             | ActionEvict \<Rightarrow>
                 seq_io (each_io (\<lambda>victim. interrupt_lease r victim ''EvictedByHigherPriorityLease'') (adm_evictLeases decision))
                   (bind_io (bind_lease r lease (adm_endpointRef decision) policyDecision (adm_reason decision)) (\<lambda>_. ret None))
             | ActionCreate \<Rightarrow> handle_action_create r lease
             | ActionWait \<Rightarrow> ret (Some 3))))"

definition advance_lease :: "lease_env \<Rightarrow> inference_lease \<Rightarrow> int option action" where
  "advance_lease r lease =
     (let reason = go_map_get (annotations (meta lease)) release_annotation; phase = il_phase (status lease)
      in if reason \<noteq> '''' \<and> \<not> is_terminal phase then bind_io (release_lease r lease reason) (\<lambda>_. ret None)
         else if phase = PhaseRunning then
           bind_io (append_inference_lease_admission_events r lease) (\<lambda>_. ret None)
         else if is_terminal phase then ret None
         else if phase = NoPhase then
           bind_io (k_update_status InferenceLeases (lease\<lparr>status := (status lease)\<lparr>il_phase := PhasePending,
              il_observedGeneration := generation (meta lease)\<rparr>\<rparr>)) (\<lambda>_. ret None)
         else admit_lease r lease)"

definition reconcile_inference_lease :: "lease_env \<Rightarrow> string \<Rightarrow> string \<Rightarrow> int option action" where
  "reconcile_inference_lease r ns n =
     bind_io (attempt_io (k_get InferenceLeases ns n)) (\<lambda>res. case res of
         Inl e \<Rightarrow> (if e = NotFound then ret None else raise e)
       | Inr lease \<Rightarrow>
           if deletion (meta lease) \<noteq> None then
             (if lease_finalizer \<notin> set (finalizers (meta lease)) then ret None
              else seq_io (remove_endpoint_reservation lease)
                (bind_io (k_update InferenceLeases (remove_finalizer lease_finalizer lease)) (\<lambda>_. ret None)))
           else if lease_finalizer \<notin> set (finalizers (meta lease)) then
             bind_io (k_update InferenceLeases (add_finalizer lease_finalizer lease)) (\<lambda>lease'. advance_lease r lease')
           else advance_lease r lease)"

subsection \<open>What a reservation leaves behind\<close>

lemma prune_loop_frame:
  "prune_loop ref refs seen active allocated w = (res, w') \<Longrightarrow> \<exists>fs. w' = w\<lparr>faults := fs\<rparr>"
proof (induction ref refs seen active allocated arbitrary: w rule: prune_loop.induct)
  case (1 endpointRef seen active allocated)
  then show ?case using same_faults by (auto simp: ret_def)
next
  case (2 endpointRef reference rest seen active allocated)
  show ?case
  proof (cases "reference \<in> seen")
    case True
    then show ?thesis using 2 by simp
  next
    case False
    obtain got v where get: "k_get InferenceLeases (ns_namespace reference) (ns_name reference) w = (got, v)"
      by (cases "k_get InferenceLeases (ns_namespace reference) (ns_name reference) w")
    obtain fs where v: "v = w\<lparr>faults := fs\<rparr>" using get_frame [OF get] by blast
    have more: "\<exists>gs. w' = w\<lparr>faults := gs\<rparr>" if "\<exists>gs. w' = v\<lparr>faults := gs\<rparr>" using that v by auto
    show ?thesis
    proof (cases got)
      case (Inl e)
      show ?thesis by (rule more, cases "e = NotFound")
        (use 2 False get Inl same_faults [of v] in \<open>auto simp: bind_io_def attempt_io_def raise_def\<close>)
    next
      case (Inr lease)
      show ?thesis by (rule more)
        (use 2 False get Inr in \<open>auto simp: bind_io_def attempt_io_def split: if_splits\<close>)
    qed
  qed
qed

lemma prune_loop_distinct:
  "prune_loop ref refs seen active allocated w = (Inr (active', allocated'), w') \<Longrightarrow>
   distinct active \<Longrightarrow> set active \<subseteq> seen \<Longrightarrow> distinct active'"
proof (induction ref refs seen active allocated arbitrary: w rule: prune_loop.induct)
  case (1 endpointRef seen active allocated)
  then show ?case by (simp add: ret_def)
next
  case (2 endpointRef reference rest seen active allocated)
  show ?case
  proof (cases "reference \<in> seen")
    case True
    then show ?thesis using 2 by simp
  next
    case False
    obtain got v where get: "k_get InferenceLeases (ns_namespace reference) (ns_name reference) w = (got, v)"
      by (cases "k_get InferenceLeases (ns_namespace reference) (ns_name reference) w")
    have sub: "set active \<subseteq> insert reference seen" using 2 by auto
    show ?thesis
    proof (cases got)
      case (Inl e)
      then show ?thesis using 2 False get sub
        by (cases "e = NotFound") (auto simp: bind_io_def attempt_io_def raise_def)
    next
      case (Inr lease)
      have "distinct (active @ [reference])" using 2 False by auto
      moreover have "set (active @ [reference]) \<subseteq> insert reference seen" using 2 by auto
      ultimately show ?thesis using 2 False get sub Inr
        by (auto simp: bind_io_def attempt_io_def split: if_splits)
    qed
  qed
qed

text \<open>A successful attempt: the endpoint as stored afterwards lists the lease, each lease once.\<close>

definition reserved_at :: "namespaced_reference \<Rightarrow> namespaced_reference \<Rightarrow> cluster \<Rightarrow> bool" where
  "reserved_at leaseRef epRef w \<longleftrightarrow>
     (\<exists>ep. find_by obj_key (ns_namespace epRef, ns_name epRef) (endpoints w) = Some ep
        \<and> leaseRef \<in> set (ep_activeLeases (status ep)) \<and> distinct (ep_activeLeases (status ep)))"

lemma status_update_stored:
  assumes "k_update_status Endpoints x w = (Inr y, w')" and "obj_key x = k"
  shows "\<exists>ep. find_by obj_key k (endpoints w') = Some ep \<and> status ep = status x \<and> spec ep = spec y"
  using assms
  by (elim endpoint_kind.update_status_result) (auto simp: Endpoints_def)

lemma prune_result:
  assumes "prune_endpoint_reservations endpoint0 w = (Inr (endpoint, changed), v)"
  shows "obj_key endpoint = obj_key endpoint0" and "\<exists>fs. v = w\<lparr>faults := fs\<rparr>"
    and "distinct (ep_activeLeases (status endpoint))" and "spec endpoint = spec endpoint0"
    and "changed \<or> endpoint = endpoint0"
proof -
  from assms obtain active allocated where
    run: "prune_loop (reference_of endpoint0) (ep_activeLeases (status endpoint0)) {} [] 0 w = (Inr (active, allocated), v)"
    and ep: "endpoint = endpoint0\<lparr>status := (status endpoint0)\<lparr>ep_activeLeases := active,
       ep_activeLeaseCount := int32 (int (length active)), ep_allocatedKVRAMMiB := allocated\<rparr>\<rparr>"
    and ch: "changed \<longleftrightarrow> ep_activeLeases (status endpoint0) \<noteq> active
       \<or> ep_activeLeaseCount (status endpoint0) \<noteq> int32 (int (length active)) \<or> ep_allocatedKVRAMMiB (status endpoint0) \<noteq> allocated"
    unfolding prune_endpoint_reservations_def
    by (auto simp: Let_def ret_def elim!: bind_io_result)
  show "obj_key endpoint = obj_key endpoint0" "spec endpoint = spec endpoint0" by (simp_all add: ep obj_key_def)
  show "\<exists>fs. v = w\<lparr>faults := fs\<rparr>" using prune_loop_frame [OF run] .
  show "distinct (ep_activeLeases (status endpoint))" using prune_loop_distinct [OF run] by (simp add: ep)
  show "changed \<or> endpoint = endpoint0"
  proof (cases changed)
    case False
    then have "status endpoint = status endpoint0" using ch ep by (cases "status endpoint0") auto
    then show ?thesis using ep by (cases endpoint0) auto
  qed simp
qed

lemma reserve_once_reserves:
  assumes "reserve_once lease ref w = (Inr (), w')"
  shows "reserved_at (reference_of lease) ref w'"
proof -
  let ?k = "(ns_namespace ref, ns_name ref)"
  from assms obtain endpoint0 v endpoint changed u where
    get: "k_get Endpoints (ns_namespace ref) (ns_name ref) w = (Inr endpoint0, v)"
    and prune: "prune_endpoint_reservations endpoint0 v = (Inr (endpoint, changed), u)"
    and rest: "(let st = status endpoint; leaseRef = reference_of lease; need = il_estimatedKVRAMMiB (spec lease)
       in if leaseRef \<notin> set (ep_activeLeases st) then
            (if int64 (ep_allocatedKVRAMMiB st + need + ep_safetyHeadroomMiB (spec endpoint)) > ep_maxKVRAMMiB (spec endpoint)
             then raise (Invalid ''endpoint capacity changed before lease binding'')
             else bind_io (k_update_status Endpoints (endpoint\<lparr>status := st\<lparr>
                    ep_activeLeases := ep_activeLeases st @ [leaseRef],
                    ep_activeLeaseCount := int32 (int (length (ep_activeLeases st @ [leaseRef]))),
                    ep_allocatedKVRAMMiB := int64 (ep_allocatedKVRAMMiB st + need),
                    ep_lastUsedAt := Some (clock u)\<rparr>\<rparr>)) (\<lambda>_. ret ()))
          else if changed then bind_io (k_update_status Endpoints endpoint) (\<lambda>_. ret ())
          else ret ()) u = (Inr (), w')"
    unfolding reserve_once_def by (auto simp: gets_def elim!: bind_io_result)
  note p = prune_result [OF prune]
  have found: "find_by obj_key ?k (endpoints v) = Some endpoint0"
    using endpoint_kind.get_result(1) [OF get] by (simp add: Endpoints_def)
  have key: "obj_key endpoint = ?k" using find_by_set [OF found] p(1) by simp
  show ?thesis
  proof (cases "reference_of lease \<in> set (ep_activeLeases (status endpoint))")
    case True
    show ?thesis
    proof (cases changed)
      case True
      with rest \<open>reference_of lease \<in> _\<close> obtain y where "k_update_status Endpoints endpoint u = (Inr y, w')"
        by (auto simp: Let_def ret_def elim!: bind_io_result)
      from status_update_stored [OF this key] show ?thesis
        using \<open>reference_of lease \<in> _\<close> p(3) by (auto simp: reserved_at_def)
    next
      case False
      then have "endpoint = endpoint0" "w' = u"
        using p(5) rest \<open>reference_of lease \<in> _\<close> by (auto simp: Let_def ret_def)
      then show ?thesis using found p(2,3) \<open>reference_of lease \<in> _\<close> by (auto simp: reserved_at_def)
    qed
  next
    case False
    let ?x = "endpoint\<lparr>status := (status endpoint)\<lparr>
        ep_activeLeases := ep_activeLeases (status endpoint) @ [reference_of lease],
        ep_activeLeaseCount := int32 (int (length (ep_activeLeases (status endpoint) @ [reference_of lease]))),
        ep_allocatedKVRAMMiB := int64 (ep_allocatedKVRAMMiB (status endpoint) + il_estimatedKVRAMMiB (spec lease)),
        ep_lastUsedAt := Some (clock u)\<rparr>\<rparr>"
    from rest False obtain y where "k_update_status Endpoints ?x u = (Inr y, w')"
      by (auto simp: Let_def ret_def raise_def split: if_splits elim!: bind_io_result)
    moreover have "obj_key ?x = ?k" using key by (simp add: obj_key_def)
    ultimately have "\<exists>ep. find_by obj_key ?k (endpoints w') = Some ep \<and> status ep = status ?x"
      using status_update_stored by blast
    then show ?thesis using p(3) False by (auto simp: reserved_at_def)
  qed
qed

lemma keeps_admission_events:
  assumes "\<And>fs w. I w \<Longrightarrow> I (w\<lparr>faults := fs\<rparr>)" and "\<And>a w. I w \<Longrightarrow> I (w\<lparr>audit_log := a\<rparr>)"
  shows "keeps I (append_inference_lease_admission_events r lease)"
  unfolding append_inference_lease_admission_events_def append_lease_event_def
    append_lease_event_with_data_def Let_def
  by (intro triple_intros keeps_controller_event) (rule assms, assumption)+

lemma reserved_at_faults [simp]: "reserved_at l e (w\<lparr>faults := fs\<rparr>) = reserved_at l e w"
  by (simp add: reserved_at_def)

lemma reserved_at_audit [simp]: "reserved_at l e (w\<lparr>audit_log := a\<rparr>) = reserved_at l e w"
  by (simp add: reserved_at_def)

text \<open>The lease as stored is bound to the endpoint.\<close>

definition bound_to :: "inference_lease \<Rightarrow> namespaced_reference \<Rightarrow> string \<Rightarrow> cluster \<Rightarrow> bool" where
  "bound_to lease ref decisionID w \<longleftrightarrow>
     (\<exists>l. find_by obj_key (obj_key lease) (inference_leases w) = Some l
        \<and> il_phase (status l) = PhaseRunning \<and> il_endpointRef (status l) = ref \<and> il_decisionID (status l) = decisionID)"

lemma bind_lease_result:
  assumes "bind_lease r lease ref d reason w = (Inr (), w')"
  shows "bound_to lease ref d w'"
    and "\<exists>v. retry_on_conflict (reserve_once lease ref) w = (Inr (), v) \<and> endpoints w' = endpoints v"
proof -
  let ?x = "lease\<lparr>status := (status lease)\<lparr>
      il_phase := PhaseRunning, il_endpointRef := ref,
      il_endpointURL := ''http://'' @ ns_name ref @ ''.'' @ ns_namespace ref @ ''.svc:8000'',
      il_decisionID := d, il_reason := reason, il_observedGeneration := generation (meta lease)\<rparr>\<rparr>"
  from assms obtain v u l where res: "retry_on_conflict (reserve_once lease ref) w = (Inr (), v)"
    and upd: "k_update_status InferenceLeases ?x v = (Inr l, u)"
    and ev: "append_inference_lease_admission_events r l u = (Inr (), w')"
    unfolding bind_lease_def seq_io_def by (elim bind_io_result) simp
  have b: "bound_to lease ref d u"
    using upd unfolding bound_to_def
    by (elim inference_lease_kind.update_status_result) (auto simp: InferenceLeases_def)
  have "keeps (bound_to lease ref d) (append_inference_lease_admission_events r l)"
    by (rule keeps_admission_events) (simp_all add: bound_to_def)
  from triple_resultD [OF this b ev] show "bound_to lease ref d w'" .
  have "keeps (\<lambda>w. endpoints w = endpoints v) (k_update_status InferenceLeases ?x)"
    by (rule keeps_update_status) (simp_all add: InferenceLeases_def)
  from triple_resultD [OF this refl upd] have same: "endpoints u = endpoints v" .
  have "keeps (\<lambda>w. endpoints w = endpoints v) (append_inference_lease_admission_events r l)"
    by (rule keeps_admission_events) simp_all
  from triple_resultD [OF this same ev] have "endpoints w' = endpoints v" .
  with res show "\<exists>v. retry_on_conflict (reserve_once lease ref) w = (Inr (), v) \<and> endpoints w' = endpoints v" by blast
qed

subsection \<open>The KV budget\<close>

lemma prune_loop_lossless:
  "prune_loop ref refs seen active allocated w = (res, w') \<Longrightarrow> lossless w \<Longrightarrow> lossless w'"
proof (induction ref refs seen active allocated arbitrary: w rule: prune_loop.induct)
  case (1 endpointRef seen active allocated)
  then show ?case by (simp add: ret_def)
next
  case (2 endpointRef reference rest seen active allocated)
  obtain got v where get: "k_get InferenceLeases (ns_namespace reference) (ns_name reference) w = (got, v)"
    by (cases "k_get InferenceLeases (ns_namespace reference) (ns_name reference) w")
  have "lossless v" using lossless_get [OF get "2.prems"(2)] by simp
  with 2 get show ?case
    by (cases "reference \<in> seen"; cases got; auto simp: bind_io_def attempt_io_def raise_def split: if_splits)
qed

lemma prune_loop_subset:
  "prune_loop ref refs seen active allocated w = (Inr (active', allocated'), w') \<Longrightarrow>
   set active' \<subseteq> set active \<union> set refs"
proof (induction ref refs seen active allocated arbitrary: w rule: prune_loop.induct)
  case (1 endpointRef seen active allocated)
  then show ?case by (simp add: ret_def)
next
  case (2 endpointRef reference rest seen active allocated)
  obtain got v where get: "k_get InferenceLeases (ns_namespace reference) (ns_name reference) w = (got, v)"
    by (cases "k_get InferenceLeases (ns_namespace reference) (ns_name reference) w")
  show ?case
  proof (cases "reference \<in> seen")
    case True
    then show ?thesis using 2 by fastforce
  next
    case False
    then show ?thesis
    proof (cases got)
      case (Inl e)
      have "set active' \<subseteq> set active \<union> set rest"
        using 2 False get Inl by (cases "e = NotFound") (auto simp: bind_io_def attempt_io_def raise_def)
      then show ?thesis by auto
    next
      case (Inr lease)
      have "set active' \<subseteq> set active \<union> set rest \<or> set active' \<subseteq> set (active @ [reference]) \<union> set rest"
        using 2 False get Inr by (simp add: bind_io_def attempt_io_def split: if_splits)
      then show ?thesis by auto
    qed
  qed
qed

definition within_budget :: "endpoint \<Rightarrow> bool" where
  "within_budget ep \<longleftrightarrow>
     int64 (ep_allocatedKVRAMMiB (status ep) + ep_safetyHeadroomMiB (spec ep)) \<le> ep_maxKVRAMMiB (spec ep)"

lemma reserve_once_budget:
  fixes ref :: namespaced_reference
  defines "k \<equiv> (ns_namespace ref, ns_name ref)"
  assumes "find_by obj_key k E = Some ep0" and "reference_of lease \<notin> set (ep_activeLeases (status ep0))"
  shows "triple (\<lambda>v. lossless v \<and> endpoints v = E) (reserve_once lease ref)
    (\<lambda>_ v. \<exists>ep. find_by obj_key k (endpoints v) = Some ep \<and> within_budget ep)
    (\<lambda>_ v. lossless v \<and> endpoints v = E)" (is "triple ?I _ ?Q _")
  unfolding reserve_once_def
proof (rule triple_bind [where R = "\<lambda>endpoint0 v. ?I v \<and> endpoint0 = ep0"])
  show "triple ?I (k_get Endpoints (ns_namespace ref) (ns_name ref)) (\<lambda>endpoint0 v. ?I v \<and> endpoint0 = ep0) (\<lambda>_. ?I)"
  proof (rule tripleI)
    fix w x w' assume I: "?I w" and get: "k_get Endpoints (ns_namespace ref) (ns_name ref) w = (Inr x, w')"
    then show "?I w' \<and> x = ep0"
      using lossless_get [OF get] endpoint_kind.get_result(1) [OF get] assms by (auto simp: Endpoints_def)
  next
    fix w e w' assume "?I w" and get: "k_get Endpoints (ns_namespace ref) (ns_name ref) w = (Inl e, w')"
    then show "?I w'" using lossless_get [OF get] by auto
  qed
next
  fix endpoint0
  let ?P = "\<lambda>(endpoint, changed) v. ?I v \<and> obj_key endpoint = k \<and> spec endpoint = spec ep0
      \<and> reference_of lease \<notin> set (ep_activeLeases (status endpoint))"
  show "triple (\<lambda>v. ?I v \<and> endpoint0 = ep0)
     (bind_io (prune_endpoint_reservations endpoint0) (\<lambda>(endpoint, changed).
     bind_io (gets clock) (\<lambda>now.
       let st = status endpoint; leaseRef = reference_of lease; need = il_estimatedKVRAMMiB (spec lease)
       in if leaseRef \<notin> set (ep_activeLeases st) then
            (if int64 (ep_allocatedKVRAMMiB st + need + ep_safetyHeadroomMiB (spec endpoint))
                  > ep_maxKVRAMMiB (spec endpoint)
             then raise (Invalid ''endpoint capacity changed before lease binding'')
             else bind_io (k_update_status Endpoints (endpoint\<lparr>status := st\<lparr>
                    ep_activeLeases := ep_activeLeases st @ [leaseRef],
                    ep_activeLeaseCount := int32 (int (length (ep_activeLeases st @ [leaseRef]))),
                    ep_allocatedKVRAMMiB := int64 (ep_allocatedKVRAMMiB st + need),
                    ep_lastUsedAt := Some now\<rparr>\<rparr>)) (\<lambda>_. ret ()))
          else if changed then bind_io (k_update_status Endpoints endpoint) (\<lambda>_. ret ())
          else ret ()))) ?Q (\<lambda>_. ?I)"
  proof (rule triple_bind [where R = ?P])
    show "triple (\<lambda>v. ?I v \<and> endpoint0 = ep0) (prune_endpoint_reservations endpoint0) ?P (\<lambda>_. ?I)"
    proof (rule tripleI)
      fix w x w' assume I: "?I w \<and> endpoint0 = ep0" and run: "prune_endpoint_reservations endpoint0 w = (Inr x, w')"
      obtain endpoint changed where x: "x = (endpoint, changed)" by (cases x)
      note p = prune_result [OF run [unfolded x]]
      from run x obtain active allocated where
        loop: "prune_loop (reference_of endpoint0) (ep_activeLeases (status endpoint0)) {} [] 0 w = (Inr (active, allocated), w')"
        and act: "ep_activeLeases (status endpoint) = active"
        unfolding prune_endpoint_reservations_def by (auto simp: Let_def ret_def elim!: bind_io_result)
      show "?P x w'"
        using p(1,2,4) prune_loop_lossless [OF loop] prune_loop_subset [OF loop] I assms find_by_set [OF assms(2)]
        by (auto simp: x act)
    next
      fix w e w' assume I: "?I w \<and> endpoint0 = ep0" and run: "prune_endpoint_reservations endpoint0 w = (Inl e, w')"
      from run obtain e' where
        loop: "prune_loop (reference_of endpoint0) (ep_activeLeases (status endpoint0)) {} [] 0 w = (Inl e', w')"
        unfolding prune_endpoint_reservations_def
        by (auto simp: bind_io_def Let_def ret_def split: prod.splits sum.splits)
      show "?I w'" using prune_loop_lossless [OF loop] prune_loop_frame [OF loop] I by auto
    qed
  next
    fix x :: "endpoint \<times> bool"
    obtain endpoint changed where x: "x = (endpoint, changed)" by (cases x)
    let ?n = "\<lambda>now. endpoint\<lparr>status := (status endpoint)\<lparr>
        ep_activeLeases := ep_activeLeases (status endpoint) @ [reference_of lease],
        ep_activeLeaseCount := int32 (int (length (ep_activeLeases (status endpoint) @ [reference_of lease]))),
        ep_allocatedKVRAMMiB := int64 (ep_allocatedKVRAMMiB (status endpoint) + il_estimatedKVRAMMiB (spec lease)),
        ep_lastUsedAt := Some now\<rparr>\<rparr>"
    let ?over = "int64 (ep_allocatedKVRAMMiB (status endpoint) + il_estimatedKVRAMMiB (spec lease) + ep_safetyHeadroomMiB (spec endpoint))
                  > ep_maxKVRAMMiB (spec endpoint)"
    have upd: "triple (?P x) (k_update_status Endpoints (?n now)) (\<lambda>_. ?Q ()) (\<lambda>_. ?I)" if "\<not> ?over" for now
    proof (rule tripleI)
      fix w y w' assume P: "?P x w" and run: "k_update_status Endpoints (?n now) w = (Inr y, w')"
      from run obtain cur where cur: "find_by obj_key (obj_key (?n now)) (items Endpoints w) = Some cur"
        and y: "y = updated_status (?n now) cur" and found: "find_by obj_key (obj_key (?n now)) (items Endpoints w') = Some y"
        by (rule endpoint_kind.update_status_result)
      have key: "obj_key endpoint = k" "endpoints w = E" using P by (simp_all add: x)
      then have "find_by obj_key k E = Some cur" using cur by (simp add: Endpoints_def)
      then have "cur = ep0" using assms(2) by simp
      then have "within_budget y" using that P by (simp add: within_budget_def y x)
      then show "?Q () w'" using found key by (simp add: Endpoints_def)
    next
      fix w e w' assume P: "?P x w" and run: "k_update_status Endpoints (?n now) w = (Inl e, w')"
      show "?I w'" using lossless_update_status_error [OF run] P by (auto simp: x)
    qed
    show "triple (?P x) (case x of (endpoint, changed) \<Rightarrow> bind_io (gets clock) (\<lambda>now.
       let st = status endpoint; leaseRef = reference_of lease; need = il_estimatedKVRAMMiB (spec lease)
       in if leaseRef \<notin> set (ep_activeLeases st) then
            (if int64 (ep_allocatedKVRAMMiB st + need + ep_safetyHeadroomMiB (spec endpoint))
                  > ep_maxKVRAMMiB (spec endpoint)
             then raise (Invalid ''endpoint capacity changed before lease binding'')
             else bind_io (k_update_status Endpoints (endpoint\<lparr>status := st\<lparr>
                    ep_activeLeases := ep_activeLeases st @ [leaseRef],
                    ep_activeLeaseCount := int32 (int (length (ep_activeLeases st @ [leaseRef]))),
                    ep_allocatedKVRAMMiB := int64 (ep_allocatedKVRAMMiB st + need),
                    ep_lastUsedAt := Some now\<rparr>\<rparr>)) (\<lambda>_. ret ()))
          else if changed then bind_io (k_update_status Endpoints endpoint) (\<lambda>_. ret ())
          else ret ())) ?Q (\<lambda>_. ?I)"
    proof (cases "reference_of lease \<in> set (ep_activeLeases (status endpoint)) \<or> ?over")
      case True
      then show ?thesis by (auto simp: x triple_def bind_io_def gets_def raise_def Let_def)
    next
      case False
      have "triple (?P x) (bind_io (k_update_status Endpoints (?n now)) (\<lambda>_. ret ())) ?Q (\<lambda>_. ?I)" for now
        using upd False by (intro triple_bind [where R = "\<lambda>_. ?Q ()"] triple_ret) auto
      then show ?thesis using False unfolding x prod.case Let_def
        by (intro triple_bind_gets) (simp only: if_True if_False not_False_eq_True de_Morgan_disj)
    qed
  qed
qed

subsection \<open>Release and interruption\<close>

text \<open>No endpoint lists a lease twice.\<close>

definition single_reservations :: "cluster \<Rightarrow> bool" where
  "single_reservations w \<longleftrightarrow> (\<forall>ep \<in> set (endpoints w). distinct (ep_activeLeases (status ep)))"

definition unreserved :: "namespaced_reference \<Rightarrow> namespaced_reference \<Rightarrow> cluster \<Rightarrow> bool" where
  "unreserved leaseRef epRef w \<longleftrightarrow>
     (\<forall>ep. find_by obj_key (ns_namespace epRef, ns_name epRef) (endpoints w) = Some ep
        \<longrightarrow> leaseRef \<notin> set (ep_activeLeases (status ep)))"

lemma update_status_single:
  assumes "distinct (ep_activeLeases (status x))"
  shows "keeps single_reservations (k_update_status Endpoints x)"
  unfolding k_update_status_def k_write_def
  by (rule keeps_api_call, simp add: single_reservations_def, rule tripleI)
    (auto simp: single_reservations_def Endpoints_def Let_def assms dest!: set_replace_by
      split: option.splits if_splits)

lemma honest_update_status:
  "triple honest (k_update_status Endpoints x)
     (\<lambda>y w. honest w \<and> (\<exists>ep. find_by obj_key (obj_key x) (endpoints w) = Some ep \<and> status ep = status x)) (\<lambda>_. honest)"
proof -
  have same: "find_by obj_key (obj_key x)
      (replace_by obj_key (obj_key x) (updated_status x cur) os) = Some (updated_status x cur)"
    if "find_by obj_key (obj_key x) os = Some cur" for os cur
    using find_by_set [OF that] that by (simp add: store_simps)
  have "triple honest (k_update_status Endpoints x)
     (\<lambda>y w. honest w \<and> (\<exists>ep. find_by obj_key (obj_key x) (endpoints w) = Some ep \<and> status ep = status x))
     (\<lambda>e w. honest w \<and> (e = NotFound \<longrightarrow> True))"
    unfolding k_update_status_def k_write_def
    by (rule api_call_honest) (auto simp: Endpoints_def honest_def Let_def same split: option.splits)
  then show ?thesis by (rule triple_weaken) auto
qed

lemma remove_reservation_frees:
  fixes lease :: inference_lease
  defines "epRef \<equiv> il_endpointRef (status lease)"
  assumes "ns_name epRef \<noteq> ''''" and "remove_endpoint_reservation lease w = (Inr (), w')"
    and "honest w" and "single_reservations w"
  shows "unreserved (reference_of lease) epRef w'"
proof -
  let ?I = "\<lambda>v. honest v \<and> single_reservations v"
  let ?st = "\<lambda>endpoint rest. (status endpoint)\<lparr>ep_activeLeases := rest,
      ep_activeLeaseCount := int32 (int (length rest)),
      ep_allocatedKVRAMMiB := max 0 (int64 (ep_allocatedKVRAMMiB (status endpoint) - il_estimatedKVRAMMiB (spec lease)))\<rparr>"
  let ?body = "\<lambda>res. case res of
      Inl e \<Rightarrow> (if e = NotFound then ret () else raise e)
    | Inr endpoint \<Rightarrow>
        (let st = status endpoint; rest = remove_first (reference_of lease) (ep_activeLeases st)
         in if reference_of lease \<notin> set (ep_activeLeases st) then ret ()
            else bind_io (k_update_status Endpoints (endpoint\<lparr>status := st\<lparr>
                   ep_activeLeases := rest, ep_activeLeaseCount := int32 (int (length rest)),
                   ep_allocatedKVRAMMiB := max 0 (int64 (ep_allocatedKVRAMMiB st
                     - il_estimatedKVRAMMiB (spec lease)))\<rparr>\<rparr>)) (\<lambda>_. ret ()))"
  let ?m = "bind_io (attempt_io (k_get Endpoints (ns_namespace epRef) (ns_name epRef))) ?body"
  have get: "triple ?I (k_get Endpoints (ns_namespace epRef) (ns_name epRef))
     (\<lambda>x w. ?I w \<and> find_by obj_key (ns_namespace epRef, ns_name epRef) (endpoints w) = Some x)
     (\<lambda>e w. ?I w \<and> (e = NotFound \<longrightarrow> find_by obj_key (ns_namespace epRef, ns_name epRef) (endpoints w) = None))"
  proof (rule triple_weaken)
    show "triple ?I (k_get Endpoints (ns_namespace epRef) (ns_name epRef))
      (\<lambda>x w. (honest w \<and> find_by obj_key (ns_namespace epRef, ns_name epRef) (items Endpoints w) = Some x)
         \<and> single_reservations w)
      (\<lambda>e w. (honest w \<and> (e = NotFound \<longrightarrow>
         find_by obj_key (ns_namespace epRef, ns_name epRef) (items Endpoints w) = None)) \<and> single_reservations w)"
      by (rule triple_conj [OF endpoint_kind.honest_get keeps_get]) (simp add: single_reservations_def)
  qed (simp_all add: Endpoints_def)
  have once: "triple ?I ?m (\<lambda>_. unreserved (reference_of lease) epRef) (\<lambda>_. ?I)"
  proof (rule triple_bind [OF triple_attempt [OF get]])
    fix res :: "go_error + endpoint"
    show "triple (\<lambda>w. case res of
          Inl e \<Rightarrow> ?I w \<and> (e = NotFound \<longrightarrow> find_by obj_key (ns_namespace epRef, ns_name epRef) (endpoints w) = None)
        | Inr x \<Rightarrow> ?I w \<and> find_by obj_key (ns_namespace epRef, ns_name epRef) (endpoints w) = Some x)
      (?body res) (\<lambda>_. unreserved (reference_of lease) epRef) (\<lambda>_. ?I)"
    proof (cases res)
      case (Inl e)
      then show ?thesis by (auto simp: triple_def ret_def raise_def unreserved_def)
    next
      case (Inr endpoint)
      let ?rest = "remove_first (reference_of lease) (ep_activeLeases (status endpoint))"
      show ?thesis
      proof (cases "reference_of lease \<in> set (ep_activeLeases (status endpoint))")
        case False
        then show ?thesis using Inr by (auto simp: triple_def ret_def unreserved_def Let_def)
      next
        case True
        let ?x = "endpoint\<lparr>status := ?st endpoint ?rest\<rparr>"
        have "triple (\<lambda>w. ?I w \<and> find_by obj_key (ns_namespace epRef, ns_name epRef) (endpoints w) = Some endpoint)
            (k_update_status Endpoints ?x) (\<lambda>_. unreserved (reference_of lease) epRef) (\<lambda>_. ?I)"
        proof (rule tripleI)
          fix w y w' assume P: "?I w \<and> find_by obj_key (ns_namespace epRef, ns_name epRef) (endpoints w) = Some endpoint"
            and run: "k_update_status Endpoints ?x w = (Inr y, w')"
          have d: "distinct (ep_activeLeases (status endpoint))" and key: "obj_key ?x = (ns_namespace epRef, ns_name epRef)"
            using P find_by_set [of obj_key _ "endpoints w" endpoint] by (auto simp: single_reservations_def)
          from status_update_stored [OF run key] d show "unreserved (reference_of lease) epRef w'"
            by (auto simp: unreserved_def remove_first_def)
        next
          fix w e w' assume P: "?I w \<and> find_by obj_key (ns_namespace epRef, ns_name epRef) (endpoints w) = Some endpoint"
            and run: "k_update_status Endpoints ?x w = (Inl e, w')"
          have "distinct (ep_activeLeases (status endpoint))"
            using P find_by_set [of obj_key _ "endpoints w" endpoint] by (auto simp: single_reservations_def)
          then have "keeps single_reservations (k_update_status Endpoints ?x)"
            by (intro update_status_single) (simp add: remove_first_def)
          from triple_errorD [OF this _ run] triple_errorD [OF honest_update_status _ run] P show "?I w'" by blast
        qed
        then show ?thesis using Inr True
          by (auto simp: Let_def intro: triple_bind [where R = "\<lambda>_. unreserved (reference_of lease) epRef"] triple_ret)
      qed
    qed
  qed
  have "remove_endpoint_reservation lease = retry_on_conflict ?m"
    using assms(2) unfolding remove_endpoint_reservation_def epRef_def Let_def by (rule if_not_P)
  then have run: "retry_io 4 ?m w = (Inr (), w')" using assms(3) by (simp only: retry_on_conflict_def)
  have "triple ?I (retry_io 4 ?m) (\<lambda>_. unreserved (reference_of lease) epRef) (\<lambda>_. ?I)"
    by (rule triple_retry_io [OF once])
  from triple_resultD [OF this _ run] assms(4,5) show ?thesis by blast
qed

subsection \<open>Example clusters\<close>

definition demo_env :: lease_env where
  "demo_env = \<lparr>env_sha = (\<lambda>_. ''0123456789abcdef''), env_marshal = (\<lambda>_ _ _ _. ''''), env_policy = None,
     env_staticVRAMMiB = 0, env_maxKVRAMMiB = 100, env_headroomMiB = 10, env_runtimeImage = ''''\<rparr>"

definition with_finalizer :: "inference_lease \<Rightarrow> inference_lease" where
  "with_finalizer l = l\<lparr>meta := (meta l)\<lparr>finalizers := [lease_finalizer]\<rparr>\<rparr>"

definition at_endpoint :: "namespaced_reference \<Rightarrow> inference_lease \<Rightarrow> inference_lease" where
  "at_endpoint ref l = l\<lparr>status := (status l)\<lparr>il_endpointRef := ref\<rparr>\<rparr>"

text \<open>An endpoint with a budget of 90 MiB that holds the reservation of 60 of lease \<open>low\<close>.\<close>

definition low_ref :: namespaced_reference where
  "low_ref = \<lparr>ns_namespace = ''team'', ns_name = ''low''\<rparr>"

definition shared_endpoint :: endpoint where
  "shared_endpoint = (let e = sample_endpoint 60 (lease_endpoint_name demo_env (sample_request 1 1 PhasePending ''x'')) in
     e\<lparr>meta := bare_meta inference_namespace (name_of e) ''u'',
       status := (status e)\<lparr>ep_activeLeases := [low_ref], ep_activeLeaseCount := 1\<rparr>\<rparr>)"

definition low_lease :: inference_lease where
  "low_lease = with_finalizer (at_endpoint (reference_of shared_endpoint) (sample_request 60 1 PhaseRunning ''low''))"

definition high_lease :: inference_lease where
  "high_lease = with_finalizer (at_endpoint no_reference (sample_request 50 5 PhasePending ''high''))"

definition lease_cluster :: "inference_lease list \<Rightarrow> cluster" where
  "lease_cluster ls = empty_cluster\<lparr>
     namespaces := [\<lparr>meta = bare_meta '''' inference_namespace ''n'', spec = (), status = ()\<rparr>],
     endpoints := [shared_endpoint], inference_leases := ls\<rparr>"

definition running_leases :: "namespaced_reference \<Rightarrow> cluster \<Rightarrow> inference_lease list" where
  "running_leases ref w =
     filter (\<lambda>l. il_phase (status l) = PhaseRunning \<and> il_endpointRef (status l) = ref) (inference_leases w)"

subsection \<open>Properties\<close>

text \<open>
  C16: Reservation comes first: whatever calls failed or were retried on the way, a lease whose
  binding succeeded is Running at the endpoint in the cluster, and the endpoint's status lists
  the lease, each lease once.
\<close>

theorem bound_lease_is_reserved:
  assumes "bind_lease r lease ref decisionID reason w = (Inr (), w')"
  shows "reserved_at (reference_of lease) ref w' \<and> bound_to lease ref decisionID w'"
proof -
  obtain v where res: "retry_on_conflict (reserve_once lease ref) w = (Inr (), v)"
    and eps: "endpoints w' = endpoints v"
    using bind_lease_result(2) [OF assms] by blast
  have "reserved_at (reference_of lease) ref v"
    using retry_on_conflict_resultD [OF res] reserve_once_reserves by blast
  then show ?thesis using bind_lease_result(1) [OF assms] by (simp add: reserved_at_def eps)
qed

definition small_lease :: inference_lease where
  "small_lease = with_finalizer (at_endpoint no_reference (sample_request 20 5 PhasePending ''small''))"

definition small_run :: "(go_error + unit) \<times> cluster" where
  "small_run = bind_lease demo_env small_lease (reference_of shared_endpoint) ''d'' ''r'' (lease_cluster [low_lease, small_lease])"

lemma small_run_succeeds: "fst small_run = Inr ()"
  by code_simp

theorem bound_lease_is_reserved_witness:
  "reserved_at (reference_of small_lease) (reference_of shared_endpoint) (snd small_run)
   \<and> bound_to small_lease (reference_of shared_endpoint) ''d'' (snd small_run)"
proof (rule bound_lease_is_reserved)
  show "bind_lease demo_env small_lease (reference_of shared_endpoint) ''d'' ''r'' (lease_cluster [low_lease, small_lease])
     = (Inr (), snd small_run)"
    using small_run_succeeds by (simp add: small_run_def prod_eq_iff)
qed



text \<open>
  A lease that is released, interrupted or deleted gives its reservation back: when removing
  the reservation succeeds, whatever failed or was retried, the endpoint no longer lists the
  lease, as long as no read reports the endpoint absent while it is there and no endpoint listed
  a lease twice.
\<close>

theorem removed_reservation_is_gone:
  assumes "remove_endpoint_reservation lease w = (Inr (), w')"
    and "ns_name (il_endpointRef (status lease)) \<noteq> ''''" and "honest w" and "single_reservations w"
  shows "unreserved (reference_of lease) (il_endpointRef (status lease)) w'"
  by (rule remove_reservation_frees [OF assms(2,1,3,4)])

theorem removed_reservation_is_gone_witness:
  "unreserved (reference_of low_lease) (reference_of shared_endpoint)
     (snd (remove_endpoint_reservation low_lease (lease_cluster [low_lease])))"
proof -
  have "fst (remove_endpoint_reservation low_lease (lease_cluster [low_lease])) = Inr ()" by code_simp
  then have run: "remove_endpoint_reservation low_lease (lease_cluster [low_lease])
      = (Inr (), snd (remove_endpoint_reservation low_lease (lease_cluster [low_lease])))"
    by (simp add: prod_eq_iff)
  have ref: "il_endpointRef (status low_lease) = reference_of shared_endpoint"
    by (simp add: low_lease_def with_finalizer_def at_endpoint_def)
  have "ns_name (il_endpointRef (status low_lease)) \<noteq> ''''" by code_simp
  moreover have "honest (lease_cluster [low_lease])"
    by (simp add: honest_def lease_cluster_def empty_cluster_def)
  moreover have "single_reservations (lease_cluster [low_lease])"
    by (simp add: single_reservations_def lease_cluster_def shared_endpoint_def Let_def)
  ultimately show ?thesis using removed_reservation_is_gone [OF run] ref by simp
qed

definition broken_eviction :: cluster where
  "broken_eviction = snd (reconcile_inference_lease demo_env ''team'' ''high''
     ((lease_cluster [low_lease, high_lease])\<lparr>faults := replicate 7 Pass @ [Deny (Transient ''timeout'')]\<rparr>))"

definition after_retry :: cluster where
  "after_retry = snd (reconcile_inference_lease demo_env ''team'' ''high'' broken_eviction)"


definition dedicated_lease :: inference_lease where
  "dedicated_lease = (let l = with_finalizer (at_endpoint no_reference (sample_request 20 5 PhasePending ''own'')) in
     l\<lparr>spec := (spec l)\<lparr>il_sharingScope := SharingDedicated\<rparr>\<rparr>)"

text \<open>
  A lease that asks for a dedicated endpoint is bound to one that is in use. \<open>Select\<close> finds no
  endpoint for the scope Dedicated and decides to create one; the name of an endpoint does not
  depend on the scope, so \<open>ensureEndpoint\<close> finds the endpoint of another lease with the same
  model, tenant and classification, and the lease is bound there without a compatibility check.
\<close>

theorem dedicated_lease_shares_endpoint:
  "\<not> compatible dedicated_lease shared_endpoint
   \<and> (case reconcile_inference_lease demo_env ''team'' ''own'' (lease_cluster [low_lease, dedicated_lease]) of
        (res, w) \<Rightarrow> res = Inr None
          \<and> map name_of (running_leases (reference_of shared_endpoint) w) = [''low'', ''own'']
          \<and> map il_sharingScope (map spec (running_leases (reference_of shared_endpoint) w))
              = [SharingWithinTenant, SharingDedicated])"
  by (intro conjI) code_simp+

end
