(* ===== verification/Step_Attempt.thy ===== *)
theory Step_Attempt
  imports Cluster Phase_Machine
begin

section \<open>Step attempts and their domain execution\<close>

text \<open>
  \<open>internal/controllers/domain_authority.go\<close>, \<open>namespace.go\<close> and
  \<open>internal/controllers/stepattempt/stepattempt_controller.go\<close>: the binding between an attempt
  and the object that executes it, and the reconciler that copies the outcome of the execution
  into the attempt. \<open>sha\<close> is SHA-256; the clock of the cluster is both \<open>time.Now\<close> and \<open>r.Now\<close>.
\<close>

subsection \<open>Authority of a domain object\<close>

definition domain_kind :: "execution_kind \<Rightarrow> string" where
  "domain_kind k = (case k of ExecutionKindAgent \<Rightarrow> ''AgentRun'' | ExecutionKindUtility \<Rightarrow> ''UtilityOperation''
     | ExecutionKindHumanGate \<Rightarrow> ''ApprovalRequest'' | ExecutionKindValidation \<Rightarrow> ''ValidationRun'' | OtherKind _ \<Rightarrow> '''')"

definition validate_domain_binding ::
  "step_attempt \<Rightarrow> ('s, 't) kobj \<Rightarrow> string \<Rightarrow> execution_kind \<Rightarrow> uid_reference \<Rightarrow> string \<Rightarrow> int \<Rightarrow> go_error option" where
  "validate_domain_binding attempt object attemptRef expectedKind workflowRef stepName attemptNumber =
     (if attemptRef \<noteq> name_of attempt \<or> \<not> is_controlled_by object attempt
        then Some (Invalid ''not controlled by StepAttempt'')
      else if sa_kind (spec attempt) \<noteq> expectedKind
         \<or> ref_name (sa_workflowRef (spec attempt)) \<noteq> ref_name workflowRef
         \<or> ref_uid (sa_workflowRef (spec attempt)) \<noteq> ref_uid workflowRef
         \<or> sa_stepName (spec attempt) \<noteq> stepName
         \<or> sa_retryNumber (spec attempt) \<noteq> attemptNumber
        then Some (Invalid ''domain execution identity does not match StepAttempt'')
      else None)"

definition validate_domain_authority ::
  "('s, 't) kobj \<Rightarrow> string \<Rightarrow> execution_kind \<Rightarrow> uid_reference \<Rightarrow> string \<Rightarrow> int \<Rightarrow> bool action" where
  "validate_domain_authority object attemptRef expectedKind workflowRef stepName attemptNumber =
     bind_io (attempt_io (k_get StepAttempts (namespace_of object) attemptRef)) (\<lambda>res. case res of
         Inl e \<Rightarrow> (if e = NotFound then ret False else raise e)
       | Inr attempt \<Rightarrow>
          (case validate_domain_binding attempt object attemptRef expectedKind workflowRef stepName attemptNumber of
             Some e \<Rightarrow> raise e
           | None \<Rightarrow> (case sa_executionRef (status attempt) of
                 None \<Rightarrow> ret False
               | Some ref \<Rightarrow>
                   if tl_apiVersion ref \<noteq> group_version \<or> tl_kind ref \<noteq> domain_kind expectedKind
                      \<or> tl_name ref \<noteq> name_of object
                   then raise (Invalid ''StepAttempt does not authorize the execution'') else ret True)))"

definition namespace_terminating :: "string \<Rightarrow> bool action" where
  "namespace_terminating ns =
     (if ns = '''' then ret False
      else bind_io (attempt_io (k_get Namespaces '''' ns)) (\<lambda>res. case res of
          Inl e \<Rightarrow> (if e = NotFound then ret False else raise e)
        | Inr current \<Rightarrow> ret (deletion (meta current) \<noteq> None)))"

subsection \<open>The status of the execution\<close>

record domain_status =
  ds_phase :: resource_phase
  ds_reason :: string
  ds_message :: string
  ds_retryable :: bool

definition invalid_authority :: domain_status where
  "invalid_authority = \<lparr>ds_phase = PhaseFailed, ds_reason = ''InvalidDomainAuthority'', ds_message = '''',
     ds_retryable = False\<rparr>"

definition read_domain_status :: "step_attempt \<Rightarrow> typed_local_reference \<Rightarrow> domain_status action" where
  "read_domain_status attempt ref =
     (let ns = namespace_of attempt; n = tl_name ref
      in case sa_kind (spec attempt) of
        ExecutionKindAgent \<Rightarrow>
          (if tl_kind ref \<noteq> ''AgentRun'' then raise (Invalid ''agent attempt references another kind'')
           else bind_io (k_get AgentRuns ns n) (\<lambda>run.
             case validate_domain_binding attempt run (run_attemptRef (spec run)) ExecutionKindAgent
                    (run_workflowRef (spec run)) (run_stepName (spec run)) (run_attempt (spec run)) of
               Some _ \<Rightarrow> ret invalid_authority
             | None \<Rightarrow> ret \<lparr>ds_phase = run_phase (status run), ds_reason = run_failureReason (status run),
                 ds_message = run_failureMessage (status run), ds_retryable = run_retryable (status run)\<rparr>))
      | ExecutionKindUtility \<Rightarrow>
          (if tl_kind ref \<noteq> ''UtilityOperation'' then raise (Invalid ''utility attempt references another kind'')
           else bind_io (k_get UtilityOperations ns n) (\<lambda>op.
             case validate_domain_binding attempt op (uo_attemptRef (spec op)) ExecutionKindUtility
                    (uo_workflowRef (spec op)) (uo_stepName (spec op)) (uo_attempt (spec op)) of
               Some _ \<Rightarrow> ret invalid_authority
             | None \<Rightarrow> ret \<lparr>ds_phase = uo_phase (status op), ds_reason = uo_failureReason (status op),
                 ds_message = uo_failureMessage (status op), ds_retryable = uo_retryable (status op)\<rparr>))
      | ExecutionKindHumanGate \<Rightarrow>
          (if tl_kind ref \<noteq> ''ApprovalRequest'' then raise (Invalid ''human gate attempt references another kind'')
           else bind_io (k_get ApprovalRequests ns n) (\<lambda>approval.
             case validate_domain_binding attempt approval (ref_name (rq_attemptRef (spec approval)))
                    ExecutionKindHumanGate (rq_workflowRef (spec approval)) (rq_stepName (spec approval))
                    (rq_attempt (spec approval)) of
               Some _ \<Rightarrow> ret invalid_authority
             | None \<Rightarrow> ret \<lparr>ds_phase = rq_phase (status approval), ds_reason = rq_failureReason (status approval),
                 ds_message = '''', ds_retryable = rq_retryable (status approval)\<rparr>))
      | ExecutionKindValidation \<Rightarrow>
          (if tl_kind ref \<noteq> ''ValidationRun'' then raise (Invalid ''validation attempt references another kind'')
           else bind_io (k_get ValidationRuns ns n) (\<lambda>run.
             case validate_domain_binding attempt run (vr_attemptRef (spec run)) ExecutionKindValidation
                    (vr_workflowRef (spec run)) (vr_stepName (spec run)) (vr_attempt (spec run)) of
               Some _ \<Rightarrow> ret invalid_authority
             | None \<Rightarrow> ret \<lparr>ds_phase = vr_phase (status run), ds_reason = vr_failureReason (status run),
                 ds_message = '''', ds_retryable = vr_retryable (status run)\<rparr>))
      | OtherKind _ \<Rightarrow> ret \<lparr>ds_phase = PhaseFailed, ds_reason = ''UnsupportedKind'', ds_message = '''', ds_retryable = False\<rparr>)"

definition domain_phase_reason :: "resource_phase \<Rightarrow> string \<Rightarrow> string" where
  "domain_phase_reason phase failureReason =
     (if failureReason \<noteq> '''' then failureReason
      else case phase of PhaseAwaitingApproval \<Rightarrow> ''ApprovalRequested'' | PhaseSucceeded \<Rightarrow> ''DomainExecutionSucceeded''
        | PhaseFailed \<Rightarrow> ''DomainExecutionFailed'' | PhaseInterrupted \<Rightarrow> ''DomainExecutionInterrupted''
        | _ \<Rightarrow> ''DomainExecutionObserved'')"

definition domain_phase_message :: "string \<Rightarrow> resource_phase \<Rightarrow> string \<Rightarrow> string" where
  "domain_phase_message kind phase failureMessage =
     (if failureMessage \<noteq> '''' \<and> (phase = PhaseFailed \<or> phase = PhaseInterrupted) then failureMessage
      else kind @ '' is '' @ phase_text phase)"

subsection \<open>The reconciler\<close>

definition update_attempt_status ::
  "string \<Rightarrow> string \<Rightarrow> (int \<Rightarrow> step_attempt \<Rightarrow> step_attempt option) \<Rightarrow> (step_attempt \<times> bool) action" where
  "update_attempt_status ns n mutate = retry_on_conflict (
     bind_io (k_get StepAttempts ns n) (\<lambda>latest.
     bind_io (gets clock) (\<lambda>now. case mutate now latest of
         None \<Rightarrow> ret (latest, False)
       | Some latest' \<Rightarrow> bind_io (k_update_status StepAttempts latest') (\<lambda>updated. ret (updated, True)))))"

definition append_phase_event :: "(string \<Rightarrow> string) \<Rightarrow> step_attempt \<Rightarrow> resource_phase \<Rightarrow> string \<Rightarrow> unit action" where
  "append_phase_event sha attempt phase reason =
     append_controller_event sha ''stepattempt-controller''
       \<lparr>op_instanceID = '''', op_source = '''', op_type = ''StepAttempt'' @ phase_text phase, op_occurredAt = None,
        op_actor = \<lparr>actor_kind = '''', actor_id = ''''\<rparr>, op_requester = None,
        op_subject = \<lparr>sub_project = '''', sub_namespace = namespace_of attempt,
          sub_workflow = ref_name (sa_workflowRef (spec attempt)), sub_step = sa_stepName (spec attempt),
          sub_attempt = sa_retryNumber (spec attempt)\<rparr>,
        op_action = ''observe'', op_target = name_of attempt, op_outcome = phase_text phase, op_reason = reason,
        op_correlationID = '''', op_causationID = '''', op_decisionID = '''',
        op_references = (case sa_executionRef (status attempt) of None \<Rightarrow> []
          | Some ref \<Rightarrow> [(''executionKind'', tl_kind ref), (''execution'', tl_name ref)]),
        op_data = NoData\<rparr>"

text \<open>
  The mutation of \<open>setPhase\<close>: \<open>attempt\<close> is the reconciler's copy with the failure fields it has
  set, \<open>latest\<close> what was just read; \<open>None\<close> leaves the attempt unchanged.
\<close>

definition phase_mutation ::
  "step_attempt_status \<Rightarrow> resource_phase \<Rightarrow> string \<Rightarrow> string \<Rightarrow> int \<Rightarrow> step_attempt \<Rightarrow> step_attempt option" where
  "phase_mutation attempt phase reason message now latest =
     (let st = status latest
      in if is_terminal (sa_phase st) \<and> sa_phase st \<noteq> phase then None
         else if sa_phase st = phase \<and> (case find_condition (sa_conditions st) ''Ready'' of
                 None \<Rightarrow> False | Some c \<Rightarrow> cond_reason c = reason \<and> cond_message c = message) then None
         else Some (latest\<lparr>status := st\<lparr>sa_phase := phase,
             sa_failureReason := sa_failureReason attempt, sa_failureMessage := sa_failureMessage attempt,
             sa_retryable := sa_retryable attempt, sa_observedGeneration := generation (meta latest),
             sa_startedAt := (if phase = PhaseRunning \<and> sa_startedAt st = None then Some now else sa_startedAt st),
             sa_completedAt := (if is_terminal phase then Some now else sa_completedAt st),
             sa_conditions := set_condition \<lparr>cond_type = ''Ready'', cond_status = condition_status_of phase,
               cond_reason = reason, cond_message = message, cond_generation = generation (meta latest)\<rparr>
               (sa_conditions st)\<rparr>\<rparr>))"

definition set_phase ::
  "(string \<Rightarrow> string) \<Rightarrow> step_attempt \<Rightarrow> resource_phase \<Rightarrow> string \<Rightarrow> string \<Rightarrow> unit action" where
  "set_phase sha attempt phase reason message =
     bind_io (update_attempt_status (namespace_of attempt) (name_of attempt)
                (phase_mutation (status attempt) phase reason message)) (\<lambda>(updated, changed).
       if \<not> changed then ret () else append_phase_event sha updated phase reason)"

definition with_failure :: "step_attempt \<Rightarrow> string \<Rightarrow> bool \<Rightarrow> step_attempt" where
  "with_failure attempt reason retryable =
     attempt\<lparr>status := (status attempt)\<lparr>sa_failureReason := reason, sa_retryable := retryable\<rparr>\<rparr>"

definition fail_attempt :: "(string \<Rightarrow> string) \<Rightarrow> step_attempt \<Rightarrow> string \<Rightarrow> bool \<Rightarrow> unit action" where
  "fail_attempt sha attempt reason retryable =
     set_phase sha (with_failure attempt reason retryable) PhaseFailed reason ''attempt failed''"

definition interrupt_attempt :: "(string \<Rightarrow> string) \<Rightarrow> step_attempt \<Rightarrow> string \<Rightarrow> bool \<Rightarrow> unit action" where
  "interrupt_attempt sha attempt reason retryable =
     set_phase sha (with_failure attempt reason retryable) PhaseInterrupted reason ''attempt interrupted''"

definition observe_execution :: "(string \<Rightarrow> string) \<Rightarrow> step_attempt \<Rightarrow> typed_local_reference \<Rightarrow> int option action" where
  "observe_execution sha attempt ref =
     bind_io (attempt_io (read_domain_status attempt ref)) (\<lambda>res. case res of
         Inl e \<Rightarrow> (if e = NotFound
                   then bind_io (interrupt_attempt sha attempt ''ExecutionPrimitiveLost'' True) (\<lambda>_. ret None)
                   else raise e)
       | Inr d \<Rightarrow>
           if ds_phase d = NoPhase then ret (Some 2)
           else bind_io (set_phase sha (attempt\<lparr>status := (status attempt)\<lparr>sa_failureReason := ds_reason d,
                    sa_failureMessage := ds_message d, sa_retryable := ds_retryable d\<rparr>\<rparr>) (ds_phase d)
                    (domain_phase_reason (ds_phase d) (ds_reason d))
                    (domain_phase_message (tl_kind ref) (ds_phase d) (ds_message d))) (\<lambda>_. ret None))"

definition reconcile_step_attempt :: "(string \<Rightarrow> string) \<Rightarrow> string \<Rightarrow> string \<Rightarrow> int option action" where
  "reconcile_step_attempt sha ns n =
     bind_io (attempt_io (k_get StepAttempts ns n)) (\<lambda>res. case res of
         Inl e \<Rightarrow> (if e = NotFound then ret None else raise e)
       | Inr attempt \<Rightarrow>
           if deletion (meta attempt) \<noteq> None then ret None
           else bind_io (namespace_terminating (namespace_of attempt)) (\<lambda>terminating.
             if terminating then ret None
             else if sa_phase (status attempt) = NoPhase then
               bind_io (set_phase sha attempt PhasePending ''Initialized'' ''attempt initialized'') (\<lambda>_. ret None)
             else if is_terminal (sa_phase (status attempt)) then ret None
             else case sa_executionRef (status attempt) of
                 None \<Rightarrow> ret (Some 2)
               | Some ref \<Rightarrow>
                   if tl_apiVersion ref \<noteq> group_version \<or> tl_kind ref \<noteq> domain_kind (sa_kind (spec attempt))
                   then bind_io (fail_attempt sha attempt ''InvalidExecutionReference'' False) (\<lambda>_. ret None)
                   else observe_execution sha attempt ref))"

subsection \<open>Outcomes are kept\<close>

definition outcome_is :: "string \<times> string \<Rightarrow> resource_phase \<Rightarrow> cluster \<Rightarrow> bool" where
  "outcome_is k p w \<longleftrightarrow> (\<exists>a. find_by obj_key k (step_attempts w) = Some a \<and> sa_phase (status a) = p)"

lemma outcome_is_frame [simp]:
  "outcome_is k p (w\<lparr>faults := fs\<rparr>) = outcome_is k p w" "outcome_is k p (w\<lparr>audit_log := a\<rparr>) = outcome_is k p w"
  by (simp_all add: outcome_is_def)

lemma update_keeps_outcome:
  assumes "obj_key x = k \<Longrightarrow> sa_phase (status x) = p"
  shows "keeps (outcome_is k p) (k_update_status StepAttempts x)"
  unfolding k_update_status_def k_write_def
proof (rule keeps_api_call, simp)
  have kept: "outcome_is k p (step_attempts_update (replace_by obj_key (obj_key x) (updated_status x cur)) w)"
    if "find_by obj_key (obj_key x) (step_attempts w) = Some cur" "outcome_is k p w" for w cur
  proof -
    have "obj_key (updated_status x cur) = obj_key x" using find_by_set [OF that(1)] by simp
    then show ?thesis using that assms by (auto simp: outcome_is_def store_simps)
  qed
  show "keeps (outcome_is k p) (\<lambda>w. case find_by obj_key (obj_key x) (items StepAttempts w) of
       None \<Rightarrow> (Inl NotFound, w)
     | Some cur \<Rightarrow> if resource_version (meta x) \<noteq> resource_version (meta cur) then (Inl Conflict, w)
         else let y = updated_status x cur in (Inr y, upd_items StepAttempts (replace_by obj_key (obj_key x) y) w))"
    by (rule tripleI) (auto simp: StepAttempts_def Let_def kept split: option.splits if_splits)
qed

lemma phase_mutation_key: "phase_mutation st phase reason message now latest = Some l \<Longrightarrow> obj_key l = obj_key latest"
  by (auto simp: phase_mutation_def Let_def split: if_splits)

lemma phase_mutation_phase:
  "phase_mutation st phase reason message now latest = Some l \<Longrightarrow>
   sa_phase (status l) = phase \<and> (is_terminal (sa_phase (status latest)) \<longrightarrow> sa_phase (status latest) = phase)"
  by (auto simp: phase_mutation_def Let_def split: if_splits)

lemma set_phase_keeps_outcome:
  assumes "is_terminal p"
  shows "keeps (outcome_is k p) (set_phase sha attempt phase reason message)"
proof -
  let ?ns = "namespace_of attempt" and ?n = "name_of attempt"
  let ?mut = "phase_mutation (status attempt) phase reason message"
  let ?body = "bind_io (k_get StepAttempts ?ns ?n) (\<lambda>latest.
     bind_io (gets clock) (\<lambda>now. case ?mut now latest of
         None \<Rightarrow> ret (latest, False)
       | Some latest' \<Rightarrow> bind_io (k_update_status StepAttempts latest') (\<lambda>updated. ret (updated, True))))"
  have body: "keeps (outcome_is k p) ?body"
  proof (rule triple_bind)
    show "triple (outcome_is k p) (k_get StepAttempts ?ns ?n)
        (\<lambda>latest w. outcome_is k p w \<and> (k = (?ns, ?n) \<longrightarrow> sa_phase (status latest) = p) \<and> obj_key latest = (?ns, ?n))
        (\<lambda>_. outcome_is k p)"
    proof (rule tripleI)
      fix w latest w' assume I: "outcome_is k p w" and get: "k_get StepAttempts ?ns ?n w = (Inr latest, w')"
      have "find_by obj_key (?ns, ?n) (step_attempts w') = Some latest"
        using step_attempt_kind.get_result(1) [OF get] by (simp add: StepAttempts_def)
      moreover have "outcome_is k p w'" using I get_frame [OF get] by auto
      ultimately show "outcome_is k p w' \<and> (k = (?ns, ?n) \<longrightarrow> sa_phase (status latest) = p) \<and> obj_key latest = (?ns, ?n)"
        using find_by_set [of obj_key "(?ns, ?n)" "step_attempts w'" latest] by (auto simp: outcome_is_def)
    next
      fix w e w' assume "outcome_is k p w" and get: "k_get StepAttempts ?ns ?n w = (Inl e, w')"
      then show "outcome_is k p w'" using get_frame [OF get] by auto
    qed
  next
    fix latest :: step_attempt
    let ?P = "\<lambda>w. outcome_is k p w \<and> (k = (?ns, ?n) \<longrightarrow> sa_phase (status latest) = p) \<and> obj_key latest = (?ns, ?n)"
    show "triple ?P (bind_io (gets clock) (\<lambda>now. case ?mut now latest of
         None \<Rightarrow> ret (latest, False)
       | Some latest' \<Rightarrow> bind_io (k_update_status StepAttempts latest') (\<lambda>updated. ret (updated, True))))
       (\<lambda>_. outcome_is k p) (\<lambda>_. outcome_is k p)"
    proof (rule triple_bind_gets)
      fix now
      show "triple ?P (case ?mut now latest of
         None \<Rightarrow> ret (latest, False)
       | Some latest' \<Rightarrow> bind_io (k_update_status StepAttempts latest') (\<lambda>updated. ret (updated, True)))
       (\<lambda>_. outcome_is k p) (\<lambda>_. outcome_is k p)"
      proof (cases "?mut now latest")
        case None
        then show ?thesis by (simp add: triple_def ret_def)
      next
        case (Some l)
        show ?thesis
        proof (cases "(k = (?ns, ?n) \<longrightarrow> sa_phase (status latest) = p) \<and> obj_key latest = (?ns, ?n)")
          case True
          then have "obj_key l = k \<Longrightarrow> sa_phase (status l) = p"
            using phase_mutation_key [OF Some] phase_mutation_phase [OF Some] assms by auto
          then have "keeps (outcome_is k p) (bind_io (k_update_status StepAttempts l) (\<lambda>updated. ret (updated, True)))"
            by (intro triple_intros update_keeps_outcome)
          then show ?thesis unfolding Some option.case by (rule triple_weaken) auto
        next
          case False
          then show ?thesis by (auto simp: triple_def)
        qed
      qed
    qed
  qed
  show ?thesis
    unfolding set_phase_def update_attempt_status_def append_phase_event_def
    by (intro triple_intros body keeps_controller_event) simp_all
qed

lemma keeps_read_domain_status:
  assumes "\<And>fs w. I w \<Longrightarrow> I (w\<lparr>faults := fs\<rparr>)"
  shows "keeps I (read_domain_status attempt ref)"
  unfolding read_domain_status_def Let_def
  by (cases "sa_kind (spec attempt)")
    (auto intro!: triple_intros keeps_get assms split: option.split)

lemma reconcile_keeps_outcome:
  assumes "is_terminal p"
  shows "keeps (outcome_is k p) (reconcile_step_attempt sha ns n)"
  unfolding reconcile_step_attempt_def observe_execution_def fail_attempt_def interrupt_attempt_def
    namespace_terminating_def
  by (intro triple_intros keeps_get keeps_read_domain_status set_phase_keeps_outcome assms) simp_all

text \<open>What \<open>setPhase\<close> reports as done is stored.\<close>

lemma set_phase_stored:
  assumes "set_phase sha attempt phase reason message w = (Inr (), w')"
  shows "\<exists>p. outcome_is (obj_key attempt) p w' \<and> (p = phase \<or> is_terminal p)"
proof -
  let ?mut = "phase_mutation (status attempt) phase reason message"
  from assms obtain updated changed v where
    upd: "update_attempt_status (namespace_of attempt) (name_of attempt) ?mut w = (Inr (updated, changed), v)"
    and rest: "(if \<not> changed then ret () else append_phase_event sha updated phase reason) v = (Inr (), w')"
    unfolding set_phase_def by (auto elim!: bind_io_result)
  from retry_on_conflict_resultD [OF upd [unfolded update_attempt_status_def]]
  obtain u x latest where
    get: "k_get StepAttempts (namespace_of attempt) (name_of attempt) u = (Inr latest, x)"
    and cont: "(case ?mut (clock x) latest of
         None \<Rightarrow> ret (latest, False)
       | Some latest' \<Rightarrow> bind_io (k_update_status StepAttempts latest') (\<lambda>updated. ret (updated, True))) x
      = (Inr (updated, changed), v)"
    by (auto simp: gets_def elim!: bind_io_result)
  have found: "find_by obj_key (obj_key attempt) (step_attempts x) = Some latest"
    using step_attempt_kind.get_result(1) [OF get] by (simp add: StepAttempts_def obj_key_def)
  have "\<exists>p. outcome_is (obj_key attempt) p v \<and> (p = phase \<or> is_terminal p)"
  proof (cases "?mut (clock x) latest")
    case None
    then have "v = x" using cont by (simp add: ret_def)
    moreover have "sa_phase (status latest) = phase \<or> is_terminal (sa_phase (status latest))"
      using None by (auto simp: phase_mutation_def Let_def split: if_splits)
    ultimately show ?thesis using found by (auto simp: outcome_is_def)
  next
    case (Some l)
    with cont obtain y where up: "k_update_status StepAttempts l x = (Inr y, v)"
      by (auto simp: ret_def elim!: bind_io_result)
    have key: "obj_key l = obj_key attempt"
      using phase_mutation_key [OF Some] find_by_set [OF found] by simp
    from up obtain cur where "y = updated_status l cur"
      and "find_by obj_key (obj_key l) (items StepAttempts v) = Some y"
      by (rule step_attempt_kind.update_status_result)
    then show ?thesis using phase_mutation_phase [OF Some] key by (auto simp: outcome_is_def StepAttempts_def)
  qed
  then obtain p where p: "outcome_is (obj_key attempt) p v" "p = phase \<or> is_terminal p" by blast
  have "keeps (outcome_is (obj_key attempt) p) (if \<not> changed then ret () else append_phase_event sha updated phase reason)"
    unfolding append_phase_event_def by (intro triple_intros keeps_controller_event) simp_all
  from triple_resultD [OF this p(1) rest] p(2) show ?thesis by blast
qed

subsection \<open>An example\<close>

definition demo_attempt :: "resource_phase \<Rightarrow> step_attempt" where
  "demo_attempt p = \<lparr>meta = bare_meta ''team'' ''build-1'' ''ua'',
     spec = \<lparr>sa_workflowRef = \<lparr>ref_name = ''wf'', ref_uid = ''uw''\<rparr>, sa_stepName = ''build'', sa_retryNumber = 1,
       sa_workflowAttempt = 0, sa_kind = ExecutionKindAgent\<rparr>,
     status = \<lparr>sa_observedGeneration = 0, sa_phase = p,
       sa_executionRef = Some \<lparr>tl_apiVersion = group_version, tl_kind = ''AgentRun'', tl_name = ''build-1''\<rparr>,
       sa_failureReason = '''', sa_failureMessage = '''', sa_retryable = False, sa_completion = None,
       sa_startedAt = None, sa_completedAt = None, sa_conditions = []\<rparr>\<rparr>"

definition demo_run :: "resource_phase \<Rightarrow> agent_run" where
  "demo_run p = \<lparr>meta = (bare_meta ''team'' ''build-1'' ''ur'')\<lparr>controller_owner :=
       Some (owner_ref_of ''StepAttempt'' (demo_attempt PhaseRunning))\<rparr>,
     spec = \<lparr>run_attemptRef = ''build-1'', run_priorAttemptRef = None,
       run_workflowRef = \<lparr>ref_name = ''wf'', ref_uid = ''uw''\<rparr>, run_stepName = ''build'', run_attempt = 1,
       run_responsibility = '''', run_image = '''', run_executable = [], run_capabilities = [], run_inputs = [],
       run_outputContracts = [], run_inference = None, run_timeout = None\<rparr>,
     status = \<lparr>run_observedGeneration = 0, run_phase = p, run_podRef = '''', run_collectorJobRef = '''',
       run_inferenceLeaseRef = '''', run_workspaceWriterLeaseRef = '''', run_workspaceWriterEpoch = 0,
       run_workspaceWriterReleased = False, run_failureReason = ''Crash'', run_failureMessage = ''exit 1'',
       run_retryable = True, run_completion = None, run_startedAt = None, run_completedAt = None,
       run_conditions = []\<rparr>\<rparr>"

definition attempt_cluster :: "resource_phase \<Rightarrow> resource_phase \<Rightarrow> cluster" where
  "attempt_cluster p q = empty_cluster\<lparr>audit_log := Some [], step_attempts := [demo_attempt p],
     agent_runs := [demo_run q]\<rparr>"

definition attempt_phase :: "cluster \<Rightarrow> resource_phase list" where
  "attempt_phase w = map (\<lambda>a. sa_phase (status a)) (step_attempts w)"

subsection \<open>Properties\<close>

text \<open>
  C26: The outcome of an attempt is final: an attempt that has succeeded, failed, been cancelled
  or interrupted keeps that phase through every reconciliation of any attempt, whatever its
  execution reports afterwards and whatever calls fail, race or are retried.
\<close>

theorem attempt_outcome_is_final:
  assumes "is_terminal p" and "outcome_is k p w"
  shows "outcome_is k p (snd (reconcile_step_attempt sha ns n w))"
proof (cases "reconcile_step_attempt sha ns n w")
  case (Pair res w')
  then show ?thesis
    using triple_resultD [OF reconcile_keeps_outcome [OF assms(1)] assms(2)]
      triple_errorD [OF reconcile_keeps_outcome [OF assms(1)] assms(2)]
    by (cases res) auto
qed

theorem attempt_outcome_is_final_witness:
  "outcome_is (''team'', ''build-1'') PhaseSucceeded
     (snd (reconcile_step_attempt (\<lambda>s. s) ''team'' ''build-1'' (attempt_cluster PhaseSucceeded PhaseFailed)))"
  by (rule attempt_outcome_is_final)
    (simp_all add: is_terminal_def outcome_is_def attempt_cluster_def demo_attempt_def obj_key_def)

text \<open>
  When recording a phase succeeds, whatever was retried on the way, the cluster holds the
  attempt in that phase, or in a terminal phase it had reached before.
\<close>

theorem recorded_phase_is_stored:
  assumes "set_phase sha attempt phase reason message w = (Inr (), w')"
  shows "outcome_is (obj_key attempt) phase w' \<or> (\<exists>p. is_terminal p \<and> outcome_is (obj_key attempt) p w')"
  using set_phase_stored [OF assms] by auto

theorem recorded_phase_is_stored_witness:
  "outcome_is (''team'', ''build-1'') PhaseRunning (snd (set_phase (\<lambda>s. s) (demo_attempt PhasePending) PhaseRunning ''r'' ''m''
      (attempt_cluster PhasePending PhaseRunning)))
   \<or> (\<exists>p. is_terminal p \<and> outcome_is (''team'', ''build-1'') p (snd (set_phase (\<lambda>s. s) (demo_attempt PhasePending)
        PhaseRunning ''r'' ''m'' (attempt_cluster PhasePending PhaseRunning))))"
proof -
  have "fst (set_phase (\<lambda>s. s) (demo_attempt PhasePending) PhaseRunning ''r'' ''m'' (attempt_cluster PhasePending PhaseRunning)) = Inr ()"
    by code_simp
  then have "set_phase (\<lambda>s. s) (demo_attempt PhasePending) PhaseRunning ''r'' ''m'' (attempt_cluster PhasePending PhaseRunning)
     = (Inr (), snd (set_phase (\<lambda>s. s) (demo_attempt PhasePending) PhaseRunning ''r'' ''m'' (attempt_cluster PhasePending PhaseRunning)))"
    by (simp add: prod_eq_iff)
  from recorded_phase_is_stored [OF this] show ?thesis by (simp add: obj_key_def demo_attempt_def)
qed

text \<open>
  The event of a failed attempt can be lost for good. The phase is stored before the event
  is appended; if the append fails, the attempt is terminal at the next reconciliation, which
  then returns without appending anything, however often it runs.
\<close>

theorem failed_append_loses_the_event:
  "case reconcile_step_attempt (\<lambda>s. s) ''team'' ''build-1''
      ((attempt_cluster PhaseRunning PhaseFailed)\<lparr>faults := replicate 5 Pass @ [Deny (Transient ''db'')]\<rparr>) of
     (res, w) \<Rightarrow> res = Inl (Transient ''db'') \<and> attempt_phase w = [PhaseFailed] \<and> audit_log w = Some []
       \<and> reconcile_step_attempt (\<lambda>s. s) ''team'' ''build-1'' w = (Inr None, w)"
  by code_simp

end
