(* ===== verification/Go_Net.thy ===== *)
theory Go_Net
  imports Go_Strings Prelude
begin

section \<open>URLs, timestamps and the patterns of the contracts\<close>

text \<open>
  What the validators use of Go's \<open>net/url\<close>, \<open>time\<close> and \<open>regexp\<close> packages and of the Kubernetes
  name validation: \<open>url.Parse\<close> down to the parts the code looks at, \<open>time.Parse\<close> with the layout
  RFC 3339, the anchored patterns, and DNS labels. A host in brackets (an IP literal) is not
  modelled and counts as a parse error; the user part of an authority is only detected, because
  every caller rejects it.
\<close>

subsection \<open>url.Parse\<close>

record parsed_url =
  url_scheme :: string
  url_host :: string
  url_path :: string
  url_user :: bool
  url_rawQuery :: string
  url_hasFragment :: bool

text \<open>\<open>strings.Cut\<close> on one byte: what is before and, where the byte occurs, what is after it.\<close>

fun cut_byte :: "char \<Rightarrow> string \<Rightarrow> string \<times> string option" where
  "cut_byte d [] = ([], None)"
| "cut_byte d (c # s) = (if c = d then ([], Some s) else (case cut_byte d s of (a, b) \<Rightarrow> (c # a, b)))"

definition after_cut :: "string \<times> string option \<Rightarrow> string" where
  "after_cut p = (case snd p of None \<Rightarrow> [] | Some s \<Rightarrow> s)"

definition is_scheme_extra :: "char \<Rightarrow> bool" where
  "is_scheme_extra c \<longleftrightarrow> is_digit c \<or> c \<in> set ''+-.''"

text \<open>
  \<open>getScheme\<close>: \<open>None\<close> for a missing scheme before a colon, otherwise the scheme (empty where
  there is none) and the rest.
\<close>

fun scheme_loop :: "string \<Rightarrow> string \<Rightarrow> string \<Rightarrow> (string \<times> string) option" where
  "scheme_loop raw seen [] = Some ([], raw)"
| "scheme_loop raw seen (c # s) =
     (if is_lower c \<or> is_upper c then scheme_loop raw (seen @ [c]) s
      else if is_scheme_extra c then (if seen = [] then Some ([], raw) else scheme_loop raw (seen @ [c]) s)
      else if c = CHR '':'' then (if seen = [] then None else Some (seen, s))
      else Some ([], raw))"

text \<open>\<open>unescape\<close>: the decoded text, or \<open>None\<close> for an invalid escape. In a host only escapes of
  non-ASCII bytes are allowed, and no byte that would have to be escaped.\<close>

definition hex_value :: "char \<Rightarrow> nat" where
  "hex_value c = (let n = of_char c in if n \<le> 57 then n - 48 else if n \<le> 70 then n - 55 else n - 87)"

definition host_byte :: "char \<Rightarrow> bool" where
  "host_byte c \<longleftrightarrow> 128 \<le> (of_char c :: nat) \<or> is_alnum c \<or> c \<in> set ''-_.~!$&()*+,;=:[]<>'' \<or> c = CHR 0x27 \<or> c = CHR 0x22"

fun unescape :: "bool \<Rightarrow> string \<Rightarrow> string option" where
  "unescape host [] = Some []"
| "unescape host (c # s) =
     (if c = CHR ''%'' then
        (case s of a # b # t \<Rightarrow>
           if is_hex a \<and> is_hex b \<and> \<not> (host \<and> hex_value a < 8 \<and> \<not> (a = CHR ''2'' \<and> b = CHR ''5''))
           then (case unescape host t of None \<Rightarrow> None
                 | Some u \<Rightarrow> Some (char_of (16 * hex_value a + hex_value b) # u))
           else None
         | _ \<Rightarrow> None)
      else if host \<and> \<not> host_byte c then None
      else (case unescape host s of None \<Rightarrow> None | Some u \<Rightarrow> Some (c # u)))"

definition valid_optional_port :: "string \<Rightarrow> bool" where
  "valid_optional_port s = (case s of [] \<Rightarrow> True | c # ds \<Rightarrow> c = CHR '':'' \<and> list_all is_digit ds)"

definition parse_host :: "string \<Rightarrow> string option" where
  "parse_host host =
     (if has_prefix host ''['' then None
      else (case cut_byte (CHR '':'') host of
          (_, None) \<Rightarrow> unescape True host
        | (_, Some port) \<Rightarrow> if valid_optional_port ('':'' @ port) then unescape True host else None))"

definition control_byte :: "char \<Rightarrow> bool" where
  "control_byte c \<longleftrightarrow> (of_char c :: nat) < 32 \<or> (of_char c :: nat) = 127"

definition parse_url :: "string \<Rightarrow> parsed_url option" where
  "parse_url raw =
     (let cutFrag = cut_byte (CHR ''#'') raw; u = fst cutFrag; frag = after_cut cutFrag
      in if list_ex control_byte u then None
         else if frag \<noteq> [] \<and> unescape False frag = None then None
         else if u = ''*'' then Some \<lparr>url_scheme = '''', url_host = '''', url_path = ''*'', url_user = False,
                url_rawQuery = '''', url_hasFragment = frag \<noteq> []\<rparr>
         else (case scheme_loop u [] u of
             None \<Rightarrow> None
           | Some (scheme0, rest0) \<Rightarrow>
               (let scheme = to_lower scheme0; cutQ = cut_byte (CHR ''?'') rest0;
                    rest = fst cutQ; query = after_cut cutQ
                in if \<not> has_prefix rest ''/'' then
                     (if scheme \<noteq> [] then Some \<lparr>url_scheme = scheme, url_host = '''', url_path = '''',
                        url_user = False, url_rawQuery = query, url_hasFragment = frag \<noteq> []\<rparr>
                      else if CHR '':'' \<in> set (fst (cut_byte (CHR ''/'') rest)) then None
                      else (case unescape False rest of None \<Rightarrow> None
                          | Some p \<Rightarrow> Some \<lparr>url_scheme = '''', url_host = '''', url_path = p, url_user = False,
                              url_rawQuery = query, url_hasFragment = frag \<noteq> []\<rparr>))
                   else if (scheme \<noteq> [] \<or> \<not> has_prefix rest ''///'') \<and> has_prefix rest ''//'' then
                     (let cutA = cut_byte (CHR ''/'') (drop 2 rest); authority = fst cutA;
                          path = (case snd cutA of None \<Rightarrow> [] | Some p \<Rightarrow> ''/'' @ p);
                          user = (CHR ''@'' \<in> set authority)
                      in case (if user then Some '''' else parse_host authority, unescape False path) of
                           (Some h, Some p) \<Rightarrow> Some \<lparr>url_scheme = scheme, url_host = h, url_path = p, url_user = user,
                              url_rawQuery = query, url_hasFragment = frag \<noteq> []\<rparr>
                         | _ \<Rightarrow> None)
                   else (case unescape False rest of None \<Rightarrow> None
                       | Some p \<Rightarrow> Some \<lparr>url_scheme = scheme, url_host = '''', url_path = p, url_user = False,
                           url_rawQuery = query, url_hasFragment = frag \<noteq> []\<rparr>))))"

text \<open>\<open>URL.Hostname\<close> for a host without brackets: without the port after the last colon.\<close>

definition url_hostname :: "string \<Rightarrow> string" where
  "url_hostname h = (case cut_byte (CHR '':'') (rev h) of
       (_, None) \<Rightarrow> h
     | (portRev, Some hostRev) \<Rightarrow> if list_all is_digit portRev then rev hostRev else h)"

subsection \<open>time.Parse with RFC 3339\<close>

definition digit_value :: "char \<Rightarrow> nat" where
  "digit_value c = of_char c - 48"

definition digits_number :: "string \<Rightarrow> int" where
  "digits_number s = foldl (\<lambda>n c. 10 * n + int (digit_value c)) 0 s"

text \<open>\<open>getnum\<close>: two digits, or one digit where \<open>fixed\<close> is not set.\<close>

definition get_num :: "bool \<Rightarrow> string \<Rightarrow> (nat \<times> string) option" where
  "get_num fixed s = (case s of
       a # b # t \<Rightarrow> if \<not> is_digit a then None
                   else if \<not> is_digit b then (if fixed then None else Some (digit_value a, b # t))
                   else Some (10 * digit_value a + digit_value b, t)
     | [a] \<Rightarrow> if is_digit a \<and> \<not> fixed then Some (digit_value a, []) else None
     | [] \<Rightarrow> None)"

definition expect :: "char \<Rightarrow> string \<Rightarrow> string option" where
  "expect c s = (case s of d # t \<Rightarrow> if c = d then Some t else None | [] \<Rightarrow> None)"

definition in_range :: "nat \<Rightarrow> nat \<Rightarrow> (nat \<times> string) option \<Rightarrow> (nat \<times> string) option" where
  "in_range lo hi r = (case r of None \<Rightarrow> None | Some (n, s) \<Rightarrow> if lo \<le> n \<and> n \<le> hi then Some (n, s) else None)"

definition leap_year :: "int \<Rightarrow> bool" where
  "leap_year y \<longleftrightarrow> y mod 4 = 0 \<and> (y mod 100 \<noteq> 0 \<or> y mod 400 = 0)"

definition month_lengths :: "int \<Rightarrow> int list" where
  "month_lengths y = [31, if leap_year y then 29 else 28, 31, 30, 31, 30, 31, 31, 30, 31, 30, 31]"

definition days_before_year :: "int \<Rightarrow> int" where
  "days_before_year y = 365 * y + (y + 3) div 4 - (y + 99) div 100 + (y + 399) div 400"

text \<open>The fraction of a second after the seconds: nanoseconds and the rest.\<close>

definition fraction :: "string \<Rightarrow> int \<times> string" where
  "fraction s = (case s of
       c # d # t \<Rightarrow> if (c = CHR ''.'' \<or> c = CHR '','') \<and> is_digit d
          then (let ds = takeWhile is_digit (d # t); used = take 9 ds
                in (digits_number used * 10 ^ (9 - length used), dropWhile is_digit (d # t)))
          else (0, s)
     | _ \<Rightarrow> (0, s))"

text \<open>The zone: seconds east of UTC and the rest.\<close>

definition zone_offset :: "string \<Rightarrow> (int \<times> string) option" where
  "zone_offset s = (case s of [] \<Rightarrow> None | z # t \<Rightarrow>
     if z = CHR ''Z'' then Some (0, t)
     else if length s < 6 \<or> s ! 3 \<noteq> CHR '':'' then None
     else (case (in_range 0 24 (get_num True (take 2 (drop 1 s))), in_range 0 60 (get_num True (take 2 (drop 4 s)))) of
         (Some (h, _), Some (m, _)) \<Rightarrow>
            (if z = CHR ''+'' then Some (int ((h * 60 + m) * 60), drop 6 s)
             else if z = CHR ''-'' then Some (- int ((h * 60 + m) * 60), drop 6 s) else None)
       | _ \<Rightarrow> None))"

definition bind_opt :: "'a option \<Rightarrow> ('a \<Rightarrow> 'b option) \<Rightarrow> 'b option" where
  "bind_opt x f = (case x of None \<Rightarrow> None | Some v \<Rightarrow> f v)"

text \<open>Seconds (UTC, since the year 0) and nanoseconds of the instant, or \<open>None\<close>.\<close>

definition parse_rfc3339 :: "string \<Rightarrow> (int \<times> int) option" where
  "parse_rfc3339 s =
     (if length s < 4 \<or> \<not> list_all is_digit (take 4 s) then None
      else let year = digits_number (take 4 s) in
        bind_opt (expect (CHR ''-'') (drop 4 s)) (\<lambda>s.
        bind_opt (in_range 1 12 (get_num True s)) (\<lambda>(month, s).
        bind_opt (expect (CHR ''-'') s) (\<lambda>s.
        bind_opt (get_num True s) (\<lambda>(day, s).
        bind_opt (expect (CHR ''T'') s) (\<lambda>s.
        bind_opt (in_range 0 23 (get_num False s)) (\<lambda>(hour, s).
        bind_opt (expect (CHR '':'') s) (\<lambda>s.
        bind_opt (in_range 0 59 (get_num True s)) (\<lambda>(minute, s).
        bind_opt (expect (CHR '':'') s) (\<lambda>s.
        bind_opt (in_range 0 59 (get_num True s)) (\<lambda>(second, s).
          (case fraction s of (nanos, s) \<Rightarrow>
        bind_opt (zone_offset s) (\<lambda>(offset, s).
          if s \<noteq> [] \<or> day < 1 \<or> int day > month_lengths year ! (month - 1) then None
          else Some (((days_before_year year + sum_list (take (month - 1) (month_lengths year)) + int day - 1) * 24
                 + int hour) * 3600 + int minute * 60 + int second - offset, nanos))))))))))))))"

subsection \<open>The anchored patterns\<close>

text \<open>\<open>^sha256:[0-9a-f]{64}$\<close> and \<open>^[0-9a-f]{40}$\<close>.\<close>

definition digest_pattern :: "string \<Rightarrow> bool" where
  "digest_pattern s = (case cut_prefix s ''sha256:'' of None \<Rightarrow> False
     | Some h \<Rightarrow> length h = 64 \<and> list_all is_lower_hex h)"

definition git_oid_pattern :: "string \<Rightarrow> bool" where
  "git_oid_pattern s \<longleftrightarrow> length s = 40 \<and> list_all is_lower_hex s"

text \<open>\<open>^[A-Za-z0-9][A-Za-z0-9._/-]*$\<close>.\<close>

definition branch_byte :: "char \<Rightarrow> bool" where
  "branch_byte c \<longleftrightarrow> is_alnum c \<or> c \<in> set ''._/-''"

definition branch_pattern :: "string \<Rightarrow> bool" where
  "branch_pattern s = (case s of [] \<Rightarrow> False | c # t \<Rightarrow> is_alnum c \<and> list_all branch_byte t)"

text \<open>\<open>[a-z0-9]+(?:[._-][a-z0-9]+)*\<close>: runs of letters and digits with single separators between them.\<close>

definition lower_alnum :: "char \<Rightarrow> bool" where
  "lower_alnum c \<longleftrightarrow> is_digit c \<or> is_lower c"

fun oci_component :: "bool \<Rightarrow> string \<Rightarrow> bool" where
  "oci_component ready [] = ready"
| "oci_component ready (c # s) =
     (if lower_alnum c then oci_component True s
      else ready \<and> c \<in> set ''._-'' \<and> oci_component False s)"

definition oci_first :: "string \<Rightarrow> bool" where
  "oci_first s = (case cut_byte (CHR '':'') s of
       (_, None) \<Rightarrow> oci_component False s
     | (n, Some port) \<Rightarrow> oci_component False n \<and> port \<noteq> [] \<and> list_all is_digit port)"

definition oci_repository_pattern :: "string \<Rightarrow> bool" where
  "oci_repository_pattern s = (case split_on (CHR ''/'') s of
       [] \<Rightarrow> False
     | first # rest \<Rightarrow> oci_first first \<and> rest \<noteq> [] \<and> list_all (oci_component False) rest)"

text \<open>\<open>^[A-Za-z][A-Za-z0-9._-]{0,63}$\<close>.\<close>

definition criterion_id_pattern :: "string \<Rightarrow> bool" where
  "criterion_id_pattern s = (case s of [] \<Rightarrow> False
     | c # t \<Rightarrow> (is_lower c \<or> is_upper c) \<and> length t \<le> 63 \<and> list_all (\<lambda>d. is_alnum d \<or> d \<in> set ''._-'') t)"

subsection \<open>Kubernetes names (apimachinery validation)\<close>

definition dns_label_body :: "string \<Rightarrow> bool" where
  "dns_label_body s \<longleftrightarrow> s \<noteq> [] \<and> list_all (\<lambda>c. lower_alnum c \<or> c = CHR ''-'') s
     \<and> hd s \<noteq> CHR ''-'' \<and> last s \<noteq> CHR ''-''"

definition is_dns1123_label :: "string \<Rightarrow> bool" where
  "is_dns1123_label s \<longleftrightarrow> length s \<le> 63 \<and> dns_label_body s"

definition is_dns1123_subdomain :: "string \<Rightarrow> bool" where
  "is_dns1123_subdomain s \<longleftrightarrow> length s \<le> 253 \<and> list_all dns_label_body (split_on (CHR ''.'') s)"

definition is_dns1035_label :: "string \<Rightarrow> bool" where
  "is_dns1035_label s \<longleftrightarrow> length s \<le> 63 \<and> dns_label_body s \<and> is_lower (hd s)"

end
