(* ===== verification/Go_Json.thy ===== *)
theory Go_Json
  imports Go_Strings
begin

section \<open>JSON strings as encoding/json writes them\<close>

text \<open>
  \<open>json.Marshal\<close> of a string: quotes and backslashes escaped, the other control bytes and the
  bytes \<open><\<close>, \<open>>\<close>, \<open>&\<close> as escapes, the runes U+2028 and U+2029 as escapes, a byte that does not
  start a rune as the escape of U+FFFD, everything else unchanged. The lemmas show that the
  encoding of valid UTF-8 text can be read back from any longer text, so that documents built
  from encoded strings and constant separators determine the strings in them.
\<close>

subsection \<open>Runes\<close>

text \<open>The length of the rune at the head, 0 where the head is not a valid encoding.\<close>

definition tail_bytes :: "(nat \<times> nat) list \<Rightarrow> nat list \<Rightarrow> bool" where
  "tail_bytes rs s \<longleftrightarrow> length rs \<le> length s \<and> list_all2 (\<lambda>(lo, hi) b. lo \<le> b \<and> b \<le> hi) rs (take (length rs) s)"

definition rune_len :: "nat list \<Rightarrow> nat" where
  "rune_len s = (case s of [] \<Rightarrow> 0 | a # t \<Rightarrow>
     if a < 128 then 1
     else if 194 \<le> a \<and> a \<le> 223 then (if tail_bytes [(128, 191)] t then 2 else 0)
     else if 224 \<le> a \<and> a \<le> 239 then
       (if tail_bytes [(if a = 224 then 160 else 128, if a = 237 then 159 else 191), (128, 191)] t then 3 else 0)
     else if 240 \<le> a \<and> a \<le> 244 then
       (if tail_bytes [(if a = 240 then 144 else 128, if a = 244 then 143 else 191), (128, 191), (128, 191)] t then 4 else 0)
     else 0)"

definition rune_at :: "string \<Rightarrow> nat" where
  "rune_at s = rune_len (map of_char s)"

subsection \<open>Encoding\<close>

definition hex_digit :: "nat \<Rightarrow> char" where
  "hex_digit n = ''0123456789abcdef'' ! n"

definition quote :: char where "quote = CHR 0x22"
definition backslash :: char where "backslash = CHR 0x5C"

definition json_safe :: "char \<Rightarrow> bool" where
  "json_safe c \<longleftrightarrow> (let n = of_char c :: nat in 32 \<le> n \<and> n < 128 \<and> c \<notin> {quote, backslash, CHR ''<'', CHR ''>'', CHR ''&''})"

definition escape_byte :: "char \<Rightarrow> string" where
  "escape_byte c =
     (if c = quote \<or> c = backslash then [backslash, c]
      else if c = CHR 0x08 then [backslash, CHR ''b'']
      else if c = CHR 0x0C then [backslash, CHR ''f'']
      else if c = CHR 0x0A then [backslash, CHR ''n'']
      else if c = CHR 0x0D then [backslash, CHR ''r'']
      else if c = CHR 0x09 then [backslash, CHR ''t'']
      else [backslash, CHR ''u'', CHR ''0'', CHR ''0'', hex_digit (of_char c div 16), hex_digit (of_char c mod 16)])"

definition line_separator :: "string \<Rightarrow> bool" where
  "line_separator r \<longleftrightarrow> map of_char r \<in> {[226, 128, 168], [226, 128, 169 :: nat]}"

definition escape_rune :: "string \<Rightarrow> string" where
  "escape_rune r =
     (if line_separator r then backslash # ''u202'' @ [hex_digit (of_char (last r) - 160)] else r)"

function json_escape :: "string \<Rightarrow> string" where
  "json_escape [] = []"
| "json_escape (c # s) =
     (if (of_char c :: nat) < 128 then (if json_safe c then [c] else escape_byte c) @ json_escape s
      else if rune_at (c # s) = 0 then (backslash # ''ufffd'') @ json_escape s
      else escape_rune (take (rune_at (c # s)) (c # s)) @ json_escape (drop (rune_at (c # s)) (c # s)))"
  by pat_completeness auto
termination
  by (relation "measure length") auto

definition json_quote :: "string \<Rightarrow> string" where
  "json_quote s = quote # json_escape s @ [quote]"

subsection \<open>Reading it back\<close>

text \<open>
  Code of the rune at the head of an encoded text: \<open>Some\<close> of the bytes and what follows. The
  parser is a device of the proofs: it inverts the encoder.
\<close>

definition nibble :: "char \<Rightarrow> nat" where
  "nibble h = (let n = of_char h in if n \<le> 57 then n - 48 else n - 87)"

definition unescape_one :: "string \<Rightarrow> (string \<times> string) option" where
  "unescape_one s = (case s of [] \<Rightarrow> None | c # t \<Rightarrow>
     if c \<noteq> backslash then
       (let k = rune_at s in if k = 0 then None else Some (take k s, drop k s))
     else (case t of [] \<Rightarrow> None | d # u \<Rightarrow>
       if d = CHR ''u'' then
         (if take 3 u = ''202'' then Some ([CHR 0xE2, CHR 0x80, if take 1 (drop 3 u) = ''8'' then CHR 0xA8 else CHR 0xA9], drop 4 u)
          else Some ([char_of (16 * nibble (u ! 2) + nibble (u ! 3))], drop 4 u))
       else if d = CHR ''b'' then Some ([CHR 0x08], u)
       else if d = CHR ''f'' then Some ([CHR 0x0C], u)
       else if d = CHR ''n'' then Some ([CHR 0x0A], u)
       else if d = CHR ''r'' then Some ([CHR 0x0D], u)
       else if d = CHR ''t'' then Some ([CHR 0x09], u)
       else Some ([d], u)))"


text \<open>The units of an encoding: the rune at the head of valid text and its encoding.\<close>

definition encode_rune :: "string \<Rightarrow> string" where
  "encode_rune r = (case r of [c] \<Rightarrow> if json_safe c then [c] else escape_byte c | _ \<Rightarrow> escape_rune r)"

lemma tail_bytes_append: "tail_bytes rs s \<Longrightarrow> tail_bytes rs (take (length rs) s @ x)"
  by (auto simp: tail_bytes_def)

lemma rune_len_le: "rune_len s \<le> length s"
  by (auto simp: rune_len_def tail_bytes_def split: list.split)

lemma rune_len_take:
  assumes "rune_len s = k" "k \<noteq> 0"
  shows "rune_len (take k s @ x) = k"
proof (cases s)
  case (Cons a t)
  then show ?thesis
    using assms tail_bytes_append [of "[_]" t x] tail_bytes_append [of "[_, _]" t x]
      tail_bytes_append [of "[_, _, _]" t x]
    by (auto simp: rune_len_def numeral_eq_Suc split: if_splits)
qed (use assms in \<open>simp add: rune_len_def\<close>)

lemma rune_at_le: "rune_at s \<le> length s"
  using rune_len_le [of "map of_char s"] by (simp add: rune_at_def)

lemma rune_at_take:
  assumes "rune_at s \<noteq> 0"
  shows "rune_at (take (rune_at s) s @ x) = rune_at s"
  using rune_len_take [of "map of_char s" "rune_at s" "map of_char x"] assms
  by (simp add: rune_at_def take_map)

lemma rune_at_ascii: "(of_char c :: nat) < 128 \<Longrightarrow> rune_at (c # s) = 1"
  by (simp add: rune_at_def rune_len_def)

lemma rune_at_wide: "\<not> (of_char c :: nat) < 128 \<Longrightarrow> rune_at (c # s) \<noteq> 1"
  by (simp add: rune_at_def rune_len_def)

lemma tail_bytes_simps:
  "tail_bytes [] s" "\<not> tail_bytes (r # rs) []"
  "tail_bytes ((lo, hi) # rs) (b # s) \<longleftrightarrow> lo \<le> b \<and> b \<le> hi \<and> tail_bytes rs s"
  by (auto simp: tail_bytes_def)

lemma valid_bytes_rune:
  assumes "utf8_valid_bytes (a # t)"
  shows "rune_len (a # t) \<noteq> 0 \<and> utf8_valid_bytes (drop (rune_len (a # t)) (a # t))"
proof -
  consider "a < 128" | "194 \<le> a" "a \<le> 223" | "224 \<le> a" "a \<le> 239" | "240 \<le> a" "a \<le> 244"
    using assms by (fastforce split: if_splits)
  then show ?thesis
  proof cases
    case 1
    then show ?thesis using assms by (simp add: rune_len_def)
  next
    case 2
    then obtain b s where "t = b # s" "cont_byte b" "utf8_valid_bytes s"
      using assms by (auto split: list.splits)
    then show ?thesis using 2 by (simp add: rune_len_def tail_bytes_simps cont_byte_def)
  next
    case 3
    then have "\<not> a < 128" "\<not> a \<le> 223" by auto
    with 3 obtain b c s where "t = b # c # s" "cont_byte b" "a = 224 \<longrightarrow> 160 \<le> b" "a = 237 \<longrightarrow> b \<le> 159"
      "cont_byte c" "utf8_valid_bytes s"
      using assms by (auto split: list.splits)
    then show ?thesis using 3 \<open>\<not> a < 128\<close> \<open>\<not> a \<le> 223\<close>
      by (simp add: rune_len_def tail_bytes_simps cont_byte_def)
  next
    case 4
    then have "\<not> a < 128" "\<not> a \<le> 223" "\<not> a \<le> 239" by auto
    with 4 obtain b c d s where "t = b # c # d # s" "cont_byte b" "a = 240 \<longrightarrow> 144 \<le> b" "a = 244 \<longrightarrow> b \<le> 143"
      "cont_byte c" "cont_byte d" "utf8_valid_bytes s"
      using assms by (auto split: list.splits)
    then show ?thesis using 4 \<open>\<not> a < 128\<close> \<open>\<not> a \<le> 223\<close> \<open>\<not> a \<le> 239\<close>
      by (simp add: rune_len_def tail_bytes_simps cont_byte_def)
  qed
qed

lemma utf8_valid_rune:
  assumes "utf8_valid (c # s)"
  shows "rune_at (c # s) \<noteq> 0 \<and> utf8_valid (drop (rune_at (c # s)) (c # s))"
  using valid_bytes_rune [of "of_char c" "map of_char s"] assms
  unfolding utf8_valid_def rune_at_def drop_map [symmetric] list.map by blast

lemma nibble_hex: "k < 16 \<Longrightarrow> nibble (hex_digit k) = k"
  by (simp add: nibble_def hex_digit_def less_Suc_eq numeral_eq_Suc) (elim disjE; simp add: Let_def)

text \<open>The encoding of a unit is recognised at the front of any text.\<close>

lemma escape_byte_reads_back:
  assumes "\<not> json_safe c" "(of_char c :: nat) < 128"
  shows "unescape_one (escape_byte c @ x) = Some ([c], x)"
proof -
  let ?n = "of_char c :: nat"
  consider (short) "c \<in> {quote, backslash, CHR 0x08, CHR 0x0C, CHR 0x0A, CHR 0x0D, CHR 0x09}"
    | (long) "c \<notin> {quote, backslash, CHR 0x08, CHR 0x0C, CHR 0x0A, CHR 0x0D, CHR 0x09}" by blast
  then show ?thesis
  proof cases
    case short
    then show ?thesis by (auto simp: escape_byte_def unescape_one_def quote_def backslash_def)
  next
    case long
    then have "c = CHR ''<'' \<or> c = CHR ''>'' \<or> c = CHR ''&'' \<or> ?n < 32"
      using assms unfolding json_safe_def Let_def by (metis insert_iff not_le)
    then have "?n < 64" by (elim disjE) simp_all
    then have hex: "?n div 16 < 4" by (simp add: div_less_iff_less_mult)
    have "escape_byte c = [backslash, CHR ''u'', CHR ''0'', CHR ''0'', hex_digit (?n div 16), hex_digit (?n mod 16)]"
      using long by (simp add: escape_byte_def)
    moreover have "16 * nibble (hex_digit (?n div 16)) + nibble (hex_digit (?n mod 16)) = ?n"
      using hex by (simp add: nibble_hex)
    ultimately show ?thesis by (simp add: unescape_one_def backslash_def)
  qed
qed

lemma encode_rune_reads_back:
  assumes "rune_at r = length r" "r \<noteq> []"
  shows "unescape_one (encode_rune r @ x) = Some (r, x)"
proof -
  obtain c t where r: "r = c # t" using assms by (cases r) auto
  show ?thesis
  proof (cases "(of_char c :: nat) < 128")
    case True
    then have "t = []" using assms rune_at_ascii [OF True, of t] by (simp add: r)
    show ?thesis
    proof (cases "json_safe c")
      case True
      then have "c \<noteq> backslash" by (simp add: json_safe_def Let_def)
      with True \<open>t = []\<close> \<open>of_char c < 128\<close> show ?thesis
        by (simp add: r encode_rune_def unescape_one_def rune_at_ascii)
    next
      case False
      then show ?thesis using escape_byte_reads_back [OF False \<open>of_char c < 128\<close>] \<open>t = []\<close>
        by (simp add: r encode_rune_def)
    qed
  next
    case False
    then have wide: "length r \<noteq> 1" using rune_at_wide [OF False, of t] assms by (simp add: r)
    then have enc: "encode_rune r = escape_rune r" by (auto simp: encode_rune_def r split: list.split)
    show ?thesis
    proof (cases "line_separator r")
      case True
      then have "map of_char r = map (of_char :: char \<Rightarrow> nat) [CHR 0xE2, CHR 0x80, CHR 0xA8]
          \<or> map of_char r = map (of_char :: char \<Rightarrow> nat) [CHR 0xE2, CHR 0x80, CHR 0xA9]"
        by (simp add: line_separator_def)
      then consider "r = [CHR 0xE2, CHR 0x80, CHR 0xA8]" | "r = [CHR 0xE2, CHR 0x80, CHR 0xA9]"
        using inj_map_eq_map [OF inj_of_char [where 'a = nat]] by blast
      then show ?thesis
        by cases (simp_all add: encode_rune_def escape_rune_def line_separator_def unescape_one_def backslash_def
            hex_digit_def)
    next
      case sep: False
      have "rune_at (r @ x) = length r"
        using rune_at_take [of r x] assms by simp
      moreover have "c \<noteq> backslash" using False by (auto simp: backslash_def)
      moreover have "encode_rune r = r" by (simp add: enc escape_rune_def sep)
      ultimately show ?thesis by (simp add: unescape_one_def r)
    qed
  qed
qed

lemma encode_rune_front:
  assumes "rune_at r = length r" "r \<noteq> []"
  shows "encode_rune r \<noteq> [] \<and> hd (encode_rune r) \<noteq> quote"
proof -
  have "unescape_one (encode_rune r @ []) \<noteq> None" by (simp only: encode_rune_reads_back [OF assms]) simp
  then have "encode_rune r \<noteq> []" by (auto simp: unescape_one_def)
  moreover have "hd (encode_rune r) \<noteq> quote"
  proof -
    obtain c t where r: "r = c # t" using assms by (cases r) auto
    show ?thesis
    proof (cases "(of_char c :: nat) < 128")
      case True
      then have "t = []" using assms rune_at_ascii [OF True, of t] by (simp add: r)
      then show ?thesis
        by (auto simp: r encode_rune_def escape_byte_def json_safe_def Let_def quote_def backslash_def)
    next
      case False
      then have "c \<noteq> quote" by (auto simp: quote_def)
      moreover have "length r \<noteq> 1" using rune_at_wide [OF False, of t] assms by (simp add: r)
      ultimately show ?thesis
        by (auto simp: r encode_rune_def escape_rune_def quote_def backslash_def split: list.split)
    qed
  qed
  ultimately show ?thesis ..
qed

text \<open>Valid text is encoded rune by rune.\<close>

lemma json_escape_unit:
  assumes "rune_at (c # s) = k" "k \<noteq> 0"
  shows "json_escape (c # s) = encode_rune (take k (c # s)) @ json_escape (drop k (c # s))"
proof (cases "(of_char c :: nat) < 128")
  case True
  then have "k = 1" using rune_at_ascii [OF True, of s] assms by simp
  then show ?thesis using True by (simp add: encode_rune_def)
next
  case False
  have "length (take k (c # s)) = k" using rune_at_le [of "c # s"] assms by simp
  moreover have "k \<noteq> 1" using rune_at_wide [OF False, of s] assms by simp
  ultimately have "length (take k (c # s)) \<noteq> 1" by simp
  then have "encode_rune (take k (c # s)) = escape_rune (take k (c # s))"
    unfolding encode_rune_def by (cases "take k (c # s)"; cases "tl (take k (c # s))") simp_all
  then show ?thesis using False assms by simp
qed

lemma json_escape_split:
  assumes "utf8_valid (c # s)"
  obtains r t where "c # s = r @ t" "rune_at r = length r" "r \<noteq> []" "utf8_valid t"
    "json_escape (c # s) = encode_rune r @ json_escape t"
proof
  let ?k = "rune_at (c # s)"
  have k: "?k \<noteq> 0" using utf8_valid_rune [OF assms] by simp
  show "c # s = take ?k (c # s) @ drop ?k (c # s)" by simp
  show "rune_at (take ?k (c # s)) = length (take ?k (c # s))"
    using rune_at_take [OF k, of "[]"] rune_at_le [of "c # s"] by simp
  show "take ?k (c # s) \<noteq> []" using k by simp
  show "utf8_valid (drop ?k (c # s))" using utf8_valid_rune [OF assms] by simp
  show "json_escape (c # s) = encode_rune (take ?k (c # s)) @ json_escape (drop ?k (c # s))"
    by (rule json_escape_unit [OF refl k])
qed

lemma json_escape_determines:
  "json_escape a @ quote # x = json_escape b @ quote # y \<Longrightarrow> utf8_valid a \<Longrightarrow> utf8_valid b \<Longrightarrow> a = b \<and> x = y"
proof (induction "length a" arbitrary: a b rule: less_induct)
  case less
  show ?case
  proof (cases a)
    case Nil
    show ?thesis
    proof (cases b)
      case (Cons d s)
      then obtain r t where "rune_at r = length r" "r \<noteq> []" "json_escape b = encode_rune r @ json_escape t"
        using json_escape_split less.prems(3) by metis
      moreover from this have "encode_rune r \<noteq> []" "hd (encode_rune r) \<noteq> quote" using encode_rune_front by blast+
      ultimately show ?thesis using less.prems(1) Nil by (cases "encode_rune r") simp_all
    qed (use less.prems Nil in simp)
  next
    case (Cons c s)
    then obtain r t where a: "a = r @ t" "rune_at r = length r" "r \<noteq> []" "utf8_valid t"
      "json_escape a = encode_rune r @ json_escape t"
      using json_escape_split less.prems(2) by metis
    show ?thesis
    proof (cases b)
      case Nil
      moreover have "encode_rune r \<noteq> []" "hd (encode_rune r) \<noteq> quote" using encode_rune_front a by blast+
      ultimately show ?thesis using less.prems(1) a(5) by (cases "encode_rune r") simp_all
    next
      case (Cons d u)
      then obtain q v where b: "b = q @ v" "rune_at q = length q" "q \<noteq> []" "utf8_valid v"
        "json_escape b = encode_rune q @ json_escape v"
        using json_escape_split less.prems(3) by metis
      have "encode_rune r @ (json_escape t @ quote # x) = encode_rune q @ (json_escape v @ quote # y)"
        using less.prems(1) a b by simp
      then have "Some (r, json_escape t @ quote # x) = Some (q, json_escape v @ quote # y)"
        using encode_rune_reads_back a b by metis
      then have "r = q" "json_escape t @ quote # x = json_escape v @ quote # y" by simp_all
      moreover have "length t < length a" using a by simp
      ultimately show ?thesis using less.hyps [of t v] a b by simp
    qed
  qed
qed

lemma json_quote_determines:
  "json_quote a @ x = json_quote b @ y \<Longrightarrow> utf8_valid a \<Longrightarrow> utf8_valid b \<Longrightarrow> a = b \<and> x = y"
  using json_escape_determines [of a x b y] by (simp add: json_quote_def)

lemma utf8_valid_ascii: "list_all (\<lambda>c. (of_char c :: nat) < 128) s \<Longrightarrow> utf8_valid s"
  unfolding utf8_valid_def by (induction s) auto

end
