(* ===== verification/Artifact_Contract.thy ===== *)
theory Artifact_Contract
  imports Go_Net Go_Json
begin

section \<open>The artifact contracts\<close>

text \<open>
  \<open>internal/artifactcontract\<close>: the documents agents and operations exchange (\<open>types.go\<close>), their
  validation (\<open>validate.go\<close>, \<open>criteria.go\<close>, \<open>mergerequest.go\<close>) and the registry by contract name
  (\<open>registry.go\<close>). A validator returns \<open>None\<close> or its first error, tagged with the field it names.
  Where the Go code checks the fields of a \<open>map\<close>, the order of its iteration decides which of
  several errors is returned, never whether there is one; the model takes the order of the
  source. \<open>sha\<close> is SHA-256 in hexadecimal; an \<open>int\<close> field is in the range of Go's \<open>int\<close>.
\<close>

subsection \<open>Documents\<close>

record object_identity =
  oi_namespace :: string
  oi_name :: string
  oi_uid :: string

record acceptance_criterion =
  ac_id :: string
  ac_text :: string
  ac_digest :: string

record criterion_key =
  ck_id :: string
  ck_digest :: string

record change_request =
  chr_summary :: string
  chr_description :: string
  chr_criteria :: "acceptance_criterion list"
  chr_setDigest :: string
  chr_repositoryURL :: string
  chr_sourceCommit :: string

record repository_revision =
  rr_repositoryURL :: string
  rr_requestedRevision :: string
  rr_resolvedCommit :: string
  rr_utilityOperation :: object_identity

record branch_reference =
  br_repositoryURL :: string
  br_branch :: string
  br_baseCommit :: string
  br_commit :: string
  br_utilityOperation :: object_identity
  br_idempotencyKey :: string

record affected_path =
  ap_path :: string
  ap_action :: string

record acceptance_mapping =
  am_criterionIndex :: int
  am_verification :: string

record implementation_plan =
  ip_summary :: string
  ip_changeRequestDigest :: string
  ip_repositoryRevisionDigest :: string
  ip_sourceCommit :: string
  ip_affectedPaths :: "affected_path list"
  ip_implementationSteps :: "string list"
  ip_testStrategy :: "string list"
  ip_acceptanceMapping :: "acceptance_mapping list"
  ip_risks :: "string list option"
  ip_assumptions :: "string list option"

record changed_file =
  cf_path :: string
  cf_action :: string
  cf_baseDigest :: string
  cf_resultDigest :: string
  cf_resultContent :: "string option"

record change_set =
  cs_summary :: string
  cs_baseCommit :: string
  cs_changeRequestDigest :: string
  cs_implementationPlanDigest :: string
  cs_files :: "changed_file list"

record prepared_candidate =
  pc_repositoryRevisionDigest :: string
  pc_testChangeSetDigest :: string
  pc_changeSetDigest :: string
  pc_baseCommit :: string
  pc_branch :: string
  pc_candidateTree :: string
  pc_changedPaths :: "string list"
  pc_preparationCommandDigest :: string

record stream_evidence =
  se_digest :: string
  se_capturedBytes :: int
  se_excerpt :: string
  se_truncated :: bool

record test_report =
  tr_preparedCandidateDigest :: string
  tr_baseCommit :: string
  tr_candidateTree :: string
  tr_observedTreeAfter :: string
  tr_workspaceClean :: bool
  tr_commandDigest :: string
  tr_environmentImageDigest :: string
  tr_outcome :: string
  tr_exitCode :: "int option"
  tr_durationMilliseconds :: int
  tr_stdout :: stream_evidence
  tr_stderr :: stream_evidence
  tr_testCount :: "int option"

record candidate_revision =
  cv_repositoryURL :: string
  cv_preparedCandidateDigest :: string
  cv_testReportDigest :: string
  cv_changeSetDigest :: string
  cv_sourceCommit :: string
  cv_branch :: string
  cv_commit :: string
  cv_tree :: string
  cv_commitMessageDigest :: string

record image_digest =
  id_candidateRevisionDigest :: string
  id_imageRepository :: string
  id_digest :: string
  id_candidateCommit :: string
  id_candidateTree :: string
  id_builderImageDigest :: string
  id_buildCommandDigest :: string
  id_dockerfileDigest :: string
  id_contextTree :: string

record endpoint_check =
  ec_name :: string
  ec_outcome :: string
  ec_httpStatus :: int
  ec_responseDigest :: string

record review_instructions =
  ri_namespace :: string
  ri_service :: string
  ri_localPort :: int
  ri_healthPath :: string
  ri_calculationPath :: string

record validation_result =
  vres_validationRun :: object_identity
  vres_candidateRevisionDigest :: string
  vres_imageArtifactDigest :: string
  vres_candidateCommit :: string
  vres_candidateTree :: string
  vres_imageRepository :: string
  vres_imageDigest :: string
  vres_infrastructureRevision :: string
  vres_provider :: string
  vres_application :: object_identity
  vres_observedSourceRevision :: string
  vres_observedImageDigest :: string
  vres_syncStatus :: string
  vres_healthStatus :: string
  vres_endpointChecks :: "endpoint_check list"
  vres_reviewInstructions :: review_instructions
  vres_startedAt :: string
  vres_completedAt :: string
  vres_outcome :: string

record remote_proof =
  pf_ref :: string
  pf_observedCommit :: string
  pf_verifiedAt :: string

record candidate_remote_proof =
  crp_candidateRevisionDigest :: string
  crp_repositoryURL :: string
  crp_ref :: string
  crp_observedCommit :: string
  crp_verifiedAt :: string

record merge_revision =
  mr_candidateRevisionDigest :: string
  mr_validationResultDigest :: string
  mr_repositoryURL :: string
  mr_targetBranch :: string
  mr_previousTargetCommit :: string
  mr_candidateCommit :: string
  mr_candidateTree :: string
  mr_mergeCommit :: string
  mr_mergeTree :: string
  mr_approvalRequest :: object_identity
  mr_approvalDecision :: object_identity
  mr_validationRun :: object_identity
  mr_remoteProof :: remote_proof

record merge_request =
  mq_candidateRevisionDigest :: string
  mq_candidateRemoteProofDigest :: string
  mq_validationResultDigest :: string
  mq_repositoryURL :: string
  mq_provider :: string
  mq_number :: int
  mq_URL :: string
  mq_sourceBranch :: string
  mq_targetBranch :: string
  mq_candidateCommit :: string
  mq_state :: string
  mq_utilityOperation :: object_identity
  mq_idempotencyKey :: string

definition max_artifact_bytes :: int where "max_artifact_bytes = 1048576"
definition max_changed_file_bytes :: int where "max_changed_file_bytes = 262144"
definition max_captured_test_output_bytes :: int where "max_captured_test_output_bytes = 1048576"
definition max_test_output_excerpt_bytes :: int where "max_test_output_excerpt_bytes = 16384"

subsection \<open>Checks in sequence\<close>

text \<open>The first error of a sequence of checks, and one check.\<close>

fun first_error :: "go_error option list \<Rightarrow> go_error option" where
  "first_error [] = None"
| "first_error (None # cs) = first_error cs"
| "first_error (Some e # cs) = Some e"

definition refuse :: "bool \<Rightarrow> string \<Rightarrow> go_error option" where
  "refuse bad what = (if bad then Some (Invalid what) else None)"

lemma first_error_None [simp]: "first_error (c # cs) = None \<longleftrightarrow> c = None \<and> first_error cs = None"
  by (cases c) auto

lemma first_error_all: "first_error cs = None \<longleftrightarrow> (\<forall>c \<in> set cs. c = None)"
  by (induction cs) auto

lemma refuse_None [simp]: "refuse bad what = None \<longleftrightarrow> \<not> bad"
  by (simp add: refuse_def)

subsection \<open>Fields\<close>

definition digest_bytes :: "(string \<Rightarrow> string) \<Rightarrow> string \<Rightarrow> string" where
  "digest_bytes sha data = ''sha256:'' @ sha data"

definition bounded_text :: "string \<Rightarrow> string \<Rightarrow> int \<Rightarrow> go_error option" where
  "bounded_text field value maximum =
     (if blank value then Some (Invalid (field @ '' is required''))
      else if int (length value) > maximum then Some (Invalid (field @ '' exceeds'')) else None)"

definition validate_digest_field :: "string \<Rightarrow> string \<Rightarrow> go_error option" where
  "validate_digest_field field value = refuse (\<not> digest_pattern value) field"

definition validate_git_oid_field :: "string \<Rightarrow> string \<Rightarrow> go_error option" where
  "validate_git_oid_field field value = refuse (\<not> git_oid_pattern value) field"

definition validate_repository_url :: "string \<Rightarrow> go_error option" where
  "validate_repository_url value = (case parse_url value of
       None \<Rightarrow> Some (Invalid ''repositoryURL'')
     | Some u \<Rightarrow> refuse (url_scheme u \<noteq> ''https'' \<or> url_host u = '''' \<or> url_path u = '''' \<or> url_path u = ''/''
         \<or> url_user u \<or> url_rawQuery u \<noteq> '''' \<or> url_hasFragment u) ''repositoryURL'')"

definition validate_object_identity :: "string \<Rightarrow> object_identity \<Rightarrow> go_error option" where
  "validate_object_identity field v = first_error
     [refuse (\<not> is_dns1123_label (oi_namespace v)) (field @ ''.namespace''),
      refuse (\<not> is_dns1123_subdomain (oi_name v)) (field @ ''.name''),
      bounded_text (field @ ''.uid'') (oi_uid v) 128]"

definition validate_repository_path :: "string \<Rightarrow> go_error option" where
  "validate_repository_path value =
     (if value = '''' \<or> length value > 512 \<or> contains value [backslash] \<or> has_prefix value ''/''
      then Some (Invalid ''must be a non-empty repository-relative path using /'')
      else refuse (list_ex (\<lambda>segment. segment = '''' \<or> segment = ''.'' \<or> segment = ''..'' \<or> segment = ''.git'')
             (split_on (CHR ''/'') value)) ''contains a forbidden path segment'')"

definition is_test_directory :: "string \<Rightarrow> bool" where
  "is_test_directory segment = (let directory = to_lower segment in
     directory = ''test'' \<or> directory = ''tests'' \<or> directory = ''testdata'' \<or> directory = ''test_data''
     \<or> directory = ''__tests__'' \<or> has_suffix directory ''.tests'')"

text \<open>\<open>strings.LastIndexByte(base, '.')\<close>: the stem before the last dot, where there is one.\<close>

definition stem_of :: "string \<Rightarrow> string option" where
  "stem_of base = (case cut_byte (CHR ''.'') (rev base) of (_, None) \<Rightarrow> None | (_, Some r) \<Rightarrow> Some (rev r))"

definition is_test_path :: "string \<Rightarrow> bool" where
  "is_test_path value =
     (let segments = split_on (CHR ''/'') value; base = last segments; lowerBase = to_lower base
      in list_ex is_test_directory (butlast segments)
         \<or> has_prefix lowerBase ''test_'' \<or> lowerBase = ''conftest.py''
         \<or> (case stem_of base of None \<Rightarrow> False | Some stem \<Rightarrow> stem \<noteq> [] \<and>
              (let lowerStem = to_lower stem in
               has_suffix lowerStem ''_test'' \<or> has_suffix lowerStem ''.test'' \<or> has_suffix lowerStem ''.spec''
               \<or> has_suffix stem ''Test'' \<or> has_suffix stem ''Tests'')))"

definition validate_branch :: "string \<Rightarrow> go_error option" where
  "validate_branch value = refuse (value = '''' \<or> length value > 255 \<or> \<not> branch_pattern value
     \<or> contains value ''..'' \<or> contains value ''//'' \<or> has_suffix value ''/'' \<or> has_suffix value ''.''
     \<or> has_suffix value ''.lock'' \<or> contains_any value ('' ~^:?*['' @ [backslash])) ''is not a valid Git branch name''"

definition validate_sovereign_branch :: "string \<Rightarrow> go_error option" where
  "validate_sovereign_branch value = first_error
     [validate_branch value,
      (case cut_prefix value ''sovereign/'' of None \<Rightarrow> Some (Invalid ''must match the frozen form'')
       | Some rest \<Rightarrow> refuse (rest = '''') ''must match the frozen form'')]"

text \<open>Seconds and nanoseconds of the instant.\<close>

definition parse_timestamp :: "string \<Rightarrow> go_error + (int \<times> int)" where
  "parse_timestamp value =
     (if \<not> has_suffix value ''Z'' \<or> contains value ''.'' then Inl (Invalid ''must be UTC RFC3339'')
      else (case parse_rfc3339 value of
          None \<Rightarrow> Inl (Invalid ''must be UTC RFC3339'')
        | Some t \<Rightarrow> if snd t \<noteq> 0 then Inl (Invalid ''must be UTC RFC3339'') else Inr t))"

definition timestamp_error :: "string \<Rightarrow> go_error option" where
  "timestamp_error value = (case parse_timestamp value of Inl e \<Rightarrow> Some e | Inr _ \<Rightarrow> None)"

fun sorted_unique :: "string list \<Rightarrow> bool" where
  "sorted_unique [] = True"
| "sorted_unique [v] = True"
| "sorted_unique (v # w # vs) = (v < w \<and> sorted_unique (w # vs))"

definition require_sorted_unique :: "string \<Rightarrow> string list \<Rightarrow> go_error option" where
  "require_sorted_unique field vs = refuse (\<not> sorted_unique vs) (field @ '' must be sorted and unique'')"

fun string_items :: "string \<Rightarrow> int \<Rightarrow> string list \<Rightarrow> string list \<Rightarrow> go_error option" where
  "string_items field itemMaximum seen [] = None"
| "string_items field itemMaximum seen (v # vs) = first_error
     [bounded_text field v itemMaximum, refuse (v \<in> set seen) (field @ '' contains duplicate entry''),
      string_items field itemMaximum (v # seen) vs]"

definition validate_string_list :: "string \<Rightarrow> string list \<Rightarrow> nat \<Rightarrow> nat \<Rightarrow> int \<Rightarrow> go_error option" where
  "validate_string_list field values minimum maximum itemMaximum =
     (if length values < minimum \<or> length values > maximum then Some (Invalid field)
      else string_items field itemMaximum [] values)"

definition validate_path_set :: "string \<Rightarrow> string list \<Rightarrow> nat \<Rightarrow> nat \<Rightarrow> go_error option" where
  "validate_path_set field values minimum maximum =
     (if length values < minimum \<or> length values > maximum then Some (Invalid field)
      else first_error (map validate_repository_path values @ [require_sorted_unique field values]))"

subsection \<open>Acceptance criteria\<close>

text \<open>
  The documents hashed by \<open>CriterionDigest\<close> and \<open>CriteriaSetDigest\<close>, as \<open>json.Marshal\<close> writes
  the fields of a struct in their order.
\<close>

definition criterion_document :: "string \<Rightarrow> string \<Rightarrow> string" where
  "criterion_document i t = ''{\"schemaVersion\":\"acceptance-criterion/v1\",\"id\":'' @ json_quote i
     @ '',\"text\":'' @ json_quote t @ ''}''"

definition criterion_digest_of :: "(string \<Rightarrow> string) \<Rightarrow> string \<Rightarrow> string \<Rightarrow> string" where
  "criterion_digest_of sha i t = digest_bytes sha (criterion_document i t)"

definition key_document :: "criterion_key \<Rightarrow> string" where
  "key_document k = ''{\"id\":'' @ json_quote (ck_id k) @ '',\"digest\":'' @ json_quote (ck_digest k) @ ''}''"

definition criteria_set_document :: "criterion_key list \<Rightarrow> string" where
  "criteria_set_document ks = ''{\"schemaVersion\":\"acceptance-criteria-set/v1\",\"criteria\":[''
     @ join_with '','' (map key_document ks) @ '']}''"

definition criteria_set_digest :: "(string \<Rightarrow> string) \<Rightarrow> criterion_key list \<Rightarrow> string" where
  "criteria_set_digest sha ks = digest_bytes sha (criteria_set_document ks)"

definition criterion_identities :: "acceptance_criterion list \<Rightarrow> criterion_key list" where
  "criterion_identities cs = map (\<lambda>c. \<lparr>ck_id = ac_id c, ck_digest = ac_digest c\<rparr>) cs"

fun identity_items :: "string list \<Rightarrow> criterion_key list \<Rightarrow> go_error option" where
  "identity_items seen [] = None"
| "identity_items seen (k # ks) = first_error
     [refuse (\<not> criterion_id_pattern (ck_id k)) ''acceptanceCriteria.id'',
      refuse (ck_id k \<in> set seen) ''acceptanceCriteria id is duplicated'',
      validate_digest_field ''acceptanceCriteria.digest'' (ck_digest k),
      identity_items (ck_id k # seen) ks]"

definition validate_criterion_identities :: "(string \<Rightarrow> string) \<Rightarrow> criterion_key list \<Rightarrow> string \<Rightarrow> go_error option" where
  "validate_criterion_identities sha ks setDigest = first_error
     [refuse (length ks < 1 \<or> length ks > 32) ''acceptanceCriteria must contain 1 through 32 entries'',
      identity_items [] ks,
      validate_digest_field ''acceptanceCriteriaSetDigest'' setDigest,
      refuse (criteria_set_digest sha ks \<noteq> setDigest) ''acceptanceCriteriaSetDigest does not match ordered criteria'']"

fun criteria_items :: "(string \<Rightarrow> string) \<Rightarrow> string list \<Rightarrow> acceptance_criterion list \<Rightarrow> go_error option" where
  "criteria_items sha seenText [] = None"
| "criteria_items sha seenText (c # cs) = first_error
     [refuse (\<not> utf8_valid (ac_text c)) ''acceptanceCriteria.text must be UTF-8'',
      bounded_text ''acceptanceCriteria.text'' (ac_text c) 4096,
      refuse (ac_text c \<in> set seenText) ''acceptanceCriteria text is duplicated'',
      refuse (ac_digest c \<noteq> criterion_digest_of sha (ac_id c) (ac_text c)) ''digest does not match canonical criterion'',
      criteria_items sha (ac_text c # seenText) cs]"

definition validate_acceptance_criteria :: "(string \<Rightarrow> string) \<Rightarrow> acceptance_criterion list \<Rightarrow> string \<Rightarrow> go_error option" where
  "validate_acceptance_criteria sha cs setDigest = first_error
     [validate_criterion_identities sha (criterion_identities cs) setDigest, criteria_items sha [] cs]"

subsection \<open>Planning documents\<close>

definition validate_change_request :: "(string \<Rightarrow> string) \<Rightarrow> change_request \<Rightarrow> go_error option" where
  "validate_change_request sha v = first_error
     [bounded_text ''summary'' (chr_summary v) 1024,
      bounded_text ''description'' (chr_description v) 16384,
      validate_acceptance_criteria sha (chr_criteria v) (chr_setDigest v),
      validate_repository_url (chr_repositoryURL v),
      validate_git_oid_field ''sourceCommit'' (chr_sourceCommit v)]"

definition validate_repository_revision :: "repository_revision \<Rightarrow> go_error option" where
  "validate_repository_revision v = first_error
     [validate_repository_url (rr_repositoryURL v),
      bounded_text ''requestedRevision'' (rr_requestedRevision v) 255,
      validate_git_oid_field ''resolvedCommit'' (rr_resolvedCommit v),
      validate_object_identity ''utilityOperation'' (rr_utilityOperation v)]"

definition validate_branch_reference :: "branch_reference \<Rightarrow> go_error option" where
  "validate_branch_reference v = first_error
     [validate_repository_url (br_repositoryURL v),
      validate_branch (br_branch v),
      validate_git_oid_field ''baseCommit'' (br_baseCommit v),
      validate_git_oid_field ''commit'' (br_commit v),
      validate_object_identity ''utilityOperation'' (br_utilityOperation v),
      bounded_text ''idempotencyKey'' (br_idempotencyKey v) 512]"

definition file_actions :: "string list" where
  "file_actions = [''add'', ''modify'', ''delete'']"

fun affected_items :: "affected_path list \<Rightarrow> go_error option" where
  "affected_items [] = None"
| "affected_items (a # as) = first_error
     [validate_repository_path (ap_path a), refuse (ap_action a \<notin> set file_actions) ''affectedPaths.action is invalid'',
      affected_items as]"

fun mapping_items :: "int list \<Rightarrow> acceptance_mapping list \<Rightarrow> go_error option" where
  "mapping_items seen [] = None"
| "mapping_items seen (m # ms) = first_error
     [refuse (am_criterionIndex m < 1) ''criterionIndex must be positive'',
      refuse (am_criterionIndex m \<in> set seen) ''criterionIndex is duplicated'',
      bounded_text ''verification'' (am_verification m) 4096,
      mapping_items (am_criterionIndex m # seen) ms]"

definition given :: "string list option \<Rightarrow> string list" where
  "given x = (case x of None \<Rightarrow> [] | Some vs \<Rightarrow> vs)"

definition validate_implementation_plan :: "implementation_plan \<Rightarrow> go_error option" where
  "validate_implementation_plan v = first_error
     [bounded_text ''summary'' (ip_summary v) 1024,
      validate_digest_field ''changeRequestDigest'' (ip_changeRequestDigest v),
      validate_digest_field ''repositoryRevisionDigest'' (ip_repositoryRevisionDigest v),
      validate_git_oid_field ''sourceCommit'' (ip_sourceCommit v),
      refuse (ip_affectedPaths v = [] \<or> length (ip_affectedPaths v) > 128) ''affectedPaths'',
      affected_items (ip_affectedPaths v),
      require_sorted_unique ''affectedPaths'' (map ap_path (ip_affectedPaths v)),
      validate_string_list ''implementationSteps'' (ip_implementationSteps v) 1 64 4096,
      validate_string_list ''testStrategy'' (ip_testStrategy v) 1 32 4096,
      refuse (ip_acceptanceMapping v = [] \<or> length (ip_acceptanceMapping v) > 32) ''acceptanceMapping'',
      mapping_items [] (ip_acceptanceMapping v),
      refuse (ip_risks v = None \<or> ip_assumptions v = None) ''risks and assumptions are required arrays'',
      validate_string_list ''risks'' (given (ip_risks v)) 0 32 4096,
      validate_string_list ''assumptions'' (given (ip_assumptions v)) 0 32 4096]"

subsection \<open>Changes\<close>

definition validate_changed_file :: "(string \<Rightarrow> string) \<Rightarrow> changed_file \<Rightarrow> go_error option" where
  "validate_changed_file sha f = first_error
     [validate_repository_path (cf_path f),
      refuse (cf_action f \<notin> set file_actions) ''action is invalid'',
      (if cf_action f = ''add''
       then refuse (cf_baseDigest f \<noteq> ''absent'') ''baseDigest must be absent for an added file''
       else validate_digest_field ''baseDigest'' (cf_baseDigest f)),
      (if cf_action f = ''delete''
       then refuse (cf_resultContent f \<noteq> None \<or> cf_resultDigest f \<noteq> '''') ''delete must omit resultContent and resultDigest''
       else (case cf_resultContent f of
           None \<Rightarrow> Some (Invalid ''resultContent is required'')
         | Some content \<Rightarrow> first_error
             [refuse (int (length content) > max_changed_file_bytes \<or> \<not> utf8_valid content \<or> contains_byte content nul)
                ''resultContent must be UTF-8 text'',
              validate_digest_field ''resultDigest'' (cf_resultDigest f),
              refuse (cf_resultDigest f \<noteq> digest_bytes sha content) ''resultDigest does not match resultContent'',
              refuse (cf_action f = ''modify'' \<and> cf_resultDigest f = cf_baseDigest f) ''modify does not change file content'']))]"

definition validate_changed_files :: "(string \<Rightarrow> string) \<Rightarrow> changed_file list \<Rightarrow> go_error option" where
  "validate_changed_files sha files =
     (if files = [] \<or> length files > 128 then Some (Invalid ''files must contain 1 through 128 changed files'')
      else first_error (map (validate_changed_file sha) files @ [require_sorted_unique ''files'' (map cf_path files)]))"

definition validate_change_set :: "(string \<Rightarrow> string) \<Rightarrow> change_set \<Rightarrow> go_error option" where
  "validate_change_set sha v = first_error
     [bounded_text ''summary'' (cs_summary v) 1024,
      validate_git_oid_field ''baseCommit'' (cs_baseCommit v),
      validate_digest_field ''changeRequestDigest'' (cs_changeRequestDigest v),
      validate_digest_field ''implementationPlanDigest'' (cs_implementationPlanDigest v),
      validate_changed_files sha (cs_files v)]"

definition validate_test_change_set :: "(string \<Rightarrow> string) \<Rightarrow> change_set \<Rightarrow> go_error option" where
  "validate_test_change_set sha v = first_error
     (validate_change_set sha v #
      map (\<lambda>f. refuse (\<not> is_test_path (cf_path f)) ''is not a recognized test path'') (cs_files v))"

definition validate_prepared_candidate :: "prepared_candidate \<Rightarrow> go_error option" where
  "validate_prepared_candidate v = first_error
     [validate_digest_field ''repositoryRevisionDigest'' (pc_repositoryRevisionDigest v),
      validate_digest_field ''testChangeSetDigest'' (pc_testChangeSetDigest v),
      validate_digest_field ''changeSetDigest'' (pc_changeSetDigest v),
      validate_digest_field ''preparationCommandDigest'' (pc_preparationCommandDigest v),
      validate_git_oid_field ''baseCommit'' (pc_baseCommit v),
      validate_git_oid_field ''candidateTree'' (pc_candidateTree v),
      validate_sovereign_branch (pc_branch v),
      validate_path_set ''changedPaths'' (pc_changedPaths v) 1 128]"

subsection \<open>Tests, candidates and images\<close>

definition validate_stream_evidence :: "stream_evidence \<Rightarrow> go_error option" where
  "validate_stream_evidence v = first_error
     [validate_digest_field ''digest'' (se_digest v),
      refuse (se_capturedBytes v < 0) ''capturedBytes must be non-negative'',
      refuse (\<not> utf8_valid (se_excerpt v) \<or> int (length (se_excerpt v)) > max_test_output_excerpt_bytes) ''excerpt'',
      refuse (\<not> se_truncated v \<and> se_capturedBytes v \<noteq> int (length (se_excerpt v))) ''capturedBytes must equal excerpt bytes'',
      refuse (se_truncated v \<and> se_capturedBytes v \<le> int (length (se_excerpt v))) ''truncated requires omitted captured bytes'']"

definition test_outcomes :: "string list" where
  "test_outcomes = [''passed'', ''failed'', ''timed-out'', ''environment-error'', ''tree-drift'']"

definition test_outcome_error :: "test_report \<Rightarrow> go_error option" where
  "test_outcome_error v =
     (if tr_outcome v = ''passed'' then
        refuse (tr_exitCode v \<noteq> Some 0 \<or> \<not> tr_workspaceClean v \<or> tr_candidateTree v \<noteq> tr_observedTreeAfter v)
          ''passed outcome requires exitCode zero, a clean workspace, and an unchanged candidate tree''
      else if tr_outcome v = ''failed'' then
        refuse (tr_exitCode v = None \<or> tr_exitCode v = Some 0) ''failed outcome requires a non-zero exitCode''
      else if tr_outcome v = ''tree-drift'' then
        refuse (tr_workspaceClean v \<and> tr_candidateTree v = tr_observedTreeAfter v)
          ''tree-drift requires a dirty workspace or changed tree''
      else None)"

definition validate_test_report :: "test_report \<Rightarrow> go_error option" where
  "validate_test_report v = first_error
     [validate_digest_field ''preparedCandidateDigest'' (tr_preparedCandidateDigest v),
      validate_git_oid_field ''baseCommit'' (tr_baseCommit v),
      validate_git_oid_field ''candidateTree'' (tr_candidateTree v),
      validate_git_oid_field ''observedTreeAfter'' (tr_observedTreeAfter v),
      validate_digest_field ''commandDigest'' (tr_commandDigest v),
      validate_digest_field ''environmentImageDigest'' (tr_environmentImageDigest v),
      refuse (tr_outcome v \<notin> set test_outcomes) ''outcome is invalid'',
      refuse (tr_durationMilliseconds v < 0) ''durationMilliseconds must be non-negative'',
      validate_stream_evidence (tr_stdout v),
      validate_stream_evidence (tr_stderr v),
      refuse (int64 (se_capturedBytes (tr_stdout v) + se_capturedBytes (tr_stderr v)) > max_captured_test_output_bytes)
        ''captured test output exceeds'',
      refuse (case tr_testCount v of None \<Rightarrow> False | Some n \<Rightarrow> n < 0) ''testCount must be non-negative'',
      test_outcome_error v]"

definition validate_candidate_revision :: "candidate_revision \<Rightarrow> go_error option" where
  "validate_candidate_revision v = first_error
     [validate_repository_url (cv_repositoryURL v),
      validate_digest_field ''preparedCandidateDigest'' (cv_preparedCandidateDigest v),
      validate_digest_field ''testReportDigest'' (cv_testReportDigest v),
      validate_digest_field ''changeSetDigest'' (cv_changeSetDigest v),
      validate_digest_field ''commitMessageDigest'' (cv_commitMessageDigest v),
      validate_git_oid_field ''sourceCommit'' (cv_sourceCommit v),
      validate_git_oid_field ''commit'' (cv_commit v),
      validate_git_oid_field ''tree'' (cv_tree v),
      validate_sovereign_branch (cv_branch v)]"

definition validate_image_digest :: "image_digest \<Rightarrow> go_error option" where
  "validate_image_digest v = first_error
     [validate_digest_field ''candidateRevisionDigest'' (id_candidateRevisionDigest v),
      validate_digest_field ''digest'' (id_digest v),
      validate_digest_field ''builderImageDigest'' (id_builderImageDigest v),
      validate_digest_field ''buildCommandDigest'' (id_buildCommandDigest v),
      validate_digest_field ''dockerfileDigest'' (id_dockerfileDigest v),
      refuse (\<not> oci_repository_pattern (id_imageRepository v)) ''imageRepository is not a canonical OCI repository'',
      validate_git_oid_field ''candidateCommit'' (id_candidateCommit v),
      validate_git_oid_field ''candidateTree'' (id_candidateTree v),
      validate_git_oid_field ''contextTree'' (id_contextTree v),
      refuse (id_contextTree v \<noteq> id_candidateTree v) ''contextTree must equal candidateTree'']"

subsection \<open>Validation of a deployment\<close>

definition validate_endpoint_check :: "string \<Rightarrow> endpoint_check \<Rightarrow> go_error option" where
  "validate_endpoint_check expectedName v = first_error
     [refuse (ec_name v \<noteq> expectedName) ''name'',
      refuse (ec_outcome v \<notin> {''passed'', ''failed''}) ''outcome is invalid'',
      refuse (ec_httpStatus v < 100 \<or> ec_httpStatus v > 599) ''httpStatus must be from 100 through 599'',
      validate_digest_field ''responseDigest'' (ec_responseDigest v)]"

definition validate_review_instructions :: "review_instructions \<Rightarrow> go_error option" where
  "validate_review_instructions v = first_error
     [refuse (\<not> is_dns1123_label (ri_namespace v)) ''namespace is invalid'',
      refuse (\<not> is_dns1035_label (ri_service v)) ''service is invalid'',
      refuse (ri_localPort v < 1024 \<or> ri_localPort v > 65535) ''localPort must be from 1024 through 65535'',
      refuse (ri_healthPath v \<noteq> ''/healthz'' \<or> ri_calculationPath v \<noteq> ''/api/v1/calculate'')
        ''review paths do not match the frozen calculator API'']"

definition expected_checks :: "string list" where
  "expected_checks = [''healthz'', ''add'', ''subtract'', ''multiply'', ''divide'', ''division-by-zero'']"

definition expected_statuses :: "int list" where
  "expected_statuses = [200, 200, 200, 200, 200, 422]"

definition timestamps_error :: "string \<Rightarrow> string \<Rightarrow> go_error option" where
  "timestamps_error startedAt completedAt =
     (case parse_timestamp startedAt of Inl e \<Rightarrow> Some e
      | Inr started \<Rightarrow> (case parse_timestamp completedAt of Inl e \<Rightarrow> Some e
          | Inr completed \<Rightarrow> refuse (completed < started) ''completedAt cannot precede startedAt''))"

definition validate_validation_result :: "validation_result \<Rightarrow> go_error option" where
  "validate_validation_result v = first_error
     [validate_object_identity ''validationRun'' (vres_validationRun v),
      validate_object_identity ''application'' (vres_application v),
      validate_digest_field ''candidateRevisionDigest'' (vres_candidateRevisionDigest v),
      validate_digest_field ''imageArtifactDigest'' (vres_imageArtifactDigest v),
      validate_digest_field ''imageDigest'' (vres_imageDigest v),
      validate_digest_field ''observedImageDigest'' (vres_observedImageDigest v),
      validate_git_oid_field ''candidateCommit'' (vres_candidateCommit v),
      validate_git_oid_field ''candidateTree'' (vres_candidateTree v),
      validate_git_oid_field ''observedSourceRevision'' (vres_observedSourceRevision v),
      refuse (\<not> oci_repository_pattern (vres_imageRepository v)) ''imageRepository is not a canonical OCI repository'',
      bounded_text ''infrastructureRevision'' (vres_infrastructureRevision v) 255,
      refuse (vres_provider v \<noteq> ''argocd/kustomize'') ''provider must be argocd/kustomize'',
      refuse (vres_syncStatus v \<notin> {''Synced'', ''OutOfSync'', ''Unknown''}) ''syncStatus is invalid'',
      refuse (vres_healthStatus v \<notin> {''Healthy'', ''Progressing'', ''Degraded'', ''Missing'', ''Unknown''}) ''healthStatus is invalid'',
      (if length (vres_endpointChecks v) \<noteq> length expected_checks then Some (Invalid ''endpointChecks must contain exactly six checks'')
       else first_error (map2 validate_endpoint_check expected_checks (vres_endpointChecks v))),
      validate_review_instructions (vres_reviewInstructions v),
      timestamps_error (vres_startedAt v) (vres_completedAt v),
      refuse (vres_outcome v \<notin> {''passed'', ''failed''}) ''outcome is invalid'',
      (if vres_outcome v = ''passed'' then first_error
         (refuse (vres_observedSourceRevision v \<noteq> vres_candidateCommit v \<or> vres_observedImageDigest v \<noteq> vres_imageDigest v
            \<or> vres_syncStatus v \<noteq> ''Synced'' \<or> vres_healthStatus v \<noteq> ''Healthy'')
            ''passed outcome requires matching observed identities and Synced/Healthy state'' #
          map2 (\<lambda>check code. refuse (ec_outcome check \<noteq> ''passed'' \<or> ec_httpStatus check \<noteq> code)
            ''passed outcome requires every endpoint check to pass'') (vres_endpointChecks v) expected_statuses)
       else None)]"

definition validate_remote_proof :: "string \<Rightarrow> string \<Rightarrow> remote_proof \<Rightarrow> go_error option" where
  "validate_remote_proof targetBranch mergeCommit v = first_error
     [refuse (pf_ref v \<noteq> ''refs/heads/'' @ targetBranch) ''ref must identify the target branch'',
      validate_git_oid_field ''observedCommit'' (pf_observedCommit v),
      refuse (pf_observedCommit v \<noteq> mergeCommit) ''observedCommit must equal mergeCommit'',
      timestamp_error (pf_verifiedAt v)]"

definition validate_candidate_remote_proof :: "candidate_remote_proof \<Rightarrow> go_error option" where
  "validate_candidate_remote_proof v = first_error
     [validate_digest_field ''candidateRevisionDigest'' (crp_candidateRevisionDigest v),
      validate_repository_url (crp_repositoryURL v),
      (case cut_prefix (crp_ref v) ''refs/heads/'' of None \<Rightarrow> Some (Invalid ''ref must identify a branch'')
       | Some branch \<Rightarrow> validate_branch branch),
      validate_git_oid_field ''observedCommit'' (crp_observedCommit v),
      timestamp_error (crp_verifiedAt v)]"

definition validate_merge_revision :: "merge_revision \<Rightarrow> go_error option" where
  "validate_merge_revision v = first_error
     [validate_digest_field ''candidateRevisionDigest'' (mr_candidateRevisionDigest v),
      validate_digest_field ''validationResultDigest'' (mr_validationResultDigest v),
      validate_repository_url (mr_repositoryURL v),
      validate_branch (mr_targetBranch v),
      validate_git_oid_field ''previousTargetCommit'' (mr_previousTargetCommit v),
      validate_git_oid_field ''candidateCommit'' (mr_candidateCommit v),
      validate_git_oid_field ''candidateTree'' (mr_candidateTree v),
      validate_git_oid_field ''mergeCommit'' (mr_mergeCommit v),
      validate_git_oid_field ''mergeTree'' (mr_mergeTree v),
      validate_object_identity ''approvalRequest'' (mr_approvalRequest v),
      validate_object_identity ''approvalDecision'' (mr_approvalDecision v),
      validate_object_identity ''validationRun'' (mr_validationRun v),
      validate_remote_proof (mr_targetBranch v) (mr_mergeCommit v) (mr_remoteProof v)]"

subsection \<open>Merge requests\<close>

text \<open>
  \<open>strings.EqualFold\<close>: equal up to the case of ASCII letters and the two runes beyond ASCII that
  fold to an ASCII letter (U+017F to s, U+212A to k). Other runes beyond ASCII are compared as they are.
\<close>

fun fold_case :: "string \<Rightarrow> string" where
  "fold_case [] = []"
| "fold_case (c # s) =
     (if c = CHR 0xC5 then (case s of d # t \<Rightarrow> if d = CHR 0xBF then CHR ''s'' # fold_case t else c # fold_case s | [] \<Rightarrow> [c])
      else if c = CHR 0xE2 then (case s of d # e # t \<Rightarrow> if d = CHR 0x84 \<and> e = CHR 0xAA then CHR ''k'' # fold_case t else c # fold_case s
         | _ \<Rightarrow> c # fold_case s)
      else ascii_lower c # fold_case s)"

definition equal_fold :: "string \<Rightarrow> string \<Rightarrow> bool" where
  "equal_fold a b \<longleftrightarrow> fold_case a = fold_case b"

definition validate_merge_request :: "merge_request \<Rightarrow> go_error option" where
  "validate_merge_request v = first_error
     [validate_digest_field ''candidateRevisionDigest'' (mq_candidateRevisionDigest v),
      validate_digest_field ''candidateRemoteProofDigest'' (mq_candidateRemoteProofDigest v),
      validate_digest_field ''validationResultDigest'' (mq_validationResultDigest v),
      validate_repository_url (mq_repositoryURL v),
      validate_branch (mq_sourceBranch v),
      validate_branch (mq_targetBranch v),
      refuse (mq_sourceBranch v = mq_targetBranch v) ''source and target branches must differ'',
      validate_git_oid_field ''candidateCommit'' (mq_candidateCommit v),
      refuse (mq_provider v \<noteq> ''github'' \<or> mq_number v < 1) ''merge request requires provider github and a positive number'',
      validate_repository_url (mq_URL v),
      refuse (\<not> has_prefix (mq_repositoryURL v) ''https://github.com/''
         \<or> \<not> equal_fold (mq_URL v) (trim_suffix (mq_repositoryURL v) ''.git'' @ ''/pull/'' @ show_int (mq_number v)))
        ''merge request URL must identify its repository and number'',
      refuse (mq_state v \<noteq> ''open'' \<and> mq_state v \<noteq> ''merged'') ''merge request state must be open or merged'',
      validate_object_identity ''utilityOperation'' (mq_utilityOperation v),
      refuse (blank (mq_idempotencyKey v) \<or> length (mq_idempotencyKey v) > 1024) ''idempotencyKey must contain 1-1024 bytes'']"

subsection \<open>The registry\<close>

text \<open>
  A decoded document of each contract. \<open>decode\<close> stands for the strict JSON decoder of
  \<open>decodeStrict\<close> (unknown fields and trailing values refused); it gets the contract and the bytes.
\<close>

datatype document =
    ChangeRequestDoc change_request
  | RepositoryRevisionDoc repository_revision
  | BranchReferenceDoc branch_reference
  | ImplementationPlanDoc implementation_plan
  | TestChangeSetDoc change_set
  | ChangeSetDoc change_set
  | PreparedCandidateDoc prepared_candidate
  | TestReportDoc test_report
  | CandidateRevisionDoc candidate_revision
  | CandidateRemoteProofDoc candidate_remote_proof
  | ImageDigestDoc image_digest
  | ValidationResultDoc validation_result
  | MergeRevisionDoc merge_revision
  | MergeRequestDoc merge_request

definition contracts :: "string list" where
  "contracts = [''branch-reference/v1'', ''candidate-remote-proof/v1'', ''candidate-revision/v1'', ''change-request/v1'',
     ''change-set/v1'', ''image-digest/v1'', ''implementation-plan/v1'', ''merge-request/v1'', ''merge-revision/v1'',
     ''prepared-candidate/v1'', ''repository-revision/v1'', ''test-change-set/v1'', ''test-report/v1'', ''validation-result/v1'']"

definition contract_of :: "document \<Rightarrow> string" where
  "contract_of d = (case d of ChangeRequestDoc _ \<Rightarrow> ''change-request/v1'' | RepositoryRevisionDoc _ \<Rightarrow> ''repository-revision/v1''
     | BranchReferenceDoc _ \<Rightarrow> ''branch-reference/v1'' | ImplementationPlanDoc _ \<Rightarrow> ''implementation-plan/v1''
     | TestChangeSetDoc _ \<Rightarrow> ''test-change-set/v1'' | ChangeSetDoc _ \<Rightarrow> ''change-set/v1''
     | PreparedCandidateDoc _ \<Rightarrow> ''prepared-candidate/v1'' | TestReportDoc _ \<Rightarrow> ''test-report/v1''
     | CandidateRevisionDoc _ \<Rightarrow> ''candidate-revision/v1'' | CandidateRemoteProofDoc _ \<Rightarrow> ''candidate-remote-proof/v1''
     | ImageDigestDoc _ \<Rightarrow> ''image-digest/v1'' | ValidationResultDoc _ \<Rightarrow> ''validation-result/v1''
     | MergeRevisionDoc _ \<Rightarrow> ''merge-revision/v1'' | MergeRequestDoc _ \<Rightarrow> ''merge-request/v1'')"

definition validate_document :: "(string \<Rightarrow> string) \<Rightarrow> document \<Rightarrow> go_error option" where
  "validate_document sha d = (case d of ChangeRequestDoc v \<Rightarrow> validate_change_request sha v
     | RepositoryRevisionDoc v \<Rightarrow> validate_repository_revision v | BranchReferenceDoc v \<Rightarrow> validate_branch_reference v
     | ImplementationPlanDoc v \<Rightarrow> validate_implementation_plan v | TestChangeSetDoc v \<Rightarrow> validate_test_change_set sha v
     | ChangeSetDoc v \<Rightarrow> validate_change_set sha v | PreparedCandidateDoc v \<Rightarrow> validate_prepared_candidate v
     | TestReportDoc v \<Rightarrow> validate_test_report v | CandidateRevisionDoc v \<Rightarrow> validate_candidate_revision v
     | CandidateRemoteProofDoc v \<Rightarrow> validate_candidate_remote_proof v | ImageDigestDoc v \<Rightarrow> validate_image_digest v
     | ValidationResultDoc v \<Rightarrow> validate_validation_result v | MergeRevisionDoc v \<Rightarrow> validate_merge_revision v
     | MergeRequestDoc v \<Rightarrow> validate_merge_request v)"

definition decode_strict ::
  "(string \<Rightarrow> string) \<Rightarrow> (string \<Rightarrow> string \<Rightarrow> document option) \<Rightarrow> string \<Rightarrow> string \<Rightarrow> go_error + document" where
  "decode_strict sha decode contract data =
     (if int (length data) > max_artifact_bytes then Inl (Invalid ''content exceeds'')
      else (case decode contract data of None \<Rightarrow> Inl (Invalid ''decode JSON'')
        | Some d \<Rightarrow> (case validate_document sha d of Some e \<Rightarrow> Inl e | None \<Rightarrow> Inr d)))"

definition registry_validate ::
  "(string \<Rightarrow> string) \<Rightarrow> (string \<Rightarrow> string \<Rightarrow> document option) \<Rightarrow> string \<Rightarrow> string \<Rightarrow> string \<Rightarrow> go_error option" where
  "registry_validate sha decode name version data =
     (if CHR ''/'' \<in> set name \<or> CHR ''/'' \<in> set version \<or> name = '''' \<or> version = ''''
        then Some (Invalid ''contract must use exact non-empty name/version components'')
      else if int (length data) > max_artifact_bytes then Some (Invalid ''artifact content exceeds'')
      else (let key = name @ ''/'' @ version
        in if key \<notin> set contracts then Some (Invalid ''artifact contract is not registered'')
           else (case decode_strict sha decode key data of Inl e \<Rightarrow> Some e | Inr _ \<Rightarrow> None)))"

definition validate_contract ::
  "(string \<Rightarrow> string) \<Rightarrow> (string \<Rightarrow> string \<Rightarrow> document option) \<Rightarrow> string \<Rightarrow> string \<Rightarrow> go_error option" where
  "validate_contract sha decode contract data = (case cut_byte (CHR ''/'') contract of
       (_, None) \<Rightarrow> Some (Invalid ''artifact contract must use exact name/version form'')
     | (name, Some version) \<Rightarrow>
         if CHR ''/'' \<in> set version then Some (Invalid ''artifact contract must use exact name/version form'')
         else registry_validate sha decode name version data)"

subsection \<open>Criteria are determined by their digests\<close>

lemma digest_bytes_inject [simp]: "digest_bytes sha a = digest_bytes sha b \<longleftrightarrow> sha a = sha b"
  by (simp add: digest_bytes_def)

lemma lower_hex_ascii: "is_lower_hex c \<Longrightarrow> (of_char c :: nat) < 128"
  by (auto simp: is_lower_hex_def is_digit_def byte_in_def)

lemma digest_pattern_utf8: "digest_pattern s \<Longrightarrow> utf8_valid s"
  by (rule utf8_valid_ascii)
    (auto simp: digest_pattern_def cut_prefix_def has_prefix_iff list_all_iff lower_hex_ascii
      split: option.splits if_splits)

lemma criterion_id_utf8: "criterion_id_pattern s \<Longrightarrow> utf8_valid s"
  by (rule utf8_valid_ascii)
    (auto simp: criterion_id_pattern_def list_all_iff is_lower_def is_upper_def is_alnum_def is_digit_def byte_in_def
      split: list.splits)

lemma criterion_document_determines:
  assumes "criterion_document i t = criterion_document j u" "utf8_valid i" "utf8_valid j" "utf8_valid t" "utf8_valid u"
  shows "i = j \<and> t = u"
proof -
  from assms(1) have "json_quote i @ ('',\"text\":'' @ json_quote t @ ''}'') = json_quote j @ ('',\"text\":'' @ json_quote u @ ''}'')"
    by (simp add: criterion_document_def)
  from json_quote_determines [OF this assms(2,3)] have "i = j" "json_quote t @ ''}'' = json_quote u @ ''}''" by simp_all
  with json_quote_determines [OF this(2) assms(4,5)] show ?thesis by simp
qed

definition plain_key :: "criterion_key \<Rightarrow> bool" where
  "plain_key k \<longleftrightarrow> utf8_valid (ck_id k) \<and> utf8_valid (ck_digest k)"

lemma key_document_determines:
  assumes "key_document k @ x = key_document l @ y" "plain_key k" "plain_key l"
  shows "k = l \<and> x = y"
proof -
  from assms(1) have "json_quote (ck_id k) @ ('',\"digest\":'' @ json_quote (ck_digest k) @ ''}'' @ x)
      = json_quote (ck_id l) @ ('',\"digest\":'' @ json_quote (ck_digest l) @ ''}'' @ y)"
    by (simp add: key_document_def)
  from json_quote_determines [OF this] assms
  have "ck_id k = ck_id l" and "json_quote (ck_digest k) @ ''}'' @ x = json_quote (ck_digest l) @ ''}'' @ y"
    by (simp_all add: plain_key_def)
  with json_quote_determines [OF this(2)] assms show ?thesis by (simp add: plain_key_def)
qed

lemma joined_keys_determine:
  "join_with '','' (map key_document ks) @ '']}'' = join_with '','' (map key_document ls) @ '']}'' \<Longrightarrow>
   list_all plain_key ks \<Longrightarrow> list_all plain_key ls \<Longrightarrow> ks \<noteq> [] \<Longrightarrow> ls \<noteq> [] \<Longrightarrow> ks = ls"
proof (induction ks arbitrary: ls)
  case (Cons k ks)
  then obtain l ls' where ls: "ls = l # ls'" by (cases ls) auto
  have split: "join_with '','' (map key_document (k # ks)) @ '']}'' =
      key_document k @ (if ks = [] then '']}'' else '','' @ join_with '','' (map key_document ks) @ '']}'')" for k ks
    by (cases ks) simp_all
  have kl: "k = l \<and> (if ks = [] then '']}'' else '','' @ join_with '','' (map key_document ks) @ '']}'')
      = (if ls' = [] then '']}'' else '','' @ join_with '','' (map key_document ls') @ '']}'')"
    by (rule key_document_determines) (use Cons.prems in \<open>simp_all only: ls split list.pred_inject\<close>)
  show ?case
  proof (cases "ks = [] \<or> ls' = []")
    case True
    then show ?thesis using kl by (auto simp: ls split: if_splits)
  next
    case False
    then have "join_with '','' (map key_document ks) @ '']}'' = join_with '','' (map key_document ls') @ '']}''"
      using kl by simp
    then show ?thesis using Cons.IH [of ls'] Cons.prems False kl by (simp add: ls)
  qed
qed simp

lemma identity_items_plain: "identity_items seen ks = None \<Longrightarrow> list_all plain_key ks"
  by (induction ks arbitrary: seen)
    (auto simp: validate_digest_field_def plain_key_def digest_pattern_utf8 criterion_id_utf8)

lemma accepted_identities:
  assumes "validate_criterion_identities sha ks d = None"
  shows "ks \<noteq> []" "list_all plain_key ks" "criteria_set_digest sha ks = d"
  using assms identity_items_plain by (auto simp: validate_criterion_identities_def)

lemma criteria_items_text:
  "criteria_items sha seen cs = None \<Longrightarrow> c \<in> set cs \<Longrightarrow>
   utf8_valid (ac_text c) \<and> ac_digest c = criterion_digest_of sha (ac_id c) (ac_text c)"
  by (induction cs arbitrary: seen) auto

subsection \<open>Accepted paths\<close>

text \<open>
  How a file system without links resolves the segments of a relative path, from the directory
  reached so far: empty and \<open>.\<close> segments stay, \<open>..\<close> goes up.
\<close>

fun walk :: "string list \<Rightarrow> string list \<Rightarrow> string list" where
  "walk dir [] = dir"
| "walk dir (s # ss) =
     (if s = '''' \<or> s = ''.'' then walk dir ss
      else if s = ''..'' then walk (butlast dir) ss
      else walk (dir @ [s]) ss)"

lemma walk_plain: "''..'' \<notin> set ss \<Longrightarrow> ''.'' \<notin> set ss \<Longrightarrow> '''' \<notin> set ss \<Longrightarrow> walk dir ss = dir @ ss"
  by (induction ss arbitrary: dir) auto

lemma accepted_path_segments:
  "validate_repository_path p = None \<Longrightarrow>
   {'''', ''.'', ''..'', ''.git''} \<inter> set (split_on (CHR ''/'') p) = {}"
  by (auto simp: validate_repository_path_def list_ex_iff split: if_splits)

lemma accepted_path_walk:
  "validate_repository_path p = None \<Longrightarrow> walk root (split_on (CHR ''/'') p) = root @ split_on (CHR ''/'') p"
  by (rule walk_plain) (use accepted_path_segments in blast)+

lemma split_on_inject: "split_on d a = split_on d b \<Longrightarrow> a = b"
  by (metis join_split)

lemma sorted_unique_bound: "sorted_unique (v # vs) \<Longrightarrow> w \<in> set vs \<Longrightarrow> v < w"
  by (induction vs arbitrary: v) (auto dest: less_trans)

lemma sorted_unique_tl: "sorted_unique (v # vs) \<Longrightarrow> sorted_unique vs"
  by (cases vs) auto

lemma sorted_unique_distinct: "sorted_unique vs \<Longrightarrow> distinct vs"
  by (induction vs) (auto dest: sorted_unique_tl sorted_unique_bound)

lemma accepted_files:
  assumes "validate_change_set sha v = None"
  shows "cs_files v \<noteq> []" "\<And>f. f \<in> set (cs_files v) \<Longrightarrow> validate_changed_file sha f = None"
    "distinct (map cf_path (cs_files v))"
proof -
  from assms have files: "validate_changed_files sha (cs_files v) = None" by (simp add: validate_change_set_def)
  then show "cs_files v \<noteq> []" "\<And>f. f \<in> set (cs_files v) \<Longrightarrow> validate_changed_file sha f = None"
    by (auto simp: validate_changed_files_def first_error_all split: if_splits)
  from files show "distinct (map cf_path (cs_files v))"
    by (intro sorted_unique_distinct) (auto simp: validate_changed_files_def first_error_all require_sorted_unique_def split: if_splits)
qed

subsection \<open>Branch names\<close>

text \<open>The rules of \<open>git check-ref-format\<close> for a branch name.\<close>

definition ref_component :: "string \<Rightarrow> bool" where
  "ref_component c \<longleftrightarrow> \<not> has_prefix c ''.'' \<and> \<not> has_suffix c ''.lock''"

definition git_ref_bytes :: "string \<Rightarrow> bool" where
  "git_ref_bytes s \<longleftrightarrow> (\<forall>c \<in> set s. \<not> control_byte c \<and> c \<notin> set ('' ~^:?*['' @ [backslash]))"

definition git_branch_name :: "string \<Rightarrow> bool" where
  "git_branch_name s \<longleftrightarrow> s \<noteq> [] \<and> s \<noteq> ''@'' \<and> git_ref_bytes s \<and> \<not> contains s ''..'' \<and> \<not> contains s ''//''
     \<and> \<not> contains s (''@'' @ ''{'') \<and> \<not> has_prefix s ''/'' \<and> \<not> has_prefix s ''-'' \<and> \<not> has_suffix s ''/'' \<and> \<not> has_suffix s ''.''
     \<and> list_all ref_component (split_on (CHR ''/'') s)"

lemma branch_byte_plain:
  assumes "branch_byte c"
  shows "\<not> control_byte c \<and> c \<notin> set ('' ~^:?*['' @ [backslash]) \<and> c \<noteq> CHR ''@''"
  using assms
  by (auto simp: branch_byte_def control_byte_def is_alnum_def is_digit_def is_lower_def is_upper_def byte_in_def backslash_def)

lemma branch_pattern_bytes:
  assumes "branch_pattern s"
  shows "s \<noteq> []" "is_alnum (hd s)" "\<forall>c \<in> set s. branch_byte c"
  using assms by (auto simp: branch_pattern_def branch_byte_def list_all_iff split: list.splits)

lemma contains_byte_of: "contains s (p @ q) \<Longrightarrow> set p \<subseteq> set s"
  by (auto simp: contains_iff)

lemma accepted_branch_git:
  assumes "validate_branch s = None"
  shows "git_branch_name s \<longleftrightarrow> list_all ref_component (split_on (CHR ''/'') s)"
proof -
  have pat: "branch_pattern s" and rest: "\<not> contains s ''..''" "\<not> contains s ''//''" "\<not> has_suffix s ''/''" "\<not> has_suffix s ''.''"
    using assms by (auto simp: validate_branch_def)
  have at: "CHR ''@'' \<notin> set s" using branch_pattern_bytes(3) [OF pat] branch_byte_plain by blast
  have "git_ref_bytes s" unfolding git_ref_bytes_def
    using branch_pattern_bytes(3) [OF pat] branch_byte_plain by blast
  moreover have "\<not> contains s (''@'' @ ''{'')" using at contains_byte_of [of s "''@''" "''{''"] by auto
  moreover have "s \<noteq> ''@''" using at by auto
  moreover have "\<not> has_prefix s ''/''" "\<not> has_prefix s ''-''"
    using branch_pattern_bytes(1,2) [OF pat] by (cases s; auto simp: has_prefix_def is_alnum_def is_digit_def is_lower_def is_upper_def byte_in_def)+
  ultimately show ?thesis using rest branch_pattern_bytes(1) [OF pat] by (simp add: git_branch_name_def)
qed

subsection \<open>Examples\<close>

definition zeros :: "nat \<Rightarrow> string" where "zeros n = replicate n (CHR ''0'')"
definition zero_sha :: "string \<Rightarrow> string" where "zero_sha s = zeros 64"
definition zero_digest :: string where "zero_digest = ''sha256:'' @ zeros 64"

definition demo_criteria :: "acceptance_criterion list" where
  "demo_criteria = [\<lparr>ac_id = ''RQ-001'', ac_text = ''adds'', ac_digest = zero_digest\<rparr>]"

definition demo_changes :: change_set where
  "demo_changes = \<lparr>cs_summary = ''s'', cs_baseCommit = zeros 40, cs_changeRequestDigest = zero_digest,
     cs_implementationPlanDigest = zero_digest, cs_files =
       [\<lparr>cf_path = ''cmd/main.go'', cf_action = ''add'', cf_baseDigest = ''absent'', cf_resultDigest = zero_digest,
          cf_resultContent = Some ''package main''\<rparr>,
        \<lparr>cf_path = ''old.go'', cf_action = ''delete'', cf_baseDigest = zero_digest, cf_resultDigest = '''',
          cf_resultContent = None\<rparr>]\<rparr>"

definition demo_stream :: "int \<Rightarrow> stream_evidence" where
  "demo_stream n = \<lparr>se_digest = zero_digest, se_capturedBytes = n, se_excerpt = ''ok'', se_truncated = (n > 2)\<rparr>"

definition demo_report :: "int \<Rightarrow> test_report" where
  "demo_report n = \<lparr>tr_preparedCandidateDigest = zero_digest, tr_baseCommit = zeros 40, tr_candidateTree = zeros 40,
     tr_observedTreeAfter = zeros 40, tr_workspaceClean = True, tr_commandDigest = zero_digest,
     tr_environmentImageDigest = zero_digest, tr_outcome = ''passed'', tr_exitCode = Some 0, tr_durationMilliseconds = 5,
     tr_stdout = demo_stream n, tr_stderr = demo_stream n, tr_testCount = None\<rparr>"

subsection \<open>Properties\<close>



text \<open>
  C28: The files of an accepted change set lie at different places strictly below the workspace
  root, none of them in a \<open>.git\<close> directory, however the root is chosen and whatever the paths
  contain.
\<close>

theorem accepted_changes_stay_inside:
  assumes "validate_change_set sha v = None"
  shows "distinct (map (\<lambda>f. walk root (split_on (CHR ''/'') (cf_path f))) (cs_files v))
     \<and> (\<forall>f \<in> set (cs_files v). \<exists>below. below \<noteq> [] \<and> ''.git'' \<notin> set below
          \<and> walk root (split_on (CHR ''/'') (cf_path f)) = root @ below)"
proof
  have path: "validate_repository_path (cf_path f) = None" if "f \<in> set (cs_files v)" for f
    using accepted_files(2) [OF assms that] by (simp add: validate_changed_file_def)
  have "map (\<lambda>f. walk root (split_on (CHR ''/'') (cf_path f))) (cs_files v)
      = map (\<lambda>p. root @ split_on (CHR ''/'') p) (map cf_path (cs_files v))"
    using accepted_path_walk path by simp
  moreover have "inj (\<lambda>p. root @ split_on (CHR ''/'') p)"
    by (rule injI) (simp add: split_on_inject)
  ultimately show "distinct (map (\<lambda>f. walk root (split_on (CHR ''/'') (cf_path f))) (cs_files v))"
    using accepted_files(3) [OF assms] by (simp add: distinct_map inj_on_def)
  show "\<forall>f \<in> set (cs_files v). \<exists>below. below \<noteq> [] \<and> ''.git'' \<notin> set below
      \<and> walk root (split_on (CHR ''/'') (cf_path f)) = root @ below"
  proof
    fix f assume "f \<in> set (cs_files v)"
    from accepted_path_walk [OF path [OF this]] accepted_path_segments [OF path [OF this]] split_on_nonempty
    show "\<exists>below. below \<noteq> [] \<and> ''.git'' \<notin> set below \<and> walk root (split_on (CHR ''/'') (cf_path f)) = root @ below"
      by (intro exI [of _ "split_on (CHR ''/'') (cf_path f)"]) simp
  qed
qed

theorem accepted_changes_stay_inside_witness:
  "distinct (map (\<lambda>f. walk [''work''] (split_on (CHR ''/'') (cf_path f))) (cs_files demo_changes))"
proof -
  have "validate_change_set zero_sha demo_changes = None" by code_simp
  from accepted_changes_stay_inside [OF this] show ?thesis ..
qed

text \<open>
  An accepted change set describes its results exactly: a file that is added or modified
  carries the content its result digest is computed from, no file is modified into the content
  its base digest stands for, and a deleted file carries neither.
\<close>

theorem accepted_changes_are_exact:
  assumes "validate_change_set sha v = None" and "f \<in> set (cs_files v)"
  shows "case cf_resultContent f of
       None \<Rightarrow> cf_action f = ''delete'' \<and> cf_resultDigest f = ''''
     | Some content \<Rightarrow> cf_resultDigest f = digest_bytes sha content \<and>
         (cf_action f = ''add'' \<and> cf_baseDigest f = ''absent''
          \<or> cf_action f = ''modify'' \<and> (\<forall>base. digest_bytes sha base = cf_baseDigest f \<longrightarrow> base \<noteq> content))"
proof -
  from accepted_files(2) [OF assms] have acc: "validate_changed_file sha f = None" .
  show ?thesis
  proof (cases "cf_resultContent f")
    case None
    then show ?thesis using acc by (simp add: validate_changed_file_def split: if_splits)
  next
    case (Some content)
    then have kept: "cf_action f \<noteq> ''delete''" "cf_resultDigest f = digest_bytes sha content"
      "cf_action f = ''modify'' \<longrightarrow> digest_bytes sha content \<noteq> cf_baseDigest f"
      "cf_action f = ''add'' \<longrightarrow> cf_baseDigest f = ''absent''" "cf_action f \<in> set file_actions"
      using acc by (auto simp add: validate_changed_file_def split: if_splits)
    from kept(1,5) have "cf_action f = ''add'' \<or> cf_action f = ''modify''" by (simp add: file_actions_def)
    then show ?thesis
    proof
      assume "cf_action f = ''add''"
      with kept(2,4) Some show ?thesis by simp
    next
      assume "cf_action f = ''modify''"
      with kept(2,3) Some show ?thesis by auto
    qed
  qed
qed

theorem accepted_changes_are_exact_witness:
  "cf_resultDigest (hd (cs_files demo_changes)) = digest_bytes zero_sha ''package main''"
proof -
  have acc: "validate_change_set zero_sha demo_changes = None" by code_simp
  have mem: "hd (cs_files demo_changes) \<in> set (cs_files demo_changes)"
    and content: "cf_resultContent (hd (cs_files demo_changes)) = Some ''package main''"
    by (simp_all add: demo_changes_def)
  from accepted_changes_are_exact [OF acc mem] show ?thesis by (simp add: content)
qed

text \<open>
  The limit on captured test output can be passed. An accepted report whose two counts do
  not add up beyond \<open>int64\<close> is within the limit; the sum of two counts of \<open>2 ^ 62\<close> bytes wraps around to
  a negative number, and such a report is accepted as passed.
\<close>

theorem captured_output_limit_wraps:
  "(validate_test_report v = None \<longrightarrow>
      se_capturedBytes (tr_stdout v) + se_capturedBytes (tr_stderr v) \<le> max_captured_test_output_bytes
      \<or> se_capturedBytes (tr_stdout v) + se_capturedBytes (tr_stderr v) \<ge> 2 ^ 63)
   \<and> validate_test_report (demo_report (2 ^ 62)) = None"
proof
  let ?n = "se_capturedBytes (tr_stdout v) + se_capturedBytes (tr_stderr v)"
  show "validate_test_report v = None \<longrightarrow> ?n \<le> max_captured_test_output_bytes \<or> ?n \<ge> 2 ^ 63"
  proof
    assume acc: "validate_test_report v = None"
    then have "0 \<le> ?n" and "int64 ?n \<le> max_captured_test_output_bytes"
      by (auto simp: validate_test_report_def validate_stream_evidence_def)
    then show "?n \<le> max_captured_test_output_bytes \<or> ?n \<ge> 2 ^ 63" by (cases "?n < 2 ^ 63") auto
  qed
  show "validate_test_report (demo_report (2 ^ 62)) = None" by code_simp
qed

theorem captured_output_limit_wraps_witness:
  "se_capturedBytes (tr_stdout (demo_report 5)) + se_capturedBytes (tr_stderr (demo_report 5)) \<le> max_captured_test_output_bytes
   \<or> se_capturedBytes (tr_stdout (demo_report 5)) + se_capturedBytes (tr_stderr (demo_report 5)) \<ge> 2 ^ 63"
proof -
  have "validate_test_report (demo_report 5) = None" by code_simp
  with captured_output_limit_wraps [of "demo_report 5"] show ?thesis by blast
qed

text \<open>
  The check of branch names is weaker than Git's: an accepted name satisfies every rule of
  \<open>git check-ref-format\<close> exactly if no component begins with a dot or ends in \<open>.lock\<close>, which is
  only checked at the two ends of the whole name, so that a name Git refuses is accepted.
\<close>

theorem accepted_branch_may_not_be_a_branch:
  "(validate_branch s = None \<longrightarrow> (git_branch_name s \<longleftrightarrow> list_all ref_component (split_on (CHR ''/'') s)))
   \<and> validate_branch ''feature/.hidden'' = None \<and> \<not> git_branch_name ''feature/.hidden''
   \<and> validate_branch ''main.lock/fix'' = None \<and> \<not> git_branch_name ''main.lock/fix''"
proof -
  have "validate_branch ''feature/.hidden'' = None" "validate_branch ''main.lock/fix'' = None" by code_simp+
  moreover have "\<not> list_all ref_component (split_on (CHR ''/'') ''feature/.hidden'')"
    "\<not> list_all ref_component (split_on (CHR ''/'') ''main.lock/fix'')" by code_simp+
  ultimately show ?thesis using accepted_branch_git by blast
qed

theorem accepted_branch_may_not_be_a_branch_witness: "git_branch_name ''feature/login''"
proof -
  have "validate_branch ''feature/login'' = None" "list_all ref_component (split_on (CHR ''/'') ''feature/login'')"
    by code_simp+
  with accepted_branch_may_not_be_a_branch [of "''feature/login''"] show ?thesis by blast
qed

end
