(* ===== verification/Workspace_Policy.thy ===== *)
theory Workspace_Policy
  imports Artifact_Contract
begin

section \<open>Workspace mutation policy and materialization\<close>

text \<open>
  \<open>internal/artifactcontract/workspacepolicy.go\<close> and \<open>materialize.go\<close>: which workspace paths an agent
  may update, create or delete under its output contract, and how durable agent evidence becomes
  an artifact. \<open>decode\<close> is the JSON decoder of the contract package, \<open>encode\<close> its encoder
  (\<open>json.Marshal\<close>); a policy of \<open>None\<close> is the nil pointer, which allows everything.
\<close>

subsection \<open>The policy\<close>

record source_artifact =
  src_contract :: string
  src_digest :: string
  src_content :: string

record mutation_policy =
  policy_contract :: string
  policy_actions :: "(string \<times> string) list"

fun required_source :: "source_artifact option \<Rightarrow> source_artifact list \<Rightarrow> string \<Rightarrow> go_error + source_artifact" where
  "required_source found [] contract = (case found of None \<Rightarrow> Inl (Invalid ''required input is missing'') | Some s \<Rightarrow> Inr s)"
| "required_source found (s # ss) contract =
     (if src_contract s \<noteq> contract then required_source found ss contract
      else if found \<noteq> None then Inl (Invalid ''multiple inputs'')
      else required_source (Some s) ss contract)"

definition required_materialization_source :: "source_artifact list \<Rightarrow> string \<Rightarrow> go_error + source_artifact" where
  "required_materialization_source sources contract = required_source None sources contract"

text \<open>The map of actions, filled in the order of the plan: a later entry of a path replaces an earlier one.\<close>

definition plan_actions :: "affected_path list \<Rightarrow> (string \<times> string) list" where
  "plan_actions affected = rev (map (\<lambda>a. (ap_path a, ap_action a)) affected)"

definition new_mutation_policy ::
  "(string \<Rightarrow> implementation_plan option) \<Rightarrow> string \<Rightarrow> source_artifact list \<Rightarrow> go_error + mutation_policy" where
  "new_mutation_policy unmarshal contract sources =
     (if contract = ''test-change-set/v1'' then Inr \<lparr>policy_contract = contract, policy_actions = []\<rparr>
      else if contract = ''change-set/v1'' then
        (case required_materialization_source sources ''implementation-plan/v1'' of
           Inl e \<Rightarrow> Inl e
         | Inr source \<Rightarrow> (case unmarshal (src_content source) of
               None \<Rightarrow> Inl (Invalid ''decode implementation plan path policy'')
             | Some plan \<Rightarrow> Inr \<lparr>policy_contract = contract, policy_actions = plan_actions (ip_affectedPaths plan)\<rparr>))
      else Inl (Invalid ''output contract has no workspace mutation policy''))"

definition validate_update :: "mutation_policy option \<Rightarrow> string \<Rightarrow> go_error option" where
  "validate_update p path = (case p of None \<Rightarrow> None | Some p \<Rightarrow>
     if policy_contract p = ''test-change-set/v1'' then
       refuse (\<not> is_test_path path) ''workspace update path is not a recognized test path''
     else (case map_of (policy_actions p) path of
         None \<Rightarrow> Some (Invalid ''workspace update path is not authorized'')
       | Some action \<Rightarrow> first_error
           [refuse (is_test_path path) ''developer workspace update path is a recognized test path'',
            refuse (action \<noteq> ''modify'' \<and> action \<noteq> ''add'') ''requires affectedPaths action modify or add'']))"

definition require_action :: "mutation_policy \<Rightarrow> string \<Rightarrow> string \<Rightarrow> go_error option" where
  "require_action p path expected =
     (if is_test_path path then Some (Invalid ''developer workspace path is a recognized test path'')
      else (case map_of (policy_actions p) path of
          None \<Rightarrow> Some (Invalid ''workspace path is not authorized'')
        | Some action \<Rightarrow> refuse (action \<noteq> expected) ''requires another affectedPaths action''))"

definition validate_create :: "mutation_policy option \<Rightarrow> string \<Rightarrow> go_error option" where
  "validate_create p path = (case p of None \<Rightarrow> None | Some p \<Rightarrow>
     if policy_contract p = ''test-change-set/v1'' then Some (Invalid ''test-change-set creation is not authorized'')
     else require_action p path ''add'')"

definition validate_delete :: "mutation_policy option \<Rightarrow> string \<Rightarrow> go_error option" where
  "validate_delete p path = (case p of None \<Rightarrow> None | Some p \<Rightarrow>
     if policy_contract p = ''test-change-set/v1''
     then refuse (\<not> is_test_path path) ''workspace delete path is not a recognized test path''
     else require_action p path ''delete'')"

definition authorized_update_paths :: "mutation_policy option \<Rightarrow> string list \<Rightarrow> string list" where
  "authorized_update_paths p paths = remdups_adj (sort (filter (\<lambda>path. validate_update p path = None) paths))"

definition validate_affected_workspace_paths :: "affected_path list \<Rightarrow> string list \<Rightarrow> bool \<Rightarrow> bool \<Rightarrow> go_error option" where
  "validate_affected_workspace_paths affected paths observed complete =
     (if \<not> observed then None
      else if \<not> complete then Some (Invalid ''workspace_tree must return a complete repository path set'')
      else first_error (map (\<lambda>item.
          if ap_action item = ''add'' then refuse (ap_path item \<in> set paths) ''uses action add but already exists''
          else if ap_action item = ''modify'' \<or> ap_action item = ''delete''
          then refuse (ap_path item \<notin> set paths) ''was not returned by workspace_tree''
          else None) affected))"

subsection \<open>Candidate text\<close>

text \<open>\<open>NormalizeCandidateJSON\<close>: raw control bytes inside a string become escapes.\<close>

definition control_escape :: "char \<Rightarrow> string" where
  "control_escape c =
     (if c = CHR 0x08 then [backslash, CHR ''b'']
      else if c = CHR 0x09 then [backslash, CHR ''t'']
      else if c = CHR 0x0A then [backslash, CHR ''n'']
      else if c = CHR 0x0C then [backslash, CHR ''f'']
      else if c = CHR 0x0D then [backslash, CHR ''r'']
      else [backslash, CHR ''u'', CHR ''0'', CHR ''0'', hex_digit (of_char c div 16), hex_digit (of_char c mod 16)])"

definition raw_control :: "char \<Rightarrow> bool" where
  "raw_control c \<longleftrightarrow> (of_char c :: nat) < 32"

fun normalize_from :: "bool \<Rightarrow> bool \<Rightarrow> string \<Rightarrow> string" where
  "normalize_from inString escaped [] = []"
| "normalize_from inString escaped (c # s) =
     (if \<not> inString then c # normalize_from (c = quote) escaped s
      else if escaped then c # normalize_from True False s
      else if c = backslash then c # normalize_from True True s
      else if c = quote then c # normalize_from False False s
      else if raw_control c then control_escape c @ normalize_from True False s
      else c # normalize_from True False s)"

definition normalize_candidate_json :: "string \<Rightarrow> string" where
  "normalize_candidate_json data = normalize_from False False data"

text \<open>Raw control bytes left inside strings, apart from one that follows a backslash.\<close>

fun clean_from :: "bool \<Rightarrow> bool \<Rightarrow> string \<Rightarrow> bool" where
  "clean_from inString escaped [] = True"
| "clean_from inString escaped (c # s) =
     (if \<not> inString then clean_from (c = quote) escaped s
      else if escaped then clean_from True False s
      else if c = backslash then clean_from True True s
      else if c = quote then clean_from False False s
      else \<not> raw_control c \<and> clean_from True False s)"

subsection \<open>Materializers\<close>

datatype materialization_kind = MaterializationCandidate | MaterializationWorkspace | OtherMaterialization string

record materialization_evidence =
  me_candidate :: string
  me_summary :: string
  me_files :: "changed_file list"
  me_sources :: "source_artifact list"
  me_workspacePaths :: "string list"
  me_workspacePathsObserved :: bool
  me_workspacePathsComplete :: bool

text \<open>The part of a plan an agent writes.\<close>

record plan_candidate =
  pl_summary :: string
  pl_affectedPaths :: "affected_path list"
  pl_implementationSteps :: "string list"
  pl_testStrategy :: "string list"
  pl_acceptanceMapping :: "acceptance_mapping list"
  pl_risks :: "string list option"
  pl_assumptions :: "string list option"

text \<open>
  The codec of \<open>encoding/json\<close> as the package uses it: strict decoding of a candidate plan and of a
  repository revision, encoding of a document, and the decoder of the registry.
\<close>

record codec =
  decode_plan :: "string \<Rightarrow> plan_candidate option"
  decode_revision :: "string \<Rightarrow> repository_revision option"
  encode_document :: "document \<Rightarrow> string"
  decode_document :: "string \<Rightarrow> string \<Rightarrow> document option"

definition marshal_materialized :: "(string \<Rightarrow> string) \<Rightarrow> codec \<Rightarrow> string \<Rightarrow> document \<Rightarrow> go_error + string" where
  "marshal_materialized sha c contract d =
     (let content = encode_document c d
      in case validate_contract sha (decode_document c) contract content of Some e \<Rightarrow> Inl e | None \<Rightarrow> Inr content)"

definition materialization_revision ::
  "codec \<Rightarrow> source_artifact list \<Rightarrow> go_error + (source_artifact \<times> repository_revision)" where
  "materialization_revision c sources =
     (case required_materialization_source sources ''repository-revision/v1'' of
        Inl e \<Rightarrow> Inl e
      | Inr source \<Rightarrow> (case decode_revision c (normalize_candidate_json (src_content source)) of
            None \<Rightarrow> Inl (Invalid ''decode repository revision'')
          | Some revision \<Rightarrow> Inr (source, revision)))"

definition materialize_implementation_plan ::
  "(string \<Rightarrow> string) \<Rightarrow> codec \<Rightarrow> materialization_evidence \<Rightarrow> go_error + string" where
  "materialize_implementation_plan sha c ev =
     (case decode_plan c (normalize_candidate_json (me_candidate ev)) of
        None \<Rightarrow> Inl (Invalid ''decode candidate'')
      | Some candidate \<Rightarrow>
     (case validate_affected_workspace_paths (pl_affectedPaths candidate) (me_workspacePaths ev)
             (me_workspacePathsObserved ev) (me_workspacePathsComplete ev) of
        Some e \<Rightarrow> Inl e
      | None \<Rightarrow>
     (case required_materialization_source (me_sources ev) ''change-request/v1'' of
        Inl e \<Rightarrow> Inl e
      | Inr changeRequest \<Rightarrow>
     (case materialization_revision c (me_sources ev) of
        Inl e \<Rightarrow> Inl e
      | Inr (revisionSource, revision) \<Rightarrow>
          marshal_materialized sha c ''implementation-plan/v1'' (ImplementationPlanDoc
            \<lparr>ip_summary = pl_summary candidate, ip_changeRequestDigest = src_digest changeRequest,
             ip_repositoryRevisionDigest = src_digest revisionSource, ip_sourceCommit = rr_resolvedCommit revision,
             ip_affectedPaths = sort_key ap_path (pl_affectedPaths candidate),
             ip_implementationSteps = pl_implementationSteps candidate, ip_testStrategy = pl_testStrategy candidate,
             ip_acceptanceMapping = pl_acceptanceMapping candidate, ip_risks = pl_risks candidate,
             ip_assumptions = pl_assumptions candidate\<rparr>)))))"

definition materialize_change_set ::
  "(string \<Rightarrow> string) \<Rightarrow> codec \<Rightarrow> string \<Rightarrow> materialization_evidence \<Rightarrow> go_error + string" where
  "materialize_change_set sha c contract ev =
     (if blank (me_summary ev) then Inl (Invalid ''summary is required'')
      else (case required_materialization_source (me_sources ev) ''change-request/v1'' of
        Inl e \<Rightarrow> Inl e
      | Inr changeRequest \<Rightarrow>
     (case required_materialization_source (me_sources ev) ''implementation-plan/v1'' of
        Inl e \<Rightarrow> Inl e
      | Inr plan \<Rightarrow>
     (case materialization_revision c (me_sources ev) of
        Inl e \<Rightarrow> Inl e
      | Inr (_, revision) \<Rightarrow>
          (let changeSet = \<lparr>cs_summary = me_summary ev, cs_baseCommit = rr_resolvedCommit revision,
                 cs_changeRequestDigest = src_digest changeRequest, cs_implementationPlanDigest = src_digest plan,
                 cs_files = sort_key cf_path (me_files ev)\<rparr>
           in marshal_materialized sha c contract
                (if contract = ''test-change-set/v1'' then TestChangeSetDoc changeSet else ChangeSetDoc changeSet))))))"

record materializer =
  mz_contract :: string
  mz_kind :: materialization_kind
  mz_run :: "materialization_evidence \<Rightarrow> go_error + string"

definition materialize :: "materializer \<Rightarrow> materialization_evidence \<Rightarrow> go_error + string" where
  "materialize m ev = (case mz_kind m of
       MaterializationCandidate \<Rightarrow>
         (if me_candidate ev = '''' then Inl (Invalid ''candidate evidence is required'')
          else if me_files ev \<noteq> [] then Inl (Invalid ''does not accept workspace file evidence'') else mz_run m ev)
     | MaterializationWorkspace \<Rightarrow>
         (if me_candidate ev \<noteq> '''' then Inl (Invalid ''does not accept candidate evidence'')
          else if me_files ev = [] then Inl (Invalid ''workspace file evidence is required'') else mz_run m ev)
     | OtherMaterialization _ \<Rightarrow> Inl (Invalid ''materializer has invalid kind''))"

definition register_materializer :: "materializer \<Rightarrow> materializer list \<Rightarrow> go_error + materializer list" where
  "register_materializer m bindings = (case cut_byte (CHR ''/'') (mz_contract m) of
       (_, None) \<Rightarrow> Inl (Invalid ''materializer contract must use exact name/version form'')
     | (name, Some version) \<Rightarrow>
         if name = '''' \<or> version = '''' \<or> CHR ''/'' \<in> set version
           then Inl (Invalid ''materializer contract must use exact name/version form'')
         else if (case mz_kind m of OtherMaterialization _ \<Rightarrow> True | _ \<Rightarrow> False) then Inl (Invalid ''invalid kind'')
         else if find_by mz_contract (mz_contract m) bindings \<noteq> None then Inl (Invalid ''already registered'')
         else Inr (m # bindings))"

text \<open>The registry \<open>NewMaterializerRegistry\<close> builds (without the generation schemas).\<close>

definition materializer_registry :: "(string \<Rightarrow> string) \<Rightarrow> codec \<Rightarrow> go_error + materializer list" where
  "materializer_registry sha c =
     (case register_materializer \<lparr>mz_contract = ''implementation-plan/v1'', mz_kind = MaterializationCandidate,
             mz_run = materialize_implementation_plan sha c\<rparr> [] of
        Inl e \<Rightarrow> Inl e
      | Inr bs \<Rightarrow>
     (case register_materializer \<lparr>mz_contract = ''test-change-set/v1'', mz_kind = MaterializationWorkspace,
             mz_run = materialize_change_set sha c ''test-change-set/v1''\<rparr> bs of
        Inl e \<Rightarrow> Inl e
      | Inr bs \<Rightarrow> register_materializer \<lparr>mz_contract = ''change-set/v1'', mz_kind = MaterializationWorkspace,
             mz_run = materialize_change_set sha c ''change-set/v1''\<rparr> bs))"

definition resolve_materializer :: "materializer list \<Rightarrow> string \<Rightarrow> string \<Rightarrow> go_error + materializer" where
  "resolve_materializer bindings name version = (case find_by mz_contract (name @ ''/'' @ version) bindings of
       None \<Rightarrow> Inl (Invalid ''output contract has no registered materializer'') | Some m \<Rightarrow> Inr m)"

subsection \<open>Lemmas\<close>

lemma sorted_compact: "sorted xs \<Longrightarrow> distinct (remdups_adj xs)"
  by (induction xs rule: induct_list012) (auto simp: remdups_adj_set)

lemma authorized_update_set: "set (authorized_update_paths p paths) = {q \<in> set paths. validate_update p q = None}"
  by (simp add: authorized_update_paths_def)

lemma normalize_clean: "clean_from i e s \<Longrightarrow> normalize_from i e s = s"
  by (induction i e s rule: clean_from.induct) auto

lemma hex_digit_plain: "n < 16 \<Longrightarrow> hex_digit n \<noteq> quote \<and> hex_digit n \<noteq> backslash \<and> \<not> raw_control (hex_digit n)"
  by (simp add: hex_digit_def quote_def backslash_def raw_control_def less_Suc_eq numeral_eq_Suc)
    (elim disjE; simp add: numeral_eq_Suc)

lemma control_escape_clean:
  assumes "raw_control c"
  shows "clean_from True False (control_escape c @ s) = clean_from True False s"
proof -
  have "of_char c div 16 < (16 :: nat)" "of_char c mod 16 < (16 :: nat)"
    using assms by (simp_all add: raw_control_def)
  then show ?thesis
    using hex_digit_plain by (simp add: control_escape_def raw_control_def backslash_def quote_def)
qed

lemma normalized_is_clean: "clean_from i e (normalize_from i e s)"
  by (induction i e s rule: normalize_from.induct) (auto simp: control_escape_clean)

lemma required_source_sound:
  "required_source found ss contract = Inr s \<Longrightarrow> found = Some s \<or> s \<in> set ss \<and> src_contract s = contract"
  by (induction ss arbitrary: found) (auto split: if_splits option.splits)

definition mutable_path :: "mutation_policy option \<Rightarrow> string \<Rightarrow> bool" where
  "mutable_path p path \<longleftrightarrow> validate_update p path = None \<or> validate_create p path = None \<or> validate_delete p path = None"

lemma developer_policy:
  assumes "new_mutation_policy unmarshal ''change-set/v1'' sources = Inr p"
  obtains source plan where "source \<in> set sources" "src_contract source = ''implementation-plan/v1''"
    "unmarshal (src_content source) = Some plan"
    "p = \<lparr>policy_contract = ''change-set/v1'', policy_actions = plan_actions (ip_affectedPaths plan)\<rparr>"
  using assms required_source_sound [of None sources]
  by (fastforce simp: new_mutation_policy_def required_materialization_source_def split: sum.splits option.splits)

lemma developer_path:
  assumes "policy_contract p = ''change-set/v1''" "mutable_path (Some p) path"
  obtains action where "map_of (policy_actions p) path = Some action" "\<not> is_test_path path"
    "validate_update (Some p) path = None \<longleftrightarrow> action \<in> {''add'', ''modify''}"
    "validate_create (Some p) path = None \<longleftrightarrow> action = ''add''"
    "validate_delete (Some p) path = None \<longleftrightarrow> action = ''delete''"
proof (cases "map_of (policy_actions p) path")
  case None
  then show ?thesis using assms
    by (simp add: mutable_path_def validate_update_def validate_create_def validate_delete_def require_action_def split: if_splits)
next
  case (Some action)
  have "\<not> is_test_path path"
    using assms Some by (auto simp: mutable_path_def validate_update_def validate_create_def validate_delete_def require_action_def)
  with Some assms(1) show ?thesis
    by (intro that [of action]) (auto simp: validate_update_def validate_create_def validate_delete_def require_action_def)
qed

subsection \<open>Examples\<close>

definition demo_plan :: implementation_plan where
  "demo_plan = \<lparr>ip_summary = ''s'', ip_changeRequestDigest = zero_digest, ip_repositoryRevisionDigest = zero_digest,
     ip_sourceCommit = zeros 40, ip_affectedPaths = [\<lparr>ap_path = ''main.go'', ap_action = ''modify''\<rparr>],
     ip_implementationSteps = [''a''], ip_testStrategy = [''b''],
     ip_acceptanceMapping = [\<lparr>am_criterionIndex = 1, am_verification = ''c''\<rparr>], ip_risks = Some [], ip_assumptions = Some []\<rparr>"

definition demo_revision :: repository_revision where
  "demo_revision = \<lparr>rr_repositoryURL = ''https://host/r'', rr_requestedRevision = ''main'', rr_resolvedCommit = zeros 40,
     rr_utilityOperation = \<lparr>oi_namespace = ''team'', oi_name = ''op'', oi_uid = ''u''\<rparr>\<rparr>"

definition demo_sources :: "source_artifact list" where
  "demo_sources = [\<lparr>src_contract = ''change-request/v1'', src_digest = zero_digest, src_content = ''cr''\<rparr>,
     \<lparr>src_contract = ''implementation-plan/v1'', src_digest = zero_digest, src_content = ''plan''\<rparr>,
     \<lparr>src_contract = ''repository-revision/v1'', src_digest = zero_digest, src_content = ''rev''\<rparr>]"

definition demo_codec :: codec where
  "demo_codec = \<lparr>decode_plan = (\<lambda>_. None), decode_revision = (\<lambda>s. if s = ''rev'' then Some demo_revision else None),
     encode_document = (\<lambda>_. ''doc''),
     decode_document = (\<lambda>k s. if k = ''change-set/v1'' \<and> s = ''doc'' then Some (ChangeSetDoc demo_changes) else None)\<rparr>"

definition demo_evidence :: materialization_evidence where
  "demo_evidence = \<lparr>me_candidate = '''', me_summary = ''s'', me_files = cs_files demo_changes, me_sources = demo_sources,
     me_workspacePaths = [], me_workspacePathsObserved = False, me_workspacePathsComplete = False\<rparr>"

subsection \<open>Properties\<close>

text \<open>
  C29: Developer and tester cannot touch the same file: a path an agent may update, create or
  delete under the policy of a change set is no test path and is listed by the implementation
  plan among the inputs with an action that allows the operation, and no operation on it is
  allowed under the policy of a test change set, whatever that agent's inputs are.
\<close>

theorem duties_are_separated:
  assumes "new_mutation_policy unmarshal ''change-set/v1'' sources = Inr developer"
    and "new_mutation_policy unmarshal' ''test-change-set/v1'' sources' = Inr tester"
    and "mutable_path (Some developer) path"
  shows "\<not> mutable_path (Some tester) path
    \<and> (\<exists>source plan affected. source \<in> set sources \<and> src_contract source = ''implementation-plan/v1''
      \<and> unmarshal (src_content source) = Some plan \<and> affected \<in> set (ip_affectedPaths plan) \<and> ap_path affected = path
      \<and> (validate_delete (Some developer) path = None \<longleftrightarrow> ap_action affected = ''delete'')
      \<and> (validate_create (Some developer) path = None \<longleftrightarrow> ap_action affected = ''add''))"
proof -
  from developer_policy [OF assms(1)] obtain source plan where
    source: "source \<in> set sources" "src_contract source = ''implementation-plan/v1''" "unmarshal (src_content source) = Some plan"
    and dev: "developer = \<lparr>policy_contract = ''change-set/v1'', policy_actions = plan_actions (ip_affectedPaths plan)\<rparr>" .
  have "policy_contract developer = ''change-set/v1''" by (simp add: dev)
  then obtain action where
    act: "map_of (policy_actions developer) path = Some action" "\<not> is_test_path path"
    and ops: "validate_create (Some developer) path = None \<longleftrightarrow> action = ''add''"
      "validate_delete (Some developer) path = None \<longleftrightarrow> action = ''delete''"
    by (rule developer_path [OF _ assms(3)])
  have "tester = \<lparr>policy_contract = ''test-change-set/v1'', policy_actions = []\<rparr>"
    using assms(2) by (simp add: new_mutation_policy_def)
  then have apart: "\<not> mutable_path (Some tester) path"
    using act by (simp add: mutable_path_def validate_update_def validate_create_def validate_delete_def)
  from map_of_SomeD [OF act(1)] obtain affected where affected: "affected \<in> set (ip_affectedPaths plan)"
    "ap_path affected = path" "ap_action affected = action" by (auto simp: dev plan_actions_def)
  show ?thesis
    using source affected apart by (intro conjI exI [of _ source] exI [of _ plan] exI [of _ affected]) (simp_all add: ops)
qed

theorem duties_are_separated_witness:
  "\<not> mutable_path (Some \<lparr>policy_contract = ''test-change-set/v1'', policy_actions = []\<rparr>) ''main.go''"
proof (rule conjunct1 [OF duties_are_separated])
  show "new_mutation_policy (\<lambda>s. Some demo_plan) ''change-set/v1'' demo_sources
      = Inr \<lparr>policy_contract = ''change-set/v1'', policy_actions = [(''main.go'', ''modify'')]\<rparr>" by code_simp
  show "new_mutation_policy (\<lambda>s. Some demo_plan) ''test-change-set/v1'' []
      = Inr \<lparr>policy_contract = ''test-change-set/v1'', policy_actions = []\<rparr>" by code_simp
  show "mutable_path (Some \<lparr>policy_contract = ''change-set/v1'', policy_actions = [(''main.go'', ''modify'')]\<rparr>) ''main.go''"
    by code_simp
qed

text \<open>
  C30: Normalising candidate text leaves no raw control byte inside a string (but one that follows
  a backslash), changes nothing in text that has none, and is idempotent.
\<close>

theorem normalized_candidate_is_clean:
  "clean_from False False (normalize_candidate_json data)
   \<and> (clean_from False False data \<longrightarrow> normalize_candidate_json data = data)
   \<and> normalize_candidate_json (normalize_candidate_json data) = normalize_candidate_json data"
  using normalized_is_clean normalize_clean by (simp add: normalize_candidate_json_def)

theorem normalized_candidate_is_clean_witness:
  "normalize_candidate_json (quote # ''a'' @ [quote]) = quote # ''a'' @ [quote]"
  using normalized_candidate_is_clean [of "quote # ''a'' @ [quote]"] by (simp add: quote_def backslash_def raw_control_def)

text \<open>
  C31: Nothing invalid is materialized: what a materializer of the registry returns is accepted by
  the validation of the contract it was resolved for, and it was given only the kind of evidence
  its contract declares, candidate text for a plan and workspace files for a change set.
\<close>

theorem materialized_artifact_is_valid:
  assumes "materializer_registry sha c = Inr bindings" and "resolve_materializer bindings name version = Inr m"
    and "materialize m ev = Inr content"
  shows "validate_contract sha (decode_document c) (name @ ''/'' @ version) content = None
    \<and> (if name @ ''/'' @ version = ''implementation-plan/v1'' then me_candidate ev \<noteq> '''' \<and> me_files ev = []
       else me_candidate ev = '''' \<and> me_files ev \<noteq> [])"
proof -
  have marshalled: "validate_contract sha (decode_document c) k content = None"
    if "marshal_materialized sha c k d = Inr content" for k d
    using that by (auto simp: marshal_materialized_def Let_def split: option.splits)
  have plan: "validate_contract sha (decode_document c) ''implementation-plan/v1'' content = None"
    if "materialize_implementation_plan sha c ev = Inr content"
    using that marshalled by (auto simp: materialize_implementation_plan_def split: option.splits sum.splits prod.splits)
  have change: "validate_contract sha (decode_document c) k content = None"
    if "materialize_change_set sha c k ev = Inr content" for k
    using that marshalled by (auto simp: materialize_change_set_def Let_def split: option.splits sum.splits prod.splits if_splits)
  let ?key = "name @ ''/'' @ version"
  from assms(1) have "bindings = [\<lparr>mz_contract = ''change-set/v1'', mz_kind = MaterializationWorkspace,
        mz_run = materialize_change_set sha c ''change-set/v1''\<rparr>,
      \<lparr>mz_contract = ''test-change-set/v1'', mz_kind = MaterializationWorkspace,
        mz_run = materialize_change_set sha c ''test-change-set/v1''\<rparr>,
      \<lparr>mz_contract = ''implementation-plan/v1'', mz_kind = MaterializationCandidate,
        mz_run = materialize_implementation_plan sha c\<rparr>]"
    by (simp add: materializer_registry_def register_materializer_def)
  with assms(2) consider
      "?key = ''change-set/v1''" "m = \<lparr>mz_contract = ''change-set/v1'', mz_kind = MaterializationWorkspace,
        mz_run = materialize_change_set sha c ''change-set/v1''\<rparr>"
    | "?key = ''test-change-set/v1''" "m = \<lparr>mz_contract = ''test-change-set/v1'', mz_kind = MaterializationWorkspace,
        mz_run = materialize_change_set sha c ''test-change-set/v1''\<rparr>"
    | "?key = ''implementation-plan/v1''" "m = \<lparr>mz_contract = ''implementation-plan/v1'', mz_kind = MaterializationCandidate,
        mz_run = materialize_implementation_plan sha c\<rparr>"
    unfolding resolve_materializer_def by (simp del: append_Cons append_Nil split: option.splits if_splits)
  then show ?thesis
  proof cases
    case 1
    then show ?thesis using assms(3) change by (simp add: materialize_def split: if_splits)
  next
    case 2
    then show ?thesis using assms(3) change by (simp add: materialize_def split: if_splits)
  next
    case 3
    then show ?thesis using assms(3) plan by (simp add: materialize_def split: if_splits)
  qed
qed

theorem materialized_artifact_is_valid_witness:
  "validate_contract zero_sha (decode_document demo_codec) (''change-set'' @ ''/'' @ ''v1'') ''doc'' = None"
proof -
  obtain bs m where reg: "materializer_registry zero_sha demo_codec = Inr bs" "resolve_materializer bs ''change-set'' ''v1'' = Inr m"
    and run: "m = \<lparr>mz_contract = ''change-set/v1'', mz_kind = MaterializationWorkspace,
        mz_run = materialize_change_set zero_sha demo_codec ''change-set/v1''\<rparr>"
    by (simp add: materializer_registry_def register_materializer_def resolve_materializer_def)
  have "materialize \<lparr>mz_contract = ''change-set/v1'', mz_kind = MaterializationWorkspace,
        mz_run = materialize_change_set zero_sha demo_codec ''change-set/v1''\<rparr> demo_evidence = Inr ''doc''" by code_simp
  from materialized_artifact_is_valid [OF reg this [folded run]] show ?thesis ..
qed

end
