(* ===== verification/Artifact_Evidence.thy ===== *)
theory Artifact_Evidence
  imports Cluster Artifact_Contract
begin

section \<open>Accepted artifacts and their claims\<close>

text \<open>
  \<open>internal/artifacts/claims.go\<close>, \<open>change_request_claims.go\<close>, \<open>validator.go\<close> and
  \<open>internal/controllers/input_evidence.go\<close>: the claims a collector projects from a stored document,
  their validation by the controllers, and the resolution of the inputs of an execution to
  accepted artifacts and their audit evidence.
\<close>

subsection \<open>Claims\<close>

definition contract_key :: "contract_reference \<Rightarrow> string" where
  "contract_key c = contract_name c @ ''/'' @ contract_version c"

definition no_claims :: artifact_claims where
  "no_claims = \<lparr>claim_changeRequest = None, claim_candidateRevision = None, claim_candidateRemoteProof = None,
     claim_imageDigest = None\<rparr>"

definition project_change_request_claims :: "(string \<Rightarrow> string) \<Rightarrow> change_request \<Rightarrow> go_error + artifact_claims" where
  "project_change_request_claims sha v = (case validate_change_request sha v of
       Some e \<Rightarrow> Inl e
     | None \<Rightarrow> Inr (no_claims\<lparr>claim_changeRequest := Some
         \<lparr>claim_acceptanceCriteria = map (\<lambda>c. \<lparr>criterion_id = ac_id c, criterion_digest = ac_digest c\<rparr>) (chr_criteria v),
          claim_acceptanceCriteriaSetDigest = chr_setDigest v\<rparr>\<rparr>))"

text \<open>\<open>projectClaims\<close> on the decoded document of a contract.\<close>

definition project_claims :: "(string \<Rightarrow> string) \<Rightarrow> document \<Rightarrow> go_error + artifact_claims option" where
  "project_claims sha d = (case d of
       ChangeRequestDoc v \<Rightarrow> (case project_change_request_claims sha v of Inl e \<Rightarrow> Inl e | Inr c \<Rightarrow> Inr (Some c))
     | CandidateRevisionDoc v \<Rightarrow> Inr (Some (no_claims\<lparr>claim_candidateRevision := Some
         \<lparr>cr_repositoryURL = cv_repositoryURL v, cr_branch = cv_branch v, cr_commit = cv_commit v, cr_tree = cv_tree v\<rparr>\<rparr>))
     | CandidateRemoteProofDoc v \<Rightarrow> Inr (Some (no_claims\<lparr>claim_candidateRemoteProof := Some
         \<lparr>rp_candidateRevisionDigest = crp_candidateRevisionDigest v, rp_repositoryURL = crp_repositoryURL v,
          rp_ref = crp_ref v, rp_observedCommit = crp_observedCommit v, rp_verifiedAt = crp_verifiedAt v\<rparr>\<rparr>))
     | ImageDigestDoc v \<Rightarrow> Inr (Some (no_claims\<lparr>claim_imageDigest := Some
         \<lparr>im_candidateRevisionDigest = id_candidateRevisionDigest v, im_imageRepository = id_imageRepository v,
          im_ociDigest = id_digest v, im_candidateCommit = id_candidateCommit v, im_candidateTree = id_candidateTree v\<rparr>\<rparr>))
     | _ \<Rightarrow> Inr None)"

definition validate_claims_repository :: "string \<Rightarrow> go_error option" where
  "validate_claims_repository raw = (case parse_url raw of
       None \<Rightarrow> Some (Invalid ''repositoryURL'')
     | Some u \<Rightarrow> refuse (url_scheme u = '''' \<or> \<not> equal_fold (url_scheme u) ''https'' \<or> url_hostname (url_host u) = ''''
         \<or> url_user u \<or> url_rawQuery u \<noteq> '''' \<or> url_hasFragment u) ''repositoryURL'')"

definition validate_candidate_revision_claims :: "candidate_revision_claims \<Rightarrow> go_error option" where
  "validate_candidate_revision_claims v = first_error
     [validate_claims_repository (cr_repositoryURL v),
      refuse (\<not> branch_pattern (cr_branch v)) ''candidateRevision.branch is invalid'',
      refuse (\<not> git_oid_pattern (cr_commit v) \<or> \<not> git_oid_pattern (cr_tree v)) ''candidateRevision commit and tree'']"

definition validate_remote_proof_claims :: "candidate_remote_proof_claims \<Rightarrow> go_error option" where
  "validate_remote_proof_claims v = first_error
     [refuse (\<not> digest_pattern (rp_candidateRevisionDigest v)) ''candidateRevisionDigest is invalid'',
      validate_claims_repository (rp_repositoryURL v),
      (case cut_prefix (rp_ref v) ''refs/heads/'' of None \<Rightarrow> Some (Invalid ''ref must identify a valid branch'')
       | Some branch \<Rightarrow> refuse (\<not> branch_pattern branch) ''ref must identify a valid branch''),
      refuse (\<not> git_oid_pattern (rp_observedCommit v)) ''observedCommit is invalid'',
      refuse (parse_rfc3339 (rp_verifiedAt v) = None) ''verifiedAt is invalid'']"

definition validate_image_digest_claims :: "image_digest_claims \<Rightarrow> go_error option" where
  "validate_image_digest_claims v = first_error
     [refuse (\<not> digest_pattern (im_candidateRevisionDigest v) \<or> \<not> digest_pattern (im_ociDigest v)) ''lineage and OCI digests'',
      refuse (\<not> oci_repository_pattern (im_imageRepository v)) ''imageRepository is invalid'',
      refuse (\<not> git_oid_pattern (im_candidateCommit v) \<or> \<not> git_oid_pattern (im_candidateTree v)) ''candidate commit and tree'']"

definition claimed :: "'a option \<Rightarrow> nat" where
  "claimed x = (case x of None \<Rightarrow> 0 | Some _ \<Rightarrow> 1)"

definition claim_count :: "artifact_claims \<Rightarrow> nat" where
  "claim_count c = claimed (claim_changeRequest c) + claimed (claim_candidateRevision c)
     + claimed (claim_candidateRemoteProof c) + claimed (claim_imageDigest c)"

definition claim_contracts :: "string list" where
  "claim_contracts = [''change-request/v1'', ''candidate-revision/v1'', ''candidate-remote-proof/v1'', ''image-digest/v1'']"

definition validate_claims :: "(string \<Rightarrow> string) \<Rightarrow> contract_reference \<Rightarrow> artifact_claims option \<Rightarrow> go_error option" where
  "validate_claims sha contract opt =
     (let key = contract_key contract in case opt of
        None \<Rightarrow> refuse (key \<in> set claim_contracts) ''contract requires controller-readable claims''
      | Some c \<Rightarrow>
          if claim_count c \<noteq> 1 then Some (Invalid ''artifact claims must contain exactly one contract projection'')
          else if key = ''change-request/v1'' then (case claim_changeRequest c of
              None \<Rightarrow> Some (Invalid ''contract requires changeRequest claims'')
            | Some v \<Rightarrow> validate_criterion_identities sha
                (map (\<lambda>k. \<lparr>ck_id = criterion_id k, ck_digest = criterion_digest k\<rparr>) (claim_acceptanceCriteria v))
                (claim_acceptanceCriteriaSetDigest v))
          else if key = ''candidate-revision/v1'' then (case claim_candidateRevision c of
              None \<Rightarrow> Some (Invalid ''contract requires candidateRevision claims'')
            | Some v \<Rightarrow> validate_candidate_revision_claims v)
          else if key = ''candidate-remote-proof/v1'' then (case claim_candidateRemoteProof c of
              None \<Rightarrow> Some (Invalid ''contract requires candidateRemoteProof claims'')
            | Some v \<Rightarrow> validate_remote_proof_claims v)
          else if key = ''image-digest/v1'' then (case claim_imageDigest c of
              None \<Rightarrow> Some (Invalid ''contract requires imageDigest claims'')
            | Some v \<Rightarrow> validate_image_digest_claims v)
          else Some (Invalid ''contract does not define controller-readable claims''))"

subsection \<open>Accepted artifacts\<close>

definition artifact_accepted :: "artifact \<Rightarrow> bool" where
  "artifact_accepted a \<longleftrightarrow> art_phase (status a) = PhaseSucceeded
     \<and> art_observedGeneration (status a) = generation (meta a)
     \<and> (case find_condition (art_conditions (status a)) ''Valid'' of None \<Rightarrow> False
        | Some c \<Rightarrow> cond_status c = ConditionTrue \<and> cond_generation c = generation (meta a))"

text \<open>
  The three outcomes of a resolution that is no error: not (yet) there, invalid for a reason, or
  the value.
\<close>

datatype 'a resolution = Unready | Rejected string | Resolved 'a

definition resolve_pinned_input ::
  "string \<Rightarrow> uid_reference \<Rightarrow> artifact_reference \<Rightarrow> artifact resolution action" where
  "resolve_pinned_input ns workflowRef requested = (case ar_artifactRef requested of
       None \<Rightarrow> ret Unready
     | Some pin \<Rightarrow> bind_io (attempt_io (k_get Artifacts ns (ref_name pin))) (\<lambda>res. case res of
           Inl e \<Rightarrow> (if e = NotFound then ret Unready else raise e)
         | Inr a \<Rightarrow> ret (
             if uid_of a \<noteq> ref_uid pin then Rejected ''UID does not match its pinned identity''
             else if art_workflowRef (spec a) \<noteq> workflowRef then Rejected ''belongs to a different workflow''
             else if contract_name (art_contract (spec a)) \<noteq> ar_name requested then Rejected ''resolves to contract''
             else if ar_digest requested = '''' \<or> art_digest (spec a) \<noteq> ar_digest requested
               then Rejected ''digest does not match its pinned identity''
             else if ar_producerAttemptRef requested \<noteq> '''' \<and> tl_name (art_producerRef (spec a)) \<noteq> ar_producerAttemptRef requested
               then Rejected ''producer does not match attempt''
             else if artifact_accepted a then Resolved a
             else if art_phase (status a) = PhaseFailed then Rejected ''was rejected''
             else Unready)))"

definition unpinned_match :: "uid_reference \<Rightarrow> artifact_reference \<Rightarrow> artifact \<Rightarrow> bool" where
  "unpinned_match workflowRef input a \<longleftrightarrow> art_workflowRef (spec a) = workflowRef
     \<and> contract_name (art_contract (spec a)) = ar_name input
     \<and> (ar_digest input = '''' \<or> art_digest (spec a) = ar_digest input)
     \<and> (ar_producerAttemptRef input = '''' \<or> tl_name (art_producerRef (spec a)) = ar_producerAttemptRef input)
     \<and> artifact_accepted a"

definition resolve_unpinned_artifact_evidence ::
  "string \<Rightarrow> uid_reference \<Rightarrow> artifact_reference \<Rightarrow> artifact resolution action" where
  "resolve_unpinned_artifact_evidence ns workflowRef input =
     bind_io (k_list Artifacts ns) (\<lambda>all. case filter (unpinned_match workflowRef input) all of
         [] \<Rightarrow> ret Unready
       | [a] \<Rightarrow> ret (Resolved a)
       | _ \<Rightarrow> ret (Rejected ''resolves to several accepted artifacts''))"

subsection \<open>Evidence\<close>

definition artifact_evidence_of :: "artifact \<Rightarrow> artifact_evidence" where
  "artifact_evidence_of a = \<lparr>
     ae_acceptanceCriteria = (case art_claims (spec a) of None \<Rightarrow> [] | Some c \<Rightarrow> (case claim_changeRequest c of None \<Rightarrow> []
        | Some v \<Rightarrow> map (\<lambda>k. \<lparr>ce_id = criterion_id k, ce_digest = criterion_digest k\<rparr>) (claim_acceptanceCriteria v))),
     ae_acceptanceCriteriaSetDigest = (case art_claims (spec a) of None \<Rightarrow> '''' | Some c \<Rightarrow>
        (case claim_changeRequest c of None \<Rightarrow> '''' | Some v \<Rightarrow> claim_acceptanceCriteriaSetDigest v)),
     ae_schemaVersion = ''v1'',
     ae_artifact = \<lparr>rr_schemaVersion = ''v1'', rr_apiVersion = group_version, rr_kind = ''Artifact'',
        rr_namespace = namespace_of a, rr_name = name_of a, rr_uid = uid_of a\<rparr>,
     ae_contract = contract_key (art_contract (spec a)),
     ae_digest = art_digest (spec a),
     ae_producer = \<lparr>rr_schemaVersion = ''v1'', rr_apiVersion = tl_apiVersion (art_producerRef (spec a)),
        rr_kind = tl_kind (art_producerRef (spec a)), rr_namespace = namespace_of a,
        rr_name = tl_name (art_producerRef (spec a)), rr_uid = art_producerUID (spec a)\<rparr>,
     ae_producerGrant = (if ref_name (art_producerGrantRef (spec a)) = '''' then None
        else Some \<lparr>rr_schemaVersion = ''v1'', rr_apiVersion = group_version, rr_kind = ''StepAttempt'',
          rr_namespace = namespace_of a, rr_name = ref_name (art_producerGrantRef (spec a)),
          rr_uid = ref_uid (art_producerGrantRef (spec a))\<rparr>),
     ae_sourceRevision = art_sourceRevision (spec a),
     ae_classification = art_classification (spec a)\<rparr>"

definition resolve_input :: "string \<Rightarrow> uid_reference \<Rightarrow> artifact_reference \<Rightarrow> artifact resolution action" where
  "resolve_input ns workflowRef input = (case ar_artifactRef input of
       Some pin \<Rightarrow>
         if ref_name pin = '''' \<or> ref_uid pin = '''' \<or> ar_digest input = ''''
         then ret (Rejected ''incomplete immutable pin'')
         else resolve_pinned_input ns workflowRef input
     | None \<Rightarrow> resolve_unpinned_artifact_evidence ns workflowRef input)"

fun resolve_artifact_evidence ::
  "(string \<Rightarrow> string) \<Rightarrow> string \<Rightarrow> uid_reference \<Rightarrow> artifact_reference list \<Rightarrow> artifact_evidence list resolution action" where
  "resolve_artifact_evidence sha ns workflowRef [] = ret (Resolved [])"
| "resolve_artifact_evidence sha ns workflowRef (input # inputs) =
     bind_io (resolve_input ns workflowRef input) (\<lambda>r. case r of
         Unready \<Rightarrow> ret Unready
       | Rejected reason \<Rightarrow> ret (Rejected reason)
       | Resolved a \<Rightarrow>
           if uid_of a = '''' then ret (Rejected ''no immutable Kubernetes UID'')
           else if validate_claims sha (art_contract (spec a)) (art_claims (spec a)) \<noteq> None
             then ret (Rejected ''invalid criterion claims'')
           else bind_io (resolve_artifact_evidence sha ns workflowRef inputs) (\<lambda>rest. case rest of
               Unready \<Rightarrow> ret Unready
             | Rejected reason \<Rightarrow> ret (Rejected reason)
             | Resolved evs \<Rightarrow> ret (Resolved (artifact_evidence_of a # evs))))"

definition inputs_resolved_payload :: "string \<Rightarrow> ('s, 't) kobj \<Rightarrow> artifact_evidence list \<Rightarrow> inputs_resolved" where
  "inputs_resolved_payload kind consumer inputs = \<lparr>in_schemaVersion = ''v1'',
     in_consumer = \<lparr>rr_schemaVersion = ''v1'', rr_apiVersion = group_version, rr_kind = kind,
       rr_namespace = namespace_of consumer, rr_name = name_of consumer, rr_uid = uid_of consumer\<rparr>,
     in_inputs = inputs\<rparr>"

subsection \<open>What is resolved\<close>

text \<open>The artifact an input stands for, in a cluster.\<close>

definition selected_artifact :: "cluster \<Rightarrow> string \<Rightarrow> uid_reference \<Rightarrow> artifact_reference \<Rightarrow> artifact \<Rightarrow> bool" where
  "selected_artifact w ns workflowRef input a \<longleftrightarrow> a \<in> set (artifacts w) \<and> namespace_of a = ns \<and> artifact_accepted a
     \<and> art_workflowRef (spec a) = workflowRef \<and> contract_name (art_contract (spec a)) = ar_name input
     \<and> (case ar_artifactRef input of
          Some pin \<Rightarrow> name_of a = ref_name pin \<and> uid_of a = ref_uid pin \<and> art_digest (spec a) = ar_digest input
        | None \<Rightarrow> filter (unpinned_match workflowRef input) (filter (\<lambda>b. namespace_of b = ns) (artifacts w)) = [a])"

lemma pinned_resolved:
  assumes "resolve_pinned_input ns workflowRef input w = (Inr (Resolved a), w')" and "ar_artifactRef input = Some pin"
  shows "selected_artifact w ns workflowRef input a" and "artifacts w' = artifacts w"
proof -
  from assms obtain b where get: "k_get Artifacts ns (ref_name pin) w = (Inr b, w')"
    and checks: "uid_of b = ref_uid pin" "art_workflowRef (spec b) = workflowRef"
      "contract_name (art_contract (spec b)) = ar_name input" "art_digest (spec b) = ar_digest input"
      "artifact_accepted b" "a = b"
    by (auto simp: resolve_pinned_input_def ret_def raise_def elim!: bind_io_result
        dest!: attempt_io_result split: sum.splits if_splits)
  have "find_by obj_key (ns, ref_name pin) (artifacts w') = Some b" and frame: "artifacts w' = artifacts w"
    using artifact_kind.get_result(1,2) [OF get] by (simp_all add: Artifacts_def)
  then have "b \<in> set (artifacts w)" "namespace_of b = ns" "name_of b = ref_name pin"
    using find_by_set [of obj_key "(ns, ref_name pin)" "artifacts w'" b] by auto
  with checks assms(2) show "selected_artifact w ns workflowRef input a" by (simp add: selected_artifact_def)
  show "artifacts w' = artifacts w" by (rule frame)
qed

lemma unpinned_resolved:
  assumes "resolve_unpinned_artifact_evidence ns workflowRef input w = (Inr (Resolved a), w')" and "ar_artifactRef input = None"
  shows "selected_artifact w ns workflowRef input a" and "artifacts w' = artifacts w"
proof -
  from assms(1) obtain xs v where list: "k_list Artifacts ns w = (Inr xs, v)"
    and rest: "(case filter (unpinned_match workflowRef input) xs of [] \<Rightarrow> ret Unready | [a] \<Rightarrow> ret (Resolved a)
       | _ \<Rightarrow> ret (Rejected ''resolves to several accepted artifacts'')) v = (Inr (Resolved a), w')"
    unfolding resolve_unpinned_artifact_evidence_def by (rule bind_io_result)
  from rest have one: "filter (unpinned_match workflowRef input) xs = [a]" and "w' = v"
    by (auto simp: ret_def split: list.splits)
  then show "artifacts w' = artifacts w" using artifact_kind.list_result(2) [OF list] by auto
  have "a \<in> set (filter (unpinned_match workflowRef input) xs)" by (simp add: one)
  then show "selected_artifact w ns workflowRef input a"
    using one assms(2) unfolding artifact_kind.list_result(1) [OF list]
    by (simp add: selected_artifact_def unpinned_match_def Artifacts_def)
qed

lemma input_resolved:
  assumes "resolve_input ns workflowRef input w = (Inr (Resolved a), w')"
  shows "selected_artifact w ns workflowRef input a \<and> artifacts w' = artifacts w"
  using assms pinned_resolved unpinned_resolved
  by (auto simp: resolve_input_def ret_def split: option.splits if_splits)

lemma evidence_resolved:
  "resolve_artifact_evidence sha ns workflowRef inputs w = (Inr (Resolved evs), w') \<Longrightarrow> artifacts w' = artifacts w \<and>
   list_all2 (\<lambda>input ev. \<exists>a. selected_artifact w ns workflowRef input a \<and> uid_of a \<noteq> ''''
      \<and> validate_claims sha (art_contract (spec a)) (art_claims (spec a)) = None \<and> ev = artifact_evidence_of a) inputs evs"
proof (induction inputs arbitrary: w evs w')
  case Nil
  then show ?case by (simp add: ret_def)
next
  case (Cons input inputs)
  from Cons.prems obtain r v where first: "resolve_input ns workflowRef input w = (Inr r, v)"
    and rest: "(case r of
         Unready \<Rightarrow> ret Unready
       | Rejected reason \<Rightarrow> ret (Rejected reason)
       | Resolved a \<Rightarrow>
           if uid_of a = '''' then ret (Rejected ''no immutable Kubernetes UID'')
           else if validate_claims sha (art_contract (spec a)) (art_claims (spec a)) \<noteq> None
             then ret (Rejected ''invalid criterion claims'')
           else bind_io (resolve_artifact_evidence sha ns workflowRef inputs) (\<lambda>rest. case rest of
               Unready \<Rightarrow> ret Unready
             | Rejected reason \<Rightarrow> ret (Rejected reason)
             | Resolved evs \<Rightarrow> ret (Resolved (artifact_evidence_of a # evs)))) v = (Inr (Resolved evs), w')"
    by (auto elim!: bind_io_result)
  from rest obtain a where r: "r = Resolved a" and ok: "uid_of a \<noteq> ''''"
      "validate_claims sha (art_contract (spec a)) (art_claims (spec a)) = None"
    and rest': "bind_io (resolve_artifact_evidence sha ns workflowRef inputs) (\<lambda>rest. case rest of
               Unready \<Rightarrow> ret Unready
             | Rejected reason \<Rightarrow> ret (Rejected reason)
             | Resolved evs \<Rightarrow> ret (Resolved (artifact_evidence_of a # evs))) v = (Inr (Resolved evs), w')"
    by (cases r) (auto simp: ret_def [of Unready] ret_def [of "Rejected _"] split: if_splits)
  from rest' obtain evs' where tail: "resolve_artifact_evidence sha ns workflowRef inputs v = (Inr (Resolved evs'), w')"
    and evs: "evs = artifact_evidence_of a # evs'"
    by (auto simp: ret_def elim!: bind_io_result split: resolution.splits)
  from input_resolved [OF first [unfolded r]] have sel: "selected_artifact w ns workflowRef input a"
    and same: "artifacts v = artifacts w" by auto
  have "selected_artifact v ns workflowRef i b = selected_artifact w ns workflowRef i b" for i b
    unfolding selected_artifact_def same ..
  then show ?case using Cons.IH [OF tail] sel ok evs same by auto
qed

subsection \<open>Claims of validated documents\<close>

lemma repository_claims:
  assumes "validate_repository_url s = None" and "\<And>u. parse_url s = Some u \<Longrightarrow> url_hostname (url_host u) \<noteq> ''''"
  shows "validate_claims_repository s = None"
  using assms by (auto simp: validate_repository_url_def validate_claims_repository_def equal_fold_def split: option.splits)

definition repository_of :: "document \<Rightarrow> string option" where
  "repository_of d = (case d of CandidateRevisionDoc v \<Rightarrow> Some (cv_repositoryURL v)
     | CandidateRemoteProofDoc v \<Rightarrow> Some (crp_repositoryURL v) | _ \<Rightarrow> None)"

definition host_named :: "string \<Rightarrow> bool" where
  "host_named s = (case parse_url s of None \<Rightarrow> False | Some u \<Rightarrow> url_hostname (url_host u) \<noteq> '''')"

definition contract_reference_of :: "document \<Rightarrow> contract_reference" where
  "contract_reference_of d = (case cut_byte (CHR ''/'') (contract_of d) of (n, v) \<Rightarrow>
     \<lparr>contract_name = n, contract_version = (case v of None \<Rightarrow> '''' | Some x \<Rightarrow> x)\<rparr>)"

lemma contract_key_of: "contract_key (contract_reference_of d) = contract_of d"
  by (cases d) (simp_all add: contract_key_def contract_reference_of_def contract_of_def)

lemma valid_branch_pattern: "validate_branch b = None \<Longrightarrow> branch_pattern b"
  by (simp add: validate_branch_def)

lemma valid_timestamp: "timestamp_error t = None \<Longrightarrow> parse_rfc3339 t \<noteq> None"
  by (auto simp: timestamp_error_def parse_timestamp_def split: sum.splits if_splits option.splits)

lemma named_repository: "validate_repository_url s = None \<Longrightarrow> host_named s \<Longrightarrow> validate_claims_repository s = None"
  by (rule repository_claims) (auto simp: host_named_def)

lemma revision_claims:
  assumes "validate_candidate_revision v = None" "host_named (cv_repositoryURL v)"
  shows "validate_candidate_revision_claims \<lparr>cr_repositoryURL = cv_repositoryURL v, cr_branch = cv_branch v,
     cr_commit = cv_commit v, cr_tree = cv_tree v\<rparr> = None"
  using assms named_repository valid_branch_pattern
  by (simp add: validate_candidate_revision_def validate_candidate_revision_claims_def validate_git_oid_field_def
      validate_sovereign_branch_def)

lemma proof_claims:
  assumes "validate_candidate_remote_proof v = None" "host_named (crp_repositoryURL v)"
  shows "validate_remote_proof_claims \<lparr>rp_candidateRevisionDigest = crp_candidateRevisionDigest v,
     rp_repositoryURL = crp_repositoryURL v, rp_ref = crp_ref v, rp_observedCommit = crp_observedCommit v,
     rp_verifiedAt = crp_verifiedAt v\<rparr> = None"
  using assms named_repository valid_branch_pattern valid_timestamp
  by (auto simp: validate_candidate_remote_proof_def validate_remote_proof_claims_def validate_git_oid_field_def
      validate_digest_field_def split: option.splits)

lemma image_claims:
  assumes "validate_image_digest v = None"
  shows "validate_image_digest_claims \<lparr>im_candidateRevisionDigest = id_candidateRevisionDigest v,
     im_imageRepository = id_imageRepository v, im_ociDigest = id_digest v, im_candidateCommit = id_candidateCommit v,
     im_candidateTree = id_candidateTree v\<rparr> = None"
  using assms by (simp add: validate_image_digest_def validate_image_digest_claims_def validate_git_oid_field_def
      validate_digest_field_def)

lemma criteria_claims:
  assumes "validate_change_request sha v = None"
  shows "validate_criterion_identities sha (map (\<lambda>k. \<lparr>ck_id = criterion_id k, ck_digest = criterion_digest k\<rparr>)
     (map (\<lambda>c. \<lparr>criterion_id = ac_id c, criterion_digest = ac_digest c\<rparr>) (chr_criteria v))) (chr_setDigest v) = None"
  using assms by (simp add: validate_change_request_def validate_acceptance_criteria_def criterion_identities_def comp_def)

subsection \<open>Examples\<close>

definition demo_candidate :: "string \<Rightarrow> candidate_revision" where
  "demo_candidate url = \<lparr>cv_repositoryURL = url, cv_preparedCandidateDigest = zero_digest, cv_testReportDigest = zero_digest,
     cv_changeSetDigest = zero_digest, cv_sourceCommit = zeros 40, cv_branch = ''sovereign/wf'', cv_commit = zeros 40,
     cv_tree = zeros 40, cv_commitMessageDigest = zero_digest\<rparr>"

definition demo_artifact :: artifact where
  "demo_artifact = \<lparr>meta = bare_meta ''team'' ''plan-1'' ''ua'',
     spec = \<lparr>art_workflowRef = \<lparr>ref_name = ''wf'', ref_uid = ''uw''\<rparr>,
       art_producerRef = \<lparr>tl_apiVersion = group_version, tl_kind = ''AgentRun'', tl_name = ''plan''\<rparr>, art_producerUID = ''up'',
       art_producerGrantRef = \<lparr>ref_name = '''', ref_uid = ''''\<rparr>,
       art_contract = \<lparr>contract_name = ''implementation-plan'', contract_version = ''v1''\<rparr>,
       art_digest = zero_digest, art_path = '''', art_classification = '''', art_sourceRevision = '''', art_claims = None\<rparr>,
     status = \<lparr>art_observedGeneration = 1, art_phase = PhaseSucceeded, art_conditions =
       [\<lparr>cond_type = ''Valid'', cond_status = ConditionTrue, cond_reason = ''Valid'', cond_message = '''', cond_generation = 1\<rparr>]\<rparr>\<rparr>"

definition demo_input :: artifact_reference where
  "demo_input = \<lparr>ar_name = ''implementation-plan'', ar_digest = zero_digest,
     ar_artifactRef = Some \<lparr>ref_name = ''plan-1'', ref_uid = ''ua''\<rparr>, ar_producerAttemptRef = ''''\<rparr>"

definition evidence_cluster :: cluster where
  "evidence_cluster = empty_cluster\<lparr>artifacts := [demo_artifact]\<rparr>"

text \<open>
  A repository URL with a port but no host name is valid in a document and invalid in the claims
  projected from it: the collector validates the document, stores it and then fails.
\<close>

lemma nameless_host_is_stored_but_not_collected:
  "validate_document zero_sha (CandidateRevisionDoc (demo_candidate ''https://:443/app'')) = None
   \<and> (case project_claims zero_sha (CandidateRevisionDoc (demo_candidate ''https://:443/app'')) of
        Inl _ \<Rightarrow> False
      | Inr c \<Rightarrow> validate_claims zero_sha \<lparr>contract_name = ''candidate-revision'', contract_version = ''v1''\<rparr> c \<noteq> None)"
  by code_simp

subsection \<open>Properties\<close>

text \<open>
  C32: Inputs resolve to accepted evidence only. Whatever calls fail on the way, when the inputs of
  an execution resolve, each one stands for an artifact of the namespace that is accepted at its
  current generation, belongs to the workflow, fulfils the requested contract and has valid
  claims; a pinned input has exactly the name, UID and digest of its pin, an unpinned one is the
  only artifact that matches; and the evidence describes exactly these artifacts, in order.
\<close>

theorem resolved_inputs_are_accepted:
  assumes "resolve_artifact_evidence sha ns workflowRef inputs w = (Inr (Resolved evs), w')"
  shows "artifacts w' = artifacts w \<and>
    list_all2 (\<lambda>input ev. \<exists>a. selected_artifact w ns workflowRef input a \<and> uid_of a \<noteq> ''''
       \<and> validate_claims sha (art_contract (spec a)) (art_claims (spec a)) = None \<and> ev = artifact_evidence_of a) inputs evs"
  using assms by (rule evidence_resolved)

theorem resolved_inputs_are_accepted_witness:
  "\<exists>a. selected_artifact evidence_cluster ''team'' \<lparr>ref_name = ''wf'', ref_uid = ''uw''\<rparr> demo_input a"
proof -
  have "resolve_artifact_evidence zero_sha ''team'' \<lparr>ref_name = ''wf'', ref_uid = ''uw''\<rparr> [demo_input] evidence_cluster
      = (Inr (Resolved [artifact_evidence_of demo_artifact]), evidence_cluster)" by code_simp
  from resolved_inputs_are_accepted [OF this] show ?thesis by auto
qed

text \<open>
  C33: What the collector projects is what the controllers accept: the claims projected from a
  valid document of any contract are valid claims of that contract, and there are claims exactly
  for the four contracts that require them, provided the host of its repository URL has a name.
\<close>

theorem valid_documents_have_valid_claims:
  assumes "validate_document sha d = None" and "project_claims sha d = Inr c"
    and "\<And>url. repository_of d = Some url \<Longrightarrow> host_named url"
  shows "validate_claims sha (contract_reference_of d) c = None \<and> (c = None \<longleftrightarrow> contract_of d \<notin> set claim_contracts)"
proof (cases d)
  case (ChangeRequestDoc v)
  then have valid: "validate_change_request sha v = None" using assms(1) by (simp add: validate_document_def)
  have "c = Some (no_claims\<lparr>claim_changeRequest := Some
      \<lparr>claim_acceptanceCriteria = map (\<lambda>c. \<lparr>criterion_id = ac_id c, criterion_digest = ac_digest c\<rparr>) (chr_criteria v),
       claim_acceptanceCriteriaSetDigest = chr_setDigest v\<rparr>\<rparr>)"
    using assms(2) valid by (simp add: ChangeRequestDoc project_claims_def project_change_request_claims_def)
  then show ?thesis using criteria_claims [OF valid] ChangeRequestDoc
    by (simp add: validate_claims_def contract_key_of contract_of_def claim_contracts_def claim_count_def claimed_def
        no_claims_def)
next
  case (CandidateRevisionDoc v)
  then show ?thesis using assms revision_claims [of v]
    by (auto simp add: validate_claims_def contract_key_of contract_of_def claim_contracts_def validate_document_def
        project_claims_def claim_count_def claimed_def no_claims_def Let_def repository_of_def)
next
  case (CandidateRemoteProofDoc v)
  then show ?thesis using assms proof_claims [of v]
    by (auto simp add: validate_claims_def contract_key_of contract_of_def claim_contracts_def validate_document_def
        project_claims_def claim_count_def claimed_def no_claims_def Let_def repository_of_def)
next
  case (ImageDigestDoc v)
  then show ?thesis using assms image_claims [of v]
    by (auto simp add: validate_claims_def contract_key_of contract_of_def claim_contracts_def validate_document_def
        project_claims_def claim_count_def claimed_def no_claims_def Let_def)
qed (use assms(2) in \<open>simp_all add: validate_claims_def contract_key_of contract_of_def claim_contracts_def project_claims_def\<close>)

theorem valid_documents_have_valid_claims_witness:
  "\<exists>c. validate_claims zero_sha (contract_reference_of (CandidateRevisionDoc (demo_candidate ''https://git.example/app''))) c = None"
proof -
  let ?d = "CandidateRevisionDoc (demo_candidate ''https://git.example/app'')"
  have valid: "validate_document zero_sha ?d = None" by code_simp
  have "host_named ''https://git.example/app''" by code_simp
  then have host: "host_named url" if "repository_of ?d = Some url" for url
    using that by (simp add: repository_of_def demo_candidate_def)
  obtain c where "project_claims zero_sha ?d = Inr c" by (simp add: project_claims_def)
  from valid_documents_have_valid_claims [OF valid this host] show ?thesis by blast
qed

end
