(* ===== verification/Cluster_Calls.thy ===== *)
theory Cluster_Calls
  imports Cluster
begin

section \<open>Triples of the client's calls\<close>

text \<open>
  What the reconcilers that read an object, decide and write its status back have in common:
  triples for a read that remember the object, and for a write that knows what is replaced.
\<close>

context resource_kind begin

lemma get_triple:
  assumes "\<And>fs w. I w \<Longrightarrow> I (w\<lparr>faults := fs\<rparr>)"
  shows "triple I (k_get K ns n) (\<lambda>x w. I w \<and> find_by obj_key (ns, n) (items K w) = Some x) (\<lambda>_. I)"
proof (rule tripleI)
  fix w x w' assume I: "I w" and get: "k_get K ns n w = (Inr x, w')"
  obtain fs where "w' = w\<lparr>faults := fs\<rparr>" using get_result(3) [OF get] ..
  then show "I w' \<and> find_by obj_key (ns, n) (items K w') = Some x"
    using assms [OF I] get_result(1) [OF get] by simp
next
  fix w e w' assume "I w" and "k_get K ns n w = (Inl e, w')"
  then show "I w'" using get_frame assms by metis
qed

lemma write_triple:
  shows "triple (\<lambda>w. I w \<and> (\<forall>fs. I (w\<lparr>faults := fs\<rparr>)) \<and> find_by obj_key (obj_key l) (items K w) = Some cur
       \<and> (\<forall>fs. I (upd_items K (replace_by obj_key (obj_key l) (change cur)) (w\<lparr>faults := fs\<rparr>))))
     (k_write K l change) (\<lambda>_. I) (\<lambda>_. I)"
proof -
  let ?m = "\<lambda>w. case find_by obj_key (obj_key l) (items K w) of
       None \<Rightarrow> (Inl NotFound, w)
     | Some cur \<Rightarrow> if resource_version (meta l) \<noteq> resource_version (meta cur) then (Inl Conflict, w)
         else let y = change cur in (Inr y, upd_items K (replace_by obj_key (obj_key l) y) w)"
  let ?P = "\<lambda>w. (\<forall>fs. I (w\<lparr>faults := fs\<rparr>)) \<and> find_by obj_key (obj_key l) (items K w) = Some cur
       \<and> (\<forall>fs. I (upd_items K (replace_by obj_key (obj_key l) (change cur)) (w\<lparr>faults := fs\<rparr>)))"
  have call: "I w'" if P: "I w" "?P w" and run: "api_call ?m w = (res, w')" for w w' res
  proof -
    have step: "I v'" if "?m (w\<lparr>faults := fs\<rparr>) = (r, v')" for fs r v'
    proof (cases "resource_version (meta l) \<noteq> resource_version (meta cur)")
      case True
      then show ?thesis using that P(2) by (auto simp: items_faults)
    next
      case False
      then show ?thesis using that P(2) by (auto simp: items_faults Let_def)
    qed
    show ?thesis
    proof (cases "faults w")
      case Nil
      then have w: "w\<lparr>faults := []\<rparr> = w" by (cases w) simp
      from Nil run have "?m (w\<lparr>faults := []\<rparr>) = (res, w')" unfolding w by (simp add: api_call_def)
      then show ?thesis by (rule step)
    next
      case (Cons f fs)
      then show ?thesis
      proof (cases f)
        case Pass
        then have "?m (w\<lparr>faults := fs\<rparr>) = (res, w')" using run Cons by (simp add: api_call_def)
        then show ?thesis by (rule step)
      next
        case (Deny e)
        then show ?thesis using run Cons P by (auto simp: api_call_def)
      next
        case (Lose e)
        obtain r v where r: "?m (w\<lparr>faults := fs\<rparr>) = (r, v)" by fastforce
        then have "w' = v" using run Cons Lose by (auto simp: api_call_def split: sum.splits)
        with step [OF r] show ?thesis by simp
      qed
    qed
  qed
  show ?thesis unfolding k_write_def by (rule tripleI) (use call in blast)+
qed

lemmas update_triple = write_triple [where l = l and change = "updated_object l" for l, folded k_update_def]
lemmas update_status_triple = write_triple [where l = l and change = "updated_status l" for l, folded k_update_status_def]

end

text \<open>A triple whose precondition fixes facts that do not depend on the state.\<close>

lemma triple_pure: "(b \<Longrightarrow> triple P m Q E) \<Longrightarrow> triple (\<lambda>w. P w \<and> b) m Q E"
  by (auto simp: triple_def)

lemma triple_pre: "triple P' m Q E \<Longrightarrow> (\<And>w. P w \<Longrightarrow> P' w) \<Longrightarrow> triple P m Q E"
  by (auto simp: triple_def)

lemma triple_post: "triple P m Q' E' \<Longrightarrow> (\<And>x w. Q' x w \<Longrightarrow> Q x w) \<Longrightarrow> (\<And>e w. E' e w \<Longrightarrow> E e w) \<Longrightarrow> triple P m Q E"
  unfolding triple_def by (fastforce split: prod.splits sum.splits)

lemma triple_attempt_bind:
  assumes "triple P m R E'"
    and "\<And>x. triple (R x) (f (Inr x)) Q E" and "\<And>e. triple (E' e) (f (Inl e)) Q E"
  shows "triple P (bind_io (attempt_io m) f) Q E"
proof (rule triple_bind [OF triple_attempt [OF assms(1)]])
  fix r show "triple (\<lambda>w. case r of Inl e \<Rightarrow> E' e w | Inr x \<Rightarrow> R x w) (f r) Q E"
    by (cases r) (use assms(2,3) in simp_all)
qed

lemma triple_ignore: "triple P m Q (\<lambda>_. I) \<Longrightarrow> (\<And>x w. Q x w \<Longrightarrow> I w) \<Longrightarrow> triple P m (\<lambda>_. I) (\<lambda>_. I)"
  by (erule triple_post)

end
