(* ===== verification/Approval.thy ===== *)
theory Approval
  imports Artifact_Evidence Step_Attempt Cluster_Calls
begin

section \<open>Human approval\<close>

text \<open>
  \<open>internal/api/v1alpha1/approval_binding.go\<close>, \<open>internal/audit/approval.go\<close>,
  \<open>internal/controllermeta/approval.go\<close>, \<open>internal/controllers/approvalrequest_controller.go\<close> and
  \<open>approval_binding.go\<close>: requests for approval and the decisions on them, the audit events of a
  decision, and the resolution of the approval a utility operation needs. The messages of
  invalid authority are constant tags.
\<close>

subsection \<open>Declared requirements\<close>

definition has_approval_input :: "artifact_reference list \<Rightarrow> string \<Rightarrow> bool" where
  "has_approval_input inputs name \<longleftrightarrow> length (filter (\<lambda>i. ar_name i = name) inputs) = 1"

definition first_index :: "string \<Rightarrow> step_config list \<Rightarrow> nat option" where
  "first_index name steps = (let pre = takeWhile (\<lambda>s. step_name s \<noteq> name) steps
     in if length pre < length steps then Some (length pre) else None)"

definition requirement_error :: "step_config list \<Rightarrow> nat \<Rightarrow> step_config \<Rightarrow> go_error option" where
  "requirement_error steps i step = (case step_requiresApproval step of
       None \<Rightarrow> (case step_utility step of None \<Rightarrow> None
         | Some u \<Rightarrow> refuse (utility_name u = ''git.mergeRequest'') ''step requires an explicit approval binding'')
     | Some required \<Rightarrow> (case first_index (requirement_step required) steps of
           None \<Rightarrow> Some (Invalid ''requires an earlier HumanGate and a shared subject input'')
         | Some g \<Rightarrow> first_error
             [refuse (step_kind step \<noteq> ExecutionKindUtility \<or> requirement_subject required = '''' \<or> g \<ge> i
                \<or> step_order (steps ! g) \<ge> step_order step \<or> step_kind (steps ! g) \<noteq> ExecutionKindHumanGate)
                ''requires an earlier HumanGate and a shared subject input'',
              refuse (\<not> has_approval_input (step_inputs step) (requirement_subject required)
                \<or> \<not> has_approval_input (step_inputs (steps ! g)) (requirement_subject required))
                ''approval subject must be an input of both'']))"

definition validate_approval_requirements :: "step_config list \<Rightarrow> go_error option" where
  "validate_approval_requirements steps =
     (if \<not> distinct (map step_name steps) then Some (Invalid ''duplicate step'')
      else first_error (map2 (requirement_error steps) [0..<length steps] steps))"

subsection \<open>Audit events of a decision\<close>

definition approval_decision_name :: "string \<Rightarrow> string" where
  "approval_decision_name requestUID = ''approval-'' @ requestUID"

definition request_subject :: "approval_request \<Rightarrow> audit_subject" where
  "request_subject request = \<lparr>sub_project = '''', sub_namespace = namespace_of request,
     sub_workflow = ref_name (rq_workflowRef (spec request)), sub_step = rq_stepName (spec request),
     sub_attempt = rq_attempt (spec request)\<rparr>"

definition blank_options :: event_options where
  "blank_options = \<lparr>op_instanceID = '''', op_source = '''', op_type = '''', op_occurredAt = None,
     op_actor = \<lparr>actor_kind = '''', actor_id = ''''\<rparr>, op_requester = None,
     op_subject = \<lparr>sub_project = '''', sub_namespace = '''', sub_workflow = '''', sub_step = '''', sub_attempt = 0\<rparr>,
     op_action = '''', op_target = '''', op_outcome = '''', op_reason = '''', op_correlationID = '''',
     op_causationID = '''', op_decisionID = '''', op_references = [], op_data = NoData\<rparr>"

definition submission_evidence :: "string \<Rightarrow> approval_request \<Rightarrow> approval_decision \<Rightarrow> int \<Rightarrow> approval_decision_evidence" where
  "submission_evidence inputEvent request decision authored = \<lparr>ade_schemaVersion = ''v1'',
     ade_workflow = dec_workflowRef (spec decision), ade_stepAttempt = dec_stepAttemptRef (spec decision),
     ade_request = dec_approvalRequestRef (spec decision),
     ade_decision = \<lparr>ref_name = name_of decision, ref_uid = uid_of decision\<rparr>,
     ade_approver = dec_subject (spec decision), ade_choice = dec_decision (spec decision),
     ade_reason = dec_reason (spec decision), ade_approvalPolicy = rq_approval (spec request),
     ade_reviewedInputs = rq_inputs (spec request), ade_authoredAt = authored, ade_admittedAt = None,
     ade_submissionEvent = '''', ade_inputEvent = inputEvent\<rparr>"

definition approval_submission_event ::
  "(string \<Rightarrow> string) \<Rightarrow> int \<Rightarrow> approval_request \<Rightarrow> approval_decision \<Rightarrow> go_error + (event \<times> approval_decision_evidence)" where
  "approval_submission_event sha now request decision =
     (if uid_of request = '''' \<or> uid_of decision = '''' then Inl (Invalid ''requires persisted request and decision UIDs'')
      else (case dec_authoredAt (spec decision) of
          None \<Rightarrow> Inl (Invalid ''approval decision has no authored time'')
        | Some authored \<Rightarrow>
            (let inputEvent = new_event sha now (blank_options\<lparr>op_source := ''approvalrequest-controller'',
                   op_type := ''InputsResolved'', op_subject := request_subject request,
                   op_action := ''resolve-inputs'', op_target := name_of request, op_outcome := ''resolved''\<rparr>);
                 payload = submission_evidence (ev_id inputEvent) request decision authored;
                 e = new_event sha now (blank_options\<lparr>op_source := ''api-server'', op_type := ''ApprovalDecisionSubmitted'',
                   op_actor := \<lparr>actor_kind = ''API'', actor_id = ''api-server''\<rparr>,
                   op_requester := Some \<lparr>actor_kind = ''User'', actor_id = subjectId (dec_subject (spec decision))\<rparr>,
                   op_subject := request_subject request, op_occurredAt := Some authored, op_action := ''submit'',
                   op_target := name_of decision, op_outcome := ''submitted'', op_decisionID := uid_of decision,
                   op_references := [(''approvalRequest'', name_of request), (''approvalDecision'', name_of decision)],
                   op_data := ApprovalData payload\<rparr>)
             in Inr (e\<lparr>ev_id := deterministic_id sha [''ApprovalDecisionSubmitted'', uid_of request, uid_of decision]\<rparr>,
                     payload))))"

definition approval_admission_event_id :: "(string \<Rightarrow> string) \<Rightarrow> approval_request \<Rightarrow> string" where
  "approval_admission_event_id sha request =
     deterministic_id sha [''ApprovalDecisionAdmitted'', uid_of request, rq_decisionUID (status request)]"

text \<open>A nil recorder records nothing; its absence is the absence of the log.\<close>

definition has_recorder :: "cluster \<Rightarrow> bool" where
  "has_recorder w \<longleftrightarrow> audit_log w \<noteq> None"

definition record_approval_submission :: "(string \<Rightarrow> string) \<Rightarrow> approval_request \<Rightarrow> approval_decision \<Rightarrow> unit action" where
  "record_approval_submission sha request decision =
     bind_io (gets has_recorder) (\<lambda>recorder. if \<not> recorder then ret () else
     bind_io (gets clock) (\<lambda>now. case approval_submission_event sha now request decision of
         Inl e \<Rightarrow> raise e
       | Inr (e, _) \<Rightarrow> record_event e))"

definition record_approval_admission :: "(string \<Rightarrow> string) \<Rightarrow> approval_request \<Rightarrow> approval_decision \<Rightarrow> unit action" where
  "record_approval_admission sha request decision =
     (case rq_completedAt (status request) of
        None \<Rightarrow> raise (Invalid ''approval admission has no matching persisted completion'')
      | Some admittedAt \<Rightarrow>
          if rq_decisionRef (status request) \<noteq> name_of decision \<or> rq_decisionUID (status request) \<noteq> uid_of decision
             \<or> rq_phase (status request) \<noteq> PhaseSucceeded \<and> rq_failureReason (status request) \<noteq> ''ApprovalDenied''
          then raise (Invalid ''approval admission has no matching persisted completion'')
          else bind_io (gets clock) (\<lambda>now. case approval_submission_event sha now request decision of
              Inl e \<Rightarrow> raise e
            | Inr (submission, payload) \<Rightarrow>
                seq_io (record_event submission)
                 (let e = new_event sha now (blank_options\<lparr>op_source := ''approvalrequest-controller'',
                      op_type := ''ApprovalDecisionAdmitted'',
                      op_actor := \<lparr>actor_kind = ''Controller'', actor_id = ''approvalrequest-controller''\<rparr>,
                      op_requester := ev_requester submission, op_subject := ev_subject submission,
                      op_occurredAt := Some admittedAt, op_action := ''admit'', op_target := name_of decision,
                      op_outcome := ''admitted'', op_decisionID := uid_of decision,
                      op_causationID := ev_id submission, op_references := ev_references submission,
                      op_data := ApprovalData (payload\<lparr>ade_admittedAt := Some admittedAt,
                        ade_submissionEvent := ev_id submission\<rparr>)\<rparr>)
                  in record_event (e\<lparr>ev_id := approval_admission_event_id sha request\<rparr>))))"

subsection \<open>The request's controller\<close>

text \<open>Go's zero time, in nanoseconds from 1970.\<close>

definition zero_time :: int where
  "zero_time = - 62135596800000000000"

definition required_group :: "approval_request \<Rightarrow> approval_decision \<Rightarrow> bool" where
  "required_group approval decision \<longleftrightarrow>
     list_ex (\<lambda>g. g \<noteq> '''' \<and> List.member (subj_groups (dec_subject (spec decision))) g)
       (requiredGroups (rq_approval (spec approval)))"

text \<open>\<open>None\<close> for a valid decision, otherwise what is wrong with it.\<close>

definition validate_approval_decision :: "approval_request \<Rightarrow> approval_decision \<Rightarrow> string option" where
  "validate_approval_decision approval decision =
     (if deletion (meta decision) \<noteq> None
         \<or> (case controller_owner (meta decision) of None \<Rightarrow> True | Some owner \<Rightarrow> owner_uid owner \<noteq> uid_of approval
              \<or> owner_name owner \<noteq> name_of approval \<or> owner_kind owner \<noteq> ''ApprovalRequest''
              \<or> owner_apiVersion owner \<noteq> group_version)
         \<or> dec_approvalRequestRef (spec decision) \<noteq> \<lparr>ref_name = name_of approval, ref_uid = uid_of approval\<rparr>
         \<or> dec_stepAttemptRef (spec decision) \<noteq> rq_attemptRef (spec approval)
         \<or> dec_workflowRef (spec decision) \<noteq> rq_workflowRef (spec approval)
       then Some ''decision is not bound to this request, attempt, and workflow''
      else if approval_mode (rq_approval (spec approval)) \<noteq> ''AnyOf'' \<or> denyBehavior (rq_approval (spec approval)) \<noteq> ''Fail''
       then Some ''only AnyOf approval with Fail denial behavior is supported''
      else if dec_decision (spec decision) \<noteq> Approved \<and> dec_decision (spec decision) \<noteq> Denied
       then Some ''decision must be Approved or Denied''
      else if blank (subjectId (dec_subject (spec decision)))
         \<or> (case dec_authoredAt (spec decision) of None \<Rightarrow> True | Some t \<Rightarrow> t = zero_time)
       then Some ''decision requires an authored subject and timestamp''
      else if required_group approval decision then None
      else Some ''decision subject does not belong to a required approval group'')"

definition finish_approval ::
  "int \<Rightarrow> resource_phase \<Rightarrow> string \<Rightarrow> string \<Rightarrow> string \<Rightarrow> approval_request \<Rightarrow> approval_request" where
  "finish_approval now phase reason message decisionRef approval =
     approval\<lparr>status := (status approval)\<lparr>rq_phase := phase, rq_decisionRef := decisionRef,
       rq_failureReason := (if phase = PhaseFailed then reason else ''''), rq_retryable := False,
       rq_completedAt := (case rq_completedAt (status approval) of None \<Rightarrow> Some now | Some t \<Rightarrow> Some t),
       rq_observedGeneration := generation (meta approval),
       rq_conditions := set_condition \<lparr>cond_type = ''Ready'', cond_status = condition_status_of phase,
         cond_reason = reason, cond_message = message, cond_generation = generation (meta approval)\<rparr>
         (rq_conditions (status approval))\<rparr>\<rparr>"

definition update_approval_status ::
  "approval_request \<Rightarrow> (approval_request \<Rightarrow> approval_request option action) \<Rightarrow> unit action" where
  "update_approval_status approval mutate = retry_on_conflict (
     bind_io (attempt_io (k_get ApprovalRequests (namespace_of approval) (name_of approval))) (\<lambda>res. case res of
         Inl e \<Rightarrow> (if e = NotFound then ret () else raise e)
       | Inr latest \<Rightarrow>
           if uid_of latest \<noteq> uid_of approval \<or> deletion (meta latest) \<noteq> None \<or> is_terminal (rq_phase (status latest))
           then ret ()
           else bind_io (mutate latest) (\<lambda>m. case m of
               None \<Rightarrow> ret ()
             | Some latest' \<Rightarrow> bind_io (k_update_status ApprovalRequests latest') (\<lambda>_. ret ()))))"

definition finishing :: "resource_phase \<Rightarrow> string \<Rightarrow> string \<Rightarrow> string \<Rightarrow> approval_request \<Rightarrow> approval_request option action" where
  "finishing phase reason message decisionRef latest =
     bind_io (gets clock) (\<lambda>now. ret (Some (finish_approval now phase reason message decisionRef latest)))"

definition set_failed :: "approval_request \<Rightarrow> string \<Rightarrow> unit action" where
  "set_failed approval reason = update_approval_status approval
     (finishing PhaseFailed reason ''approval request failed authority or input validation'' '''')"

definition awaiting :: "int \<Rightarrow> approval_request \<Rightarrow> approval_request" where
  "awaiting now latest = latest\<lparr>status := (status latest)\<lparr>rq_phase := PhaseAwaitingApproval,
     rq_startedAt := (case rq_startedAt (status latest) of None \<Rightarrow> Some now | Some t \<Rightarrow> Some t),
     rq_observedGeneration := generation (meta latest),
     rq_conditions := set_condition \<lparr>cond_type = ''Ready'', cond_status = ConditionUnknown,
       cond_reason = ''AwaitingDecision'', cond_message = ''waiting for an authoritative ApprovalDecision'',
       cond_generation = generation (meta latest)\<rparr> (rq_conditions (status latest))\<rparr>\<rparr>"

definition set_awaiting :: "approval_request \<Rightarrow> unit action" where
  "set_awaiting approval = update_approval_status approval (\<lambda>latest.
     if rq_phase (status latest) = PhaseAwaitingApproval then ret None
     else bind_io (gets clock) (\<lambda>now. ret (Some (awaiting now latest))))"

text \<open>\<open>approvalAttempt\<close>: the attempt, nothing yet, or invalid authority.\<close>

definition approval_attempt :: "approval_request \<Rightarrow> step_attempt resolution action" where
  "approval_attempt approval =
     bind_io (attempt_io (k_get StepAttempts (namespace_of approval) (ref_name (rq_attemptRef (spec approval))))) (\<lambda>res.
     case res of
         Inl e \<Rightarrow> (if e = NotFound then ret Unready else raise e)
       | Inr attempt \<Rightarrow> ret (
           if uid_of approval = '''' \<or> uid_of attempt = '''' \<or> ref_uid (rq_attemptRef (spec approval)) \<noteq> uid_of attempt
              \<or> deletion (meta attempt) \<noteq> None \<or> is_terminal (sa_phase (status attempt))
           then Rejected ''request references an invalid or terminal attempt''
           else (case validate_domain_binding attempt approval (ref_name (rq_attemptRef (spec approval)))
                   ExecutionKindHumanGate (rq_workflowRef (spec approval)) (rq_stepName (spec approval))
                   (rq_attempt (spec approval)) of
               Some _ \<Rightarrow> Rejected ''invalid binding''
             | None \<Rightarrow> (case sa_executionRef (status attempt) of
                   None \<Rightarrow> Unready
                 | Some ref \<Rightarrow> if tl_apiVersion ref \<noteq> group_version \<or> tl_kind ref \<noteq> ''ApprovalRequest''
                      \<or> tl_name ref \<noteq> name_of approval
                     then Rejected ''attempt does not authorize this approval request'' else Resolved attempt))))"

definition gate_is_active :: "approval_request \<Rightarrow> step_attempt \<Rightarrow> workflow \<Rightarrow> bool" where
  "gate_is_active latest attempt flow \<longleftrightarrow> uid_of flow = ref_uid (rq_workflowRef (spec latest)) \<and> deletion (meta flow) = None
     \<and> \<not> is_terminal (wf_phase (status flow)) \<and> is_controlled_by attempt flow
     \<and> wf_activeAttemptRef (status flow) = name_of attempt \<and> wf_activeStepName (status flow) = sa_stepName (spec attempt)
     \<and> wf_workflowAttempt (status flow) = sa_workflowAttempt (spec attempt)"

text \<open>The decision is consumed once authority, activity and inputs hold.\<close>

definition consume_decision ::
  "(string \<Rightarrow> string) \<Rightarrow> approval_request \<Rightarrow> approval_decision \<Rightarrow> approval_request option action" where
  "consume_decision sha latest decision =
     bind_io (resolve_artifact_evidence sha (namespace_of latest) (rq_workflowRef (spec latest)) (rq_inputs (spec latest)))
       (\<lambda>ev. case ev of
          Unready \<Rightarrow> raise (Invalid ''approval inputs are unavailable or invalid'')
        | Rejected _ \<Rightarrow> raise (Invalid ''approval inputs are unavailable or invalid'')
        | Resolved _ \<Rightarrow>
            seq_io (record_approval_submission sha latest decision)
             (let latest' = latest\<lparr>status := (status latest)\<lparr>rq_decisionUID := uid_of decision\<rparr>\<rparr>
              in if dec_decision (spec decision) = Denied
                 then finishing PhaseFailed ''ApprovalDenied'' ''human approval was denied'' (name_of decision) latest'
                 else finishing PhaseSucceeded ''ApprovalGranted'' ''human approval was granted'' (name_of decision) latest'))"

definition decide ::
  "(string \<Rightarrow> string) \<Rightarrow> approval_request \<Rightarrow> approval_request option action" where
  "decide sha latest =
     (if rq_phase (status latest) \<noteq> PhaseAwaitingApproval then ret None
      else bind_io (attempt_io (k_get ApprovalDecisions (namespace_of latest) (approval_decision_name (uid_of latest)))) (\<lambda>res.
       case res of
         Inl e \<Rightarrow> (if e = NotFound then ret None else raise e)
       | Inr decision \<Rightarrow> (case validate_approval_decision latest decision of
           Some message \<Rightarrow> finishing PhaseFailed ''InvalidApprovalDecision'' message '''' latest
         | None \<Rightarrow>
           bind_io (approval_attempt latest) (\<lambda>auth. case auth of
             Resolved attempt \<Rightarrow>
               bind_io (attempt_io (k_get Workflows (namespace_of latest) (ref_name (rq_workflowRef (spec latest))))) (\<lambda>res.
                 case res of
                   Inl e \<Rightarrow> (if e = NotFound
                     then finishing PhaseFailed ''InvalidWorkflowAuthority'' ''approval request is not the workflow's active gate'' '''' latest
                     else raise e)
                 | Inr flow \<Rightarrow>
                     if gate_is_active latest attempt flow then consume_decision sha latest decision
                     else finishing PhaseFailed ''InvalidWorkflowAuthority'' ''approval request is not the workflow's active gate'' '''' latest)
           | _ \<Rightarrow> finishing PhaseFailed ''InvalidStepAttemptAuthority''
                 ''approval request no longer has an active authorized attempt'' '''' latest))))"

definition record_admitted_decision :: "(string \<Rightarrow> string) \<Rightarrow> approval_request \<Rightarrow> unit action" where
  "record_admitted_decision sha approval =
     (if rq_decisionRef (status approval) = '''' \<or> rq_decisionUID (status approval) = '''' then ret ()
      else bind_io (k_get ApprovalDecisions (namespace_of approval) (rq_decisionRef (status approval))) (\<lambda>decision.
        record_approval_admission sha approval decision))"

definition resolve_decision :: "(string \<Rightarrow> string) \<Rightarrow> approval_request \<Rightarrow> unit action" where
  "resolve_decision sha approval =
     seq_io (update_approval_status approval (decide sha))
      (bind_io (attempt_io (k_get ApprovalRequests (namespace_of approval) (name_of approval))) (\<lambda>res. case res of
          Inl e \<Rightarrow> (if e = NotFound then ret () else raise e)
        | Inr completed \<Rightarrow> record_admitted_decision sha completed))"

definition approval_options :: "approval_request \<Rightarrow> event_options" where
  "approval_options approval = blank_options\<lparr>op_subject := request_subject approval, op_target := name_of approval,
     op_references := [(''approvalRequest'', name_of approval), (''stepAttempt'', ref_name (rq_attemptRef (spec approval)))]\<rparr>"

definition append_inputs_resolved :: "(string \<Rightarrow> string) \<Rightarrow> approval_request \<Rightarrow> artifact_evidence list \<Rightarrow> unit action" where
  "append_inputs_resolved sha approval evidence = append_controller_event sha ''approvalrequest-controller''
     ((approval_options approval)\<lparr>op_type := ''InputsResolved'', op_action := ''resolve-inputs'', op_outcome := ''resolved'',
       op_data := InputsData (inputs_resolved_payload ''ApprovalRequest'' approval evidence)\<rparr>)"

definition open_request :: "(string \<Rightarrow> string) \<Rightarrow> approval_request \<Rightarrow> int option action" where
  "open_request sha approval =
     bind_io (approval_attempt approval) (\<lambda>auth. case auth of
         Rejected _ \<Rightarrow> bind_io (set_failed approval ''InvalidStepAttemptAuthority'') (\<lambda>_. ret None)
       | Unready \<Rightarrow> ret (Some 2)
       | Resolved _ \<Rightarrow>
           bind_io (resolve_artifact_evidence sha (namespace_of approval) (rq_workflowRef (spec approval))
               (rq_inputs (spec approval))) (\<lambda>ev. case ev of
             Rejected _ \<Rightarrow> bind_io (set_failed approval ''InvalidArtifactInputs'') (\<lambda>_. ret None)
           | Unready \<Rightarrow> ret (Some 2)
           | Resolved evidence \<Rightarrow>
               seq_io (append_inputs_resolved sha approval evidence)
               (seq_io (set_awaiting approval)
               (bind_io (append_controller_event sha ''approvalrequest-controller''
                   ((approval_options approval)\<lparr>op_type := ''ApprovalRequested'', op_action := ''request'',
                     op_outcome := ''awaiting'', op_data := Fields
                       [(''mode'', JString (approval_mode (rq_approval (spec approval)))),
                        (''requiredGroups'', JStrings (requiredGroups (rq_approval (spec approval))))]\<rparr>))
                 (\<lambda>_. ret None)))))"

definition reconcile_approval_request :: "(string \<Rightarrow> string) \<Rightarrow> string \<Rightarrow> string \<Rightarrow> int option action" where
  "reconcile_approval_request sha ns n =
     bind_io (attempt_io (k_get ApprovalRequests ns n)) (\<lambda>res. case res of
         Inl e \<Rightarrow> (if e = NotFound then ret None else raise e)
       | Inr approval \<Rightarrow>
           if deletion (meta approval) \<noteq> None then ret None
           else bind_io (namespace_terminating (namespace_of approval)) (\<lambda>terminating.
             if terminating then ret None
             else if is_terminal (rq_phase (status approval))
               then bind_io (record_admitted_decision sha approval) (\<lambda>_. ret None)
             else if rq_phase (status approval) = PhaseAwaitingApproval
               then bind_io (resolve_decision sha approval) (\<lambda>_. ret None)
             else open_request sha approval))"

subsection \<open>The approval an operation needs\<close>

fun select_gate :: "step_attempt option \<Rightarrow> step_attempt list \<Rightarrow> go_error + step_attempt option" where
  "select_gate gate [] = Inr gate"
| "select_gate gate (a # as) = (case gate of
       None \<Rightarrow> select_gate (Some a) as
     | Some g \<Rightarrow>
         if sa_retryNumber (spec a) = sa_retryNumber (spec g) then Inl (Invalid ''ambiguous approval gate attempt'')
         else if sa_retryNumber (spec a) > sa_retryNumber (spec g) then select_gate (Some a) as
         else select_gate (Some g) as)"

definition gate_candidate :: "step_attempt \<Rightarrow> string \<Rightarrow> step_attempt \<Rightarrow> bool" where
  "gate_candidate consumer gateStep a \<longleftrightarrow> sa_workflowRef (spec a) = sa_workflowRef (spec consumer)
     \<and> sa_stepName (spec a) = gateStep \<and> sa_workflowAttempt (spec a) = sa_workflowAttempt (spec consumer)"

fun pinned_subject :: "artifact_reference option \<Rightarrow> artifact_reference list \<Rightarrow> string \<Rightarrow> go_error + artifact_reference" where
  "pinned_subject result [] name = (case result of
       None \<Rightarrow> Inl (Invalid ''requires an exact artifact pin'')
     | Some r \<Rightarrow> (case ar_artifactRef r of
           None \<Rightarrow> Inl (Invalid ''requires an exact artifact pin'')
         | Some pin \<Rightarrow> if ref_name pin = '''' \<or> ref_uid pin = '''' \<or> ar_digest r = ''''
             then Inl (Invalid ''requires an exact artifact pin'') else Inr r))"
| "pinned_subject result (i # is) name =
     (if ar_name i \<noteq> name then pinned_subject result is name
      else if result \<noteq> None then Inl (Invalid ''ambiguous approval subject'')
      else pinned_subject (Some i) is name)"

definition pinned_approval_subject :: "artifact_reference list \<Rightarrow> string \<Rightarrow> go_error + artifact_reference" where
  "pinned_approval_subject inputs name = pinned_subject None inputs name"

definition gate_succeeded :: "workflow \<Rightarrow> step_attempt \<Rightarrow> bool" where
  "gate_succeeded flow gate \<longleftrightarrow> uid_of gate \<noteq> '''' \<and> deletion (meta gate) = None \<and> sa_phase (status gate) = PhaseSucceeded
     \<and> sa_kind (spec gate) = ExecutionKindHumanGate \<and> is_controlled_by gate flow \<and> sa_executionRef (status gate) \<noteq> None"

definition request_admitted :: "step_attempt \<Rightarrow> approval_request \<Rightarrow> bool" where
  "request_admitted gate request \<longleftrightarrow> uid_of request \<noteq> '''' \<and> deletion (meta request) = None
     \<and> rq_phase (status request) = PhaseSucceeded \<and> rq_decisionUID (status request) \<noteq> ''''
     \<and> rq_decisionRef (status request) \<noteq> ''''
     \<and> rq_attemptRef (spec request) = \<lparr>ref_name = name_of gate, ref_uid = uid_of gate\<rparr>"

definition from_option :: "go_error option \<Rightarrow> unit action" where
  "from_option e = (case e of None \<Rightarrow> ret () | Some x \<Rightarrow> raise x)"

definition from_sum :: "go_error + 'a \<Rightarrow> 'a action" where
  "from_sum r = (case r of Inl e \<Rightarrow> raise e | Inr x \<Rightarrow> ret x)"

definition require_evidence ::
  "(string \<Rightarrow> string) \<Rightarrow> string \<Rightarrow> uid_reference \<Rightarrow> artifact_reference list \<Rightarrow> unit action" where
  "require_evidence sha ns workflowRef inputs =
     bind_io (resolve_artifact_evidence sha ns workflowRef inputs) (\<lambda>ev. case ev of
         Resolved _ \<Rightarrow> ret ()
       | _ \<Rightarrow> raise (Invalid ''approval evidence is unavailable or invalid''))"

definition find_gate :: "workflow \<Rightarrow> step_attempt \<Rightarrow> approval_requirement \<Rightarrow> step_attempt action" where
  "find_gate flow consumer required =
     bind_io (k_list StepAttempts (namespace_of flow)) (\<lambda>attempts.
     bind_io (from_sum (select_gate None (filter (gate_candidate consumer (requirement_step required)) attempts))) (\<lambda>g.
     case g of
         None \<Rightarrow> raise (Invalid ''required approval gate has not succeeded in this workflow attempt'')
       | Some gate \<Rightarrow> if gate_succeeded flow gate then ret gate
           else raise (Invalid ''required approval gate has not succeeded in this workflow attempt'')))"

definition find_request :: "workflow \<Rightarrow> step_attempt \<Rightarrow> approval_request action" where
  "find_request flow gate = (case sa_executionRef (status gate) of
       None \<Rightarrow> raise (Invalid ''invalid approval gate execution'')
     | Some execution \<Rightarrow>
         if tl_kind execution \<noteq> ''ApprovalRequest'' \<or> tl_apiVersion execution \<noteq> group_version
         then raise (Invalid ''invalid approval gate execution'')
         else bind_io (k_get ApprovalRequests (namespace_of flow) (tl_name execution)) (\<lambda>request.
           if \<not> request_admitted gate request then raise (Invalid ''required request has no admitted approval'')
           else seq_io (from_option (validate_domain_binding gate request (ref_name (rq_attemptRef (spec request)))
                    ExecutionKindHumanGate (rq_workflowRef (spec request)) (rq_stepName (spec request)) (rq_attempt (spec request))))
                  (ret request)))"

definition find_decision :: "workflow \<Rightarrow> approval_request \<Rightarrow> approval_decision action" where
  "find_decision flow request =
     bind_io (k_get ApprovalDecisions (namespace_of flow) (rq_decisionRef (status request))) (\<lambda>decision.
       if uid_of decision \<noteq> rq_decisionUID (status request) \<or> dec_decision (spec decision) \<noteq> Approved
       then raise (Invalid ''approval decision is not the admitted approved decision'')
       else if validate_approval_decision request decision \<noteq> None then raise (Invalid ''invalid approval decision'')
       else ret decision)"

definition resolve_required_approval ::
  "(string \<Rightarrow> string) \<Rightarrow> workflow \<Rightarrow> step_attempt \<Rightarrow> step_config \<Rightarrow> artifact_reference list \<Rightarrow> resolved_approval option action" where
  "resolve_required_approval sha flow consumer step inputs =
     seq_io (from_option (validate_approval_requirements (wf_steps (spec flow))))
     (case step_requiresApproval step of
        None \<Rightarrow> ret None
      | Some required \<Rightarrow>
          if uid_of flow \<noteq> ref_uid (sa_workflowRef (spec consumer)) \<or> name_of flow \<noteq> ref_name (sa_workflowRef (spec consumer))
             \<or> \<not> is_controlled_by consumer flow
          then raise (Invalid ''approval consumer does not belong to workflow'')
          else bind_io (find_gate flow consumer required) (\<lambda>gate.
               bind_io (find_request flow gate) (\<lambda>request.
               bind_io (find_decision flow request) (\<lambda>decision.
               bind_io (from_sum (pinned_approval_subject (rq_inputs (spec request)) (requirement_subject required))) (\<lambda>reviewed.
               bind_io (from_sum (pinned_approval_subject inputs (requirement_subject required))) (\<lambda>operated.
               if ar_artifactRef reviewed \<noteq> ar_artifactRef operated \<or> ar_digest reviewed \<noteq> ar_digest operated
               then raise (Invalid ''operation subject does not match the approved artifact UID and digest'')
               else seq_io (require_evidence sha (namespace_of flow) (sa_workflowRef (spec consumer)) (rq_inputs (spec request)))
                   (seq_io (require_evidence sha (namespace_of flow) (sa_workflowRef (spec consumer)) inputs)
                   (seq_io (record_approval_admission sha request decision)
                   (ret (Some \<lparr>resolved_requirement = required,
                     resolved_requestRef = \<lparr>ref_name = name_of request, ref_uid = uid_of request\<rparr>,
                     resolved_decisionRef = \<lparr>ref_name = name_of decision, ref_uid = uid_of decision\<rparr>,
                     resolved_subject = reviewed,
                     resolved_admissionEventID = approval_admission_event_id sha request\<rparr>))))))))))"

definition validate_operation_approval :: "(string \<Rightarrow> string) \<Rightarrow> utility_operation \<Rightarrow> workflow \<Rightarrow> unit action" where
  "validate_operation_approval sha operation flow =
     (case find (\<lambda>s. step_name s = uo_stepName (spec operation)) (wf_steps (spec flow)) of
        None \<Rightarrow> raise (Invalid ''utility step is absent from workflow'')
      | Some step \<Rightarrow>
          if step_requiresApproval step = None \<and> uo_approval (spec operation) = None
             \<and> utility_name (uo_operation (spec operation)) \<noteq> ''git.mergeRequest'' then ret ()
          else if step_requiresApproval step = None \<or> uo_approval (spec operation) = None
            then raise (Invalid ''utility requires explicit resolved approval'')
          else if (case step_utility step of None \<Rightarrow> True | Some u \<Rightarrow> utility_name u \<noteq> utility_name (uo_operation (spec operation)))
            then raise (Invalid ''operation differs from declared utility'')
          else bind_io (k_get StepAttempts (namespace_of operation) (uo_attemptRef (spec operation))) (\<lambda>consumer.
            if is_terminal (sa_phase (status consumer))
               \<or> sa_workflowAttempt (spec consumer) \<noteq> wf_workflowAttempt (status flow)
            then raise (Invalid ''approval consumer is no longer current'')
            else bind_io (resolve_required_approval sha flow consumer step (uo_inputs (spec operation))) (\<lambda>resolved.
              if resolved \<noteq> uo_approval (spec operation)
              then raise (Invalid ''operation approval binding differs from admitted authority'') else ret ())))"

subsection \<open>Status updates of a request\<close>

abbreviation request_at :: "cluster \<Rightarrow> string \<times> string \<Rightarrow> approval_request option" where
  "request_at w k \<equiv> find_by obj_key k (approval_requests w)"

text \<open>The update loop keeps an invariant that its mutation establishes for what it writes.\<close>

lemma keeps_update_approval_status:
  assumes "\<And>fs w. I w \<Longrightarrow> I (w\<lparr>faults := fs\<rparr>)"
    and "\<And>latest. \<not> is_terminal (rq_phase (status latest)) \<Longrightarrow> obj_key latest = obj_key approval \<Longrightarrow>
      triple (\<lambda>w. I w \<and> request_at w (obj_key approval) = Some latest) (mutate latest)
        (\<lambda>m w. I w \<and> (case m of None \<Rightarrow> True | Some l \<Rightarrow> obj_key l = obj_key approval
            \<and> request_at w (obj_key approval) = Some latest
            \<and> (\<forall>fs. I (approval_requests_update (replace_by obj_key (obj_key approval) (updated_status l latest)) (w\<lparr>faults := fs\<rparr>)))))
        (\<lambda>_. I)"
  shows "keeps I (update_approval_status approval mutate)"
  unfolding update_approval_status_def
proof (rule keeps_retry, rule triple_attempt_bind)
  show "triple I (k_get ApprovalRequests (namespace_of approval) (name_of approval))
      (\<lambda>x w. I w \<and> request_at w (obj_key approval) = Some x) (\<lambda>_. I)"
    using approval_request_kind.get_triple [of I "namespace_of approval" "name_of approval"] assms(1)
    by (simp add: ApprovalRequests_def obj_key_def [of approval])
next
  fix e :: go_error
  show "triple I (case Inl e of Inl e \<Rightarrow> if e = NotFound then ret () else raise e | Inr latest \<Rightarrow>
           if uid_of latest \<noteq> uid_of approval \<or> deletion (meta latest) \<noteq> None \<or> is_terminal (rq_phase (status latest))
           then ret ()
           else bind_io (mutate latest) (\<lambda>m. case m of
               None \<Rightarrow> ret ()
             | Some latest' \<Rightarrow> bind_io (k_update_status ApprovalRequests latest') (\<lambda>_. ret ()))) (\<lambda>_. I) (\<lambda>_. I)"
    by (simp add: triple_def ret_def raise_def)
next
  fix latest :: approval_request
  let ?P = "\<lambda>w. I w \<and> request_at w (obj_key approval) = Some latest"
  show "triple ?P (case Inr latest of Inl e \<Rightarrow> if e = NotFound then ret () else raise e | Inr latest \<Rightarrow>
           if uid_of latest \<noteq> uid_of approval \<or> deletion (meta latest) \<noteq> None \<or> is_terminal (rq_phase (status latest))
           then ret ()
           else bind_io (mutate latest) (\<lambda>m. case m of
               None \<Rightarrow> ret ()
             | Some latest' \<Rightarrow> bind_io (k_update_status ApprovalRequests latest') (\<lambda>_. ret ()))) (\<lambda>_. I) (\<lambda>_. I)"
  proof (cases "\<not> is_terminal (rq_phase (status latest)) \<and> obj_key latest = obj_key approval")
    case False
    have "obj_key latest = obj_key approval" if "request_at w (obj_key approval) = Some latest" for w
      using find_by_set [OF that] by simp
    with False show ?thesis by (auto simp: triple_def ret_def)
  next
    case True
    then have key: "obj_key latest = obj_key approval" by simp
    have upd: "triple (\<lambda>w. I w \<and> (case m of None \<Rightarrow> True | Some l \<Rightarrow> obj_key l = obj_key approval
            \<and> request_at w (obj_key approval) = Some latest
            \<and> (\<forall>fs. I (approval_requests_update (replace_by obj_key (obj_key approval) (updated_status l latest)) (w\<lparr>faults := fs\<rparr>)))))
        (case m of None \<Rightarrow> ret () | Some latest' \<Rightarrow> bind_io (k_update_status ApprovalRequests latest') (\<lambda>_. ret ()))
        (\<lambda>_. I) (\<lambda>_. I)" for m
    proof (cases m)
      case None
      then show ?thesis by (simp add: triple_def ret_def)
    next
      case (Some l)
      have "triple (\<lambda>w. I w \<and> (\<forall>fs. I (w\<lparr>faults := fs\<rparr>)) \<and> request_at w (obj_key l) = Some latest
          \<and> (\<forall>fs. I (approval_requests_update (replace_by obj_key (obj_key l) (updated_status l latest)) (w\<lparr>faults := fs\<rparr>))))
         (k_update_status ApprovalRequests l) (\<lambda>_. I) (\<lambda>_. I)"
        using approval_request_kind.update_status_triple [of I l latest] by (simp add: ApprovalRequests_def)
      then show ?thesis unfolding Some option.case
        by (intro triple_bind [where R = "\<lambda>_. I"]) (auto intro!: triple_ret elim!: triple_pre simp: assms(1))
    qed
    show ?thesis unfolding sum.case
      by (rule triple_if)
        (simp add: triple_def ret_def, rule triple_bind [OF assms(2) upd], use True in simp_all)
  qed
qed

subsection \<open>A decided request stays decided\<close>

definition request_status_is :: "string \<times> string \<Rightarrow> approval_request_status \<Rightarrow> cluster \<Rightarrow> bool" where
  "request_status_is k st w \<longleftrightarrow> (\<exists>a. request_at w k = Some a \<and> status a = st)"

lemma request_status_frame [simp]:
  "request_status_is k st (w\<lparr>faults := fs\<rparr>) = request_status_is k st w"
  "request_status_is k st (w\<lparr>audit_log := a\<rparr>) = request_status_is k st w"
  by (simp_all add: request_status_is_def)

text \<open>Calls that only read or record.\<close>

lemma keeps_resolution:
  assumes "\<And>fs w. I w \<Longrightarrow> I (w\<lparr>faults := fs\<rparr>)"
  shows "keeps I (resolve_artifact_evidence sha ns workflowRef inputs)"
proof (induction inputs)
  case Nil
  then show ?case by (simp add: triple_def ret_def)
next
  case (Cons input inputs)
  have one: "keeps I (resolve_input ns workflowRef input)"
    unfolding resolve_input_def resolve_pinned_input_def resolve_unpinned_artifact_evidence_def
    by (auto intro!: triple_intros keeps_get keeps_list assms split: option.split list.split)
  show ?case
    by (auto intro!: triple_intros one Cons split: resolution.split)
qed

lemma keeps_submission:
  assumes "\<And>fs w. I w \<Longrightarrow> I (w\<lparr>faults := fs\<rparr>)" "\<And>a w. I w \<Longrightarrow> I (w\<lparr>audit_log := a\<rparr>)"
  shows "keeps I (record_approval_submission sha request decision)"
  unfolding record_approval_submission_def
  by (auto intro!: triple_intros keeps_record_event assms split: sum.split)

lemma keeps_admission:
  assumes "\<And>fs w. I w \<Longrightarrow> I (w\<lparr>faults := fs\<rparr>)" "\<And>a w. I w \<Longrightarrow> I (w\<lparr>audit_log := a\<rparr>)"
  shows "keeps I (record_approval_admission sha request decision)"
  unfolding record_approval_admission_def Let_def
  by (auto intro!: triple_intros keeps_record_event assms split: sum.split option.split)

lemma keeps_admitted:
  assumes "\<And>fs w. I w \<Longrightarrow> I (w\<lparr>faults := fs\<rparr>)" "\<And>a w. I w \<Longrightarrow> I (w\<lparr>audit_log := a\<rparr>)"
  shows "keeps I (record_admitted_decision sha request)"
  unfolding record_admitted_decision_def
  by (intro triple_intros keeps_get keeps_admission assms)

lemma keeps_approval_attempt:
  assumes "\<And>fs w. I w \<Longrightarrow> I (w\<lparr>faults := fs\<rparr>)"
  shows "keeps I (approval_attempt approval)"
  unfolding approval_attempt_def
  by (intro triple_intros keeps_get assms)

lemma keeps_decide:
  assumes "\<And>fs w. I w \<Longrightarrow> I (w\<lparr>faults := fs\<rparr>)" "\<And>a w. I w \<Longrightarrow> I (w\<lparr>audit_log := a\<rparr>)"
  shows "keeps I (decide sha latest)"
  unfolding decide_def consume_decision_def finishing_def Let_def
  by (auto intro!: triple_intros keeps_get keeps_approval_attempt keeps_resolution keeps_submission assms
      split: resolution.split)

text \<open>What a mutation that finishes a request writes.\<close>

definition granted_by :: "approval_request \<Rightarrow> approval_request_status \<Rightarrow> approval_decision list \<Rightarrow> bool" where
  "granted_by request st ds \<longleftrightarrow> (\<exists>d. find_by obj_key (namespace_of request, rq_decisionRef st) ds = Some d
     \<and> uid_of d = rq_decisionUID st \<and> dec_decision (spec d) = Approved \<and> validate_approval_decision request d = None)"

definition decided :: "approval_request \<Rightarrow> approval_request \<Rightarrow> cluster \<Rightarrow> bool" where
  "decided latest l w \<longleftrightarrow> meta l = meta latest \<and> spec l = spec latest
     \<and> (rq_phase (status l) \<noteq> PhaseSucceeded \<or> granted_by latest (status l) (approval_decisions w))"

lemma decided_frame [simp]:
  "decided latest l (w\<lparr>faults := fs\<rparr>) = decided latest l w" "decided latest l (w\<lparr>audit_log := a\<rparr>) = decided latest l w"
  by (simp_all add: decided_def)

lemma finishing_triple:
  assumes "\<And>now w. P w \<Longrightarrow> decided latest (finish_approval now phase reason message ref l) w"
  shows "triple P (finishing phase reason message ref l) (\<lambda>m w. \<forall>x. m = Some x \<longrightarrow> decided latest x w) E"
  unfolding finishing_def
  by (rule triple_bind_gets, rule triple_pre [OF triple_ret]) (simp add: assms)

lemma decided_failed: "decided latest (finish_approval now PhaseFailed reason message ref latest) w"
  by (simp add: decided_def finish_approval_def)

lemma consume_decision_triple:
  assumes "validate_approval_decision latest d = None"
  shows "triple (\<lambda>w. find_by obj_key (namespace_of latest, name_of d) (approval_decisions w) = Some d)
     (consume_decision sha latest d) (\<lambda>m w. \<forall>l. m = Some l \<longrightarrow> decided latest l w) (\<lambda>_ _. True)"
proof -
  let ?P = "\<lambda>w. find_by obj_key (namespace_of latest, name_of d) (approval_decisions w) = Some d"
  have choice: "dec_decision (spec d) = Approved \<or> dec_decision (spec d) = Denied"
    using assms by (auto simp: validate_approval_decision_def split: if_splits)
  let ?latest = "latest\<lparr>status := (status latest)\<lparr>rq_decisionUID := uid_of d\<rparr>\<rparr>"
  have finish: "triple ?P (let latest' = ?latest
        in if dec_decision (spec d) = Denied
           then finishing PhaseFailed ''ApprovalDenied'' ''human approval was denied'' (name_of d) latest'
           else finishing PhaseSucceeded ''ApprovalGranted'' ''human approval was granted'' (name_of d) latest')
      (\<lambda>m w. \<forall>l. m = Some l \<longrightarrow> decided latest l w) (\<lambda>_ _. True)"
  proof (cases "dec_decision (spec d) = Denied")
    case True
    have "triple ?P (finishing PhaseFailed ''ApprovalDenied'' ''human approval was denied'' (name_of d) ?latest)
        (\<lambda>m w. \<forall>l. m = Some l \<longrightarrow> decided latest l w) (\<lambda>_ _. True)"
      by (rule finishing_triple) (simp add: decided_def finish_approval_def)
    with True show ?thesis by simp
  next
    case False
    have "triple ?P (finishing PhaseSucceeded ''ApprovalGranted'' ''human approval was granted'' (name_of d) ?latest)
        (\<lambda>m w. \<forall>l. m = Some l \<longrightarrow> decided latest l w) (\<lambda>_ _. True)"
      by (rule finishing_triple)
        (use choice False assms in \<open>auto simp: decided_def finish_approval_def granted_by_def\<close>)
    with False show ?thesis by simp
  qed
  have "keeps ?P (record_approval_submission sha latest d)" by (rule keeps_submission) simp_all
  then have "triple ?P (record_approval_submission sha latest d) (\<lambda>_. ?P) (\<lambda>_ _. True)" by (rule triple_post) simp_all
  then have record_finish: "triple ?P (seq_io (record_approval_submission sha latest d) (let latest' = ?latest
        in if dec_decision (spec d) = Denied
           then finishing PhaseFailed ''ApprovalDenied'' ''human approval was denied'' (name_of d) latest'
           else finishing PhaseSucceeded ''ApprovalGranted'' ''human approval was granted'' (name_of d) latest'))
      (\<lambda>m w. \<forall>l. m = Some l \<longrightarrow> decided latest l w) (\<lambda>_ _. True)"
    unfolding seq_io_def by (rule triple_bind) (rule finish)
  have "keeps ?P (resolve_artifact_evidence sha (namespace_of latest) (rq_workflowRef (spec latest)) (rq_inputs (spec latest)))"
    by (rule keeps_resolution) simp
  then have "triple ?P (resolve_artifact_evidence sha (namespace_of latest) (rq_workflowRef (spec latest)) (rq_inputs (spec latest)))
      (\<lambda>_. ?P) (\<lambda>_ _. True)" by (rule triple_post) simp_all
  then show ?thesis unfolding consume_decision_def
  proof (rule triple_bind)
    fix ev :: "artifact_evidence list resolution"
    show "triple ?P (case ev of Unready \<Rightarrow> raise (Invalid ''approval inputs are unavailable or invalid'')
        | Rejected _ \<Rightarrow> raise (Invalid ''approval inputs are unavailable or invalid'')
        | Resolved _ \<Rightarrow> seq_io (record_approval_submission sha latest d) (let latest' = ?latest
        in if dec_decision (spec d) = Denied
           then finishing PhaseFailed ''ApprovalDenied'' ''human approval was denied'' (name_of d) latest'
           else finishing PhaseSucceeded ''ApprovalGranted'' ''human approval was granted'' (name_of d) latest'))
      (\<lambda>m w. \<forall>l. m = Some l \<longrightarrow> decided latest l w) (\<lambda>_ _. True)"
      by (cases ev) (simp_all only: resolution.case record_finish, simp_all add: triple_def raise_def)
  qed
qed

lemma decide_triple:
  "triple (\<lambda>_. True) (decide sha latest) (\<lambda>m w. \<forall>l. m = Some l \<longrightarrow> decided latest l w) (\<lambda>_ _. True)"
proof -
  let ?name = "approval_decision_name (uid_of latest)"
  let ?P = "\<lambda>d w. find_by obj_key (namespace_of latest, ?name) (approval_decisions w) = Some d"
  let ?Q = "\<lambda>m w. \<forall>l. m = Some l \<longrightarrow> decided latest l w"
  have failed: "triple P (finishing PhaseFailed reason message '''' latest) ?Q (\<lambda>_ _. True)" for P reason message
    by (rule finishing_triple) (rule decided_failed)
  have loose: "triple (?P d) m (\<lambda>_. ?P d) (\<lambda>_ _. True)" if "keeps (?P d) m" for d and m :: "'x action"
    using that by (rule triple_post) simp_all
  have decision: "triple (?P d) (case validate_approval_decision latest d of
           Some message \<Rightarrow> finishing PhaseFailed ''InvalidApprovalDecision'' message '''' latest
         | None \<Rightarrow>
           bind_io (approval_attempt latest) (\<lambda>auth. case auth of
             Resolved attempt \<Rightarrow>
               bind_io (attempt_io (k_get Workflows (namespace_of latest) (ref_name (rq_workflowRef (spec latest))))) (\<lambda>res.
                 case res of
                   Inl e \<Rightarrow> (if e = NotFound
                     then finishing PhaseFailed ''InvalidWorkflowAuthority'' ''approval request is not the workflow's active gate'' '''' latest
                     else raise e)
                 | Inr flow \<Rightarrow>
                     if gate_is_active latest attempt flow then consume_decision sha latest d
                     else finishing PhaseFailed ''InvalidWorkflowAuthority'' ''approval request is not the workflow's active gate'' '''' latest)
           | _ \<Rightarrow> finishing PhaseFailed ''InvalidStepAttemptAuthority''
                 ''approval request no longer has an active authorized attempt'' '''' latest)) ?Q (\<lambda>_ _. True)" for d
  proof (cases "validate_approval_decision latest d")
    case (Some message)
    then show ?thesis by (simp add: failed)
  next
    case None
    have name: "name_of d = ?name" if "?P d w" for w using find_by_set [OF that] by simp
    have consume: "triple (?P d) (consume_decision sha latest d) ?Q (\<lambda>_ _. True)"
      by (rule triple_pre [OF consume_decision_triple [OF None]]) (frule name, simp)
    have get: "triple (?P d) (attempt_io (k_get Workflows (namespace_of latest) (ref_name (rq_workflowRef (spec latest)))))
        (\<lambda>_. ?P d) (\<lambda>_ _. True)"
      by (rule loose, rule keeps_attempt, rule keeps_get) simp
    have attempt: "triple (?P d) (approval_attempt latest) (\<lambda>_. ?P d) (\<lambda>_ _. True)"
      by (rule loose, rule keeps_approval_attempt) simp
    have err: "triple (?P d) (raise e) ?Q (\<lambda>_ _. True)" for e by (simp add: triple_def raise_def)
    show ?thesis unfolding None option.case
      by (rule triple_bind [OF attempt])
        (auto intro!: triple_bind [OF get] failed consume err split: resolution.split sum.split)
  qed
  have get: "triple (\<lambda>_. True) (k_get ApprovalDecisions (namespace_of latest) ?name) (\<lambda>d w. ?P d w) (\<lambda>_ _. True)"
    using approval_decision_kind.get_triple [of "\<lambda>_. True"] by (simp add: ApprovalDecisions_def)
  show ?thesis unfolding decide_def
    by (rule triple_if, simp add: triple_def ret_def, rule triple_attempt_bind [OF get])
      (use decision in \<open>simp_all add: triple_def ret_def raise_def\<close>)
qed

subsection \<open>Invariants of the request's controller\<close>

text \<open>
  A fact about the cluster that survives reads, audit appends and the writes of the controller:
  a status that is not yet terminal replaced by a decided one.
\<close>

definition decision_invariant :: "(cluster \<Rightarrow> bool) \<Rightarrow> bool" where
  "decision_invariant I \<longleftrightarrow> (\<forall>w fs. I w \<longrightarrow> I (w\<lparr>faults := fs\<rparr>)) \<and> (\<forall>w a. I w \<longrightarrow> I (w\<lparr>audit_log := a\<rparr>))
     \<and> (\<forall>w k latest l. I w \<longrightarrow> request_at w k = Some latest \<longrightarrow> \<not> is_terminal (rq_phase (status latest))
          \<longrightarrow> decided latest l w \<longrightarrow> I (approval_requests_update (replace_by obj_key k (updated_status l latest)) w))"

lemma decision_invariant_faults: "decision_invariant I \<Longrightarrow> I w \<Longrightarrow> I (w\<lparr>faults := fs\<rparr>)"
  by (simp add: decision_invariant_def)

lemma decision_invariant_audit: "decision_invariant I \<Longrightarrow> I w \<Longrightarrow> I (w\<lparr>audit_log := a\<rparr>)"
  by (simp add: decision_invariant_def)

lemma decision_invariant_write:
  "decision_invariant I \<Longrightarrow> I w \<Longrightarrow> request_at w k = Some latest \<Longrightarrow> \<not> is_terminal (rq_phase (status latest))
   \<Longrightarrow> decided latest l w \<Longrightarrow> I (approval_requests_update (replace_by obj_key k (updated_status l latest)) (w\<lparr>faults := fs\<rparr>))"
proof -
  assume inv: "decision_invariant I" and w: "I w" "request_at w k = Some latest" "\<not> is_terminal (rq_phase (status latest))"
    "decided latest l w"
  from inv have step: "I (approval_requests_update (replace_by obj_key k (updated_status l latest)) v)"
    if "I v" "request_at v k = Some latest" "decided latest l v" for v
    using that w(3) unfolding decision_invariant_def by blast
  show ?thesis
    by (rule step) (use w decision_invariant_faults [OF inv w(1)] in simp_all)
qed

lemma keeps_decided_update:
  assumes inv: "decision_invariant I"
    and run: "\<And>latest J. (\<And>fs w. J w \<Longrightarrow> J (w\<lparr>faults := fs\<rparr>)) \<Longrightarrow> (\<And>a w. J w \<Longrightarrow> J (w\<lparr>audit_log := a\<rparr>)) \<Longrightarrow> keeps J (mutate latest)"
    and result: "\<And>latest. triple (\<lambda>_. True) (mutate latest) (\<lambda>m w. \<forall>l. m = Some l \<longrightarrow> decided latest l w) (\<lambda>_ _. True)"
  shows "keeps I (update_approval_status approval mutate)"
proof (rule keeps_update_approval_status)
  show "I (w\<lparr>faults := fs\<rparr>)" if "I w" for w fs using inv that by (rule decision_invariant_faults)
next
  fix latest :: approval_request
  assume nt: "\<not> is_terminal (rq_phase (status latest))" and key: "obj_key latest = obj_key approval"
  let ?k = "obj_key approval"
  let ?J = "\<lambda>w. I w \<and> request_at w ?k = Some latest"
  have "keeps ?J (mutate latest)"
    by (rule run) (auto intro: decision_invariant_faults [OF inv] decision_invariant_audit [OF inv])
  from triple_conj [OF this result]
  show "triple ?J (mutate latest) (\<lambda>m w. I w \<and> (case m of None \<Rightarrow> True | Some l \<Rightarrow> obj_key l = ?k
        \<and> request_at w ?k = Some latest
        \<and> (\<forall>fs. I (approval_requests_update (replace_by obj_key ?k (updated_status l latest)) (w\<lparr>faults := fs\<rparr>))))) (\<lambda>_. I)"
  proof (rule triple_weaken)
    fix m w assume *: "(I w \<and> request_at w ?k = Some latest) \<and> (\<forall>l. m = Some l \<longrightarrow> decided latest l w)"
    have "obj_key l = ?k" if "decided latest l w" for l
      using that key by (simp add: decided_def obj_key_def)
    with * decision_invariant_write [OF inv _ _ nt]
    show "I w \<and> (case m of None \<Rightarrow> True | Some l \<Rightarrow> obj_key l = ?k \<and> request_at w ?k = Some latest
        \<and> (\<forall>fs. I (approval_requests_update (replace_by obj_key ?k (updated_status l latest)) (w\<lparr>faults := fs\<rparr>))))"
      by (auto split: option.split)
  qed auto
qed

lemma keeps_decision_update:
  assumes "decision_invariant I"
  shows "keeps I (update_approval_status approval (decide sha))"
  by (rule keeps_decided_update [OF assms keeps_decide decide_triple])

lemma keeps_set_failed:
  assumes "decision_invariant I"
  shows "keeps I (set_failed approval reason)"
  unfolding set_failed_def
  by (rule keeps_decided_update [OF assms])
    (simp add: finishing_def triple_def bind_io_def gets_def ret_def, rule finishing_triple, rule decided_failed)

lemma keeps_set_awaiting:
  assumes "decision_invariant I"
  shows "keeps I (set_awaiting approval)"
  unfolding set_awaiting_def
  by (rule keeps_decided_update [OF assms])
    (auto simp: triple_def bind_io_def gets_def ret_def decided_def awaiting_def)

lemma reconcile_keeps_decision_invariant:
  assumes "decision_invariant I"
  shows "keeps I (reconcile_approval_request sha ns n)"
  unfolding reconcile_approval_request_def resolve_decision_def open_request_def append_inputs_resolved_def
    namespace_terminating_def
  by (auto intro!: triple_intros keeps_get keeps_admitted keeps_resolution keeps_approval_attempt keeps_controller_event
      keeps_decision_update keeps_set_failed keeps_set_awaiting assms decision_invariant_faults [OF assms]
      decision_invariant_audit [OF assms] split: resolution.split)

lemma terminal_status_invariant:
  assumes "is_terminal (rq_phase st)"
  shows "decision_invariant (request_status_is k st)"
  unfolding decision_invariant_def
proof (intro conjI allI impI)
  fix w j latest l
  assume I: "request_status_is k st w" and at: "request_at w j = Some latest"
    and nt: "\<not> is_terminal (rq_phase (status latest))"
  have "j \<noteq> k" using I at nt assms by (auto simp: request_status_is_def)
  moreover have "obj_key (updated_status l latest) = j" using find_by_set [OF at] by simp
  ultimately show "request_status_is k st (approval_requests_update (replace_by obj_key j (updated_status l latest)) w)"
    using I by (simp add: request_status_is_def store_simps)
qed simp_all

definition grants_backed :: "cluster \<Rightarrow> bool" where
  "grants_backed w \<longleftrightarrow> (\<forall>a \<in> set (approval_requests w).
     rq_phase (status a) = PhaseSucceeded \<longrightarrow> granted_by a (status a) (approval_decisions w))"

lemma validate_decision_updated: "validate_approval_decision (updated_status l x) d = validate_approval_decision x d"
  by (simp add: validate_approval_decision_def required_group_def split: option.split)

lemma granted_by_updated: "granted_by (updated_status l x) st ds = granted_by x st ds"
  by (simp add: granted_by_def validate_decision_updated)

lemma grants_backed_invariant: "decision_invariant grants_backed"
  unfolding decision_invariant_def
proof (intro conjI allI impI)
  fix w j latest l
  assume I: "grants_backed w" and "decided latest l w"
  then show "grants_backed (approval_requests_update (replace_by obj_key j (updated_status l latest)) w)"
    by (auto simp: grants_backed_def decided_def granted_by_updated dest!: set_replace_by)
qed (simp_all add: grants_backed_def)

subsection \<open>What a resolved approval rests on\<close>

definition same_objects :: "cluster \<Rightarrow> cluster \<Rightarrow> bool" where
  "same_objects w v \<longleftrightarrow> step_attempts v = step_attempts w \<and> approval_requests v = approval_requests w
     \<and> approval_decisions v = approval_decisions w \<and> artifacts v = artifacts w"

lemma same_objects_refl [simp]: "same_objects w w" by (simp add: same_objects_def)

lemma same_objects_trans: "same_objects u v \<Longrightarrow> same_objects v w \<Longrightarrow> same_objects u w"
  by (simp add: same_objects_def)

lemma same_objects_frame [simp]:
  "same_objects u (w\<lparr>faults := fs\<rparr>) = same_objects u w" "same_objects u (w\<lparr>audit_log := a\<rparr>) = same_objects u w"
  by (simp_all add: same_objects_def)

lemma keeps_same: "keeps (same_objects w) m \<Longrightarrow> m w = (Inr x, w') \<Longrightarrow> same_objects w w'"
  using triple_resultD [of "same_objects w" m "\<lambda>_. same_objects w" "\<lambda>_. same_objects w" w x w'] by simp

lemma from_sum_result: "from_sum r w = (Inr x, w') \<Longrightarrow> r = Inr x \<and> w' = w"
  by (cases r) (auto simp: from_sum_def ret_def raise_def)

lemma from_option_result: "from_option e w = (Inr x, w') \<Longrightarrow> e = None \<and> w' = w"
  by (cases e) (auto simp: from_option_def ret_def raise_def)

lemma select_gate_latest:
  "select_gate g as = Inr (Some x) \<Longrightarrow> (g = Some x \<or> x \<in> set as)
   \<and> (\<forall>a \<in> set as \<union> set_option g. a = x \<or> sa_retryNumber (spec a) < sa_retryNumber (spec x))"
proof (induction as arbitrary: g)
  case (Cons a as)
  show ?case
  proof (cases g)
    case None
    with Cons show ?thesis by fastforce
  next
    case (Some h)
    consider "sa_retryNumber (spec a) > sa_retryNumber (spec h)" | "sa_retryNumber (spec a) < sa_retryNumber (spec h)"
      using Cons.prems Some by (fastforce split: if_splits)
    then show ?thesis
    proof cases
      case 1
      then have "select_gate (Some a) as = Inr (Some x)" using Cons.prems Some by simp
      with Cons.IH [OF this] 1 Some show ?thesis by fastforce
    next
      case 2
      then have "select_gate (Some h) as = Inr (Some x)" using Cons.prems Some by simp
      with Cons.IH [OF this] 2 Some show ?thesis by fastforce
    qed
  qed
qed auto

definition latest_gate :: "cluster \<Rightarrow> string \<Rightarrow> step_attempt \<Rightarrow> string \<Rightarrow> step_attempt \<Rightarrow> bool" where
  "latest_gate w ns consumer gateStep gate \<longleftrightarrow> gate \<in> set (step_attempts w) \<and> namespace_of gate = ns
     \<and> gate_candidate consumer gateStep gate
     \<and> (\<forall>a \<in> set (step_attempts w). namespace_of a = ns \<and> gate_candidate consumer gateStep a \<longrightarrow>
          a = gate \<or> sa_retryNumber (spec a) < sa_retryNumber (spec gate))"

lemma find_gate_result:
  assumes "find_gate flow consumer required w = (Inr gate, w')"
  shows "latest_gate w (namespace_of flow) consumer (requirement_step required) gate \<and> gate_succeeded flow gate
    \<and> same_objects w w'"
proof -
  from assms obtain attempts v g u where list: "k_list StepAttempts (namespace_of flow) w = (Inr attempts, v)"
    and sum: "from_sum (select_gate None (filter (gate_candidate consumer (requirement_step required)) attempts)) v = (Inr g, u)"
    and rest: "(case g of
         None \<Rightarrow> raise (Invalid ''required approval gate has not succeeded in this workflow attempt'')
       | Some gate \<Rightarrow> if gate_succeeded flow gate then ret gate
           else raise (Invalid ''required approval gate has not succeeded in this workflow attempt'')) u = (Inr gate, w')"
    unfolding find_gate_def by (elim bind_io_result)
  from rest have g: "g = Some gate" "gate_succeeded flow gate" "w' = u"
    by (auto simp: raise_def ret_def split: option.splits if_splits)
  from from_sum_result [OF sum] g have sel: "select_gate None (filter (gate_candidate consumer (requirement_step required)) attempts)
      = Inr (Some gate)" and "u = v" by auto
  have attempts: "attempts = filter (\<lambda>b. namespace_of b = namespace_of flow) (step_attempts w)"
    using step_attempt_kind.list_result(1) [OF list] by (simp add: StepAttempts_def)
  obtain fs where "v = w\<lparr>faults := fs\<rparr>" using step_attempt_kind.list_result(2) [OF list] ..
  then have "same_objects w w'" using g \<open>u = v\<close> by simp
  moreover have "latest_gate w (namespace_of flow) consumer (requirement_step required) gate"
    using select_gate_latest [OF sel] by (auto simp: latest_gate_def attempts)
  ultimately show ?thesis using g by simp
qed

lemma find_request_result:
  assumes "find_request flow gate w = (Inr request, w')"
  shows "request \<in> set (approval_requests w) \<and> namespace_of request = namespace_of flow \<and> request_admitted gate request \<and> same_objects w w'"
proof -
  from assms obtain execution where exec: "sa_executionRef (status gate) = Some execution"
    by (auto simp: find_request_def raise_def split: option.splits)
  from assms exec obtain x v where get: "k_get ApprovalRequests (namespace_of flow) (tl_name execution) w = (Inr x, v)"
    and rest: "(if \<not> request_admitted gate x then raise (Invalid ''required request has no admitted approval'')
           else seq_io (from_option (validate_domain_binding gate x (ref_name (rq_attemptRef (spec x)))
                    ExecutionKindHumanGate (rq_workflowRef (spec x)) (rq_stepName (spec x)) (rq_attempt (spec x))))
                  (ret x)) v = (Inr request, w')"
    by (auto simp: find_request_def raise_def elim!: bind_io_result split: if_splits)
  from rest have ok: "request_admitted gate request" and "x = request" "v = w'"
    by (auto simp: raise_def ret_def seq_io_def elim!: bind_io_result dest!: from_option_result split: if_splits)
  with get have get: "k_get ApprovalRequests (namespace_of flow) (tl_name execution) w = (Inr request, w')" by simp
  have "find_by obj_key (namespace_of flow, tl_name execution) (approval_requests w') = Some request"
    using approval_request_kind.get_result(1) [OF get] by (simp add: ApprovalRequests_def)
  moreover obtain fs where "w' = w\<lparr>faults := fs\<rparr>" using approval_request_kind.get_result(3) [OF get] ..
  ultimately have "request \<in> set (approval_requests w)" "namespace_of request = namespace_of flow" "same_objects w w'"
    using find_by_set [of obj_key _ "approval_requests w'" request] by auto
  with ok show ?thesis by simp
qed

lemma find_decision_result:
  assumes "find_decision flow request w = (Inr decision, w')"
  shows "decision \<in> set (approval_decisions w) \<and> uid_of decision = rq_decisionUID (status request)
    \<and> dec_decision (spec decision) = Approved \<and> validate_approval_decision request decision = None \<and> same_objects w w'"
proof -
  from assms have get: "k_get ApprovalDecisions (namespace_of flow) (rq_decisionRef (status request)) w = (Inr decision, w')"
    and ok: "uid_of decision = rq_decisionUID (status request)" "dec_decision (spec decision) = Approved"
      "validate_approval_decision request decision = None"
    by (auto simp: find_decision_def raise_def ret_def elim!: bind_io_result split: if_splits)
  have "find_by obj_key (namespace_of flow, rq_decisionRef (status request)) (approval_decisions w') = Some decision"
    using approval_decision_kind.get_result(1) [OF get] by (simp add: ApprovalDecisions_def)
  moreover obtain fs where "w' = w\<lparr>faults := fs\<rparr>" using approval_decision_kind.get_result(3) [OF get] ..
  ultimately have "decision \<in> set (approval_decisions w)" "same_objects w w'"
    using find_by_set [of obj_key _ "approval_decisions w'" decision] by auto
  with ok show ?thesis by simp
qed

lemma require_evidence_result:
  assumes "require_evidence sha ns workflowRef inputs w = (Inr x, w')"
  shows "same_objects w w' \<and> (\<forall>i \<in> set inputs. \<exists>a. selected_artifact w ns workflowRef i a)"
proof -
  from assms obtain ev where run: "resolve_artifact_evidence sha ns workflowRef inputs w = (Inr (Resolved ev), w')"
    unfolding require_evidence_def
    by (auto simp: raise_def ret_def elim!: bind_io_result split: resolution.splits)
  have "same_objects w w'" by (rule keeps_same [OF keeps_resolution run]) simp
  moreover have "\<exists>a. selected_artifact w ns workflowRef i a" if "i \<in> set inputs" for i
    using evidence_resolved [OF run] that by (auto simp: list_all2_conv_all_nth in_set_conv_nth)
  ultimately show ?thesis by blast
qed

lemma pinned_subject_result:
  "pinned_subject r inputs name = Inr x \<Longrightarrow> (r = Some x \<or> x \<in> set inputs \<and> ar_name x = name)
    \<and> (\<exists>pin. ar_artifactRef x = Some pin) \<and> ar_digest x \<noteq> ''''"
  by (induction inputs arbitrary: r) (auto split: option.splits if_splits)

lemma same_selected: "same_objects w v \<Longrightarrow> selected_artifact v ns workflowRef i a = selected_artifact w ns workflowRef i a"
  unfolding same_objects_def selected_artifact_def by (auto split: option.split)

lemma same_latest: "same_objects w v \<Longrightarrow> latest_gate v ns consumer g gate = latest_gate w ns consumer g gate"
  by (simp add: same_objects_def latest_gate_def)

text \<open>The authority behind a resolved approval, in a cluster.\<close>

definition authorised :: "cluster \<Rightarrow> workflow \<Rightarrow> step_attempt \<Rightarrow> approval_requirement \<Rightarrow> artifact_reference list \<Rightarrow> resolved_approval \<Rightarrow> bool" where
  "authorised w flow consumer required inputs r \<longleftrightarrow> (\<exists>gate request decision operated a.
     latest_gate w (namespace_of flow) consumer (requirement_step required) gate \<and> gate_succeeded flow gate
     \<and> request \<in> set (approval_requests w) \<and> request_admitted gate request
     \<and> decision \<in> set (approval_decisions w) \<and> uid_of decision = rq_decisionUID (status request)
     \<and> dec_decision (spec decision) = Approved \<and> required_group request decision
     \<and> resolved_subject r \<in> set (rq_inputs (spec request)) \<and> ar_name (resolved_subject r) = requirement_subject required
     \<and> operated \<in> set inputs \<and> ar_name operated = requirement_subject required
     \<and> ar_artifactRef operated = ar_artifactRef (resolved_subject r) \<and> ar_digest operated = ar_digest (resolved_subject r)
     \<and> a \<in> set (artifacts w) \<and> artifact_accepted a \<and> ar_artifactRef operated = Some \<lparr>ref_name = name_of a, ref_uid = uid_of a\<rparr>
     \<and> art_digest (spec a) = ar_digest operated)"

lemma valid_decision_group: "validate_approval_decision request decision = None \<Longrightarrow> required_group request decision"
  by (simp add: validate_approval_decision_def split: if_splits)

lemma resolved_is_authorised:
  assumes "resolve_required_approval sha flow consumer step inputs w = (Inr (Some r), w')"
  shows "\<exists>required. step_requiresApproval step = Some required \<and> authorised w flow consumer required inputs r"
proof -
  from assms obtain required where req: "step_requiresApproval step = Some required"
    and run: "bind_io (find_gate flow consumer required) (\<lambda>gate.
               bind_io (find_request flow gate) (\<lambda>request.
               bind_io (find_decision flow request) (\<lambda>decision.
               bind_io (from_sum (pinned_approval_subject (rq_inputs (spec request)) (requirement_subject required))) (\<lambda>reviewed.
               bind_io (from_sum (pinned_approval_subject inputs (requirement_subject required))) (\<lambda>operated.
               if ar_artifactRef reviewed \<noteq> ar_artifactRef operated \<or> ar_digest reviewed \<noteq> ar_digest operated
               then raise (Invalid ''operation subject does not match the approved artifact UID and digest'')
               else seq_io (require_evidence sha (namespace_of flow) (sa_workflowRef (spec consumer)) (rq_inputs (spec request)))
                   (seq_io (require_evidence sha (namespace_of flow) (sa_workflowRef (spec consumer)) inputs)
                   (seq_io (record_approval_admission sha request decision)
                   (ret (Some \<lparr>resolved_requirement = required,
                     resolved_requestRef = \<lparr>ref_name = name_of request, ref_uid = uid_of request\<rparr>,
                     resolved_decisionRef = \<lparr>ref_name = name_of decision, ref_uid = uid_of decision\<rparr>,
                     resolved_subject = reviewed,
                     resolved_admissionEventID = approval_admission_event_id sha request\<rparr>))))))))) w = (Inr (Some r), w')"
    unfolding resolve_required_approval_def seq_io_def [of "from_option e" for e]
    by (cases "step_requiresApproval step")
      (auto simp: ret_def raise_def elim!: bind_io_result [of "from_option e" for e] dest!: from_option_result split: if_splits)
  then obtain gate request decision reviewed operated w1 w2 w3 w4 w5 where
    gate: "find_gate flow consumer required w = (Inr gate, w1)"
    and request: "find_request flow gate w1 = (Inr request, w2)"
    and decision: "find_decision flow request w2 = (Inr decision, w3)"
    and reviewed: "from_sum (pinned_approval_subject (rq_inputs (spec request)) (requirement_subject required)) w3 = (Inr reviewed, w4)"
    and operated: "from_sum (pinned_approval_subject inputs (requirement_subject required)) w4 = (Inr operated, w5)"
    and rest: "(if ar_artifactRef reviewed \<noteq> ar_artifactRef operated \<or> ar_digest reviewed \<noteq> ar_digest operated
               then raise (Invalid ''operation subject does not match the approved artifact UID and digest'')
               else seq_io (require_evidence sha (namespace_of flow) (sa_workflowRef (spec consumer)) (rq_inputs (spec request)))
                   (seq_io (require_evidence sha (namespace_of flow) (sa_workflowRef (spec consumer)) inputs)
                   (seq_io (record_approval_admission sha request decision)
                   (ret (Some \<lparr>resolved_requirement = required,
                     resolved_requestRef = \<lparr>ref_name = name_of request, ref_uid = uid_of request\<rparr>,
                     resolved_decisionRef = \<lparr>ref_name = name_of decision, ref_uid = uid_of decision\<rparr>,
                     resolved_subject = reviewed,
                     resolved_admissionEventID = approval_admission_event_id sha request\<rparr>))))) w5 = (Inr (Some r), w')"
    by (elim bind_io_result)
  from rest have same: "ar_artifactRef operated = ar_artifactRef reviewed" "ar_digest operated = ar_digest reviewed"
    by (auto simp: raise_def split: if_splits)
  with rest obtain x w6 y w7 where first: "require_evidence sha (namespace_of flow) (sa_workflowRef (spec consumer)) (rq_inputs (spec request)) w5 = (Inr x, w6)"
    and second: "require_evidence sha (namespace_of flow) (sa_workflowRef (spec consumer)) inputs w6 = (Inr y, w7)"
    and r: "resolved_subject r = reviewed"
    by (auto simp: seq_io_def ret_def elim!: bind_io_result)
  have s: "same_objects w w1" "same_objects w1 w2" "same_objects w2 w3" "w4 = w3" "w5 = w3" "same_objects w5 w6"
    using find_gate_result [OF gate] find_request_result [OF request] find_decision_result [OF decision]
      from_sum_result [OF reviewed] from_sum_result [OF operated] require_evidence_result [OF first] by auto
  then have s2: "same_objects w w2" and s6: "same_objects w w6" by (meson same_objects_trans)+
  have rev: "reviewed \<in> set (rq_inputs (spec request))" "ar_name reviewed = requirement_subject required"
    and op: "operated \<in> set inputs" "ar_name operated = requirement_subject required"
    using from_sum_result [OF reviewed] from_sum_result [OF operated] pinned_subject_result
    by (fastforce simp: pinned_approval_subject_def)+
  obtain pin where pin: "ar_artifactRef operated = Some pin"
    using from_sum_result [OF operated] pinned_subject_result by (fastforce simp: pinned_approval_subject_def)
  obtain a where "selected_artifact w (namespace_of flow) (sa_workflowRef (spec consumer)) operated a"
    using require_evidence_result [OF second] op(1) same_selected [OF s6] by blast
  then have a: "a \<in> set (artifacts w)" "artifact_accepted a" "art_digest (spec a) = ar_digest operated"
    "ar_artifactRef operated = Some \<lparr>ref_name = name_of a, ref_uid = uid_of a\<rparr>"
    using pin by (simp_all add: selected_artifact_def)
  have "latest_gate w (namespace_of flow) consumer (requirement_step required) gate" "gate_succeeded flow gate"
    using find_gate_result [OF gate] by auto
  moreover have "request \<in> set (approval_requests w)" "request_admitted gate request"
    using find_request_result [OF request] s(1) by (simp_all add: same_objects_def)
  moreover have "decision \<in> set (approval_decisions w)" "uid_of decision = rq_decisionUID (status request)"
    "dec_decision (spec decision) = Approved" "required_group request decision"
    using find_decision_result [OF decision] s2 valid_decision_group by (simp_all add: same_objects_def)
  ultimately have "authorised w flow consumer required inputs r"
    unfolding authorised_def using rev op same a r by blast
  with req show ?thesis by blast
qed

subsection \<open>The admission of a decision is repaired\<close>

text \<open>With no fault ahead, appending an event leaves an event of its ID in the log.\<close>

lemma record_event_logs:
  assumes "faults w = []" "audit_log w = Some m"
  shows "record_event e w = (Inr (), w\<lparr>audit_log := Some (mem_append (clock w) e m)\<rparr>)"
    and "ev_id e \<in> ev_id ` set (mem_append t e m)" and "ev_id ` set m \<subseteq> ev_id ` set (mem_append t e m)"
  using assms by (auto simp: record_event_def mem_append_def find_by_None)

definition admissible :: "approval_request \<Rightarrow> approval_decision \<Rightarrow> bool" where
  "admissible request d \<longleftrightarrow> is_terminal (rq_phase (status request)) \<and> deletion (meta request) = None
     \<and> (rq_phase (status request) = PhaseSucceeded \<or> rq_failureReason (status request) = ''ApprovalDenied'')
     \<and> rq_completedAt (status request) \<noteq> None \<and> rq_decisionRef (status request) = name_of d \<and> name_of d \<noteq> ''''
     \<and> rq_decisionUID (status request) = uid_of d \<and> uid_of d \<noteq> '''' \<and> uid_of request \<noteq> ''''
     \<and> dec_authoredAt (spec d) \<noteq> None"

lemma admission_logs:
  assumes "faults w = []" "audit_log w = Some m" "admissible request d"
  shows "\<exists>m'. record_approval_admission sha request d w = (Inr (), w\<lparr>audit_log := Some m'\<rparr>)
    \<and> approval_admission_event_id sha request \<in> ev_id ` set m' \<and> ev_id ` set m \<subseteq> ev_id ` set m'"
proof -
  obtain at authored where t: "rq_completedAt (status request) = Some at" "dec_authoredAt (spec d) = Some authored"
    using assms(3) by (auto simp: admissible_def)
  obtain s payload where sub: "approval_submission_event sha (clock w) request d = Inr (s, payload)"
    using assms(3) t by (auto simp: approval_submission_event_def admissible_def Let_def)
  let ?w = "w\<lparr>audit_log := Some (mem_append (clock w) s m)\<rparr>"
  have first: "record_event s w = (Inr (), ?w)" using record_event_logs(1) [OF assms(1,2)] .
  let ?e = "\<lambda>e. e\<lparr>ev_id := approval_admission_event_id sha request\<rparr>"
  have second: "record_event (?e e) ?w = (Inr (), w\<lparr>audit_log := Some (mem_append (clock w) (?e e) (mem_append (clock w) s m))\<rparr>)" for e
    using record_event_logs(1) [of ?w "mem_append (clock w) s m" "?e e"] assms(1) by simp
  obtain e where run: "record_approval_admission sha request d w
      = (Inr (), w\<lparr>audit_log := Some (mem_append (clock w) (?e e) (mem_append (clock w) s m))\<rparr>)"
  proof -
    have guard: "\<not> (rq_decisionRef (status request) \<noteq> name_of d \<or> rq_decisionUID (status request) \<noteq> uid_of d
        \<or> rq_phase (status request) \<noteq> PhaseSucceeded \<and> rq_failureReason (status request) \<noteq> ''ApprovalDenied'')"
      using assms(3) by (auto simp: admissible_def)
    show thesis
      by (rule that, unfold record_approval_admission_def t(1) option.case if_not_P [OF guard])
        (simp only: gets_def bind_io_def seq_io_def Let_def sub first second prod.case sum.case)
  qed
  moreover have "ev_id ` set m \<subseteq> ev_id ` set (mem_append (clock w) (?e e) (mem_append (clock w) s m))"
    using record_event_logs(3) [OF assms(1,2)] record_event_logs(3) [of ?w "mem_append (clock w) s m"] assms(1) by force
  moreover have "approval_admission_event_id sha request \<in> ev_id ` set (mem_append (clock w) (?e e) (mem_append (clock w) s m))"
    using record_event_logs(2) [of ?w "mem_append (clock w) s m" "?e e"] assms(1) by simp
  ultimately show ?thesis by blast
qed

lemma reconcile_logs_admission:
  assumes w: "faults w = []" "audit_log w = Some m"
    and request: "request_at w (ns, n) = Some request" and d: "find_by obj_key (ns, name_of d) (approval_decisions w) = Some d"
    and ok: "admissible request d"
    and alive: "\<And>x. find_by obj_key ('''', ns) (namespaces w) = Some x \<Longrightarrow> deletion (meta x) = None"
  shows "\<exists>m'. reconcile_approval_request sha ns n w = (Inr None, w\<lparr>audit_log := Some m'\<rparr>)
    \<and> approval_admission_event_id sha request \<in> ev_id ` set m' \<and> ev_id ` set m \<subseteq> ev_id ` set m'"
proof -
  have key: "namespace_of request = ns" "name_of request = n" using find_by_set [OF request] by auto
  have ns: "namespace_terminating ns w = (Inr False, w)"
    using w(1) alive by (simp add: namespace_terminating_def bind_io_def attempt_io_def k_get_def Namespaces_def ret_def
        split: option.split)
  have get: "k_get ApprovalRequests ns n w = (Inr request, w)"
    using w(1) request by (simp add: k_get_def ApprovalRequests_def)
  have dec: "k_get ApprovalDecisions ns (rq_decisionRef (status request)) w = (Inr d, w)"
    using w(1) d ok by (simp add: k_get_def ApprovalDecisions_def admissible_def)
  have "record_admitted_decision sha request w = record_approval_admission sha request d w"
    using ok dec key by (simp add: record_admitted_decision_def admissible_def bind_io_def)
  with admission_logs [OF w ok] have "\<exists>m'. record_admitted_decision sha request w = (Inr (), w\<lparr>audit_log := Some m'\<rparr>)
    \<and> approval_admission_event_id sha request \<in> ev_id ` set m' \<and> ev_id ` set m \<subseteq> ev_id ` set m'" by metis
  then show ?thesis using ok key ns get
    by (auto simp: reconcile_approval_request_def bind_io_def attempt_io_def admissible_def ret_def)
qed

subsection \<open>An example\<close>

text \<open>A workflow whose merge needs the approval of its gate, the gate's request granted, the merge not yet started.\<close>

definition demo_step :: "string \<Rightarrow> execution_kind \<Rightarrow> int \<Rightarrow> step_config" where
  "demo_step n k order = \<lparr>step_requiresApproval = None, step_name = n, step_kind = k, step_agent = None, step_utility = None,
     step_approval = None, step_validation = None, step_inputs = [demo_input], step_outputs = [], step_timeout = None,
     step_maxAttempts = 1, step_order = order\<rparr>"

definition merge_step :: step_config where
  "merge_step = (demo_step ''merge'' ExecutionKindUtility 2)\<lparr>
     step_requiresApproval := Some \<lparr>requirement_step = ''gate'', requirement_subject = ''implementation-plan''\<rparr>,
     step_utility := Some \<lparr>utility_name = ''git.mergeRequest'', utility_parameters = []\<rparr>\<rparr>"

definition steps_workflow :: "step_config list \<Rightarrow> workflow" where
  "steps_workflow steps = \<lparr>meta = bare_meta ''team'' ''wf'' ''uw'',
     spec = \<lparr>wf_project = \<lparr>ref_name = ''p'', ref_uid = ''up''\<rparr>, wf_workflowID = ''w1'', wf_requesterSubject = ''ann'',
       wf_bootstrap = \<lparr>bs_sourceRef = \<lparr>ref_name = '''', ref_uid = ''''\<rparr>, bs_key = '''', bs_expectedDigest = '''',
         bs_contract = \<lparr>contract_name = '''', contract_version = ''''\<rparr>, bs_artifactName = ''''\<rparr>,
       wf_definitionRevision = '''', wf_classification = '''', wf_steps = steps, wf_requestedVolumeSize = '''',
       wf_maxWorkflowAttempt = 3\<rparr>,
     status = \<lparr>wf_phase = PhaseRunning, wf_activeStepName = '''', wf_activeAttemptRef = '''', wf_workflowAttempt = 0,
       wf_observedGeneration = 1, wf_pvcName = '''', wf_workspaceWriterLeaseRef = '''', wf_bootstrapJobRef = '''',
       wf_bootstrapWriterEpoch = 0, wf_bootstrapWriterReleased = False, wf_bootstrapArtifactRef = None,
       wf_refinement = None, wf_conditions = []\<rparr>\<rparr>"

definition approval_flow :: workflow where
  "approval_flow = steps_workflow [demo_step ''gate'' ExecutionKindHumanGate 1, merge_step]"

definition flow_attempt :: "string \<Rightarrow> string \<Rightarrow> execution_kind \<Rightarrow> string \<Rightarrow> resource_phase \<Rightarrow> step_attempt" where
  "flow_attempt n step k kind p = (demo_attempt p)\<lparr>
     meta := (bare_meta ''team'' n (''u-'' @ n))\<lparr>controller_owner := Some (owner_ref_of ''SovereignWorkflow'' (steps_workflow []))\<rparr>,
     spec := (spec (demo_attempt p))\<lparr>sa_stepName := step, sa_kind := k\<rparr>,
     status := (status (demo_attempt p))\<lparr>sa_executionRef := Some \<lparr>tl_apiVersion = group_version, tl_kind = kind, tl_name = n\<rparr>\<rparr>\<rparr>"

definition gate_attempt :: "resource_phase \<Rightarrow> step_attempt" where
  "gate_attempt p = flow_attempt ''gate-1'' ''gate'' ExecutionKindHumanGate ''ApprovalRequest'' p"

definition merge_attempt :: step_attempt where
  "merge_attempt = flow_attempt ''merge-1'' ''merge'' ExecutionKindUtility ''UtilityOperation'' PhasePending"

definition demo_request :: "resource_phase \<Rightarrow> approval_request" where
  "demo_request p = \<lparr>meta = (bare_meta ''team'' ''gate-1'' ''uq'')\<lparr>controller_owner :=
       Some (owner_ref_of ''StepAttempt'' (gate_attempt PhaseRunning))\<rparr>,
     spec = \<lparr>rq_attemptRef = \<lparr>ref_name = ''gate-1'', ref_uid = ''u-gate-1''\<rparr>,
       rq_workflowRef = \<lparr>ref_name = ''wf'', ref_uid = ''uw''\<rparr>, rq_stepName = ''gate'', rq_attempt = 1,
       rq_approval = \<lparr>approval_mode = ''AnyOf'', requiredGroups = [''leads''], denyBehavior = ''Fail''\<rparr>,
       rq_inputs = [demo_input]\<rparr>,
     status = \<lparr>rq_decisionUID = (if p = PhaseSucceeded then ''ud'' else ''''), rq_observedGeneration = 1, rq_phase = p,
       rq_decisionRef = (if p = PhaseSucceeded then ''approval-uq'' else ''''), rq_failureReason = '''', rq_retryable = False,
       rq_startedAt = None, rq_completedAt = (if p = PhaseSucceeded then Some 7 else None), rq_conditions = []\<rparr>\<rparr>"

definition demo_decision :: approval_decision where
  "demo_decision = \<lparr>meta = (bare_meta ''team'' ''approval-uq'' ''ud'')\<lparr>controller_owner :=
       Some (owner_ref_of ''ApprovalRequest'' (demo_request PhaseAwaitingApproval))\<rparr>,
     spec = \<lparr>dec_workflowRef = \<lparr>ref_name = ''wf'', ref_uid = ''uw''\<rparr>,
       dec_stepAttemptRef = \<lparr>ref_name = ''gate-1'', ref_uid = ''u-gate-1''\<rparr>,
       dec_approvalRequestRef = \<lparr>ref_name = ''gate-1'', ref_uid = ''uq''\<rparr>, dec_decision = Approved, dec_reason = ''fine'',
       dec_authoredAt = Some 5, dec_subject = \<lparr>subjectId = ''lea'', subj_email = '''', displayName = '''', subj_provider = '''',
         subj_groups = [''leads'']\<rparr>\<rparr>,
     status = \<lparr>dec_observedGeneration = 0, dec_conditions = []\<rparr>\<rparr>"

definition approval_cluster :: "resource_phase \<Rightarrow> cluster" where
  "approval_cluster p = empty_cluster\<lparr>audit_log := Some [], workflows := [approval_flow],
     step_attempts := [gate_attempt p, merge_attempt], approval_requests := [demo_request p],
     approval_decisions := [demo_decision], artifacts := [demo_artifact]\<rparr>"

subsection \<open>Properties\<close>

text \<open>
  C9: An operation that needs an approval is given one only on authority that the cluster holds:
  the latest attempt of the required gate in the same workflow attempt has succeeded, its request
  is admitted with a decision that says Approved and comes from a member of a required group, and
  the subject of the operation is an accepted artifact, pinned to the very UID and digest that was
  reviewed.
\<close>

theorem resolved_approval_is_authorised:
  assumes "resolve_required_approval sha flow consumer step inputs w = (Inr (Some r), w')"
  shows "\<exists>required. step_requiresApproval step = Some required \<and> authorised w flow consumer required inputs r"
  using assms by (rule resolved_is_authorised)

theorem resolved_approval_is_authorised_witness:
  "\<exists>r. authorised (approval_cluster PhaseSucceeded) approval_flow merge_attempt
     \<lparr>requirement_step = ''gate'', requirement_subject = ''implementation-plan''\<rparr> [demo_input] r"
proof -
  have "(case resolve_required_approval zero_sha approval_flow merge_attempt merge_step [demo_input] (approval_cluster PhaseSucceeded)
      of (Inr (Some r), w) \<Rightarrow> True | _ \<Rightarrow> False)" by code_simp
  then obtain r w where "resolve_required_approval zero_sha approval_flow merge_attempt merge_step [demo_input]
      (approval_cluster PhaseSucceeded) = (Inr (Some r), w)"
    by (auto split: prod.splits sum.splits option.splits)
  from resolved_approval_is_authorised [OF this] show ?thesis by (auto simp: merge_step_def)
qed



text \<open>
  C35: The admission of a decision reaches the audit log in the end: whatever was lost when the
  request was completed, one later reconciliation without faults leaves the admission event in
  the log, keeps every event that was there, and changes nothing else.
\<close>

theorem admission_is_repaired:
  assumes "faults w = []" "audit_log w = Some m"
    and "request_at w (ns, n) = Some request" and "find_by obj_key (ns, name_of d) (approval_decisions w) = Some d"
    and "admissible request d"
    and "\<And>x. find_by obj_key ('''', ns) (namespaces w) = Some x \<Longrightarrow> deletion (meta x) = None"
  shows "\<exists>m'. reconcile_approval_request sha ns n w = (Inr None, w\<lparr>audit_log := Some m'\<rparr>)
    \<and> approval_admission_event_id sha request \<in> ev_id ` set m' \<and> ev_id ` set m \<subseteq> ev_id ` set m'"
  using assms by (rule reconcile_logs_admission)

theorem admission_is_repaired_witness:
  "\<exists>m'. reconcile_approval_request zero_sha ''team'' ''gate-1'' (approval_cluster PhaseSucceeded)
       = (Inr None, (approval_cluster PhaseSucceeded)\<lparr>audit_log := Some m'\<rparr>)
     \<and> approval_admission_event_id zero_sha (demo_request PhaseSucceeded) \<in> ev_id ` set m'"
proof -
  let ?w = "approval_cluster PhaseSucceeded"
  have "\<exists>m'. reconcile_approval_request zero_sha ''team'' ''gate-1'' ?w = (Inr None, ?w\<lparr>audit_log := Some m'\<rparr>)
     \<and> approval_admission_event_id zero_sha (demo_request PhaseSucceeded) \<in> ev_id ` set m' \<and> ev_id ` set ([] :: event list) \<subseteq> ev_id ` set m'"
    by (rule admission_is_repaired [where d = demo_decision and n = "''gate-1''" and ns = "''team''"])
      (simp_all add: approval_cluster_def empty_cluster_def demo_request_def demo_decision_def admissible_def is_terminal_def)
  then show ?thesis by blast
qed

text \<open>The awaiting request is granted, and both events of the decision are recorded.\<close>

lemma demo_request_granted:
  "case reconcile_approval_request (\<lambda>s. s) ''team'' ''gate-1''
      ((approval_cluster PhaseAwaitingApproval)\<lparr>step_attempts := [gate_attempt PhaseRunning],
        workflows := [approval_flow\<lparr>status := (status approval_flow)\<lparr>wf_activeAttemptRef := ''gate-1'',
          wf_activeStepName := ''gate''\<rparr>\<rparr>]\<rparr>) of
     (res, w) \<Rightarrow> res = Inr None \<and> map (\<lambda>a. rq_phase (status a)) (approval_requests w) = [PhaseSucceeded]
       \<and> map_option (map ev_type) (audit_log w) = Some [''ApprovalDecisionSubmitted'', ''ApprovalDecisionAdmitted'']"
  by code_simp

end
