(* ===== verification/Workflow_Inputs.thy ===== *)
theory Workflow_Inputs
  imports Approval
begin

section \<open>Steps, failure decisions and the inputs of a step\<close>

text \<open>
  \<open>internal/controllers/workflow/recovery.go\<close>, \<open>input_selection.go\<close> and the step and name helpers of
  \<open>workflow_controller.go\<close>: what follows a failed step, which accepted artifact each input of a
  step is pinned to, and the names of attempts. Messages of errors are constant tags.
\<close>

subsection \<open>recovery.go\<close>

datatype failure_action = FailureActionRetryStep | FailureActionRetryWorkflow | FailureActionFailWorkflow

record failure_decision =
  fd_action :: failure_action
  fd_restartStep :: string

definition step_failure_policies :: "string \<Rightarrow> failure_decision option" where
  "step_failure_policies name = (if name = ''test-candidate''
     then Some \<lparr>fd_action = FailureActionRetryWorkflow, fd_restartStep = ''test-author''\<rparr> else None)"

definition step_index :: "step_config list \<Rightarrow> string \<Rightarrow> int" where
  "step_index steps name = (case first_index name steps of None \<Rightarrow> - 1 | Some i \<Rightarrow> int i)"

definition retry_step :: failure_decision where
  "retry_step = \<lparr>fd_action = FailureActionRetryStep, fd_restartStep = ''''\<rparr>"

definition decide_failure ::
  "step_config list \<Rightarrow> step_config \<Rightarrow> resource_phase \<Rightarrow> go_error + failure_decision" where
  "decide_failure steps failedStep phase = (case step_failure_policies (step_name failedStep) of
       None \<Rightarrow> Inr retry_step
     | Some decision \<Rightarrow>
         if fd_action decision \<noteq> FailureActionRetryWorkflow then Inr decision
         else if phase \<noteq> PhaseFailed then Inr retry_step
         else (let failedIndex = step_index steps (step_name failedStep);
                   restartIndex = step_index steps (fd_restartStep decision)
               in if failedIndex < 0 then Inl (Invalid ''failed step is not part of the workflow'')
                  else if restartIndex < 0 then Inl (Invalid ''workflow retry target does not exist'')
                  else if restartIndex \<ge> failedIndex then Inl (Invalid ''workflow retry target must precede failed step'')
                  else Inr decision))"

subsection \<open>Steps and names\<close>

definition find_step :: "step_config list \<Rightarrow> string \<Rightarrow> step_config option" where
  "find_step steps name = find (\<lambda>s. step_name s = name) steps"

fun next_step :: "step_config list \<Rightarrow> string \<Rightarrow> step_config option" where
  "next_step [] name = None"
| "next_step [s] name = None"
| "next_step (s # t # ss) name = (if step_name s = name then Some t else next_step (t # ss) name)"

definition zero_pad :: "nat \<Rightarrow> string \<Rightarrow> string" where
  "zero_pad n s = replicate (n - length s) (CHR ''0'') @ s"

text \<open>\<open>fmt.Sprintf("%03d")\<close>: the sign counts for the width.\<close>

definition pad3 :: "int \<Rightarrow> string" where
  "pad3 i = (if i < 0 then CHR ''-'' # zero_pad 2 (show_nat (nat (- i))) else zero_pad 3 (show_nat (nat i)))"

definition trim_byte :: "char \<Rightarrow> string \<Rightarrow> string" where
  "trim_byte c s = rev (dropWhile (\<lambda>d. d = c) (rev (dropWhile (\<lambda>d. d = c) s)))"

definition clean_step_name :: "string \<Rightarrow> string" where
  "clean_step_name step = take 45 (map (\<lambda>c. if c = CHR ''_'' then CHR ''-'' else c) (trim_byte (CHR ''-'') (to_lower step)))"

definition attempt_name :: "string \<Rightarrow> int \<Rightarrow> int \<Rightarrow> string" where
  "attempt_name step workflowAttempt retryNumber =
     clean_step_name step @ ''-w'' @ pad3 workflowAttempt @ ''-r'' @ pad3 retryNumber"

subsection \<open>input_selection.go\<close>

record input_candidate =
  cand_artifact :: artifact
  cand_producerAttemptRef :: string
  cand_workflowAttempt :: int
  cand_retryNumber :: int

definition newer_than :: "input_candidate \<Rightarrow> input_candidate \<Rightarrow> bool" where
  "newer_than c d \<longleftrightarrow> cand_workflowAttempt c > cand_workflowAttempt d
     \<or> cand_workflowAttempt c = cand_workflowAttempt d \<and> cand_retryNumber c > cand_retryNumber d"

text \<open>The map of the workflow's attempts by name; of two of one name the later of the list.\<close>

definition attempt_by_name :: "uid_reference \<Rightarrow> step_attempt list \<Rightarrow> string \<Rightarrow> step_attempt option" where
  "attempt_by_name workflowRef attempts name =
     find (\<lambda>a. sa_workflowRef (spec a) = workflowRef \<and> name_of a = name) (rev attempts)"

definition input_candidate_for ::
  "workflow \<Rightarrow> step_attempt \<Rightarrow> artifact \<Rightarrow> (string \<Rightarrow> step_attempt option) \<Rightarrow> int \<Rightarrow> int \<Rightarrow> bool \<Rightarrow> input_candidate option" where
  "input_candidate_for flow consumer a byName producerIndex restartIndex bootstrap =
     (if bootstrap then (case wf_bootstrapArtifactRef (status flow) of
          None \<Rightarrow> None
        | Some ref \<Rightarrow>
            if name_of a \<noteq> ref_name ref \<or> uid_of a \<noteq> ref_uid ref
               \<or> tl_kind (art_producerRef (spec a)) \<noteq> ''SovereignWorkflow'' \<or> tl_name (art_producerRef (spec a)) \<noteq> name_of flow
            then None
            else Some \<lparr>cand_artifact = a, cand_producerAttemptRef = '''', cand_workflowAttempt = 0, cand_retryNumber = 0\<rparr>)
      else (case byName (tl_name (art_producerRef (spec a))) of
          None \<Rightarrow> None
        | Some producer \<Rightarrow>
            if sa_phase (status producer) \<noteq> PhaseSucceeded
               \<or> sa_stepName (spec producer) \<noteq> step_name (wf_steps (spec flow) ! nat producerIndex)
               \<or> sa_workflowAttempt (spec producer) > sa_workflowAttempt (spec consumer)
            then None
            else if (sa_workflowAttempt (spec consumer) = 0 \<or> producerIndex \<ge> restartIndex)
               \<and> sa_workflowAttempt (spec producer) \<noteq> sa_workflowAttempt (spec consumer)
            then None
            else Some \<lparr>cand_artifact = a, cand_producerAttemptRef = name_of producer,
                   cand_workflowAttempt = sa_workflowAttempt (spec producer),
                   cand_retryNumber = sa_retryNumber (spec producer)\<rparr>))"

fun producer_scan :: "int \<Rightarrow> int \<Rightarrow> step_config list \<Rightarrow> string \<Rightarrow> go_error + int" where
  "producer_scan index producerIndex [] name = Inr producerIndex"
| "producer_scan index producerIndex (s # ss) name =
     (case filter (\<lambda>o'. contract_name o' = name) (step_outputs s) of
        [] \<Rightarrow> producer_scan (index + 1) producerIndex ss name
      | [_] \<Rightarrow> if producerIndex \<ge> 0 then Inl (Invalid ''input artifact has multiple upstream producers'')
              else producer_scan (index + 1) index ss name
      | _ \<Rightarrow> Inl (Invalid ''input artifact has multiple upstream producers''))"

definition workflow_input_producer :: "workflow \<Rightarrow> step_config \<Rightarrow> string \<Rightarrow> go_error + (int \<times> bool)" where
  "workflow_input_producer flow consumer contractName =
     (if contract_name (bs_contract (wf_bootstrap (spec flow))) = contractName then Inr (- 1, True)
      else (let consumerIndex = step_index (wf_steps (spec flow)) (step_name consumer)
            in if consumerIndex < 0 then Inl (Invalid ''consumer step does not exist'')
               else (case producer_scan 0 (- 1) (take (nat consumerIndex) (wf_steps (spec flow))) contractName of
                   Inl e \<Rightarrow> Inl e
                 | Inr producerIndex \<Rightarrow> Inr (producerIndex, False))))"

definition artifact_requested :: "uid_reference \<Rightarrow> artifact_reference \<Rightarrow> artifact \<Rightarrow> bool" where
  "artifact_requested workflowRef requested a \<longleftrightarrow> art_workflowRef (spec a) = workflowRef
     \<and> contract_name (art_contract (spec a)) = ar_name requested
     \<and> (case ar_artifactRef requested of None \<Rightarrow> True | Some pin \<Rightarrow> name_of a = ref_name pin \<and> uid_of a = ref_uid pin)
     \<and> (ar_producerAttemptRef requested = '''' \<or> tl_name (art_producerRef (spec a)) = ar_producerAttemptRef requested)
     \<and> (ar_digest requested = '''' \<or> art_digest (spec a) = ar_digest requested)"

record selection =
  sel_best :: "input_candidate option"
  sel_pending :: bool
  sel_rejected :: bool

text \<open>One artifact of the list, already requested.\<close>

definition select_step :: "(artifact \<Rightarrow> input_candidate option) \<Rightarrow> artifact \<Rightarrow> selection \<Rightarrow> go_error + selection" where
  "select_step eligible a s = (case eligible a of
       None \<Rightarrow> Inr s
     | Some c \<Rightarrow>
         if artifact_accepted a then (case sel_best s of
             None \<Rightarrow> Inr (s\<lparr>sel_best := Some c\<rparr>)
           | Some b \<Rightarrow>
               if cand_workflowAttempt c = cand_workflowAttempt b \<and> cand_retryNumber c = cand_retryNumber b
               then Inl (Invalid ''input artifact has multiple accepted artifacts'')
               else Inr (if newer_than c b then s\<lparr>sel_best := Some c\<rparr> else s))
         else if art_phase (status a) = PhaseFailed then Inr (s\<lparr>sel_rejected := True\<rparr>)
         else Inr (s\<lparr>sel_pending := True\<rparr>))"

fun select_loop :: "(artifact \<Rightarrow> input_candidate option) \<Rightarrow> artifact list \<Rightarrow> selection \<Rightarrow> go_error + selection" where
  "select_loop eligible [] s = Inr s"
| "select_loop eligible (a # as) s = (case select_step eligible a s of
       Inl e \<Rightarrow> Inl e | Inr s' \<Rightarrow> select_loop eligible as s')"

definition select_input :: "artifact_reference \<Rightarrow> (artifact \<Rightarrow> input_candidate option) \<Rightarrow> artifact list \<Rightarrow> go_error + artifact_reference" where
  "select_input requested eligible candidates =
     (case select_loop eligible candidates \<lparr>sel_best = None, sel_pending = False, sel_rejected = False\<rparr> of
        Inl e \<Rightarrow> Inl e
      | Inr s \<Rightarrow> (case sel_best s of
            None \<Rightarrow> Inl (Invalid (if sel_pending s then ''input artifact is not accepted yet''
                else if sel_rejected s then ''input artifact was rejected'' else ''no eligible accepted artifact''))
          | Some c \<Rightarrow>
              if uid_of (cand_artifact c) = '''' then Inl (Invalid ''input artifact has no Kubernetes UID'')
              else Inr \<lparr>ar_name = ar_name requested, ar_digest = art_digest (spec (cand_artifact c)),
                 ar_artifactRef = Some \<lparr>ref_name = name_of (cand_artifact c), ref_uid = uid_of (cand_artifact c)\<rparr>,
                 ar_producerAttemptRef = cand_producerAttemptRef c\<rparr>))"

definition execution_kinds :: "string list" where
  "execution_kinds = [''SovereignWorkflow'', ''StepAttempt'', ''AgentRun'', ''UtilityOperation'', ''ValidationRun'', ''ApprovalRequest'']"

definition import_input :: "workflow \<Rightarrow> step_attempt \<Rightarrow> artifact_reference \<Rightarrow> artifact_reference action" where
  "import_input flow consumer requested =
     (if (case ar_artifactRef requested of None \<Rightarrow> True | Some pin \<Rightarrow> ref_name pin = '''' \<or> ref_uid pin = '''')
         \<or> ar_digest requested = '''' \<or> ar_producerAttemptRef requested \<noteq> ''''
      then raise (Invalid ''input artifact has no upstream producer'')
      else bind_io (resolve_pinned_input (namespace_of flow) (sa_workflowRef (spec consumer)) requested) (\<lambda>res. case res of
          Rejected _ \<Rightarrow> raise (Invalid ''invalid imported input'')
        | Unready \<Rightarrow> raise (Invalid ''imported input is not accepted yet'')
        | Resolved a \<Rightarrow>
            if List.member execution_kinds (tl_kind (art_producerRef (spec a)))
            then raise (Invalid ''input cannot import an artifact from a workflow execution primitive'')
            else ret requested))"

definition restart_index :: "workflow \<Rightarrow> step_attempt \<Rightarrow> go_error + int" where
  "restart_index flow consumer =
     (if sa_workflowAttempt (spec consumer) \<le> 0 then Inr (- 1)
      else (case wf_refinement (status flow) of
          None \<Rightarrow> Inl (Invalid ''workflow attempt has no matching refinement lineage'')
        | Some r \<Rightarrow>
            if ref_iteration r \<noteq> sa_workflowAttempt (spec consumer)
            then Inl (Invalid ''workflow attempt has no matching refinement lineage'')
            else (let i = step_index (wf_steps (spec flow)) (ref_restartStepName r)
                  in if i < 0 then Inl (Invalid ''workflow retry target does not exist'') else Inr i)))"

definition resolve_one ::
  "workflow \<Rightarrow> step_attempt \<Rightarrow> step_config \<Rightarrow> artifact list \<Rightarrow> step_attempt list \<Rightarrow> int \<Rightarrow> artifact_reference \<Rightarrow> artifact_reference action" where
  "resolve_one flow consumer step arts attempts restartIndex requested =
     (case workflow_input_producer flow step (ar_name requested) of
        Inl e \<Rightarrow> raise e
      | Inr (producerIndex, bootstrap) \<Rightarrow>
          if producerIndex < 0 \<and> \<not> bootstrap then import_input flow consumer requested
          else from_sum (select_input requested
             (\<lambda>a. input_candidate_for flow consumer a (attempt_by_name (sa_workflowRef (spec consumer)) attempts)
                producerIndex restartIndex bootstrap)
             (filter (artifact_requested (sa_workflowRef (spec consumer)) requested) arts)))"

fun resolve_all ::
  "(artifact_reference \<Rightarrow> artifact_reference action) \<Rightarrow> string list \<Rightarrow> artifact_reference list \<Rightarrow> artifact_reference list action" where
  "resolve_all one seen [] = ret []"
| "resolve_all one seen (requested # rest) =
     (if ar_name requested = '''' then raise (Invalid ''step has an input with an empty artifact name'')
      else if List.member seen (ar_name requested) then raise (Invalid ''step declares input artifact more than once'')
      else bind_io (one requested) (\<lambda>r. bind_io (resolve_all one (ar_name requested # seen) rest) (\<lambda>rs. ret (r # rs))))"

definition resolve_step_inputs :: "workflow \<Rightarrow> step_attempt \<Rightarrow> step_config \<Rightarrow> artifact_reference list action" where
  "resolve_step_inputs flow consumer step =
     (if step_inputs step = [] then ret []
      else bind_io (k_list Artifacts (namespace_of flow)) (\<lambda>arts.
        bind_io (k_list StepAttempts (namespace_of flow)) (\<lambda>attempts.
        bind_io (from_sum (restart_index flow consumer)) (\<lambda>restartIndex.
          resolve_all (resolve_one flow consumer step arts attempts restartIndex) [] (step_inputs step)))))"

subsection \<open>Names determine attempts\<close>

lemma digits_value_zeros: "digits_value (replicate n (CHR ''0'') @ s) = digits_value s"
  by (induction n) (simp_all add: digits_value_def)

lemma pad3_inject: "0 \<le> a \<Longrightarrow> 0 \<le> b \<Longrightarrow> pad3 a = pad3 b \<Longrightarrow> a = b"
  using digits_value_zeros digits_value_show by (metis eq_nat_nat_iff not_less pad3_def zero_pad_def)

lemma pad3_digits: "0 \<le> i \<Longrightarrow> c \<in> set (pad3 i) \<Longrightarrow> is_digit c"
  using show_nat_digits [of c "nat i"] by (auto simp: pad3_def zero_pad_def is_digit_def byte_in_def)

lemma last_mark_split:
  assumes "A @ c # D = B @ c # E" "c \<notin> set D" "c \<notin> set E"
  shows "A = B \<and> D = E"
proof -
  have "takeWhile (\<lambda>x. x \<noteq> c) (rev (X @ c # F)) = rev F" if "c \<notin> set F" for X F
    using that by (subst rev_append) (auto simp: takeWhile_append)
  then have "D = E" using assms by (metis rev_rev_ident)
  with assms(1) show ?thesis by simp
qed

lemma digit_not_letter: "\<not> is_digit (CHR ''r'')" "\<not> is_digit (CHR ''w'')"
  by (simp_all add: is_digit_def byte_in_def)

lemma attempt_name_determines:
  assumes "attempt_name s w r = attempt_name s' w' r'" "0 \<le> w" "0 \<le> r" "0 \<le> w'" "0 \<le> r'"
  shows "w = w' \<and> r = r' \<and> clean_step_name s = clean_step_name s'"
proof -
  have mark: "CHR ''r'' \<notin> set (pad3 i)" "CHR ''w'' \<notin> set (pad3 i)" if "0 \<le> i" for i
    using pad3_digits [OF that] digit_not_letter by metis+
  have "(clean_step_name s @ ''-w'' @ pad3 w @ ''-'') @ CHR ''r'' # pad3 r
      = (clean_step_name s' @ ''-w'' @ pad3 w' @ ''-'') @ CHR ''r'' # pad3 r'"
    using assms(1) by (simp add: attempt_name_def)
  note halves = last_mark_split [OF this mark(1) [OF assms(3)] mark(1) [OF assms(5)]]
  then have r: "pad3 r = pad3 r'" ..
  from halves have "(clean_step_name s @ ''-'') @ CHR ''w'' # pad3 w = (clean_step_name s' @ ''-'') @ CHR ''w'' # pad3 w'"
    by simp
  note parts = last_mark_split [OF this mark(2) [OF assms(2)] mark(2) [OF assms(4)]]
  then have "pad3 w = pad3 w'" "clean_step_name s = clean_step_name s'" by simp_all
  with pad3_inject [OF assms(3,5) r] pad3_inject [OF assms(2,4)] show ?thesis by simp
qed

text \<open>A DNS label of at most 45 bytes in lower case is its own clean name.\<close>

lemma trim_byte_id: "s = [] \<or> hd s \<noteq> c \<and> last s \<noteq> c \<Longrightarrow> trim_byte c s = s"
proof (cases "s = []")
  case False
  moreover assume "s = [] \<or> hd s \<noteq> c \<and> last s \<noteq> c"
  ultimately have "dropWhile (\<lambda>d. d = c) s = s" "dropWhile (\<lambda>d. d = c) (rev s) = rev s"
    by (simp_all add: dropWhile_eq_self_iff hd_rev)
  then show ?thesis by (simp add: trim_byte_def)
qed (simp add: trim_byte_def)

definition step_label :: "string \<Rightarrow> bool" where
  "step_label s \<longleftrightarrow> s \<noteq> [] \<and> length s \<le> 45 \<and> hd s \<noteq> CHR ''-'' \<and> last s \<noteq> CHR ''-''
     \<and> list_all (\<lambda>c. is_lower c \<or> is_digit c \<or> c = CHR ''-'') s"

lemma clean_step_label: "step_label s \<Longrightarrow> clean_step_name s = s"
proof -
  assume s: "step_label s"
  have same: "ascii_lower c = c \<and> c \<noteq> CHR ''_''" if "is_lower c \<or> is_digit c \<or> c = CHR ''-''" for c
    using that by (auto simp: ascii_lower_def is_upper_def is_lower_def is_digit_def byte_in_def)
  have all: "is_lower c \<or> is_digit c \<or> c = CHR ''-''" if "c \<in> set s" for c
    using s that by (simp add: step_label_def list_all_iff)
  have "to_lower s = s" unfolding to_lower_def by (rule map_idI) (use same all in blast)
  moreover have "map (\<lambda>c. if c = CHR ''_'' then CHR ''-'' else c) s = s" by (rule map_idI) (use same all in auto)
  ultimately show ?thesis using s by (simp add: clean_step_name_def trim_byte_id step_label_def)
qed

subsection \<open>What a failure decides\<close>

lemma first_index_less: "first_index name steps = Some i \<Longrightarrow> i < length steps \<and> step_name (steps ! i) = name"
proof -
  assume *: "first_index name steps = Some i"
  then have i: "i = length (takeWhile (\<lambda>s. step_name s \<noteq> name) steps)" "i < length steps"
    by (auto simp: first_index_def Let_def split: if_splits)
  with nth_length_takeWhile [of "\<lambda>s. step_name s \<noteq> name" steps] show ?thesis by auto
qed

lemma first_index_before:
  assumes "first_index name steps = Some i" "j < i" shows "step_name (steps ! j) \<noteq> name"
proof -
  from assms have j: "j < length (takeWhile (\<lambda>s. step_name s \<noteq> name) steps)"
    by (auto simp: first_index_def Let_def split: if_splits)
  from nth_mem [OF j] set_takeWhileD show ?thesis by (metis (mono_tags, lifting) j takeWhile_nth)
qed

lemma step_index_nonneg:
  "0 \<le> step_index steps name \<Longrightarrow> nat (step_index steps name) < length steps
   \<and> step_name (steps ! nat (step_index steps name)) = name"
  by (auto simp: step_index_def dest: first_index_less split: option.splits)

lemma rewind_goes_back:
  assumes "decide_failure steps failed phase = Inr d" "fd_action d = FailureActionRetryWorkflow"
  shows "phase = PhaseFailed \<and> 0 \<le> step_index steps (fd_restartStep d)
    \<and> step_index steps (fd_restartStep d) < step_index steps (step_name failed)"
  using assms by (auto simp: decide_failure_def retry_step_def Let_def split: option.splits if_splits)

subsection \<open>What an input is pinned to\<close>

lemma newer_than_trans: "newer_than a b \<Longrightarrow> newer_than b c \<Longrightarrow> newer_than a c"
  by (auto simp: newer_than_def)

lemma newer_than_total:
  "\<not> (cand_workflowAttempt c = cand_workflowAttempt d \<and> cand_retryNumber c = cand_retryNumber d) \<Longrightarrow> newer_than c d \<or> newer_than d c"
  by (auto simp: newer_than_def)

lemma select_loop_best:
  "select_loop eligible as s = Inr s' \<Longrightarrow> sel_best s' = Some c \<Longrightarrow>
     (sel_best s = Some c \<or> (\<exists>a \<in> set as. eligible a = Some c \<and> artifact_accepted a))
   \<and> (\<forall>d. sel_best s = Some d \<longrightarrow> d = c \<or> newer_than c d)
   \<and> (\<forall>a \<in> set as. \<forall>d. eligible a = Some d \<and> artifact_accepted a \<longrightarrow> d = c \<or> newer_than c d)"
proof (induction as arbitrary: s)
  case Nil
  then show ?case by simp
next
  case (Cons a as)
  then obtain t where step: "select_step eligible a s = Inr t" and rest: "select_loop eligible as t = Inr s'"
    by (auto split: sum.splits)
  note IH = Cons.IH [OF rest Cons.prems(2)]
  show ?case
  proof (cases "\<exists>d. eligible a = Some d \<and> artifact_accepted a")
    case False
    then have "sel_best t = sel_best s"
      using step by (auto simp: select_step_def split: option.splits if_splits)
    with IH False show ?thesis by auto
  next
    case True
    then obtain d where d: "eligible a = Some d" "artifact_accepted a" by blast
    show ?thesis
    proof (cases "sel_best s")
      case None
      then have "sel_best t = Some d" using step d by (auto simp: select_step_def)
      with IH d None show ?thesis by auto
    next
      case (Some b)
      with step d have "newer_than d b \<and> sel_best t = Some d \<or> newer_than b d \<and> sel_best t = Some b"
        using newer_than_total [of d b] by (auto simp: select_step_def split: if_splits)
      with IH d Some show ?thesis by (auto intro: newer_than_trans)
    qed
  qed
qed

definition produces :: "step_config \<Rightarrow> string \<Rightarrow> bool" where
  "produces s name \<longleftrightarrow> (\<exists>c \<in> set (step_outputs s). contract_name c = name)"

lemma produces_filter: "filter (\<lambda>c. contract_name c = name) (step_outputs s) = [] \<longleftrightarrow> \<not> produces s name"
  by (auto simp: produces_def filter_empty_conv)

lemma producer_scan_result:
  "producer_scan i p ss name = Inr q \<Longrightarrow> 0 \<le> i \<Longrightarrow>
     q = p \<and> (\<forall>s \<in> set ss. \<not> produces s name)
   \<or> p < 0 \<and> (\<exists>k < length ss. q = i + int k \<and> produces (ss ! k) name \<and> (\<forall>m < length ss. produces (ss ! m) name \<longrightarrow> m = k))"
proof (induction ss arbitrary: i p)
  case Nil
  then show ?case by simp
next
  case (Cons s ss)
  let ?goal = "\<lambda>k. p < 0 \<and> k < length (s # ss) \<and> q = i + int k \<and> produces ((s # ss) ! k) name
    \<and> (\<forall>m < length (s # ss). produces ((s # ss) ! m) name \<longrightarrow> m = k)"
  from Cons.prems(2) have i1: "0 \<le> i + 1" by simp
  consider (none) "\<not> produces s name" "producer_scan (i + 1) p ss name = Inr q"
    | (one) "produces s name" "p < 0" "producer_scan (i + 1) i ss name = Inr q"
  proof (cases "filter (\<lambda>c. contract_name c = name) (step_outputs s)")
    case Nil
    with Cons.prems(1) have "producer_scan (i + 1) p ss name = Inr q" by simp
    with Nil produces_filter [of name s] that(1) show thesis by simp
  next
    case (Cons x xs)
    with Cons.prems(1) have "p < 0 \<and> producer_scan (i + 1) i ss name = Inr q" by (simp split: list.splits if_splits)
    with Cons produces_filter [of name s] that(2) show thesis by simp
  qed
  then show ?case
  proof cases
    case none
    show ?thesis
    proof (cases "q = p \<and> (\<forall>s \<in> set ss. \<not> produces s name)")
      case True
      with none(1) have "q = p \<and> (\<forall>t \<in> set (s # ss). \<not> produces t name)" by simp
      then show ?thesis ..
    next
      case False
      with Cons.IH [OF none(2) i1] obtain k where k: "p < 0" "k < length ss" "q = i + 1 + int k" "produces (ss ! k) name"
        "\<And>m. m < length ss \<Longrightarrow> produces (ss ! m) name \<Longrightarrow> m = k" by blast
      have only: "m = Suc k" if "m < length (s # ss)" "produces ((s # ss) ! m) name" for m
        using that none(1) k(5) by (cases m) auto
      have "?goal (Suc k)" by (intro conjI allI impI) (use k(1-4) only in simp_all)
      then show ?thesis by blast
    qed
  next
    case one
    from Cons.IH [OF one(3) i1] Cons.prems(2) have q: "q = i" "\<forall>s \<in> set ss. \<not> produces s name" by simp_all
    have only: "m = 0" if "m < length (s # ss)" "produces ((s # ss) ! m) name" for m
      using that q(2) by (cases m) auto
    have "?goal 0" by (intro conjI allI impI) (use one q(1) only in simp_all)
    then show ?thesis by blast
  qed
qed

text \<open>The one step before the consumer that produces a contract.\<close>

definition upstream_producer :: "workflow \<Rightarrow> step_config \<Rightarrow> string \<Rightarrow> nat \<Rightarrow> bool" where
  "upstream_producer flow step name j \<longleftrightarrow> int j < step_index (wf_steps (spec flow)) (step_name step)
     \<and> produces (wf_steps (spec flow) ! j) name
     \<and> (\<forall>m. int m < step_index (wf_steps (spec flow)) (step_name step) \<and> produces (wf_steps (spec flow) ! m) name \<longrightarrow> m = j)"

lemma input_producer_result:
  assumes "workflow_input_producer flow step name = Inr (i, b)"
  shows "b \<and> i = - 1 \<or> \<not> b \<and> (i < 0 \<or> upstream_producer flow step name (nat i))"
proof (cases "contract_name (bs_contract (wf_bootstrap (spec flow))) = name")
  case True
  then show ?thesis using assms by (simp add: workflow_input_producer_def)
next
  case False
  let ?steps = "wf_steps (spec flow)"
  let ?c = "step_index ?steps (step_name step)"
  from False assms have c: "0 \<le> ?c" and b: "\<not> b" and scan: "producer_scan 0 (- 1) (take (nat ?c) ?steps) name = Inr i"
    unfolding workflow_input_producer_def Let_def if_not_P [OF False] by (simp_all split: if_splits sum.splits)
  from c have len: "length (take (nat ?c) ?steps) = nat ?c" using step_index_nonneg [of ?steps] by simp
  show ?thesis
  proof (cases "i = - 1")
    case True
    then show ?thesis using b by simp
  next
    case False
    with producer_scan_result [OF scan order_refl] obtain k where k: "k < nat ?c" "i = 0 + int k"
      "produces (take (nat ?c) ?steps ! k) name"
      "\<And>m. m < nat ?c \<Longrightarrow> produces (take (nat ?c) ?steps ! m) name \<Longrightarrow> m = k"
      unfolding len by blast
    have only: "m = k" if "int m < ?c" "produces (?steps ! m) name" for m
      using k(4) [of m] that by simp
    have "upstream_producer flow step name k" unfolding upstream_producer_def
      by (intro conjI allI impI) (use k(1-3) only in auto)
    then show ?thesis using b k(2) by simp
  qed
qed

definition attempts_in :: "cluster \<Rightarrow> string \<Rightarrow> step_attempt list" where
  "attempts_in w ns = filter (\<lambda>b. namespace_of b = ns) (step_attempts w)"

text \<open>
  The attempt that produced an artifact, where its result may be used: a succeeded attempt of
  the producing step, of this iteration of the workflow, or, for a step before the restart
  point, of an earlier one.
\<close>

definition usable_producer :: "cluster \<Rightarrow> workflow \<Rightarrow> step_attempt \<Rightarrow> nat \<Rightarrow> artifact \<Rightarrow> step_attempt \<Rightarrow> bool" where
  "usable_producer w flow consumer j a p \<longleftrightarrow>
     attempt_by_name (sa_workflowRef (spec consumer)) (attempts_in w (namespace_of flow)) (tl_name (art_producerRef (spec a))) = Some p
     \<and> sa_phase (status p) = PhaseSucceeded \<and> sa_stepName (spec p) = step_name (wf_steps (spec flow) ! j)
     \<and> (sa_workflowAttempt (spec p) = sa_workflowAttempt (spec consumer)
        \<or> sa_workflowAttempt (spec p) < sa_workflowAttempt (spec consumer) \<and> sa_workflowAttempt (spec consumer) \<noteq> 0
          \<and> (\<exists>i. restart_index flow consumer = Inr i \<and> int j < i))"

definition available :: "cluster \<Rightarrow> workflow \<Rightarrow> step_attempt \<Rightarrow> artifact_reference \<Rightarrow> artifact \<Rightarrow> bool" where
  "available w flow consumer requested a \<longleftrightarrow> a \<in> set (artifacts w) \<and> namespace_of a = namespace_of flow
     \<and> artifact_accepted a \<and> artifact_requested (sa_workflowRef (spec consumer)) requested a"

definition imported :: "artifact_reference \<Rightarrow> artifact_reference \<Rightarrow> artifact \<Rightarrow> bool" where
  "imported requested r a \<longleftrightarrow> r = requested \<and> tl_kind (art_producerRef (spec a)) \<notin> set execution_kinds"

definition bootstrapped :: "workflow \<Rightarrow> artifact \<Rightarrow> bool" where
  "bootstrapped flow a \<longleftrightarrow> wf_bootstrapArtifactRef (status flow) = Some \<lparr>ref_name = name_of a, ref_uid = uid_of a\<rparr>"

definition latest_result :: "cluster \<Rightarrow> workflow \<Rightarrow> step_attempt \<Rightarrow> artifact_reference \<Rightarrow> nat \<Rightarrow> artifact \<Rightarrow> step_attempt \<Rightarrow> bool" where
  "latest_result w flow consumer requested j a p \<longleftrightarrow> usable_producer w flow consumer j a p
     \<and> (\<forall>b q. available w flow consumer requested b \<and> usable_producer w flow consumer j b q \<longrightarrow> b = a
          \<or> sa_workflowAttempt (spec q) < sa_workflowAttempt (spec p)
          \<or> sa_workflowAttempt (spec q) = sa_workflowAttempt (spec p) \<and> sa_retryNumber (spec q) < sa_retryNumber (spec p))"

definition input_pinned :: "cluster \<Rightarrow> workflow \<Rightarrow> step_attempt \<Rightarrow> step_config \<Rightarrow> artifact_reference \<Rightarrow> artifact_reference \<Rightarrow> bool" where
  "input_pinned w flow consumer step requested r \<longleftrightarrow> ar_name r = ar_name requested
     \<and> (\<exists>a. available w flow consumer requested a \<and> ar_digest r = art_digest (spec a)
         \<and> ar_artifactRef r = Some \<lparr>ref_name = name_of a, ref_uid = uid_of a\<rparr>
         \<and> (imported requested r a \<or> bootstrapped flow a
            \<or> (\<exists>j p. upstream_producer flow step (ar_name requested) j \<and> latest_result w flow consumer requested j a p)))"

lemma produced_candidate:
  assumes "restart_index flow consumer = Inr i" "0 \<le> k" "0 \<le> sa_workflowAttempt (spec consumer)"
  shows "input_candidate_for flow consumer a (attempt_by_name (sa_workflowRef (spec consumer)) (attempts_in w (namespace_of flow))) k i False = Some c
    \<longleftrightarrow> (\<exists>p. usable_producer w flow consumer (nat k) a p \<and> c = \<lparr>cand_artifact = a, cand_producerAttemptRef = name_of p,
        cand_workflowAttempt = sa_workflowAttempt (spec p), cand_retryNumber = sa_retryNumber (spec p)\<rparr>)"
  using assms by (auto simp: input_candidate_for_def usable_producer_def split: option.splits)

lemma selected_latest:
  assumes sel: "select_input requested (\<lambda>a. input_candidate_for flow consumer a
        (attempt_by_name (sa_workflowRef (spec consumer)) (attempts_in w (namespace_of flow))) k i False)
      (filter (artifact_requested (sa_workflowRef (spec consumer)) requested) (filter (\<lambda>b. namespace_of b = namespace_of flow) (artifacts w))) = Inr r"
    and i: "restart_index flow consumer = Inr i" "0 \<le> k" "0 \<le> sa_workflowAttempt (spec consumer)"
    and up: "upstream_producer flow step (ar_name requested) (nat k)"
  shows "input_pinned w flow consumer step requested r"
proof -
  let ?el = "\<lambda>a. input_candidate_for flow consumer a
        (attempt_by_name (sa_workflowRef (spec consumer)) (attempts_in w (namespace_of flow))) k i False"
  let ?cs = "filter (artifact_requested (sa_workflowRef (spec consumer)) requested) (filter (\<lambda>b. namespace_of b = namespace_of flow) (artifacts w))"
  from sel obtain s c where loop: "select_loop ?el ?cs \<lparr>sel_best = None, sel_pending = False, sel_rejected = False\<rparr> = Inr s"
    and c: "sel_best s = Some c" and r: "r = \<lparr>ar_name = ar_name requested, ar_digest = art_digest (spec (cand_artifact c)),
                 ar_artifactRef = Some \<lparr>ref_name = name_of (cand_artifact c), ref_uid = uid_of (cand_artifact c)\<rparr>,
                 ar_producerAttemptRef = cand_producerAttemptRef c\<rparr>"
    by (auto simp: select_input_def split: sum.splits option.splits if_splits)
  from select_loop_best [OF loop c] obtain a where a: "a \<in> set ?cs" "?el a = Some c" "artifact_accepted a"
    and best: "\<forall>b \<in> set ?cs. \<forall>d. ?el b = Some d \<and> artifact_accepted b \<longrightarrow> d = c \<or> newer_than c d" by auto
  from a(2) obtain p where p: "usable_producer w flow consumer (nat k) a p"
    and cp: "c = \<lparr>cand_artifact = a, cand_producerAttemptRef = name_of p,
        cand_workflowAttempt = sa_workflowAttempt (spec p), cand_retryNumber = sa_retryNumber (spec p)\<rparr>"
    unfolding produced_candidate [OF i] by blast
  have "available w flow consumer requested a" using a(1,3) by (simp add: available_def)
  moreover have "latest_result w flow consumer requested (nat k) a p" unfolding latest_result_def
  proof (intro conjI allI impI)
    fix b q assume *: "available w flow consumer requested b \<and> usable_producer w flow consumer (nat k) b q"
    let ?d = "\<lparr>cand_artifact = b, cand_producerAttemptRef = name_of q,
        cand_workflowAttempt = sa_workflowAttempt (spec q), cand_retryNumber = sa_retryNumber (spec q)\<rparr>"
    have "?el b = Some ?d" using * unfolding produced_candidate [OF i] by blast
    moreover have "b \<in> set ?cs" "artifact_accepted b" using * by (simp_all add: available_def)
    ultimately have "?d = c \<or> newer_than c ?d" using best by blast
    then show "b = a \<or> sa_workflowAttempt (spec q) < sa_workflowAttempt (spec p)
        \<or> sa_workflowAttempt (spec q) = sa_workflowAttempt (spec p) \<and> sa_retryNumber (spec q) < sa_retryNumber (spec p)"
      unfolding cp newer_than_def by auto
  qed (rule p)
  ultimately show ?thesis using up unfolding input_pinned_def r cp by auto
qed

lemma selected_bootstrap:
  assumes sel: "select_input requested (\<lambda>a. input_candidate_for flow consumer a byName k i True)
      (filter (artifact_requested (sa_workflowRef (spec consumer)) requested) (filter (\<lambda>b. namespace_of b = namespace_of flow) (artifacts w))) = Inr r"
  shows "input_pinned w flow consumer step requested r"
proof -
  let ?el = "\<lambda>a. input_candidate_for flow consumer a byName k i True"
  let ?cs = "filter (artifact_requested (sa_workflowRef (spec consumer)) requested) (filter (\<lambda>b. namespace_of b = namespace_of flow) (artifacts w))"
  from sel obtain s c where loop: "select_loop ?el ?cs \<lparr>sel_best = None, sel_pending = False, sel_rejected = False\<rparr> = Inr s"
    and c: "sel_best s = Some c" and r: "r = \<lparr>ar_name = ar_name requested, ar_digest = art_digest (spec (cand_artifact c)),
                 ar_artifactRef = Some \<lparr>ref_name = name_of (cand_artifact c), ref_uid = uid_of (cand_artifact c)\<rparr>,
                 ar_producerAttemptRef = cand_producerAttemptRef c\<rparr>"
    by (auto simp: select_input_def split: sum.splits option.splits if_splits)
  from select_loop_best [OF loop c] obtain a where a: "a \<in> set ?cs" "?el a = Some c" "artifact_accepted a" by auto
  from a(2) have "bootstrapped flow a" "cand_artifact c = a"
    by (auto simp: input_candidate_for_def bootstrapped_def split: option.splits if_splits)
  moreover have "available w flow consumer requested a" using a(1,3) by (simp add: available_def)
  ultimately show ?thesis unfolding input_pinned_def r by auto
qed

lemma keeps_pinned:
  assumes "\<And>fs w. I w \<Longrightarrow> I (w\<lparr>faults := fs\<rparr>)"
  shows "keeps I (resolve_pinned_input ns workflowRef input)"
  unfolding resolve_pinned_input_def by (intro triple_intros keeps_get assms)

lemma keeps_from_sum [triple_intros]: "keeps I (from_sum r)"
  by (cases r) (simp_all add: from_sum_def triple_def ret_def raise_def)

lemma keeps_resolve_one:
  assumes "\<And>fs w. I w \<Longrightarrow> I (w\<lparr>faults := fs\<rparr>)"
  shows "keeps I (resolve_one flow consumer step arts attempts i requested)"
  unfolding resolve_one_def import_input_def
  by (auto intro!: triple_intros keeps_pinned assms split: resolution.split)

lemma keeps_resolve_all:
  assumes "\<And>r. keeps I (one r)"
  shows "keeps I (resolve_all one seen rs)"
  by (induction rs arbitrary: seen) (auto intro!: triple_intros assms)

lemma keeps_step_inputs:
  assumes "\<And>fs w. I w \<Longrightarrow> I (w\<lparr>faults := fs\<rparr>)"
  shows "keeps I (resolve_step_inputs flow consumer step)"
  unfolding resolve_step_inputs_def
  by (intro triple_intros keeps_list keeps_resolve_all keeps_resolve_one assms)

lemma same_input_pinned:
  "same_objects w v \<Longrightarrow> input_pinned v flow consumer step requested r = input_pinned w flow consumer step requested r"
  by (simp add: input_pinned_def available_def latest_result_def usable_producer_def attempts_in_def same_objects_def)

lemma import_result:
  assumes "import_input flow consumer requested w = (Inr r, w')"
  shows "input_pinned w flow consumer step requested r"
proof -
  from assms obtain pin where pin: "ar_artifactRef requested = Some pin"
    and blank: "ar_producerAttemptRef requested = ''''" "ar_digest requested \<noteq> ''''"
    by (auto simp: import_input_def raise_def split: option.splits if_splits)
  with assms obtain a v where res: "resolve_pinned_input (namespace_of flow) (sa_workflowRef (spec consumer)) requested w
      = (Inr (Resolved a), v)" and kind: "\<not> List.member execution_kinds (tl_kind (art_producerRef (spec a)))" and r: "r = requested"
    by (auto simp: import_input_def raise_def [of "Invalid x" for x] ret_def elim!: bind_io_result
        split: if_splits resolution.splits)
  from pinned_resolved(1) [OF res pin] pin blank kind r show ?thesis
    by (auto simp: input_pinned_def selected_artifact_def available_def artifact_requested_def imported_def)
qed

lemma one_input_pinned:
  assumes one: "resolve_one flow consumer step (filter (\<lambda>b. namespace_of b = namespace_of flow) (artifacts w))
      (attempts_in w (namespace_of flow)) i requested v = (Inr r, v')"
    and i: "restart_index flow consumer = Inr i" and nonneg: "0 \<le> sa_workflowAttempt (spec consumer)" and same: "same_objects w v"
  shows "input_pinned w flow consumer step requested r"
proof -
  from one obtain k b where producer: "workflow_input_producer flow step (ar_name requested) = Inr (k, b)"
    and rest: "(if k < 0 \<and> \<not> b then import_input flow consumer requested
          else from_sum (select_input requested
             (\<lambda>a. input_candidate_for flow consumer a (attempt_by_name (sa_workflowRef (spec consumer)) (attempts_in w (namespace_of flow)))
                k i b)
             (filter (artifact_requested (sa_workflowRef (spec consumer)) requested)
                (filter (\<lambda>b. namespace_of b = namespace_of flow) (artifacts w))))) v = (Inr r, v')"
    by (auto simp: resolve_one_def raise_def split: sum.splits)
  show ?thesis
  proof (cases "k < 0 \<and> \<not> b")
    case True
    with rest have "import_input flow consumer requested v = (Inr r, v')" by simp
    from import_result [OF this] show ?thesis by (simp add: same_input_pinned [OF same])
  next
    case False
    note from_sum_result [OF rest [unfolded if_not_P [OF False]]]
    then have sel: "select_input requested
             (\<lambda>a. input_candidate_for flow consumer a (attempt_by_name (sa_workflowRef (spec consumer)) (attempts_in w (namespace_of flow)))
                k i b)
             (filter (artifact_requested (sa_workflowRef (spec consumer)) requested)
                (filter (\<lambda>b. namespace_of b = namespace_of flow) (artifacts w))) = Inr r"
      by (rule conjunct1)
    show ?thesis
    proof (cases b)
      case True
      show ?thesis by (rule selected_bootstrap [OF sel [unfolded eqTrueI [OF True]]])
    next
      case b: False
      with False have k: "0 \<le> k" by simp
      with input_producer_result [OF producer] b have up: "upstream_producer flow step (ar_name requested) (nat k)" by auto
      from b have "b = False" by simp
      from selected_latest [OF sel [unfolded this] i k nonneg up] show ?thesis .
    qed
  qed
qed

lemma all_inputs_pinned:
  "resolve_all (resolve_one flow consumer step (filter (\<lambda>b. namespace_of b = namespace_of flow) (artifacts w))
      (attempts_in w (namespace_of flow)) i) seen requests v = (Inr rs, v') \<Longrightarrow> restart_index flow consumer = Inr i \<Longrightarrow>
   0 \<le> sa_workflowAttempt (spec consumer) \<Longrightarrow> same_objects w v \<Longrightarrow> list_all2 (input_pinned w flow consumer step) requests rs"
proof (induction requests arbitrary: seen v rs v')
  case Nil
  then show ?case by (simp add: ret_def)
next
  case (Cons requested requests)
  let ?one = "resolve_one flow consumer step (filter (\<lambda>b. namespace_of b = namespace_of flow) (artifacts w))
      (attempts_in w (namespace_of flow)) i"
  from Cons.prems(1) have "bind_io (?one requested) (\<lambda>r. bind_io (resolve_all ?one (ar_name requested # seen) requests)
      (\<lambda>rs. ret (r # rs))) v = (Inr rs, v')" by (simp add: raise_def split: if_splits)
  then obtain r u rest u' where one: "?one requested v = (Inr r, u)"
    and tail: "resolve_all ?one (ar_name requested # seen) requests u = (Inr rest, u')" and last: "ret (r # rest) u' = (Inr rs, v')"
    by (elim bind_io_result) blast
  from last have rs: "rs = r # rest" by (simp add: ret_def)
  have "keeps (same_objects v) (?one requested)" by (rule keeps_resolve_one) simp
  from keeps_same [OF this one] Cons.prems(4) have "same_objects w u" by (rule same_objects_trans [rotated])
  from Cons.IH [OF tail Cons.prems(2,3) this] one_input_pinned [OF one Cons.prems(2-4)] rs show ?case by simp
qed

lemma step_inputs_pinned:
  assumes "resolve_step_inputs flow consumer step w = (Inr refs, w')" and "0 \<le> sa_workflowAttempt (spec consumer)"
  shows "list_all2 (input_pinned w flow consumer step) (step_inputs step) refs"
proof (cases "step_inputs step = []")
  case True
  then show ?thesis using assms by (simp add: resolve_step_inputs_def ret_def)
next
  case False
  with assms(1) obtain arts v attempts u i x where arts: "k_list Artifacts (namespace_of flow) w = (Inr arts, v)"
    and attempts: "k_list StepAttempts (namespace_of flow) v = (Inr attempts, u)"
    and i: "from_sum (restart_index flow consumer) u = (Inr i, x)"
    and all: "resolve_all (resolve_one flow consumer step arts attempts i) [] (step_inputs step) x = (Inr refs, w')"
    unfolding resolve_step_inputs_def if_not_P [OF False] by (elim bind_io_result) blast
  have a: "arts = filter (\<lambda>b. namespace_of b = namespace_of flow) (artifacts w)" "\<exists>fs. v = w\<lparr>faults := fs\<rparr>"
    using artifact_kind.list_result [OF arts] by (simp_all add: Artifacts_def)
  then have v: "step_attempts v = step_attempts w" "same_objects w v" by auto
  have b: "attempts = filter (\<lambda>b. namespace_of b = namespace_of flow) (step_attempts v)" "\<exists>fs. u = v\<lparr>faults := fs\<rparr>"
    using step_attempt_kind.list_result [OF attempts] by (simp_all add: StepAttempts_def)
  from from_sum_result [OF i] have "restart_index flow consumer = Inr i" "x = u" by auto
  with all_inputs_pinned [OF all [unfolded a(1) b(1) v(1) attempts_in_def [symmetric]] _ assms(2)] v(2) b(2) show ?thesis by auto
qed

subsection \<open>An example\<close>

text \<open>
  A workflow in its second iteration, restarted at the test author: the plan and the tests of the
  first iteration are accepted, and so are the new tests, where they are there already.
\<close>

definition contract :: "string \<Rightarrow> contract_reference" where
  "contract n = \<lparr>contract_name = n, contract_version = ''v1''\<rparr>"

definition wants :: "string \<Rightarrow> artifact_reference" where
  "wants n = \<lparr>ar_name = n, ar_digest = '''', ar_artifactRef = None, ar_producerAttemptRef = ''''\<rparr>"

definition plan_step :: step_config where
  "plan_step = (demo_step ''plan'' ExecutionKindAgent 1)\<lparr>step_inputs := [], step_outputs := [contract ''implementation-plan'']\<rparr>"
definition tests_step :: step_config where
  "tests_step = (demo_step ''test-author'' ExecutionKindAgent 2)\<lparr>step_inputs := [], step_outputs := [contract ''test-change-set'']\<rparr>"
definition code_step :: step_config where
  "code_step = (demo_step ''developer'' ExecutionKindAgent 3)\<lparr>
     step_inputs := [wants ''implementation-plan'', wants ''test-change-set''], step_outputs := [contract ''change-set'']\<rparr>"

definition rewound_flow :: workflow where
  "rewound_flow = (steps_workflow [plan_step, tests_step, code_step])\<lparr>status :=
     (status (steps_workflow []))\<lparr>wf_workflowAttempt := 1, wf_activeStepName := ''developer'',
       wf_refinement := Some \<lparr>ref_retryObservation = None, ref_recovery = None, ref_iteration = 1,
         ref_triggerStepName = ''test-candidate'', ref_triggerAttemptRef = '''', ref_restartStepName = ''test-author''\<rparr>\<rparr>\<rparr>"

definition iteration_attempt :: "string \<Rightarrow> int \<Rightarrow> resource_phase \<Rightarrow> step_attempt" where
  "iteration_attempt s n p = (flow_attempt (attempt_name s n 1) s ExecutionKindAgent ''AgentRun'' p)\<lparr>
     spec := (spec (flow_attempt [] s ExecutionKindAgent ''AgentRun'' p))\<lparr>sa_workflowAttempt := n\<rparr>\<rparr>"

definition result_artifact :: "string \<Rightarrow> string \<Rightarrow> string \<Rightarrow> int \<Rightarrow> artifact" where
  "result_artifact n c s i = demo_artifact\<lparr>meta := bare_meta ''team'' n (''ua-'' @ n), spec := (spec demo_artifact)\<lparr>
     art_contract := contract c,
     art_producerRef := \<lparr>tl_apiVersion = group_version, tl_kind = ''AgentRun'', tl_name = attempt_name s i 1\<rparr>\<rparr>\<rparr>"

definition rewound_cluster :: "bool \<Rightarrow> cluster" where
  "rewound_cluster renewed = empty_cluster\<lparr>workflows := [rewound_flow],
     step_attempts := [iteration_attempt ''plan'' 0 PhaseSucceeded, iteration_attempt ''test-author'' 0 PhaseSucceeded,
       iteration_attempt ''test-author'' 1 PhaseSucceeded, iteration_attempt ''developer'' 1 PhasePending],
     artifacts := [result_artifact ''plan'' ''implementation-plan'' ''plan'' 0, result_artifact ''tests'' ''test-change-set'' ''test-author'' 0]
       @ (if renewed then [result_artifact ''tests-2'' ''test-change-set'' ''test-author'' 1] else [])\<rparr>"

text \<open>The plan of the first iteration is used again, its tests are not.\<close>

lemma rewound_inputs:
  "case resolve_step_inputs rewound_flow (iteration_attempt ''developer'' 1 PhasePending) code_step (rewound_cluster True) of
     (Inr rs, w) \<Rightarrow> map (\<lambda>r. map_option ref_name (ar_artifactRef r)) rs = [Some ''plan'', Some ''tests-2''] | _ \<Rightarrow> False"
  "fst (resolve_step_inputs rewound_flow (iteration_attempt ''developer'' 1 PhasePending) code_step (rewound_cluster False))
     = Inl (Invalid ''no eligible accepted artifact'')"
  by code_simp+

subsection \<open>Properties\<close>



text \<open>
  C37: The name of an attempt tells which attempt it is. For steps named by labels of at most 45
  bytes in lower case, two attempts of one name are the same retry of the same step in the same
  iteration of the workflow, so an attempt found under the name to be created is the one meant.
\<close>

theorem attempt_names_tell_apart:
  assumes "attempt_name s w r = attempt_name s' w' r'" and "step_label s" and "step_label s'"
    and "0 \<le> w" "0 \<le> r" "0 \<le> w'" "0 \<le> r'"
  shows "s = s' \<and> w = w' \<and> r = r'"
  using attempt_name_determines [OF assms(1,4-7)] clean_step_label [OF assms(2)] clean_step_label [OF assms(3)] by simp

theorem attempt_names_tell_apart_witness:
  "attempt_name ''test-author'' 0 12 \<noteq> attempt_name ''test-author'' 1 2"
proof
  assume same: "attempt_name ''test-author'' 0 12 = attempt_name ''test-author'' 1 2"
  have label: "step_label ''test-author''" by code_simp
  from attempt_names_tell_apart [OF same label label] show False by simp
qed

text \<open>Other names run into each other: what the name drops, the attempts of two steps share.\<close>

lemma attempt_names_collide:
  "attempt_name ''build_app'' w r = attempt_name ''build-app'' w r" "attempt_name ''Build-app'' w r = attempt_name ''build-app'' w r"
proof -
  have "clean_step_name ''build_app'' = clean_step_name ''build-app''" "clean_step_name ''Build-app'' = clean_step_name ''build-app''"
    by code_simp+
  then show "attempt_name ''build_app'' w r = attempt_name ''build-app'' w r" "attempt_name ''Build-app'' w r = attempt_name ''build-app'' w r"
    by (simp_all add: attempt_name_def)
qed

end
