(* ===== verification/Agent_Contract.thy ===== *)
theory Agent_Contract
  imports Go_Json
begin

section \<open>The contract between the platform and an agent\<close>

text \<open>
  \<open>internal/agentcontract/v1.go\<close>: what an agent is given, what it may answer, the feedback of a
  rejected attempt, and the containment of output paths. File access and the JSON decoder are
  parameters; messages of errors are constant tags. Text is a byte sequence, its runes as Go's
  \<open>range\<close> finds them.
\<close>

subsection \<open>Runes of a text\<close>

text \<open>The units of a text: its runes, and single bytes where no rune starts.\<close>

function units :: "string \<Rightarrow> string list" where
  "units [] = []"
| "units (c # s) = take (max 1 (rune_at (c # s))) (c # s) # units (drop (max 1 (rune_at (c # s))) (c # s))"
  by pat_completeness auto
termination
  by (relation "measure length") auto

definition space_unit :: "string \<Rightarrow> bool" where
  "space_unit u \<longleftrightarrow> (case u of [c] \<Rightarrow> ascii_space c | _ \<Rightarrow> List.member wide_spaces (map of_char u))"

text \<open>\<open>unicode.IsControl\<close>: U+0000 to U+001F and U+007F to U+009F.\<close>

definition control_unit :: "string \<Rightarrow> bool" where
  "control_unit u \<longleftrightarrow> (case u of [c] \<Rightarrow> (of_char c :: nat) < 32 \<or> (of_char c :: nat) = 127
     | [c, d] \<Rightarrow> (of_char c :: nat) = 194 \<and> (of_char d :: nat) \<in> {128..159} | _ \<Rightarrow> False)"

text \<open>\<open>strings.ToValidUTF8(s, "")\<close>, \<open>strings.Fields\<close>.\<close>

definition valid_units :: "string \<Rightarrow> string list" where
  "valid_units s = filter (\<lambda>u. rune_at u \<noteq> 0) (units s)"

fun unit_words :: "string list \<Rightarrow> string list list" where
  "unit_words [] = [[]]"
| "unit_words (u # us) = (if space_unit u then [] # unit_words us
     else (case unit_words us of [] \<Rightarrow> [[u]] | w # ws \<Rightarrow> (u # w) # ws))"

definition text_fields :: "string \<Rightarrow> string list" where
  "text_fields s = map concat (filter (\<lambda>w. w \<noteq> []) (unit_words (units s)))"

subsection \<open>Retry feedback\<close>

record retry_feedback =
  rf_previousAttemptRef :: string
  rf_code :: string
  rf_message :: string

definition max_reference_bytes :: nat where "max_reference_bytes = 253"
definition max_code_bytes :: nat where "max_code_bytes = 128"
definition max_message_bytes :: nat where "max_message_bytes = 1024"

function drop_invalid :: "string \<Rightarrow> string" where
  "drop_invalid s = (if utf8_valid s then s else drop_invalid (butlast s))"
  by auto
termination
proof (relation "measure length")
  fix s :: string assume "\<not> utf8_valid s"
  then have "s \<noteq> []" by (auto simp: utf8_valid_def)
  then show "(butlast s, s) \<in> measure length" by simp
qed simp

declare drop_invalid.simps [simp del]

function truncate_to :: "nat \<Rightarrow> string \<Rightarrow> string" where
  "truncate_to m s = (if length s > m then truncate_to m (drop_invalid (butlast s)) else s)"
  by auto
termination
proof (relation "measure (\<lambda>(m, s). length s)")
  fix m and s :: string assume long: "length s > m"
  have "length (drop_invalid t) \<le> length t" for t
    by (induction t rule: drop_invalid.induct) (subst drop_invalid.simps, auto)
  from this [of "butlast s"] long show "((m, drop_invalid (butlast s)), m, s) \<in> measure (\<lambda>(m, s). length s)"
    by (cases s rule: rev_cases) (auto simp: less_Suc_eq_le)
qed simp

declare truncate_to.simps [simp del]

definition sanitize_retry_feedback_message :: "string \<Rightarrow> string" where
  "sanitize_retry_feedback_message msg =
     truncate_to max_message_bytes (join_with '' '' (text_fields
       (concat (map (\<lambda>u. if control_unit u \<or> space_unit u then '' '' else u) (valid_units msg)))))"

definition bounded_diagnostic_field :: "string \<Rightarrow> nat \<Rightarrow> go_error option" where
  "bounded_diagnostic_field msg maximum =
     (if blank msg then Some (Invalid ''field is required'')
      else if length msg > maximum then Some (Invalid ''field is too long'')
      else if list_ex control_unit (units msg) then Some (Invalid ''field contains a control character'')
      else None)"

definition is_diagnostic_code :: "string \<Rightarrow> bool" where
  "is_diagnostic_code msg = (case msg of [] \<Rightarrow> True
     | c # s \<Rightarrow> (is_upper c \<or> is_lower c) \<and> list_all is_alnum s)"

definition validate_retry_feedback :: "retry_feedback \<Rightarrow> go_error option" where
  "validate_retry_feedback f = (case bounded_diagnostic_field (rf_previousAttemptRef f) max_reference_bytes of
       Some e \<Rightarrow> Some e
     | None \<Rightarrow> if length (rf_code f) = 0 \<or> length (rf_code f) > max_code_bytes \<or> \<not> is_diagnostic_code (rf_code f)
         then Some (Invalid ''code'')
         else bounded_diagnostic_field (rf_message f) max_message_bytes)"

subsection \<open>Input and result\<close>

record artifact_input =
  ai_name :: string
  ai_contract :: string
  ai_digest :: string
  ai_path :: string

record output_obligation =
  ob_name :: string
  ob_version :: string
  ob_required :: bool
  ob_mediaType :: string

record write_authority =
  wa_leaseName :: string
  wa_holderIdentity :: string
  wa_writerEpoch :: int

record context_capture =
  cc_endpoint :: string
  cc_namespace :: string
  cc_agentRun :: string
  cc_agentRunUID :: string
  cc_credentialPath :: string
  cc_caPath :: string

record agent_input =
  inp_contextCapture :: "context_capture option"
  inp_schemaVersion :: string
  inp_workflowID :: string
  inp_stepName :: string
  inp_attempt :: int
  inp_role :: string
  inp_responsibility :: string
  inp_inferenceModel :: string
  inp_artifacts :: "artifact_input list"
  inp_outputs :: "output_obligation list"
  inp_capabilities :: "string list"
  inp_inferenceEndpoint :: string
  inp_mcpServer :: string
  inp_workspacePath :: string
  inp_stagingPath :: string
  inp_controlPath :: string
  inp_resultPath :: string
  inp_auditEventsPath :: string
  inp_retryFeedback :: "retry_feedback option"
  inp_workspaceWrite :: write_authority

record artifact_output =
  ao_contract :: string
  ao_path :: string
  ao_mediaType :: string

record agent_completion =
  ac_summary :: string
  ac_evidenceDigest :: string

record result_error =
  re_code :: string
  re_message :: string

record agent_result =
  res_schemaVersion :: string
  res_outcome :: string
  res_message :: string
  res_error :: "result_error option"
  res_artifacts :: "artifact_output list"

definition agent_contract_version :: string where
  "agent_contract_version = ''sovereign.ai/agent-contract/v1''"

definition context_credential_name :: "string \<Rightarrow> string" where
  "context_credential_name run = run @ ''-context''"

definition obligation_contract :: "output_obligation \<Rightarrow> string" where
  "obligation_contract o' = (if ob_version o' = '''' then ob_name o' else ob_name o' @ ''/'' @ ob_version o')"

definition is_abs :: "string \<Rightarrow> bool" where
  "is_abs p \<longleftrightarrow> has_prefix p ''/''"

fun validate_obligations :: "string list \<Rightarrow> output_obligation list \<Rightarrow> go_error option" where
  "validate_obligations seen [] = None"
| "validate_obligations seen (o' # os) =
     (if ob_name o' = '''' \<or> ob_version o' = '''' then Some (Invalid ''output obligation name and version are required'')
      else if List.member seen (obligation_contract o') then Some (Invalid ''duplicate output obligation'')
      else validate_obligations (obligation_contract o' # seen) os)"

definition validate_agent_input :: "agent_input \<Rightarrow> go_error option" where
  "validate_agent_input i =
     (if inp_schemaVersion i \<noteq> agent_contract_version then Some (Invalid ''unsupported input schema'')
      else if inp_workflowID i = '''' \<or> inp_stepName i = '''' \<or> inp_attempt i < 1 \<or> inp_responsibility i = ''''
        then Some (Invalid ''workflowId, stepName, positive attempt, and responsibility are required'')
      else if \<not> is_abs (inp_workspacePath i) \<or> \<not> is_abs (inp_stagingPath i)
        then Some (Invalid ''workspacePath and stagingPath must be absolute'')
      else if wa_leaseName (inp_workspaceWrite i) = '''' \<or> wa_holderIdentity (inp_workspaceWrite i) = ''''
          \<or> wa_writerEpoch (inp_workspaceWrite i) < 1
        then Some (Invalid ''workspaceWrite must identify a lease holder and positive writer epoch'')
      else (case (case inp_retryFeedback i of None \<Rightarrow> None | Some f \<Rightarrow> validate_retry_feedback f) of
          Some e \<Rightarrow> Some e
        | None \<Rightarrow>
            if list_ex (\<lambda>p. p \<noteq> '''' \<and> \<not> is_abs p) [inp_controlPath i, inp_resultPath i, inp_auditEventsPath i]
            then Some (Invalid ''path must be absolute when provided'')
            else validate_obligations [] (inp_outputs i)))"

subsection \<open>Output paths\<close>

text \<open>\<open>filepath.Clean\<close> on a rooted path, as the list of its elements; \<open>filepath.Abs\<close> with the
  working directory \<open>cwd\<close>, itself absolute and clean; \<open>filepath.Rel\<close> of two rooted paths.\<close>

fun clean_elements :: "string list \<Rightarrow> string list \<Rightarrow> string list" where
  "clean_elements out [] = rev out"
| "clean_elements out (e # es) =
     (if e = '''' \<or> e = ''.'' then clean_elements out es
      else if e = ''..'' then clean_elements (tl out) es
      else clean_elements (e # out) es)"

definition path_elements :: "string \<Rightarrow> string list" where
  "path_elements p = clean_elements [] (split_on (CHR ''/'') p)"

definition abs_elements :: "string \<Rightarrow> string \<Rightarrow> string list" where
  "abs_elements cwd p = path_elements (if is_abs p then p else cwd @ ''/'' @ p)"

fun strip_common :: "string list \<Rightarrow> string list \<Rightarrow> string list \<times> string list" where
  "strip_common (a # as) (b # bs) = (if a = b then strip_common as bs else (a # as, b # bs))"
| "strip_common as bs = (as, bs)"

definition rel_elements :: "string list \<Rightarrow> string list \<Rightarrow> string list" where
  "rel_elements base target = (case strip_common base target of
     ([], []) \<Rightarrow> [''.''] | (up, down) \<Rightarrow> map (\<lambda>_. ''..'') up @ down)"

definition artifact_path :: "string \<Rightarrow> string \<Rightarrow> string \<Rightarrow> go_error + string" where
  "artifact_path cwd stagingRoot candidate =
     (let target = abs_elements cwd candidate;
          relative = join_with ''/'' (rel_elements (abs_elements cwd stagingRoot) target)
      in if relative = ''..'' \<or> has_prefix relative ''../'' then Inl (Invalid ''artifact path escapes staging root'')
         else Inr (CHR ''/'' # join_with ''/'' target))"

fun validate_outputs :: "string \<Rightarrow> string \<Rightarrow> artifact_output list \<Rightarrow> go_error option" where
  "validate_outputs cwd root [] = None"
| "validate_outputs cwd root (a # as) =
     (if ao_contract a = '''' \<or> ao_path a = '''' then Some (Invalid ''artifact contract and path are required'')
      else (case artifact_path cwd root (ao_path a) of Inl e \<Rightarrow> Some e | Inr _ \<Rightarrow> validate_outputs cwd root as))"

definition validate_agent_result :: "string \<Rightarrow> string \<Rightarrow> agent_result \<Rightarrow> go_error option" where
  "validate_agent_result cwd stagingRoot r =
     (if res_schemaVersion r \<noteq> agent_contract_version then Some (Invalid ''unsupported result schema'')
      else if \<not> List.member [''Succeeded'', ''Failed'', ''Intervention''] (res_outcome r) then Some (Invalid ''invalid result outcome'')
      else if (case res_error r of None \<Rightarrow> False | Some e \<Rightarrow> re_code e = '''' \<or> re_message e = '''')
        then Some (Invalid ''result error code and message are required'')
      else validate_outputs cwd stagingRoot (res_artifacts r))"

text \<open>The declared obligations by contract, a later one of a contract replacing an earlier one.\<close>

definition declared :: "agent_input \<Rightarrow> string \<Rightarrow> output_obligation option" where
  "declared i c = find (\<lambda>o'. obligation_contract o' = c) (rev (inp_outputs i))"

fun outputs_declared :: "agent_input \<Rightarrow> artifact_output list \<Rightarrow> go_error option" where
  "outputs_declared i [] = None"
| "outputs_declared i (a # as) = (case declared i (ao_contract a) of
       None \<Rightarrow> if inp_outputs i \<noteq> [] then Some (Invalid ''artifact contract was not declared'') else outputs_declared i as
     | Some o' \<Rightarrow> if ob_mediaType o' \<noteq> '''' \<and> ao_mediaType a \<noteq> ob_mediaType o'
         then Some (Invalid ''mediaType does not satisfy required mediaType'') else outputs_declared i as)"

definition validate_against :: "agent_result \<Rightarrow> agent_input \<Rightarrow> go_error option" where
  "validate_against r i =
     (if res_outcome r \<noteq> ''Succeeded'' then None
      else (case outputs_declared i (res_artifacts r) of
          Some e \<Rightarrow> Some e
        | None \<Rightarrow>
            if list_ex (\<lambda>o'. (case declared i (obligation_contract o') of None \<Rightarrow> False | Some d \<Rightarrow> ob_required d)
                 \<and> \<not> List.member (map ao_contract (res_artifacts r)) (obligation_contract o')) (inp_outputs i)
            then Some (Invalid ''required output contract was not produced'') else None))"

text \<open>\<open>stat\<close> stands for \<open>os.Stat\<close>: whether there is a file and whether it is a regular one.\<close>

fun validate_artifact_files :: "string \<Rightarrow> (string \<Rightarrow> bool option) \<Rightarrow> string \<Rightarrow> artifact_output list \<Rightarrow> go_error option" where
  "validate_artifact_files cwd stat root [] = None"
| "validate_artifact_files cwd stat root (a # as) = (case artifact_path cwd root (ao_path a) of
       Inl e \<Rightarrow> Some e
     | Inr path \<Rightarrow> (case stat path of
           None \<Rightarrow> Some (Invalid ''inspect artifact'')
         | Some regular \<Rightarrow> if \<not> regular then Some (Invalid ''artifact must be a regular file'')
             else validate_artifact_files cwd stat root as))"

definition read_input :: "(string \<Rightarrow> agent_input option) \<Rightarrow> string option \<Rightarrow> go_error + agent_input" where
  "read_input decode content = (case content of
       None \<Rightarrow> Inl (Invalid ''read input contract'')
     | Some data \<Rightarrow> (case decode data of
           None \<Rightarrow> Inl (Invalid ''decode input contract'')
         | Some i \<Rightarrow> (case validate_agent_input i of Some e \<Rightarrow> Inl e | None \<Rightarrow> Inr i)))"

definition read_result :: "string \<Rightarrow> (string \<Rightarrow> agent_result option) \<Rightarrow> string option \<Rightarrow> string \<Rightarrow> go_error + agent_result" where
  "read_result cwd decode content stagingRoot = (case content of
       None \<Rightarrow> Inl (Invalid ''read result contract'')
     | Some data \<Rightarrow> (case decode data of
           None \<Rightarrow> Inl (Invalid ''decode result contract'')
         | Some r \<Rightarrow> (case validate_agent_result cwd stagingRoot r of Some e \<Rightarrow> Inl e | None \<Rightarrow> Inr r)))"

definition read_result_for_input ::
  "string \<Rightarrow> (string \<Rightarrow> agent_result option) \<Rightarrow> (string \<Rightarrow> bool option) \<Rightarrow> string option \<Rightarrow> agent_input \<Rightarrow> go_error + agent_result" where
  "read_result_for_input cwd decode stat content i = (case read_result cwd decode content (inp_stagingPath i) of
       Inl e \<Rightarrow> Inl e
     | Inr r \<Rightarrow> (case validate_against r i of
           Some e \<Rightarrow> Inl e
         | None \<Rightarrow> (case validate_artifact_files cwd stat (inp_stagingPath i) (res_artifacts r) of
               Some e \<Rightarrow> Inl e | None \<Rightarrow> Inr r)))"

subsection \<open>Runes and blank text\<close>

definition rune :: "string \<Rightarrow> bool" where
  "rune u \<longleftrightarrow> u \<noteq> [] \<and> rune_at u = length u"

lemma rune_front: "rune u \<Longrightarrow> rune_at (u @ x) = length u"
  using rune_at_take [of u x] by (simp add: rune_def)

lemma units_rune: "rune u \<Longrightarrow> units (u @ x) = u # units x"
proof -
  assume u: "rune u"
  then obtain c v where cv: "u @ x = c # v" by (cases "u @ x") (auto simp: rune_def)
  have "units (u @ x) = take (max 1 (rune_at (u @ x))) (u @ x) # units (drop (max 1 (rune_at (u @ x))) (u @ x))"
    unfolding cv by simp
  moreover have "max 1 (rune_at (u @ x)) = length u" using rune_front [OF u] u by (cases u) (simp_all add: rune_def)
  ultimately show ?thesis by simp
qed

lemma units_concat: "list_all rune us \<Longrightarrow> units (concat us @ x) = us @ units x"
  by (induction us) (auto simp: units_rune)

lemma units_runes: "list_all rune us \<Longrightarrow> units (concat us) = us"
  using units_concat [of us "[]"] by simp

lemma concat_units: "concat (units s) = s"
  by (induction s rule: units.induct) simp_all

lemma unit_rune: "u \<in> set (units s) \<Longrightarrow> rune_at u \<noteq> 0 \<Longrightarrow> rune u"
proof (induction s rule: units.induct)
  case (2 c s)
  let ?k = "rune_at (c # s)"
  have head: "rune (take (max 1 ?k) (c # s))" if "rune_at (take (max 1 ?k) (c # s)) \<noteq> 0"
  proof (cases "?k = 0")
    case True
    with that rune_at_le [of "[c]"] show ?thesis by (simp add: rune_def)
  next
    case False
    then have "max 1 ?k = ?k" by simp
    with rune_at_take [OF False, of "[]"] rune_at_le [of "c # s"] False show ?thesis by (auto simp: rune_def)
  qed
  from "2.prems" consider "u = take (max 1 ?k) (c # s)" | "u \<in> set (units (drop (max 1 ?k) (c # s)))" by auto
  then show ?case
  proof cases
    case 1
    with head "2.prems"(2) show ?thesis by blast
  next
    case 2
    with "2.IH" "2.prems"(2) show ?thesis by blast
  qed
qed simp

lemma valid_units_rune: "list_all rune (valid_units s)"
  by (auto simp: valid_units_def list_all_iff intro: unit_rune)

lemma utf8_units: "utf8_valid s \<Longrightarrow> list_all rune (units s)"
proof (induction s rule: units.induct)
  case (2 c s)
  note head = utf8_valid_rune [OF "2.prems"]
  then have k: "max 1 (rune_at (c # s)) = rune_at (c # s)" by simp
  have "rune (take (rune_at (c # s)) (c # s))"
    using head rune_at_take [of "c # s" "[]"] rune_at_le [of "c # s"] by (auto simp: rune_def)
  with "2.IH" head k show ?case by simp
qed simp

text \<open>The four forms of a rune.\<close>

lemma rune_forms:
  assumes "rune u"
  obtains (one) a where "map of_char u = [a :: nat]" "a < 128"
  | (two) a b where "map of_char u = [a :: nat, b]" "194 \<le> a" "a \<le> 223" "cont_byte b"
  | (three) a b c where "map of_char u = [a :: nat, b, c]" "224 \<le> a" "a \<le> 239" "cont_byte b" "cont_byte c"
      "a = 224 \<longrightarrow> 160 \<le> b" "a = 237 \<longrightarrow> b \<le> 159"
  | (four) a b c d where "map of_char u = [a :: nat, b, c, d]" "240 \<le> a" "a \<le> 244" "cont_byte b" "cont_byte c" "cont_byte d"
      "a = 240 \<longrightarrow> 144 \<le> b" "a = 244 \<longrightarrow> b \<le> 143"
proof -
  obtain a :: nat and t where t: "map of_char u = a # t" using assms(1) by (cases u) (auto simp: rune_def)
  have "rune_len (a # t) = Suc (length t)"
    using assms(1) t by (metis length_Cons length_map rune_at_def rune_def)
  then consider "a < 128" "length t = 0"
    | "194 \<le> a" "a \<le> 223" "length t = 1" "tail_bytes [(128, 191)] t"
    | "224 \<le> a" "a \<le> 239" "length t = 2" "tail_bytes [(if a = 224 then 160 else 128, if a = 237 then 159 else 191), (128, 191)] t"
    | "240 \<le> a" "a \<le> 244" "length t = 3"
      "tail_bytes [(if a = 240 then 144 else 128, if a = 244 then 143 else 191), (128, 191), (128, 191)] t"
    by (simp add: rune_len_def split: if_splits)
  then show thesis
  proof cases
    case 1
    then show thesis using one [of a] t by simp
  next
    case 2
    then obtain b where "t = [b]" by (cases t) auto
    then show thesis using two [of a b] t 2 by (simp add: tail_bytes_simps cont_byte_def)
  next
    case 3
    then obtain b c where "t = [b, c]" by (auto simp: length_Suc_conv numeral_eq_Suc)
    then show thesis using three [of a b c] t 3 by (auto simp: tail_bytes_simps cont_byte_def split: if_splits)
  next
    case 4
    then obtain b c d where "t = [b, c, d]" by (auto simp: length_Suc_conv numeral_eq_Suc)
    then show thesis using four [of a b c d] t 4 by (auto simp: tail_bytes_simps cont_byte_def split: if_splits)
  qed
qed

lemma rune_utf8:
  assumes "rune u" "utf8_valid x"
  shows "utf8_valid (u @ x)"
  using assms(1)
proof (cases rule: rune_forms)
  case (two a b)
  then show ?thesis using assms(2) by (simp add: utf8_valid_def)
next
  case (three a b c)
  then show ?thesis using assms(2) by (simp add: utf8_valid_def)
next
  case (four a b c d)
  then show ?thesis using assms(2) by (simp add: utf8_valid_def)
qed (use assms(2) in \<open>simp add: utf8_valid_def\<close>)

lemma runes_utf8: "list_all rune us \<Longrightarrow> utf8_valid (concat us)"
proof (induction us)
  case (Cons u us)
  then show ?case using rune_utf8 [of u "concat us"] by simp
qed (simp add: utf8_valid_def)

text \<open>The first byte of a rune starts it, the others continue it.\<close>

lemma rune_bytes:
  assumes "rune u" "length u \<noteq> 1"
  shows "\<exists>a t. map of_char u = a # t \<and> t \<noteq> [] \<and> a > (191 :: nat) \<and> list_all cont_byte t"
  using assms(1)
proof (cases rule: rune_forms)
  case (one a)
  then have "length u = 1" by (metis One_nat_def length_Cons length_map list.size(3))
  with assms(2) show ?thesis by simp
qed (simp_all)

lemma rune_single: "rune [c] \<Longrightarrow> (of_char c :: nat) < 128"
  using rune_at_wide [of c "[]"] by (auto simp: rune_def)

text \<open>A text that is not all white space is not blank.\<close>

lemma wide_space_bytes:
  assumes "w \<in> set wide_spaces"
  shows "rune_len w = length w" "length w \<in> {2, 3}" "hd w > 191" "list_all cont_byte (tl w)" "length w = 2 \<longleftrightarrow> hd w = 194"
    "length w = 3 \<Longrightarrow> w ! 1 \<noteq> 194"
proof -
  have "list_all (\<lambda>w. rune_len w = length w \<and> length w \<in> {2, 3} \<and> hd w > 191 \<and> list_all cont_byte (tl w)
      \<and> (length w = 2 \<longleftrightarrow> hd w = 194) \<and> (length w = 3 \<longrightarrow> w ! 1 \<noteq> 194)) wide_spaces" by code_simp
  with assms show "rune_len w = length w" "length w \<in> {2, 3}" "hd w > 191" "list_all cont_byte (tl w)" "length w = 2 \<longleftrightarrow> hd w = 194"
    "length w = 3 \<Longrightarrow> w ! 1 \<noteq> 194" by (auto simp: list_all_iff)
qed

lemma space_unit_wide: "length u \<noteq> 1 \<Longrightarrow> space_unit u \<longleftrightarrow> map of_char u \<in> set wide_spaces"
  by (auto simp: space_unit_def List.member_iff split: list.splits)

lemma wide_space_front:
  assumes "rune u" "wide_space_at (u @ y)"
  shows "space_unit u \<and> length u \<noteq> 1"
proof -
  from assms(2) obtain w where w: "w \<in> set wide_spaces" "map of_char (take (length w) (u @ y)) = w"
    by (auto simp: wide_space_at_def list_ex_iff)
  note b = wide_space_bytes [OF w(1)]
  let ?z = "map of_char (drop (length w) (u @ y)) :: nat list"
  have all: "map of_char (u @ y) = w @ ?z" using w(2) by (metis append_take_drop_id map_append)
  have "length w \<noteq> 0" using b(2) by auto
  from rune_len_take [OF b(1) this, of ?z] have "rune_len (w @ ?z) = length w" by simp
  then have "rune_at (u @ y) = length w" unfolding rune_at_def all .
  with rune_front [OF assms(1)] have len: "length u = length w" by simp
  with w(2) have "map of_char u = w" by simp
  with w(1) len b(2) space_unit_wide [of u] show ?thesis by auto
qed

lemma trim_left_visible:
  assumes "rune u" "\<not> space_unit u"
  shows "trim_left_space (u @ y) = u @ y"
proof -
  obtain c v where u: "u = c # v" using assms(1) by (cases u) (auto simp: rune_def)
  have "\<not> ascii_space c"
  proof (cases "v = []")
    case True
    then show ?thesis using assms(2) u by (simp add: space_unit_def)
  next
    case False
    with rune_bytes [OF assms(1)] u show ?thesis by (auto simp: ascii_space_def)
  qed
  with wide_space_front [OF assms(1)] assms(2) u show ?thesis by auto
qed

lemma cont_prefix:
  assumes "rev t @ a # x = rev t' @ b # y" "list_all cont_byte t" "list_all cont_byte t'" "\<not> cont_byte a" "\<not> cont_byte b"
  shows "t = t' \<and> a = b"
proof -
  have "takeWhile cont_byte (rev s @ c # z) = rev s" if "list_all cont_byte s" "\<not> cont_byte c" for s c z
    using that by (subst takeWhile_append2) (auto simp: list_all_iff)
  with assms have "rev t = rev t'" by metis
  with assms(1) show ?thesis by simp
qed

lemma wide_space_back:
  assumes "rune v" "length v \<noteq> 1" "wide_space_end (rev v @ x)"
  shows "space_unit v"
proof -
  from assms(3) obtain w where w: "w \<in> set wide_spaces" "map of_char (take (length w) (rev v @ x)) = rev w"
    by (auto simp: wide_space_end_def list_ex_iff)
  note b = wide_space_bytes [OF w(1)]
  obtain a :: nat and t where at: "map of_char v = a # t" "a > (191 :: nat)" "list_all cont_byte t"
    using rune_bytes [OF assms(1,2)] by (elim exE conjE) (rule that)
  obtain c s where cs: "w = c # s" using b(2) by (cases w) auto
  have "map of_char (rev v @ x) = rev w @ map of_char (drop (length w) (rev v @ x))"
    using w(2) by (metis append_take_drop_id map_append)
  then have "rev t @ a # map of_char x = rev s @ c # map of_char (drop (length w) (rev v @ x))"
    using at(1) cs by (simp add: rev_map [symmetric])
  then have "t = s \<and> a = c" by (rule cont_prefix) (use at b cs in \<open>auto simp: cont_byte_def\<close>)
  with at(1) cs w(1) space_unit_wide [OF assms(2)] show ?thesis by simp
qed

lemma trim_right_visible:
  "list_all rune us \<Longrightarrow> us \<noteq> [] \<Longrightarrow> \<not> space_unit (hd us) \<Longrightarrow> trim_right_space_rev (rev (concat us)) \<noteq> []"
proof (induction us rule: rev_induct)
  case (snoc v us)
  let ?x = "rev (concat us)"
  have v: "rune v" using snoc.prems(1) by simp
  have IH: "trim_right_space_rev ?x \<noteq> []" if "space_unit v"
  proof (rule snoc.IH)
    show "us \<noteq> []" using that snoc.prems(3) by auto
    then show "\<not> space_unit (hd us)" using snoc.prems(3) by simp
  qed (use snoc.prems(1) in simp)
  obtain u c where uc: "v = u @ [c]" using v by (cases v rule: rev_cases) (auto simp: rune_def)
  have s: "rev (concat (us @ [v])) = c # rev u @ ?x" using uc by simp
  show ?case
  proof (cases "u = []")
    case True
    then have c: "(of_char c :: nat) < 128" using v uc rune_single by simp
    have "\<not> wide_space_end (c # rev u @ ?x)"
    proof
      assume "wide_space_end (c # rev u @ ?x)"
      then obtain w where w: "w \<in> set wide_spaces" "map of_char (take (length w) (c # rev u @ ?x)) = rev w"
        by (auto simp: wide_space_end_def list_ex_iff)
      note b = wide_space_bytes [OF w(1)]
      from w(2) b(2) have "last w = of_char c" by (cases w rule: rev_cases) (auto simp: take_Cons')
      moreover have "last w \<in> set (tl w)" using b(2) by (cases w) (auto simp: last_in_set)
      ultimately show False using b(4) c by (auto simp: list_all_iff cont_byte_def)
    qed
    then show ?thesis unfolding s using IH True uc by (simp add: space_unit_def)
  next
    case False
    then have len: "length v \<noteq> 1" using uc by simp
    obtain a :: nat and t where at: "map of_char v = a # t" "t \<noteq> []" "a > (191 :: nat)" "list_all cont_byte t"
      using rune_bytes [OF v len] by (elim exE conjE) (rule that)
    have "last (map of_char v) \<in> set t" unfolding at(1) using at(2) by simp
    then have "cont_byte (of_char c)" using at(4) uc by (auto simp: list_all_iff)
    then have c: "\<not> ascii_space c" by (auto simp: ascii_space_def cont_byte_def)
    show ?thesis
    proof (cases "wide_space_end (c # rev u @ ?x)")
      case False
      then show ?thesis unfolding s using c by simp
    next
      case True
      then have "wide_space_end (rev v @ ?x)" using uc by simp
      from wide_space_back [OF v len this] have space: "space_unit v" .
      then have mem: "map of_char v \<in> set wide_spaces" using space_unit_wide [OF len] by simp
      note b = wide_space_bytes [OF mem]
      have two: "(map of_char (take 1 (drop 1 (c # rev u @ ?x))) = [194 :: nat]) = (length v = 2)"
      proof (cases "length v = 2")
        case True
        then obtain d where "u = [d]" using uc by (auto simp: length_Suc_conv numeral_2_eq_2)
        then show ?thesis using b(5) True uc by simp
      next
        case False
        then obtain d e where u: "u = [d, e]" using b(2) uc by (auto simp: length_Suc_conv numeral_eq_Suc)
        then show ?thesis using b(6) uc False by simp
      qed
      have "drop (length v) (c # rev u @ ?x) = ?x" using uc by simp
      moreover have "length v = 2 \<or> length v = 3" using b(2) by simp
      ultimately have "trim_right_space_rev (c # rev u @ ?x) = trim_right_space_rev ?x"
        using c True two by auto
      then show ?thesis unfolding s using IH [OF space] by simp
    qed
  qed
qed simp

lemma visible_not_blank:
  assumes "rune u" "\<not> space_unit u" "utf8_valid (u @ y)"
  shows "\<not> blank (u @ y)"
proof -
  have us: "list_all rune (units (u @ y))" using assms(3) by (rule utf8_units)
  have hd: "hd (units (u @ y)) = u" "units (u @ y) \<noteq> []" using units_rune [OF assms(1), of y] by simp_all
  have "trim_right_space_rev (rev (concat (units (u @ y)))) \<noteq> []"
    by (rule trim_right_visible [OF us]) (use hd assms(2) in simp_all)
  then show ?thesis using trim_left_visible [OF assms(1,2)] by (simp add: blank_def trim_space_def concat_units)
qed

subsection \<open>What sanitised feedback is like\<close>

lemma drop_invalid_prefix: "utf8_valid (drop_invalid s) \<and> (\<exists>x. s = drop_invalid s @ x)"
proof (induction s rule: drop_invalid.induct)
  case (1 s)
  show ?case
  proof (cases "utf8_valid s")
    case True
    then show ?thesis by (subst drop_invalid.simps, simp, subst drop_invalid.simps, simp)
  next
    case False
    then have "s \<noteq> []" by (auto simp: utf8_valid_def)
    then have "s = butlast s @ [last s]" by simp
    moreover have "drop_invalid s = drop_invalid (butlast s)" by (subst drop_invalid.simps) (simp add: False)
    ultimately show ?thesis using 1 [OF False] by (metis append.assoc)
  qed
qed

lemma truncate_prefix:
  "utf8_valid s \<Longrightarrow> utf8_valid (truncate_to m s) \<and> length (truncate_to m s) \<le> m \<and> (\<exists>x. s = truncate_to m s @ x)"
proof (induction m s rule: truncate_to.induct)
  case (1 m s)
  show ?case
  proof (cases "length s > m")
    case False
    then show ?thesis using "1.prems" by (subst (1 2 3) truncate_to.simps) simp
  next
    case True
    then have eq: "truncate_to m s = truncate_to m (drop_invalid (butlast s))" by (subst truncate_to.simps) simp
    from drop_invalid_prefix [of "butlast s"] obtain x where x: "utf8_valid (drop_invalid (butlast s))"
      "butlast s = drop_invalid (butlast s) @ x" by blast
    from "1.IH" [OF True x(1)] obtain y where y: "utf8_valid (truncate_to m s)" "length (truncate_to m s) \<le> m"
      "drop_invalid (butlast s) = truncate_to m s @ y" unfolding eq by blast
    have "s = butlast s @ [last s]" using True by (cases s) auto
    then have "s = truncate_to m s @ (y @ x @ [last s])" using x(2) y(3) by (metis append.assoc)
    with y show ?thesis by blast
  qed
qed

text \<open>A rune that fits is never cut.\<close>

lemma drop_invalid_keeps:
  assumes "rune u"
  shows "\<exists>y. drop_invalid (u @ x) = u @ y"
proof (induction x rule: rev_induct)
  case Nil
  have "utf8_valid u" using rune_utf8 [OF assms, of "[]"] by (simp add: utf8_valid_def)
  then show ?case by (subst drop_invalid.simps) simp
next
  case (snoc c x)
  have "butlast (u @ x @ [c]) = u @ x" by (simp add: butlast_append)
  with snoc show ?case by (subst drop_invalid.simps) (auto simp: butlast_append)
qed

lemma truncate_keeps:
  assumes "rune u"
  shows "length u \<le> m \<Longrightarrow> s = u @ x \<Longrightarrow> \<exists>y. truncate_to m s = u @ y"
proof (induction m s arbitrary: x rule: truncate_to.induct)
  case (1 m s)
  show ?case
  proof (cases "length s > m")
    case False
    then have "truncate_to m s = s" by (subst truncate_to.simps) simp
    with "1.prems"(2) show ?thesis by blast
  next
    case True
    then have "x \<noteq> []" using "1.prems" by auto
    then have "butlast s = u @ butlast x" using "1.prems"(2) by (simp add: butlast_append)
    with drop_invalid_keeps [OF assms, of "butlast x"] obtain y where "drop_invalid (butlast s) = u @ y" by auto
    from "1.IH" [OF True "1.prems"(1) this] show ?thesis using True by (subst truncate_to.simps) simp
  qed
qed

lemma prefix_units:
  assumes "s = p @ x" "utf8_valid p"
  shows "set (units p) \<subseteq> set (units s)"
  using units_concat [OF utf8_units [OF assms(2)], of x] assms(1) by (auto simp: concat_units)

lemma unit_words_nonempty: "unit_words us \<noteq> []"
  by (induction us) (auto split: list.split)

lemma unit_words_visible: "w \<in> set (unit_words us) \<Longrightarrow> u \<in> set w \<Longrightarrow> u \<in> set us \<and> \<not> space_unit u"
  by (induction us arbitrary: w) (fastforce split: if_splits list.splits)+

lemma unit_words_all: "u \<in> set us \<Longrightarrow> \<not> space_unit u \<Longrightarrow> \<exists>w \<in> set (unit_words us). u \<in> set w"
  by (induction us) (fastforce split: if_splits list.splits)+

lemma join_words:
  "\<exists>us. join_with '' '' (map concat ws) = concat us \<and> set us \<subseteq> insert '' '' (\<Union>w \<in> set ws. set w)
     \<and> (ws \<noteq> [] \<longrightarrow> hd ws \<noteq> [] \<longrightarrow> us \<noteq> [] \<and> hd us = hd (hd ws))"
proof (induction ws rule: induct_list012)
  case (2 w)
  then show ?case by (intro exI [of _ w]) auto
next
  case (3 w v ws)
  then obtain us where us: "join_with '' '' (map concat (v # ws)) = concat us"
    "set us \<subseteq> insert '' '' (\<Union>w \<in> set (v # ws). set w)" by blast
  show ?case by (rule exI [of _ "w @ '' '' # us"]) (use us in \<open>auto simp: hd_append\<close>)
qed (rule exI [of _ "[]"], simp)

definition plain_units :: "string \<Rightarrow> string list" where
  "plain_units msg = map (\<lambda>u. if control_unit u \<or> space_unit u then '' '' else u) (valid_units msg)"

lemma space_rune: "rune '' ''" by code_simp

lemma plain_units_rune: "list_all rune (plain_units msg)"
  using valid_units_rune [of msg] space_rune by (auto simp: plain_units_def list_all_iff)

lemma plain_units_clean: "u \<in> set (plain_units msg) \<Longrightarrow> \<not> control_unit u"
  by (auto simp: plain_units_def control_unit_def)

definition visible :: "string \<Rightarrow> bool" where
  "visible u \<longleftrightarrow> \<not> control_unit u \<and> \<not> space_unit u"

lemma sanitized_runes:
  obtains us where "sanitize_retry_feedback_message msg = truncate_to max_message_bytes (concat us)"
    and "list_all rune us" "\<And>u. u \<in> set us \<Longrightarrow> \<not> control_unit u"
    and "(\<exists>u \<in> set (valid_units msg). visible u) \<Longrightarrow> us \<noteq> [] \<and> \<not> space_unit (hd us)"
proof -
  let ?ws = "filter (\<lambda>w. w \<noteq> []) (unit_words (plain_units msg))"
  obtain us where us: "join_with '' '' (map concat ?ws) = concat us" "set us \<subseteq> insert '' '' (\<Union>w \<in> set ?ws. set w)"
    "?ws \<noteq> [] \<Longrightarrow> hd ?ws \<noteq> [] \<Longrightarrow> us \<noteq> [] \<and> hd us = hd (hd ?ws)" using join_words [of ?ws] by blast
  have words: "u \<in> set (plain_units msg) \<and> \<not> space_unit u" if "w \<in> set ?ws" "u \<in> set w" for w u
    using that unit_words_visible by auto
  have mem: "u = '' '' \<or> u \<in> set (plain_units msg)" if "u \<in> set us" for u using us(2) that words by blast
  show thesis
  proof (rule that)
    have "text_fields (concat (plain_units msg)) = map concat ?ws"
      by (simp add: text_fields_def units_runes [OF plain_units_rune])
    then show "sanitize_retry_feedback_message msg = truncate_to max_message_bytes (concat us)"
      by (simp add: sanitize_retry_feedback_message_def plain_units_def [symmetric] us(1))
    show "list_all rune us" using mem plain_units_rune [of msg] space_rune by (auto simp: list_all_iff)
    show "\<not> control_unit u" if "u \<in> set us" for u
      using mem [OF that] plain_units_clean by (auto simp: control_unit_def)
    assume "\<exists>u \<in> set (valid_units msg). visible u"
    then obtain u where "u \<in> set (plain_units msg)" "\<not> space_unit u"
      by (force simp: plain_units_def visible_def)
    from unit_words_all [OF this] have "?ws \<noteq> []" unfolding filter_empty_conv by fastforce
    moreover from this have first: "hd ?ws \<in> set ?ws" by (rule hd_in_set)
    ultimately have "us \<noteq> [] \<and> hd us = hd (hd ?ws)" using us(3) by simp
    moreover have "hd (hd ?ws) \<in> set (hd ?ws)" using first by (intro hd_in_set) simp
    ultimately show "us \<noteq> [] \<and> \<not> space_unit (hd us)" using words [OF first] by simp
  qed
qed

lemma sanitized_is_bounded:
  "utf8_valid (sanitize_retry_feedback_message msg)" "length (sanitize_retry_feedback_message msg) \<le> max_message_bytes"
  "\<not> list_ex control_unit (units (sanitize_retry_feedback_message msg))"
proof -
  have "\<exists>us. sanitize_retry_feedback_message msg = truncate_to max_message_bytes (concat us)
    \<and> list_all rune us \<and> (\<forall>u \<in> set us. \<not> control_unit u)"
    by (rule sanitized_runes [of msg]) (intro exI conjI ballI)
  then obtain us where us: "sanitize_retry_feedback_message msg = truncate_to max_message_bytes (concat us)"
    "list_all rune us" "\<forall>u \<in> set us. \<not> control_unit u" by (elim exE conjE)
  note t = truncate_prefix [OF runes_utf8 [OF us(2)], of max_message_bytes]
  then show "utf8_valid (sanitize_retry_feedback_message msg)"
    "length (sanitize_retry_feedback_message msg) \<le> max_message_bytes" by (simp_all add: us(1))
  from t obtain x where "concat us = truncate_to max_message_bytes (concat us) @ x" by blast
  from prefix_units [OF this] t us(3) show "\<not> list_ex control_unit (units (sanitize_retry_feedback_message msg))"
    by (auto simp: us(1) list_ex_iff units_runes [OF us(2)])
qed

lemma rune_length: "rune u \<Longrightarrow> length u \<le> 4"
proof -
  assume "rune u"
  then have "length (map of_char u :: nat list) \<le> 4" by (cases rule: rune_forms) simp_all
  then show ?thesis by simp
qed

lemma sanitized_not_blank:
  assumes "u \<in> set (valid_units msg)" "visible u"
  shows "\<not> blank (sanitize_retry_feedback_message msg)"
proof -
  obtain us where us: "sanitize_retry_feedback_message msg = truncate_to max_message_bytes (concat us)"
    "list_all rune us" "us \<noteq> []" "\<not> space_unit (hd us)" using sanitized_runes assms by metis
  then obtain v vs where vs: "us = v # vs" by (cases us) auto
  with us have v: "rune v" "\<not> space_unit v" by simp_all
  have "length v \<le> max_message_bytes" using rune_length [OF v(1)] by (simp add: max_message_bytes_def)
  from truncate_keeps [OF v(1) this, of _ "concat vs"] obtain y where y: "sanitize_retry_feedback_message msg = v @ y"
    using us(1) vs by auto
  with visible_not_blank [OF v, of y] sanitized_is_bounded(1) [of msg] show ?thesis by simp
qed

text \<open>So a sanitised message with something to see in it passes the validation of its field.\<close>

lemma sanitized_is_valid:
  assumes "u \<in> set (valid_units msg)" "visible u"
  shows "bounded_diagnostic_field (sanitize_retry_feedback_message msg) max_message_bytes = None"
  using sanitized_not_blank [OF assms] sanitized_is_bounded [of msg] by (simp add: bounded_diagnostic_field_def)

subsection \<open>Output paths stay inside\<close>

lemma strip_common_split:
  "\<exists>pre. base = pre @ fst (strip_common base target) \<and> target = pre @ snd (strip_common base target)"
proof (induction base target rule: strip_common.induct)
  case (1 a as b bs)
  show ?case
  proof (cases "a = b")
    case True
    with 1 obtain pre where "as = pre @ fst (strip_common as bs)" "bs = pre @ snd (strip_common as bs)" by blast
    with True show ?thesis by (intro exI [of _ "a # pre"]) simp
  qed simp
qed simp_all

lemma join_first: "x # xs = ''..'' # ys \<Longrightarrow> join_with ''/'' (x # xs) = ''..'' \<or> has_prefix (join_with ''/'' (x # xs)) ''../''"
  by (cases xs) (auto simp: has_prefix_def)

lemma artifact_path_inside:
  assumes "artifact_path cwd root candidate = Inr p"
  shows "\<exists>rest. abs_elements cwd candidate = abs_elements cwd root @ rest
    \<and> p = CHR ''/'' # join_with ''/'' (abs_elements cwd root @ rest)"
proof -
  let ?b = "abs_elements cwd root" and ?t = "abs_elements cwd candidate"
  obtain up down where ud: "strip_common ?b ?t = (up, down)" by fastforce
  from strip_common_split [of ?b ?t] obtain pre where pre: "?b = pre @ up" "?t = pre @ down" unfolding ud by auto
  have "up = []"
  proof (rule ccontr)
    assume "up \<noteq> []"
    then obtain u us where up: "up = u # us" by (cases up) auto
    then have "rel_elements ?b ?t = ''..'' # (map (\<lambda>_. ''..'') us @ down)" by (simp add: rel_elements_def ud)
    with join_first [of "''..''" "map (\<lambda>_. ''..'') us @ down"] assms show False
      by (auto simp: artifact_path_def Let_def split: if_splits)
  qed
  with pre assms show ?thesis by (auto simp: artifact_path_def Let_def split: if_splits)
qed

lemma accepted_outputs_inside:
  "validate_outputs cwd root as = None \<Longrightarrow> a \<in> set as \<Longrightarrow> \<exists>p. artifact_path cwd root (ao_path a) = Inr p"
  by (induction as) (auto split: if_splits sum.splits)

text \<open>No element of a clean path leads out of it.\<close>

lemma clean_elements_plain:
  "\<forall>e \<in> set out. e \<noteq> '''' \<and> e \<noteq> ''.'' \<and> e \<noteq> ''..'' \<Longrightarrow> e \<in> set (clean_elements out es) \<Longrightarrow> e \<noteq> '''' \<and> e \<noteq> ''.'' \<and> e \<noteq> ''..''"
proof (induction out es rule: clean_elements.induct)
  case (2 out d es)
  have tail: "\<forall>e \<in> set (tl out). e \<noteq> '''' \<and> e \<noteq> ''.'' \<and> e \<noteq> ''..''" using "2.prems"(1) by (cases out) auto
  show ?case
  proof (cases "d = '''' \<or> d = ''.''")
    case True
    then show ?thesis using "2.IH"(1) "2.prems" by auto
  next
    case False
    then show ?thesis using "2.IH"(2,3) "2.prems" tail by (cases "d = ''..''") auto
  qed
qed simp

lemma path_elements_plain: "e \<in> set (abs_elements cwd p) \<Longrightarrow> e \<noteq> '''' \<and> e \<noteq> ''.'' \<and> e \<noteq> ''..''"
  unfolding abs_elements_def path_elements_def using clean_elements_plain [of "[]"] by auto

end
