(* ===== verification/Workflow_Recovery.thy ===== *)
theory Workflow_Recovery
  imports Workflow_Inputs Agent_Contract
begin

section \<open>Recovery of a workflow\<close>

text \<open>
  \<open>internal/controllers/workflow/recovery_audit.go\<close>, \<open>retry_feedback.go\<close>, \<open>retry_input.go\<close>, and from
  \<open>workflow_controller.go\<close> \<open>retryFeedbackForAttempt\<close>, \<open>failedAttemptEvidenceEvents\<close> and
  \<open>workflowResourceRef\<close>: the evidence frozen when a rewind is selected, the feedback and the test
  artifact the repair starts from, and the two audit events of a recovery. \<open>encode\<close> stands for
  \<open>json.Marshal\<close> of the evidence, \<open>sha\<close> for SHA-256. The live reader and the cached client read
  the same objects here.
\<close>

subsection \<open>Loops with a state\<close>

fun fold_io :: "('x \<Rightarrow> 's \<Rightarrow> ('w, 's) io) \<Rightarrow> 'x list \<Rightarrow> 's \<Rightarrow> ('w, 's) io" where
  "fold_io f [] s = ret s"
| "fold_io f (x # xs) s = bind_io (f x s) (fold_io f xs)"

lemma keeps_fold [triple_intros]: "(\<And>x s. keeps I (f x s)) \<Longrightarrow> keeps I (fold_io f xs s)"
  by (induction xs arbitrary: s) (auto intro!: triple_intros)

subsection \<open>Feedback (retry_feedback.go, workflow_controller.go)\<close>

definition test_run_code_error :: string where
  "test_run_code_error = ''TestRunCodeError''"

definition feedback_of :: "failed_agent_attempt \<Rightarrow> retry_feedback" where
  "feedback_of f = \<lparr>rf_previousAttemptRef = previousAttemptRef f, rf_code = fa_code f, rf_message = fa_message f\<rparr>"

definition retry_feedback_for_attempt :: "step_attempt \<Rightarrow> failed_agent_attempt option" where
  "retry_feedback_for_attempt attempt =
     (if sa_kind (spec attempt) \<noteq> ExecutionKindAgent
         \<and> \<not> (sa_kind (spec attempt) = ExecutionKindUtility \<and> sa_failureReason (status attempt) = test_run_code_error)
      then None
      else if sa_failureReason (status attempt) = '''' \<or> sa_failureMessage (status attempt) = '''' then None
      else (let feedback = \<lparr>previousAttemptRef = name_of attempt, fa_code = sa_failureReason (status attempt),
                  fa_message = sanitize_retry_feedback_message (sa_failureMessage (status attempt))\<rparr>
            in if validate_retry_feedback (feedback_of feedback) \<noteq> None then None else Some feedback))"

definition bounded_share :: "string \<Rightarrow> nat \<Rightarrow> string" where
  "bounded_share message limit =
     sanitize_retry_feedback_message (if length message > limit then take limit message else message)"

definition merge_retry_feedback ::
  "failed_agent_attempt option \<Rightarrow> failed_agent_attempt option \<Rightarrow> failed_agent_attempt option" where
  "merge_retry_feedback origin latest = (case origin of
       None \<Rightarrow> latest
     | Some o' \<Rightarrow> (case latest of
           None \<Rightarrow> Some o'
         | Some l \<Rightarrow>
             if previousAttemptRef l = previousAttemptRef o' then Some o'
             else Some (o'\<lparr>fa_message := sanitize_retry_feedback_message (
                bounded_share (fa_message o') 600 @ '' | Latest agent attempt '' @ previousAttemptRef l @ '' ('' @ fa_code l @ ''): ''
                @ bounded_share (fa_message l) 200)\<rparr>)))"

definition workflow_retry_feedback :: "workflow \<Rightarrow> step_config \<Rightarrow> failed_agent_attempt option action" where
  "workflow_retry_feedback flow step = (case wf_refinement (status flow) of
       None \<Rightarrow> ret None
     | Some refinement \<Rightarrow>
         if step_kind step \<noteq> ExecutionKindAgent \<or> wf_workflowAttempt (status flow) < 1
            \<or> ref_iteration refinement \<noteq> wf_workflowAttempt (status flow)
            \<or> ref_restartStepName refinement \<noteq> step_name step \<or> ref_triggerAttemptRef refinement = ''''
         then ret None
         else (case ref_recovery refinement of
             Some recovery \<Rightarrow>
               if rec_fromWorkflowAttempt recovery \<noteq> wf_workflowAttempt (status flow) - 1
                  \<or> ref_name (rec_triggerAttempt recovery) \<noteq> ref_triggerAttemptRef refinement
               then raise (Invalid ''recovery evidence does not match this workflow iteration'')
               else ret (rec_feedback recovery)
           | None \<Rightarrow>
               bind_io (k_get StepAttempts (namespace_of flow) (ref_triggerAttemptRef refinement)) (\<lambda>failed.
                 if ref_name (sa_workflowRef (spec failed)) \<noteq> name_of flow \<or> ref_uid (sa_workflowRef (spec failed)) \<noteq> uid_of flow
                    \<or> \<not> is_controlled_by failed flow \<or> sa_stepName (spec failed) \<noteq> ref_triggerStepName refinement
                    \<or> sa_workflowAttempt (spec failed) \<noteq> wf_workflowAttempt (status flow) - 1
                    \<or> sa_phase (status failed) \<noteq> PhaseFailed
                 then raise (Invalid ''workflow retry trigger does not match the previous failed workflow attempt'')
                 else ret (retry_feedback_for_attempt failed))))"

subsection \<open>The consumed inputs of a failed attempt (recovery_audit.go)\<close>

definition recovery_uid :: "('s, 't) kobj \<Rightarrow> uid_reference" where
  "recovery_uid object = \<lparr>ref_name = name_of object, ref_uid = uid_of object\<rparr>"

datatype execution = RunExecution agent_run | OperationExecution utility_operation

definition execution_uid :: "execution \<Rightarrow> string" where
  "execution_uid x = (case x of RunExecution run \<Rightarrow> uid_of run | OperationExecution operation \<Rightarrow> uid_of operation)"

definition read_execution :: "('s, 't) kind \<Rightarrow> string \<Rightarrow> string \<Rightarrow> (('s, 't) kobj \<Rightarrow> go_error option)
    \<Rightarrow> (('s, 't) kobj \<Rightarrow> execution \<times> artifact_reference list) \<Rightarrow> (execution option \<times> artifact_reference list) action" where
  "read_execution K ns n check view =
     bind_io (attempt_io (k_get K ns n)) (\<lambda>res. case res of
         Inl e \<Rightarrow> (if e = NotFound then ret (None, []) else raise e)
       | Inr object \<Rightarrow> (case check object of
             Some e \<Rightarrow> raise e
           | None \<Rightarrow> if uid_of object = '''' then raise (Invalid ''recovery execution has no UID'')
               else ret (Some (fst (view object)), snd (view object))))"

definition recovery_execution :: "workflow \<Rightarrow> step_attempt \<Rightarrow> (execution option \<times> artifact_reference list) action" where
  "recovery_execution flow attempt =
     (if uid_of attempt = '''' \<or> sa_workflowRef (spec attempt) \<noteq> recovery_uid flow \<or> \<not> is_controlled_by attempt flow
      then raise (Invalid ''recovery attempt has invalid workflow ownership'')
      else (case sa_executionRef (status attempt) of
          None \<Rightarrow> ret (None, [])
        | Some ref \<Rightarrow>
            if tl_apiVersion ref \<noteq> group_version \<or> tl_kind ref \<noteq> domain_kind (sa_kind (spec attempt))
            then raise (Invalid ''recovery execution does not match attempt'')
            else (case sa_kind (spec attempt) of
                ExecutionKindAgent \<Rightarrow> read_execution AgentRuns (namespace_of attempt) (tl_name ref)
                  (\<lambda>run. validate_domain_binding attempt run (run_attemptRef (spec run)) ExecutionKindAgent
                     (run_workflowRef (spec run)) (run_stepName (spec run)) (run_attempt (spec run)))
                  (\<lambda>run. (RunExecution run, run_inputs (spec run)))
              | ExecutionKindUtility \<Rightarrow> read_execution UtilityOperations (namespace_of attempt) (tl_name ref)
                  (\<lambda>op. validate_domain_binding attempt op (uo_attemptRef (spec op)) ExecutionKindUtility
                     (uo_workflowRef (spec op)) (uo_stepName (spec op)) (uo_attempt (spec op)))
                  (\<lambda>op. (OperationExecution op, uo_inputs (spec op)))
              | _ \<Rightarrow> ret (None, []))))"

text \<open>
  \<open>recoveryInputPath\<close>: \<open>descend\<close> is its call on a producer. The state of the loop over the inputs is
  the links and the prior attempt found so far.
\<close>

type_synonym recovery_path = "recovery_input_link list \<times> step_attempt option"

definition input_producer_path ::
  "workflow \<Rightarrow> step_attempt \<Rightarrow> string \<Rightarrow> (step_attempt \<Rightarrow> recovery_path action) \<Rightarrow> artifact_reference \<Rightarrow> step_attempt \<Rightarrow> artifact
    \<Rightarrow> recovery_path \<Rightarrow> recovery_path action" where
  "input_producer_path flow consumer restart descend input producer a found =
     (if recovery_uid producer \<noteq> art_producerGrantRef (spec a)
         \<or> sa_workflowAttempt (spec producer) > sa_workflowAttempt (spec consumer)
      then raise (Invalid ''recovery input has invalid producer attempt'')
      else bind_io (recovery_execution flow producer) (\<lambda>(execution, _). case execution of
          None \<Rightarrow> ret found
        | Some x \<Rightarrow>
            if execution_uid x \<noteq> art_producerUID (spec a) \<or> sa_executionRef (status producer) \<noteq> Some (art_producerRef (spec a))
            then raise (Invalid ''recovery input producer identity mismatch'')
            else bind_io
              (if sa_stepName (spec producer) = restart then ret ([], Some producer)
               else if sa_kind (spec producer) = ExecutionKindUtility then descend producer
               else ret ([], None)) (\<lambda>(path, prior). case prior of
                 None \<Rightarrow> ret found
               | Some p \<Rightarrow>
                   if (case snd found of None \<Rightarrow> False | Some f \<Rightarrow> uid_of f \<noteq> uid_of p)
                   then raise (Invalid ''recovery inputs identify multiple prior attempts'')
                   else ret (fst found @ \<lparr>link_consumer = recovery_uid consumer, link_input = input,
                      link_producer = recovery_uid producer\<rparr> # path, Some p))))"

definition input_path_step ::
  "workflow \<Rightarrow> step_attempt \<Rightarrow> string \<Rightarrow> (step_attempt \<Rightarrow> recovery_path action) \<Rightarrow> artifact_reference \<Rightarrow> recovery_path \<Rightarrow> recovery_path action" where
  "input_path_step flow consumer restart descend input found =
     (if (case ar_artifactRef input of None \<Rightarrow> True | Some pin \<Rightarrow> ref_uid pin = '''') then ret found
      else bind_io (resolve_pinned_input (namespace_of flow) (recovery_uid flow) input) (\<lambda>res. case res of
          Rejected _ \<Rightarrow> raise (Invalid ''recovery input'')
        | Unready \<Rightarrow> ret found
        | Resolved a \<Rightarrow>
            if ref_uid (art_producerGrantRef (spec a)) = '''' then ret found
            else bind_io (attempt_io (k_get StepAttempts (namespace_of flow) (ref_name (art_producerGrantRef (spec a))))) (\<lambda>res.
              case res of
                Inl e \<Rightarrow> (if e = NotFound then ret found else raise e)
              | Inr producer \<Rightarrow> input_producer_path flow consumer restart descend input producer a found)))"

primrec recovery_input_path :: "nat \<Rightarrow> workflow \<Rightarrow> string \<Rightarrow> step_attempt \<Rightarrow> recovery_path action" where
  "recovery_input_path 0 flow restart consumer = ret ([], None)"
| "recovery_input_path (Suc depth) flow restart consumer =
     bind_io (recovery_execution flow consumer) (\<lambda>(_, inputs).
       fold_io (input_path_step flow consumer restart (recovery_input_path depth flow restart)) inputs ([], None))"

subsection \<open>Evidence and events\<close>

text \<open>\<open>ListWorkflow\<close> of the recorder the controllers are given; it may fail like any call.\<close>

definition list_workflow_events :: "string \<Rightarrow> event list action" where
  "list_workflow_events workflowName = (\<lambda>w. case audit_log w of
       None \<Rightarrow> (Inr [], w)
     | Some _ \<Rightarrow> api_call (\<lambda>w. (Inr (case audit_log w of None \<Rightarrow> [] | Some m \<Rightarrow> mem_list_workflow workflowName m), w)) w)"

definition failure_event_of :: "step_attempt \<Rightarrow> event \<Rightarrow> bool" where
  "failure_event_of failed e \<longleftrightarrow> (ev_type e = ''StepAttemptFailed'' \<or> ev_type e = ''StepAttemptInterrupted'')
     \<and> ev_target e = name_of failed \<and> sub_namespace (ev_subject e) = namespace_of failed
     \<and> sub_step (ev_subject e) = sa_stepName (spec failed) \<and> sub_attempt (ev_subject e) = sa_retryNumber (spec failed)"

definition failed_attempt_evidence_events :: "workflow \<Rightarrow> step_attempt \<Rightarrow> string list action" where
  "failed_attempt_evidence_events flow failed =
     bind_io (list_workflow_events (name_of flow)) (\<lambda>events.
       ret (case find (failure_event_of failed) (rev events) of None \<Rightarrow> [] | Some e \<Rightarrow> [ev_id e]))"

definition recovery_artifact_pin :: "artifact \<Rightarrow> artifact_reference" where
  "recovery_artifact_pin a = \<lparr>ar_name = contract_name (art_contract (spec a)), ar_digest = art_digest (spec a),
     ar_artifactRef = Some (recovery_uid a), ar_producerAttemptRef = tl_name (art_producerRef (spec a))\<rparr>"

definition trigger_report :: "workflow \<Rightarrow> step_attempt \<Rightarrow> execution \<Rightarrow> artifact \<Rightarrow> bool" where
  "trigger_report flow failed x a \<longleftrightarrow> uid_of a \<noteq> '''' \<and> artifact_accepted a \<and> art_workflowRef (spec a) = recovery_uid flow
     \<and> art_producerGrantRef (spec a) = recovery_uid failed \<and> art_producerUID (spec a) = execution_uid x
     \<and> sa_executionRef (status failed) = Some (art_producerRef (spec a))"

definition trigger_reports :: "workflow \<Rightarrow> step_attempt \<Rightarrow> artifact_reference list action" where
  "trigger_reports flow failed =
     bind_io (recovery_execution flow failed) (\<lambda>(execution, _). case execution of
         None \<Rightarrow> ret []
       | Some x \<Rightarrow> bind_io (k_list Artifacts (namespace_of flow)) (\<lambda>all.
           ret (map recovery_artifact_pin (filter (trigger_report flow failed x) (sort_key name_of all)))))"

definition recovery_trigger :: "workflow \<Rightarrow> step_attempt \<Rightarrow> bool" where
  "recovery_trigger flow failed \<longleftrightarrow> uid_of failed \<noteq> '''' \<and> sa_workflowRef (spec failed) = recovery_uid flow
     \<and> is_controlled_by failed flow \<and> sa_phase (status failed) = PhaseFailed"

definition capture_workflow_recovery :: "workflow \<Rightarrow> step_attempt \<Rightarrow> string \<Rightarrow> workflow_recovery_evidence action" where
  "capture_workflow_recovery flow failed restart =
     (if \<not> recovery_trigger flow failed then raise (Invalid ''invalid workflow recovery trigger'')
      else bind_io (gets clock) (\<lambda>now.
        bind_io (failed_attempt_evidence_events flow failed) (\<lambda>events.
        bind_io (recovery_input_path 2 flow restart failed) (\<lambda>(links, previous).
        bind_io (trigger_reports flow failed) (\<lambda>reports.
          ret \<lparr>rec_selectedAt = now, rec_triggerAttempt = recovery_uid failed,
            rec_previousAttempt = map_option recovery_uid previous,
            rec_previousOutcome = (case previous of None \<Rightarrow> NoPhase | Some p \<Rightarrow> sa_phase (status p)),
            rec_fromWorkflowAttempt = sa_workflowAttempt (spec failed), rec_maxWorkflowAttempt = wf_maxWorkflowAttempt (spec flow),
            rec_failureReason = sa_failureReason (status failed), rec_feedback = retry_feedback_for_attempt failed,
            rec_inputLinks = links, rec_reports = reports, rec_evidenceEvents = events,
            rec_missing = (if events = [] then [''trigger failure event''] else [])
              @ (if retry_feedback_for_attempt failed = None then [''retry diagnostic''] else [])
              @ (if previous = None then [''consumed output from prior restart-step attempt''] else [])
              @ (if reports = [] then [''accepted trigger report artifact''] else [])\<rparr>)))))"

definition workflow_resource_ref :: "string \<Rightarrow> ('s, 't) kobj \<Rightarrow> resource_ref" where
  "workflow_resource_ref kind object = \<lparr>rr_schemaVersion = ''v1'', rr_apiVersion = group_version, rr_kind = kind,
     rr_namespace = namespace_of object, rr_name = name_of object, rr_uid = uid_of object\<rparr>"

definition workflow_recovery_event_id ::
  "(string \<Rightarrow> string) \<Rightarrow> workflow \<Rightarrow> workflow_refinement_status \<Rightarrow> workflow_recovery_evidence \<Rightarrow> string" where
  "workflow_recovery_event_id sha flow refinement recovery = deterministic_id sha
     [''workflow-rewind/v1'', uid_of flow, ref_uid (rec_triggerAttempt recovery), show_int (ref_iteration refinement)]"

definition append_workflow_recovery_event ::
  "(string \<Rightarrow> string) \<Rightarrow> workflow \<Rightarrow> string \<Rightarrow> string \<Rightarrow> event_options \<Rightarrow> unit action" where
  "append_workflow_recovery_event sha flow restartStep eventID opts =
     bind_io (gets clock) (\<lambda>now.
       record_event ((new_event sha now (opts\<lparr>op_source := ''workflow-controller'',
         op_actor := \<lparr>actor_kind = ''Controller'', actor_id = ''workflow-controller''\<rparr>,
         op_subject := \<lparr>sub_project = ref_name (wf_project (spec flow)), sub_namespace = namespace_of flow,
           sub_workflow = name_of flow, sub_step = restartStep, sub_attempt = 1\<rparr>,
         op_correlationID := name_of flow\<rparr>))\<lparr>ev_id := eventID\<rparr>))"

definition passed_invariant :: "string \<Rightarrow> string \<Rightarrow> string \<Rightarrow> string \<Rightarrow> invariant_result" where
  "passed_invariant i expected observed reason = \<lparr>inv_schemaVersion = ''v1'', inv_id = i, inv_outcome = ''passed'',
     inv_expected = expected, inv_observed = observed, inv_reason = reason\<rparr>"

definition recovery_decision_payload ::
  "(string \<Rightarrow> string) \<Rightarrow> (workflow_recovery_evidence \<Rightarrow> string) \<Rightarrow> workflow \<Rightarrow> workflow_refinement_status
    \<Rightarrow> workflow_recovery_evidence \<Rightarrow> workflow_recovery_decision" where
  "recovery_decision_payload sha encode flow refinement evidence =
     (let eventID = workflow_recovery_event_id sha flow refinement evidence
      in \<lparr>wrd_decision = \<lparr>de_approvalBinding = None, de_schemaVersion = ''v1'',
            de_primitive = workflow_resource_ref ''SovereignWorkflow'' flow,
            de_decision = \<lparr>dr_schemaVersion = ''v1'', dr_id = eventID, dr_kind = ''controller'', dr_revision = ''workflow-rewind/v1'',
              dr_sourceDigest = '''', dr_inputDigest = digest_bytes sha (encode evidence), dr_outcome = ''selected''\<rparr>,
            de_authorityEvent = '''', de_inputEvent = '''', de_evidenceEvents = rec_evidenceEvents evidence,
            de_invariants = [passed_invariant ''trigger-attempt-failed'' '''' ''Failed'' '''',
              passed_invariant ''workflow-attempt-budget-remaining'' (''iteration <= '' @ show_int (rec_maxWorkflowAttempt evidence))
                (show_int (ref_iteration refinement)) '''']\<rparr>,
          wrd_action = ''RetryWorkflow'', wrd_restartStep = ref_restartStepName refinement,
          wrd_toWorkflowAttempt = ref_iteration refinement,
          wrd_nextAttemptName = attempt_name (ref_restartStepName refinement) (ref_iteration refinement) 1,
          wrd_recovery = evidence\<rparr>)"

definition record_workflow_recovery ::
  "(string \<Rightarrow> string) \<Rightarrow> (workflow_recovery_evidence \<Rightarrow> string) \<Rightarrow> workflow \<Rightarrow> unit action" where
  "record_workflow_recovery sha encode flow =
     bind_io (gets has_recorder) (\<lambda>recorder. case wf_refinement (status flow) of
         None \<Rightarrow> ret ()
       | Some refinement \<Rightarrow> (case ref_recovery refinement of
           None \<Rightarrow> ret ()
         | Some evidence \<Rightarrow> if \<not> recorder then ret () else
             append_workflow_recovery_event sha flow (ref_restartStepName refinement)
               (workflow_recovery_event_id sha flow refinement evidence)
               (blank_options\<lparr>op_type := ''RecoveryDecisionSelected'', op_occurredAt := Some (rec_selectedAt evidence),
                 op_action := ''select'', op_target := ref_restartStepName refinement, op_outcome := ''selected'',
                 op_reason := rec_failureReason evidence, op_decisionID := workflow_recovery_event_id sha flow refinement evidence,
                 op_data := RecoveryData (recovery_decision_payload sha encode flow refinement evidence)\<rparr>)))"

subsection \<open>The replacement of a rewound attempt\<close>

definition observation_for :: "string \<Rightarrow> step_attempt \<Rightarrow> agent_run \<Rightarrow> int \<Rightarrow> workflow_retry_observation" where
  "observation_for decisionID attempt run now = \<lparr>obs_decisionEvent = decisionID, obs_attempt = recovery_uid attempt,
     obs_execution = recovery_uid run, obs_observedAt = now\<rparr>"

definition observe_retry ::
  "(string \<Rightarrow> string) \<Rightarrow> string \<Rightarrow> workflow \<Rightarrow> step_attempt \<Rightarrow> agent_run \<Rightarrow> workflow \<Rightarrow> int action" where
  "observe_retry sha decisionID flow attempt run latest = (case wf_refinement (status latest) of
       None \<Rightarrow> raise (Invalid ''workflow recovery changed before replacement observation'')
     | Some refinement \<Rightarrow> (case ref_recovery refinement of
         None \<Rightarrow> raise (Invalid ''workflow recovery changed before replacement observation'')
       | Some recovery \<Rightarrow>
           if uid_of latest \<noteq> uid_of flow \<or> deletion (meta latest) \<noteq> None
              \<or> workflow_recovery_event_id sha latest refinement recovery \<noteq> decisionID
           then raise (Invalid ''workflow recovery changed before replacement observation'')
           else (case ref_retryObservation refinement of
               Some saved \<Rightarrow>
                 if obs_decisionEvent saved \<noteq> decisionID \<or> obs_attempt saved \<noteq> recovery_uid attempt
                    \<or> obs_execution saved \<noteq> recovery_uid run \<or> obs_observedAt saved = zero_time
                 then raise (Invalid ''workflow retry observation does not match the persisted replacement'')
                 else ret (obs_observedAt saved)
             | None \<Rightarrow> bind_io (gets clock) (\<lambda>now.
                 bind_io (k_update_status Workflows (latest\<lparr>status := (status latest)\<lparr>wf_refinement :=
                     Some (refinement\<lparr>ref_retryObservation := Some (observation_for decisionID attempt run now)\<rparr>)\<rparr>\<rparr>))
                   (\<lambda>_. ret now)))))"

definition persist_retry_observation ::
  "(string \<Rightarrow> string) \<Rightarrow> string \<Rightarrow> workflow \<Rightarrow> step_attempt \<Rightarrow> agent_run \<Rightarrow> int action" where
  "persist_retry_observation sha decisionID flow attempt run = retry_on_conflict (
     bind_io (k_get Workflows (namespace_of flow) (name_of flow)) (observe_retry sha decisionID flow attempt run))"

definition record_workflow_retry ::
  "(string \<Rightarrow> string) \<Rightarrow> workflow \<Rightarrow> step_attempt \<Rightarrow> typed_local_reference \<Rightarrow> unit action" where
  "record_workflow_retry sha flow attempt executionRef =
     bind_io (gets has_recorder) (\<lambda>recorder. case wf_refinement (status flow) of
         None \<Rightarrow> ret ()
       | Some refinement \<Rightarrow> (case ref_recovery refinement of
           None \<Rightarrow> ret ()
         | Some recovery \<Rightarrow>
             if \<not> recorder \<or> sa_workflowAttempt (spec attempt) \<noteq> ref_iteration refinement
                \<or> sa_stepName (spec attempt) \<noteq> ref_restartStepName refinement \<or> sa_retryNumber (spec attempt) \<noteq> 1
             then ret ()
             else bind_io (recovery_execution flow (attempt\<lparr>status := (status attempt)\<lparr>sa_executionRef := Some executionRef\<rparr>\<rparr>))
               (\<lambda>(execution, _). case execution of
                  Some (RunExecution run) \<Rightarrow>
                    (let decisionID = workflow_recovery_event_id sha flow refinement recovery
                     in bind_io (persist_retry_observation sha decisionID flow attempt run) (\<lambda>occurred.
                       append_workflow_recovery_event sha flow (ref_restartStepName refinement)
                         (deterministic_id sha [''workflow-retry-created/v1'', decisionID, uid_of attempt, uid_of run])
                         (blank_options\<lparr>op_type := ''StepAttemptRetried'', op_occurredAt := Some occurred, op_action := ''retry'',
                           op_target := name_of attempt, op_outcome := ''created'', op_reason := rec_failureReason recovery,
                           op_causationID := decisionID, op_decisionID := decisionID,
                           op_data := RetryData \<lparr>wrr_observedAt = Some occurred, wrr_schemaVersion = ''v1'',
                             wrr_workflow = workflow_resource_ref ''SovereignWorkflow'' flow, wrr_decisionEvent = decisionID,
                             wrr_retryOf = rec_previousAttempt recovery, wrr_triggeredBy = rec_triggerAttempt recovery,
                             wrr_attempt = workflow_resource_ref ''StepAttempt'' attempt,
                             wrr_execution = workflow_resource_ref ''AgentRun'' run,
                             wrr_workflowAttempt = sa_workflowAttempt (spec attempt),
                             wrr_feedback = run_priorAttemptRef (spec run), wrr_inputs = run_inputs (spec run)\<rparr>\<rparr>)))
                | _ \<Rightarrow> raise (Invalid ''workflow recovery requires a persisted AgentRun''))))"

subsection \<open>The tests a repair starts from (retry_input.go)\<close>

definition recovery_links :: "workflow \<Rightarrow> workflow_refinement_status \<Rightarrow> step_config \<Rightarrow> recovery_input_link list action" where
  "recovery_links flow refinement step = (case ref_recovery refinement of
       Some recovery \<Rightarrow>
         if rec_fromWorkflowAttempt recovery \<noteq> wf_workflowAttempt (status flow) - 1
            \<or> ref_name (rec_triggerAttempt recovery) \<noteq> ref_triggerAttemptRef refinement
         then raise (Invalid ''test repair recovery does not match workflow iteration'')
         else ret (rec_inputLinks recovery)
     | None \<Rightarrow> bind_io (k_get StepAttempts (namespace_of flow) (ref_triggerAttemptRef refinement)) (\<lambda>trigger.
         bind_io (recovery_input_path 2 flow (step_name step) trigger) (\<lambda>(links, _). ret links)))"

definition workflow_retry_test_input :: "workflow \<Rightarrow> step_config \<Rightarrow> artifact_reference option action" where
  "workflow_retry_test_input flow step = (case wf_refinement (status flow) of
       None \<Rightarrow> ret None
     | Some refinement \<Rightarrow>
         if wf_workflowAttempt (status flow) < 1 \<or> ref_iteration refinement \<noteq> wf_workflowAttempt (status flow)
            \<or> ref_restartStepName refinement \<noteq> step_name step \<or> \<not> produces step ''test-change-set''
         then ret None
         else bind_io (recovery_links flow refinement step) (\<lambda>links.
           case find (\<lambda>l. ar_name (link_input l) = ''test-change-set'') links of
             None \<Rightarrow> ret None
           | Some link \<Rightarrow> bind_io (resolve_pinned_input (namespace_of flow) (recovery_uid flow) (link_input link)) (\<lambda>res.
               case res of
                 Resolved a \<Rightarrow> if art_producerGrantRef (spec a) \<noteq> link_producer link
                   then raise (Invalid ''prior test artifact is unavailable or no longer matches recovery evidence'')
                   else ret (Some (link_input link))
               | _ \<Rightarrow> raise (Invalid ''prior test artifact is unavailable or no longer matches recovery evidence''))))"

subsection \<open>Reads and records keep what does not depend on them\<close>

text \<open>
  A fact about the cluster that no script of faults and no event touches. Every step that only
  reads or records keeps it.
\<close>

locale observed_fact =
  fixes I :: "cluster \<Rightarrow> bool"
  assumes faults_stable: "\<And>fs w. I w \<Longrightarrow> I (w\<lparr>faults := fs\<rparr>)"
    and audit_stable: "\<And>a w. I w \<Longrightarrow> I (w\<lparr>audit_log := a\<rparr>)"
begin

lemma keeps_reads:
  "keeps I (k_get K ns n)" "keeps I (k_list K ns)" "keeps I (record_event e)" "keeps I (append_controller_event sha c opts)"
  "keeps I (resolve_pinned_input ns workflowRef input)" "keeps I (resolve_step_inputs flow consumer step)"
  "keeps I (resolve_artifact_evidence sha ns workflowRef inputs)" "keeps I (record_approval_admission sha request decision)"
  by (intro keeps_get keeps_list keeps_record_event keeps_controller_event keeps_pinned keeps_step_inputs keeps_resolution
      keeps_admission faults_stable audit_stable; assumption)+

lemmas keeps_intros = triple_intros keeps_reads

lemma keeps_read_execution: "keeps I (read_execution K ns n check view)"
  unfolding read_execution_def by (intro keeps_intros)

lemma keeps_recovery_execution: "keeps I (recovery_execution flow attempt)"
  unfolding recovery_execution_def
  by (cases "sa_kind (spec attempt)") (auto intro!: keeps_intros keeps_read_execution)

lemma keeps_input_path: "keeps I (recovery_input_path depth flow restart consumer)"
proof (induction depth arbitrary: consumer)
  case 0
  then show ?case by (auto intro!: keeps_intros)
next
  case (Suc depth)
  show ?case unfolding recovery_input_path.simps input_path_step_def input_producer_path_def
    by (auto intro!: keeps_intros keeps_recovery_execution Suc split: resolution.split)
qed

lemma keeps_list_events: "keeps I (list_workflow_events n)"
proof -
  have "keeps I (api_call (\<lambda>w. (Inr (case audit_log w of None \<Rightarrow> [] | Some m \<Rightarrow> mem_list_workflow n m), w)))"
    by (rule keeps_api_call, erule faults_stable, rule tripleI) auto
  then show ?thesis unfolding list_workflow_events_def triple_def by (auto split: option.split)
qed

lemma keeps_evidence_events: "keeps I (failed_attempt_evidence_events flow failed)"
  unfolding failed_attempt_evidence_events_def by (intro keeps_intros keeps_list_events)

lemma keeps_capture: "keeps I (capture_workflow_recovery flow failed restart)"
  unfolding capture_workflow_recovery_def trigger_reports_def
  by (auto intro!: keeps_intros keeps_input_path keeps_evidence_events keeps_recovery_execution)

lemma keeps_record_recovery: "keeps I (record_workflow_recovery sha encode flow)"
  unfolding record_workflow_recovery_def append_workflow_recovery_event_def by (auto intro!: keeps_intros)

lemma keeps_retry_feedback: "keeps I (workflow_retry_feedback flow step)"
  unfolding workflow_retry_feedback_def by (auto intro!: keeps_intros)

lemma keeps_test_input: "keeps I (workflow_retry_test_input flow step)"
  unfolding workflow_retry_test_input_def recovery_links_def
  by (auto intro!: keeps_intros keeps_input_path split: resolution.split)

end

text \<open>The objects the evidence is read from stay as they are.\<close>

interpretation same_objects: observed_fact "same_objects w" for w
  by unfold_locales simp_all

subsection \<open>Merged feedback can be delivered\<close>

lemma bounded_share_valid: "utf8_valid (bounded_share m n)"
  unfolding bounded_share_def by (rule sanitized_is_bounded(1))

lemma bar_is_visible:
  assumes "utf8_valid s"
  shows "''|'' \<in> set (valid_units (s @ '' | '' @ x))"
proof -
  have "units (s @ '' | '' @ x) = units s @ units ('' '' @ ''|'' @ '' '' @ x)"
    using units_concat [OF utf8_units [OF assms], of "'' | '' @ x"] by (simp add: concat_units)
  also have "units ('' '' @ ''|'' @ '' '' @ x) = '' '' # ''|'' # units ('' '' @ x)"
    using units_rune [of "'' ''"] units_rune [of "''|''"] space_rune by (simp add: rune_def rune_at_ascii)
  finally have "''|'' \<in> set (units (s @ '' | '' @ x))" by simp
  moreover have "rune_at ''|'' \<noteq> 0" by (simp add: rune_at_ascii)
  ultimately show ?thesis unfolding valid_units_def by simp
qed

lemma merged_is_valid:
  assumes "merge_retry_feedback origin latest = Some f"
    and "\<And>o'. origin = Some o' \<Longrightarrow> validate_retry_feedback (feedback_of o') = None"
    and "\<And>l. latest = Some l \<Longrightarrow> validate_retry_feedback (feedback_of l) = None"
  shows "validate_retry_feedback (feedback_of f) = None"
proof (cases "Some f = origin \<or> Some f = latest")
  case True
  then show ?thesis using assms(2,3) by auto
next
  case False
  then obtain o' l where o: "origin = Some o'" and l: "latest = Some l"
    and f: "f = o'\<lparr>fa_message := sanitize_retry_feedback_message (
                bounded_share (fa_message o') 600 @ '' | Latest agent attempt '' @ previousAttemptRef l @ '' ('' @ fa_code l @ ''): ''
                @ bounded_share (fa_message l) 200)\<rparr>"
    using assms(1) by (auto simp: merge_retry_feedback_def split: option.splits if_splits)
  let ?rest = "''Latest agent attempt '' @ previousAttemptRef l @ '' ('' @ fa_code l @ ''): '' @ bounded_share (fa_message l) 200"
  have visible: "visible ''|''" by code_simp
  have "bounded_diagnostic_field (sanitize_retry_feedback_message (bounded_share (fa_message o') 600 @ '' | '' @ ?rest)) max_message_bytes = None"
    by (rule sanitized_is_valid [OF bar_is_visible [OF bounded_share_valid] visible])
  then have "bounded_diagnostic_field (fa_message f) max_message_bytes = None" unfolding f by simp
  then show ?thesis using assms(2) [OF o] f
    by (simp add: validate_retry_feedback_def feedback_of_def split: option.splits if_splits)
qed

subsection \<open>A property\<close>

text \<open>
  C38: The feedback an agent is given is always one it can be given. Merging the failure that caused
  a rewind with the latest rejection, whatever bytes the two messages hold, gives feedback that
  the input contract accepts: not blank, at most 1024 bytes, no control character, a code and a
  reference within their bounds.
\<close>

theorem merged_feedback_is_accepted:
  assumes "merge_retry_feedback origin latest = Some f"
    and "\<And>o'. origin = Some o' \<Longrightarrow> validate_retry_feedback (feedback_of o') = None"
    and "\<And>l. latest = Some l \<Longrightarrow> validate_retry_feedback (feedback_of l) = None"
  shows "validate_retry_feedback (feedback_of f) = None"
  using assms by (rule merged_is_valid)

theorem merged_feedback_is_accepted_witness:
  "\<exists>f. merge_retry_feedback (Some \<lparr>previousAttemptRef = ''test-w000-r001'', fa_code = ''TestRunCodeError'', fa_message = ''2 tests failed''\<rparr>)
      (Some \<lparr>previousAttemptRef = ''dev-w001-r001'', fa_code = ''InvalidOutput'', fa_message = ''no change set''\<rparr>) = Some f
    \<and> validate_retry_feedback (feedback_of f) = None"
proof -
  let ?o = "\<lparr>previousAttemptRef = ''test-w000-r001'', fa_code = ''TestRunCodeError'', fa_message = ''2 tests failed''\<rparr>"
  let ?l = "\<lparr>previousAttemptRef = ''dev-w001-r001'', fa_code = ''InvalidOutput'', fa_message = ''no change set''\<rparr>"
  have o: "validate_retry_feedback (feedback_of ?o) = None" and l: "validate_retry_feedback (feedback_of ?l) = None" by code_simp+
  obtain f where f: "merge_retry_feedback (Some ?o) (Some ?l) = Some f" by (simp add: merge_retry_feedback_def)
  have "validate_retry_feedback (feedback_of f) = None"
    by (rule merged_feedback_is_accepted [OF f]) (use o l in auto)
  with f show ?thesis by blast
qed

end
