(* ===== verification/Workflow_Bootstrap.thy ===== *)
theory Workflow_Bootstrap
  imports Workflow_Recovery Workspace_Writer
begin

section \<open>Bootstrap of a workflow\<close>

text \<open>
  \<open>internal/controllers/bootstrapper.go\<close>, \<open>internal/controllers/workflow/workflow_bootstrap.go\<close>, and the
  status helpers of \<open>workflow_controller.go\<close> they share with the rest of the controller: the
  submitted change request is copied into the workspace by a Job that holds the writer lease,
  published as the workflow's first Artifact, and the workflow is admitted when it is accepted.
  The messages of errors are constant tags where the text depends on values.
\<close>

subsection \<open>The reconciler's configuration\<close>

text \<open>
  What the reconciler is configured with and the functions it takes from libraries: SHA-256, the
  JSON encoder of what is hashed, the decoder of contract documents, \<open>resource.ParseQuantity\<close>.
\<close>

record workflow_env =
  env_sha :: "string \<Rightarrow> string"
  env_encode :: "workflow_recovery_evidence \<Rightarrow> string"
  env_encodeDecision :: "int \<times> step_config \<times> step_attempt_status \<times> string \<times> int \<Rightarrow> string"
  env_decode :: "string \<Rightarrow> string \<Rightarrow> document option"
  env_quantity :: "string \<Rightarrow> bool"
  env_storageClass :: string
  env_bootstrapImage :: string

subsection \<open>Status updates and events (workflow_controller.go)\<close>

text \<open>The updated object is what the server returns.\<close>

definition update_workflow :: "string \<Rightarrow> string \<Rightarrow> (workflow \<Rightarrow> workflow) \<Rightarrow> unit action" where
  "update_workflow ns n mutate = retry_on_conflict (
     bind_io (k_get Workflows ns n) (\<lambda>latest. bind_io (k_update Workflows (mutate latest)) (\<lambda>_. ret ())))"

definition update_workflow_status :: "string \<Rightarrow> string \<Rightarrow> (workflow_status \<Rightarrow> workflow_status) \<Rightarrow> workflow action" where
  "update_workflow_status ns n mutate = retry_on_conflict (
     bind_io (k_get Workflows ns n) (\<lambda>latest. k_update_status Workflows (latest\<lparr>status := mutate (status latest)\<rparr>)))"

definition decision_id_of :: "event_data \<Rightarrow> string" where
  "decision_id_of d = (case d of DecisionData p \<Rightarrow> dr_id (de_decision p) | _ \<Rightarrow> '''')"

definition append_workflow_event ::
  "(string \<Rightarrow> string) \<Rightarrow> workflow \<Rightarrow> string \<Rightarrow> string \<Rightarrow> int \<Rightarrow> string \<Rightarrow> string \<Rightarrow> string \<Rightarrow> string
    \<Rightarrow> (string \<times> string) list \<Rightarrow> event_data \<Rightarrow> unit action" where
  "append_workflow_event sha flow eventType step attempt act target outcome reason references payload =
     append_controller_event sha ''workflow-controller'' (blank_options\<lparr>op_type := eventType,
       op_subject := \<lparr>sub_project = ref_name (wf_project (spec flow)), sub_namespace = namespace_of flow,
         sub_workflow = name_of flow, sub_step = step, sub_attempt = attempt\<rparr>,
       op_action := act, op_target := target, op_outcome := outcome, op_reason := reason,
       op_correlationID := name_of flow, op_decisionID := decision_id_of payload, op_references := references,
       op_data := payload\<rparr>)"

definition failed_status :: "int \<Rightarrow> string \<Rightarrow> string \<Rightarrow> workflow_status \<Rightarrow> workflow_status" where
  "failed_status gen reason message st = st\<lparr>wf_phase := PhaseFailed, wf_conditions := [\<lparr>cond_type = ''Ready'',
     cond_status = ConditionFalse, cond_reason = reason, cond_message = message, cond_generation = gen\<rparr>]\<rparr>"

definition update_with_generation :: "workflow \<Rightarrow> (int \<Rightarrow> workflow_status \<Rightarrow> workflow_status) \<Rightarrow> workflow action" where
  "update_with_generation flow mutate = retry_on_conflict (
     bind_io (k_get Workflows (namespace_of flow) (name_of flow)) (\<lambda>latest.
       k_update_status Workflows (latest\<lparr>status := mutate (generation (meta latest)) (status latest)\<rparr>)))"

definition fail_workflow :: "(string \<Rightarrow> string) \<Rightarrow> workflow \<Rightarrow> string \<Rightarrow> string \<Rightarrow> unit action" where
  "fail_workflow sha flow reason message =
     bind_io (update_with_generation flow (\<lambda>gen. failed_status gen reason message)) (\<lambda>updated.
       append_workflow_event sha updated ''WorkflowFailed'' (wf_activeStepName (status updated)) 0 ''complete'' (name_of updated)
         ''failed'' reason [] (Fields [(''message'', JString message)]))"

subsection \<open>bootstrapper.go\<close>

definition bootstrap_artifact_root :: string where
  "bootstrap_artifact_root = ''/workspace/.sovereign/artifacts''"

definition bootstrap_mount_root :: string where
  "bootstrap_mount_root = ''/bootstrap''"

definition bootstrap_artifact_digest_filename :: "string \<Rightarrow> go_error + string" where
  "bootstrap_artifact_digest_filename digest = (case cut_prefix digest ''sha256:'' of
       None \<Rightarrow> Inl (Invalid ''bootstrap digest must use sha256'')
     | Some filename \<Rightarrow>
         if length filename \<noteq> 64 then Inl (Invalid ''bootstrap digest must contain 64 hexadecimal characters'')
         else if \<not> list_all is_lower_hex filename then Inl (Invalid ''bootstrap digest must contain lowercase hexadecimal characters'')
         else Inr filename)"

definition bootstrap_artifact_path :: "string \<Rightarrow> string" where
  "bootstrap_artifact_path digest = bootstrap_artifact_root @ ''/'' @
     (case bootstrap_artifact_digest_filename digest of Inl _ \<Rightarrow> '''' | Inr filename \<Rightarrow> filename)"

text \<open>A name with a suffix within the 63 bytes of a label.\<close>

definition suffixed_name :: "string \<Rightarrow> string \<Rightarrow> string" where
  "suffixed_name suffix n = (let prefix = trim_byte (CHR ''-'') n; maximumPrefix = 63 - length suffix
     in (if length prefix > maximumPrefix then rev (dropWhile (\<lambda>c. c = CHR ''-'') (rev (take maximumPrefix prefix))) else prefix) @ suffix)"

definition bootstrap_job_name :: "string \<Rightarrow> string" where
  "bootstrap_job_name workflowName = suffixed_name ''-bootstrap'' workflowName"

definition workspace_writer_lease_name :: "string \<Rightarrow> string" where
  "workspace_writer_lease_name workflowName = suffixed_name ''-workspace-writer'' workflowName"

definition validate_bootstrap_artifact_identity :: "workflow \<Rightarrow> artifact \<Rightarrow> go_error option" where
  "validate_bootstrap_artifact_identity flow a =
     (if \<not> is_controlled_by a flow then Some (Invalid ''bootstrap Artifact is not controlled by workflow'')
      else if name_of a \<noteq> bs_artifactName (wf_bootstrap (spec flow)) \<or> art_workflowRef (spec a) \<noteq> recovery_uid flow
         \<or> art_contract (spec a) \<noteq> bs_contract (wf_bootstrap (spec flow))
         \<or> art_digest (spec a) \<noteq> bs_expectedDigest (wf_bootstrap (spec flow))
         \<or> art_path (spec a) \<noteq> bootstrap_artifact_path (bs_expectedDigest (wf_bootstrap (spec flow)))
        then Some (Invalid ''bootstrap Artifact identity does not match admitted input'')
      else if art_producerRef (spec a) \<noteq> \<lparr>tl_apiVersion = group_version, tl_kind = ''SovereignWorkflow'', tl_name = name_of flow\<rparr>
        then Some (Invalid ''bootstrap Artifact producer is not workflow admission'')
      else None)"

definition load_bootstrap_change_request :: "workflow_env \<Rightarrow> workflow \<Rightarrow> change_request action" where
  "load_bootstrap_change_request env flow = (let b = wf_bootstrap (spec flow) in
     bind_io (k_get ConfigMaps (namespace_of flow) (ref_name (bs_sourceRef b))) (\<lambda>source.
       if uid_of source \<noteq> ref_uid (bs_sourceRef b) then raise (Invalid ''bootstrap ConfigMap UID changed'')
       else if cm_immutable (spec source) \<noteq> Some True then raise (Invalid ''bootstrap ConfigMap must be immutable'')
       else (case map_of (cm_binaryData (spec source)) (bs_key b) of
           None \<Rightarrow> raise (Invalid ''bootstrap ConfigMap is missing key'')
         | Some content \<Rightarrow>
             if digest_bytes (env_sha env) content \<noteq> bs_expectedDigest b then raise (Invalid ''bootstrap ConfigMap digest mismatch'')
             else (case registry_validate (env_sha env) (env_decode env) (contract_name (bs_contract b))
                     (contract_version (bs_contract b)) content of
                 Some _ \<Rightarrow> raise (Invalid ''validate bootstrap ConfigMap'')
               | None \<Rightarrow> (case env_decode env ''change-request/v1'' content of
                     Some (ChangeRequestDoc v) \<Rightarrow> ret v
                   | _ \<Rightarrow> raise (Invalid ''decode validated change request''))))))"

definition label_workflow :: string where
  "label_workflow = ''sovereign-ai.io/workflow-id''"

definition label_step :: string where
  "label_step = ''sovereign-ai.io/step-name''"

definition build_bootstrap_job :: "workflow \<Rightarrow> string \<Rightarrow> writer_grant \<Rightarrow> job" where
  "build_bootstrap_job flow containerImage grant = (let b = wf_bootstrap (spec flow) in
     \<lparr>meta = (new_meta (namespace_of flow) (bootstrap_job_name (name_of flow)) [(label_workflow, wf_workflowID (spec flow))]
        (Some (owner_ref_of ''SovereignWorkflow'' flow)))\<lparr>annotations := workspace_writer_annotations grant\<rparr>,
      spec = \<lparr>job_podLabels = [(label_workflow, wf_workflowID (spec flow))],
        job_podAnnotations = workspace_writer_annotations grant,
        job_pod = plain_pod\<lparr>pod_restartPolicy := ''Never'', pod_automountToken := Some False,
          pod_terminationGracePeriod := Some 10, pod_security := Some workspace_workload_security_context,
          pod_containers := [(plain_container ''bootstrap'' containerImage)\<lparr>
            ctr_args := [''--source'', bootstrap_mount_root @ ''/'' @ bs_key b, ''--artifact-store'', bootstrap_artifact_root,
              ''--contract'', contract_name (bs_contract b) @ ''/'' @ contract_version (bs_contract b),
              ''--expected-digest'', bs_expectedDigest b],
            ctr_env := workspace_writer_env grant,
            ctr_security := Some (no_security\<lparr>cs_allowPrivilegeEscalation := Some False, cs_readOnlyRootFilesystem := Some True,
              cs_dropCapabilities := [''ALL'']\<rparr>),
            ctr_mounts := [\<lparr>vm_name = ''bootstrap-input'', vm_path = bootstrap_mount_root, vm_readOnly = True\<rparr>,
              \<lparr>vm_name = ''workspace'', vm_path = ''/workspace'', vm_readOnly = False\<rparr>]\<rparr>],
          pod_volumes := [(''bootstrap-input'', ConfigMapVolume (ref_name (bs_sourceRef b))),
            (''workspace'', ClaimVolume (wf_pvcName (status flow)))]\<rparr>,
        job_backoffLimit = Some 0, job_activeDeadlineSeconds = Some 120, job_ttlSecondsAfterFinished = None\<rparr>,
      status = new_job_status\<rparr>)"

subsection \<open>workflow_bootstrap.go\<close>

definition validate_bootstrap_spec :: "workflow \<Rightarrow> go_error option" where
  "validate_bootstrap_spec flow = (let b = wf_bootstrap (spec flow) in
     if ref_name (bs_sourceRef b) = '''' \<or> ref_uid (bs_sourceRef b) = ''''
       then Some (Invalid ''bootstrap source requires ConfigMap name and UID'')
     else if bs_key b = '''' \<or> contains_any (bs_key b) [CHR ''/'', CHR 0x5C]
       then Some (Invalid ''bootstrap source key must be one filename'')
     else if bs_contract b \<noteq> \<lparr>contract_name = ''change-request'', contract_version = ''v1''\<rparr>
       then Some (Invalid ''bootstrap contract must be change-request/v1'')
     else if bs_artifactName b \<noteq> ''change-request'' then Some (Invalid ''bootstrap Artifact must be named change-request'')
     else (case bootstrap_artifact_digest_filename (bs_expectedDigest b) of Inl e \<Rightarrow> Some e | Inr _ \<Rightarrow> None))"

definition condition_true :: "condition list \<Rightarrow> string \<Rightarrow> bool" where
  "condition_true cs t \<longleftrightarrow> (case find_condition cs t of None \<Rightarrow> False | Some c \<Rightarrow> cond_status c = ConditionTrue)"

definition artifact_condition_message :: "artifact \<Rightarrow> string" where
  "artifact_condition_message a = (case find_condition (art_conditions (status a)) ''Valid'' of
       None \<Rightarrow> ''bootstrap Artifact was rejected''
     | Some c \<Rightarrow> if cond_message c = '''' then ''bootstrap Artifact was rejected'' else cond_message c)"

text \<open>A result: whether to go on, and otherwise when to come back (\<open>Some 0\<close> is \<open>Requeue\<close>).\<close>

type_synonym bootstrap_result = "bool \<times> int option \<times> workflow"

definition release_bootstrap_writer :: "workflow \<Rightarrow> workflow action" where
  "release_bootstrap_writer flow =
     (if wf_bootstrapWriterEpoch (status flow) < 1 \<or> wf_bootstrapWriterReleased (status flow) then ret flow
      else (case workspace_writer_identity ''WorkflowBootstrap'' flow of
          Inl e \<Rightarrow> raise e
        | Inr holder \<Rightarrow> bind_io (gets clock) (\<lambda>now.
            seq_io (release_workspace_writer (namespace_of flow) \<lparr>grant_lease = wf_workspaceWriterLeaseRef (status flow),
                grant_holder = holder, grant_epoch = wf_bootstrapWriterEpoch (status flow)\<rparr> now)
            (bind_io (update_workflow_status (namespace_of flow) (name_of flow) (\<lambda>st. st\<lparr>wf_bootstrapWriterReleased := True\<rparr>))
              (\<lambda>updated. ret (flow\<lparr>status := status updated\<rparr>))))))"

text \<open>\<open>getWorkspaceWriter\<close>: the grant, or the result to return.\<close>

definition get_workspace_writer :: "workflow_env \<Rightarrow> workflow \<Rightarrow> (writer_grant + int option) action" where
  "get_workspace_writer env flow = bind_io (gets clock) (\<lambda>now.
     bind_io (acquire_workspace_writer flow (wf_workspaceWriterLeaseRef (status flow)) ''WorkflowBootstrap'' flow
         (wf_bootstrapWriterEpoch (status flow)) now) (\<lambda>(grant, state). case state of
         WorkspaceWriterBlocked \<Rightarrow> ret (Inr (Some 2))
       | WorkspaceWriterLost \<Rightarrow>
           bind_io (fail_workflow (env_sha env) flow ''BootstrapWriterLost'' ''bootstrap lost its fenced workspace writer grant'')
             (\<lambda>_. ret (Inr None))
       | WorkspaceWriterGranted \<Rightarrow>
           if wf_bootstrapWriterEpoch (status flow) \<noteq> grant_epoch grant \<or> wf_bootstrapWriterReleased (status flow)
           then bind_io (update_workflow_status (namespace_of flow) (name_of flow)
               (\<lambda>st. st\<lparr>wf_bootstrapWriterEpoch := grant_epoch grant, wf_bootstrapWriterReleased := False\<rparr>)) (\<lambda>_. ret (Inr (Some 0)))
           else ret (Inl grant)))"

definition create_bootstrap_job :: "workflow_env \<Rightarrow> workflow \<Rightarrow> writer_grant \<Rightarrow> unit action" where
  "create_bootstrap_job env flow grant =
     (let jobName = bootstrap_job_name (name_of flow);
          containerImage = (if env_bootstrapImage env = '''' then ''sovereign-artifact-bootstrap:dev'' else env_bootstrapImage env)
      in seq_io (ignoring AlreadyExists (bind_io (k_create Jobs (build_bootstrap_job flow containerImage grant)) (\<lambda>_. ret ())))
         (bind_io (update_workflow_status (namespace_of flow) (name_of flow) (\<lambda>st. st\<lparr>wf_bootstrapJobRef := jobName\<rparr>)) (\<lambda>updated.
           append_workflow_event (env_sha env) updated ''WorkflowBootstrapStarted'' '''' 0 ''create'' jobName ''started'' ''''
             [(''job'', jobName), (''digest'', bs_expectedDigest (wf_bootstrap (spec flow)))] NoData)))"

definition continue_bootstrap_job :: "workflow_env \<Rightarrow> bool \<Rightarrow> workflow \<Rightarrow> bootstrap_result action" where
  "continue_bootstrap_job env missing flow =
     bind_io (get_workspace_writer env flow) (\<lambda>res. case res of
         Inr result \<Rightarrow> ret (False, result, flow)
       | Inl grant \<Rightarrow>
           if missing then bind_io (create_bootstrap_job env flow grant) (\<lambda>_. ret (False, Some 2, flow))
           else ret (False, Some 2, flow))"

definition observe_bootstrap_job :: "workflow_env \<Rightarrow> workflow \<Rightarrow> job \<Rightarrow> bootstrap_result action" where
  "observe_bootstrap_job env flow job =
     (if \<not> is_controlled_by job flow
      then bind_io (fail_workflow (env_sha env) flow ''InvalidBootstrapJob'' ''job is not controlled by workflow'')
             (\<lambda>_. ret (False, None, flow))
      else bind_io
        (if wf_bootstrapJobRef (status flow) \<noteq> name_of job
         then bind_io (update_workflow_status (namespace_of flow) (name_of flow) (\<lambda>st. st\<lparr>wf_bootstrapJobRef := name_of job\<rparr>))
                (\<lambda>updated. ret (flow\<lparr>status := status updated\<rparr>))
         else ret flow) (\<lambda>flow.
        if job_active (status job) = 0 \<and> job_failed (status job) > 0
        then bind_io (release_bootstrap_writer flow) (\<lambda>flow.
          bind_io (fail_workflow (env_sha env) flow ''BootstrapJobFailed'' ''bootstrap storage job failed'') (\<lambda>_. ret (False, None, flow)))
        else if job_active (status job) = 0 \<and> job_succeeded (status job) > 0 then ret (True, None, flow)
        else continue_bootstrap_job env False flow))"

definition deploy_bootstrap_job :: "workflow_env \<Rightarrow> workflow \<Rightarrow> bootstrap_result action" where
  "deploy_bootstrap_job env flow =
     bind_io (attempt_io (k_get Jobs (namespace_of flow) (bootstrap_job_name (name_of flow)))) (\<lambda>res. case res of
         Inl e \<Rightarrow> (if e = NotFound then continue_bootstrap_job env True flow else raise e)
       | Inr job \<Rightarrow> observe_bootstrap_job env flow job)"

definition bootstrap_artifact :: "workflow \<Rightarrow> change_request \<Rightarrow> artifact_claims \<Rightarrow> artifact" where
  "bootstrap_artifact flow cr artClaims = (let b = wf_bootstrap (spec flow) in
     \<lparr>meta = new_meta (namespace_of flow) (bs_artifactName b) [(label_workflow, wf_workflowID (spec flow)),
        (''sovereign-ai.io/bootstrap'', ''true''), (''sovereign-ai.io/contribution'', ''contributing'')]
        (Some (owner_ref_of ''SovereignWorkflow'' flow)),
      spec = \<lparr>art_workflowRef = recovery_uid flow,
        art_producerRef = \<lparr>tl_apiVersion = group_version, tl_kind = ''SovereignWorkflow'', tl_name = name_of flow\<rparr>,
        art_producerUID = '''', art_producerGrantRef = \<lparr>ref_name = '''', ref_uid = ''''\<rparr>, art_contract = bs_contract b,
        art_digest = bs_expectedDigest b, art_path = bootstrap_artifact_path (bs_expectedDigest b),
        art_classification = wf_classification (spec flow), art_sourceRevision = chr_sourceCommit cr, art_claims = Some artClaims\<rparr>,
      status = \<lparr>art_observedGeneration = 0, art_phase = NoPhase, art_conditions = []\<rparr>\<rparr>)"

definition create_change_request :: "workflow_env \<Rightarrow> workflow \<Rightarrow> change_request \<Rightarrow> unit action" where
  "create_change_request env flow cr = (case project_change_request_claims (env_sha env) cr of
       Inl e \<Rightarrow> raise e
     | Inr artClaims \<Rightarrow> (let a = bootstrap_artifact flow cr artClaims in
         seq_io (ignoring AlreadyExists (bind_io (k_create Artifacts a) (\<lambda>_. ret ())))
          (append_workflow_event (env_sha env) flow ''WorkflowBootstrapArtifactCreated'' '''' 0 ''create'' (name_of a) ''created'' ''''
            [(''artifact'', name_of a), (''digest'', art_digest (spec a)), (''job'', bootstrap_job_name (name_of flow))] NoData)))"

definition workflow_admission_decision :: "(string \<Rightarrow> string) \<Rightarrow> workflow \<Rightarrow> artifact \<Rightarrow> decision_evaluated" where
  "workflow_admission_decision sha flow a = (let b = wf_bootstrap (spec flow) in
     \<lparr>de_approvalBinding = None, de_schemaVersion = ''v1'', de_primitive = workflow_resource_ref ''SovereignWorkflow'' flow,
      de_decision = \<lparr>dr_schemaVersion = ''v1'', dr_id = deterministic_id sha [''workflow-admission'', uid_of flow, uid_of a,
          art_digest (spec a), wf_definitionRevision (spec flow)], dr_kind = ''controller'',
        dr_revision = wf_definitionRevision (spec flow), dr_sourceDigest = '''', dr_inputDigest = art_digest (spec a), dr_outcome = ''allowed''\<rparr>,
      de_authorityEvent = '''', de_inputEvent = '''', de_evidenceEvents = [],
      de_invariants =
       [passed_invariant ''bootstrap-spec-valid''
          (contract_name (bs_contract b) @ ''/'' @ contract_version (bs_contract b) @ ''@'' @ bs_expectedDigest b)
          (contract_name (art_contract (spec a)) @ ''/'' @ contract_version (art_contract (spec a)) @ ''@'' @ art_digest (spec a))
          ''the workflow bootstrap declaration is valid'',
        passed_invariant ''bootstrap-artifact-identity-valid'' (uid_of flow) (ref_uid (art_workflowRef (spec a)))
          ''the accepted artifact is bound to this workflow'',
        passed_invariant ''bootstrap-artifact-accepted'' (phase_text PhaseSucceeded) (phase_text (art_phase (status a)))
          ''the exact change-request artifact passed validation'']\<rparr>)"

definition delete_bootstrap_source :: "workflow \<Rightarrow> unit action" where
  "delete_bootstrap_source flow =
     bind_io (attempt_io (k_get ConfigMaps (namespace_of flow) (ref_name (bs_sourceRef (wf_bootstrap (spec flow)))))) (\<lambda>res. case res of
         Inl e \<Rightarrow> (if e = NotFound then ret () else raise e)
       | Inr source \<Rightarrow>
           if uid_of source \<noteq> ref_uid (bs_sourceRef (wf_bootstrap (spec flow)))
           then raise (Invalid ''refusing to delete recreated bootstrap ConfigMap'')
           else ignoring NotFound (k_delete ConfigMaps source))"

definition delete_bootstrap_job :: "workflow \<Rightarrow> unit action" where
  "delete_bootstrap_job flow =
     bind_io (attempt_io (k_get Jobs (namespace_of flow) (bootstrap_job_name (name_of flow)))) (\<lambda>res. case res of
         Inl e \<Rightarrow> (if e = NotFound then ret () else raise e)
       | Inr job \<Rightarrow>
           if \<not> is_controlled_by job flow then raise (Invalid ''refusing to delete bootstrap Job not controlled by workflow'')
           else ignoring NotFound (k_delete Jobs job))"

definition cleanup_bootstrap_resources :: "workflow \<Rightarrow> unit action" where
  "cleanup_bootstrap_resources flow = seq_io (delete_bootstrap_source flow) (delete_bootstrap_job flow)"

definition admitted_status :: "artifact \<Rightarrow> int \<Rightarrow> workflow_status \<Rightarrow> workflow_status" where
  "admitted_status a gen st = st\<lparr>wf_bootstrapArtifactRef := Some (recovery_uid a), wf_observedGeneration := gen,
     wf_conditions := set_condition \<lparr>cond_type = ''BootstrapReady'', cond_status = ConditionTrue,
       cond_reason = ''ChangeRequestAccepted'', cond_message = ''the exact submitted change request is stored and accepted'',
       cond_generation = gen\<rparr> (wf_conditions st)\<rparr>"

definition complete_bootstrap :: "workflow_env \<Rightarrow> workflow \<Rightarrow> artifact \<Rightarrow> workflow action" where
  "complete_bootstrap env flow a =
     bind_io (update_with_generation flow (admitted_status a)) (\<lambda>updated.
       seq_io (if condition_true (wf_conditions (status flow)) ''BootstrapReady'' then ret ()
          else append_workflow_event (env_sha env) updated ''WorkflowAdmitted'' '''' 0 ''accept'' (name_of a) ''accepted'' ''''
            [(''artifact'', name_of a), (''artifactUID'', uid_of a), (''digest'', art_digest (spec a))]
            (DecisionData (workflow_admission_decision (env_sha env) updated a)))
       (seq_io (cleanup_bootstrap_resources updated) (ret (flow\<lparr>status := status updated\<rparr>))))"

definition accepted_bootstrap_artifact :: "workflow \<Rightarrow> artifact action" where
  "accepted_bootstrap_artifact flow = (case wf_bootstrapArtifactRef (status flow) of
       None \<Rightarrow> raise (Invalid ''BootstrapReady has no Artifact reference'')
     | Some ref \<Rightarrow> bind_io (k_get Artifacts (namespace_of flow) (ref_name ref)) (\<lambda>a.
         if uid_of a \<noteq> ref_uid ref then raise (Invalid ''bootstrap Artifact UID changed'')
         else if \<not> artifact_accepted a then raise (Invalid ''bootstrap Artifact is not accepted'')
         else ret a))"

text \<open>\<open>err.Error()\<close>, the message of an error.\<close>

definition error_text :: "go_error \<Rightarrow> string" where
  "error_text e = (case e of NotFound \<Rightarrow> ''not found'' | Conflict \<Rightarrow> ''conflict'' | AlreadyExists \<Rightarrow> ''already exists''
     | Transient m \<Rightarrow> m | Invalid m \<Rightarrow> m)"

definition failing :: "workflow_env \<Rightarrow> workflow \<Rightarrow> string \<Rightarrow> string \<Rightarrow> bootstrap_result action" where
  "failing env flow reason message = bind_io (fail_workflow (env_sha env) flow reason message) (\<lambda>_. ret (False, None, flow))"

definition observe_bootstrap_artifact :: "workflow_env \<Rightarrow> workflow \<Rightarrow> artifact \<Rightarrow> bootstrap_result action" where
  "observe_bootstrap_artifact env flow a = (case validate_bootstrap_artifact_identity flow a of
       Some e \<Rightarrow> failing env flow ''InvalidBootstrapArtifact'' (error_text e)
     | None \<Rightarrow> bind_io (release_bootstrap_writer flow) (\<lambda>flow.
         if art_phase (status a) = PhaseSucceeded then bind_io (complete_bootstrap env flow a) (\<lambda>flow. ret (True, None, flow))
         else if art_phase (status a) = PhaseFailed then failing env flow ''BootstrapArtifactRejected'' (artifact_condition_message a)
         else ret (False, Some 2, flow)))"

definition start_bootstrap :: "workflow_env \<Rightarrow> workflow \<Rightarrow> bootstrap_result action" where
  "start_bootstrap env flow = bind_io (attempt_io (load_bootstrap_change_request env flow)) (\<lambda>res. case res of
       Inl e \<Rightarrow> failing env flow ''InvalidBootstrapInput'' (error_text e)
     | Inr cr \<Rightarrow> bind_io (deploy_bootstrap_job env flow) (\<lambda>(deployed, result, flow).
         if \<not> deployed then ret (False, result, flow)
         else seq_io (create_change_request env flow cr)
           (bind_io (release_bootstrap_writer flow) (\<lambda>flow. ret (False, Some 2, flow)))))"

definition ensure_bootstrap :: "workflow_env \<Rightarrow> workflow \<Rightarrow> bootstrap_result action" where
  "ensure_bootstrap env flow = (case validate_bootstrap_spec flow of
       Some e \<Rightarrow> failing env flow ''InvalidBootstrap'' (error_text e)
     | None \<Rightarrow>
         if condition_true (wf_conditions (status flow)) ''BootstrapReady''
         then bind_io (attempt_io (accepted_bootstrap_artifact flow)) (\<lambda>res. case res of
             Inl e \<Rightarrow> failing env flow ''InvalidBootstrapArtifact'' (error_text e)
           | Inr _ \<Rightarrow> bind_io (cleanup_bootstrap_resources flow) (\<lambda>_. ret (True, None, flow)))
         else bind_io (attempt_io (k_get Artifacts (namespace_of flow) (bs_artifactName (wf_bootstrap (spec flow))))) (\<lambda>res.
           case res of
             Inl e \<Rightarrow> (if e = NotFound then start_bootstrap env flow else raise e)
           | Inr a \<Rightarrow> observe_bootstrap_artifact env flow a))"

end
