(* ===== verification/Workflow_Controller.thy ===== *)
theory Workflow_Controller
  imports Workflow_Bootstrap
begin

section \<open>The workflow controller\<close>

text \<open>
  \<open>internal/controllers/workflow/workflow_controller.go\<close>: from a workflow's active attempt to the
  next one. \<open>reconcile_workflow\<close> is \<open>Reconcile\<close>, cut at its \<open>switch\<close>: \<open>attempt_transition\<close> is what the
  switch selects for the active attempt, \<open>perform_transition\<close> carries it out. A result is when to
  come back. The live reader and the cached client read the same objects here.
\<close>

subsection \<open>Deletion and the workspace\<close>

definition workflow_finalizer :: string where
  "workflow_finalizer = ''sovereign-ai.io/workflow-cleanup''"

definition is_deleted :: "workflow \<Rightarrow> bool action" where
  "is_deleted flow =
     (if deletion (meta flow) \<noteq> None
      then (if List.member (finalizers (meta flow)) workflow_finalizer
            then bind_io (update_workflow (namespace_of flow) (name_of flow) (remove_finalizer workflow_finalizer)) (\<lambda>_. ret True)
            else ret True)
      else if \<not> List.member (finalizers (meta flow)) workflow_finalizer
      then bind_io (update_workflow (namespace_of flow) (name_of flow)
             (\<lambda>latest. if List.member (finalizers (meta latest)) workflow_finalizer then latest
                else add_finalizer workflow_finalizer latest)) (\<lambda>_. ret True)
      else namespace_terminating (namespace_of flow))"

definition new_writer_lease :: "workflow \<Rightarrow> writer_lease" where
  "new_writer_lease flow =
     \<lparr>meta = new_meta (namespace_of flow) (workspace_writer_lease_name (name_of flow)) [(label_workflow, wf_workflowID (spec flow))]
        (Some (owner_ref_of ''SovereignWorkflow'' flow)),
      spec = \<lparr>holderIdentity = None, acquireTime = None, renewTime = None, leaseTransitions = Some 0\<rparr>, status = ()\<rparr>"

definition register_writer_lease :: "workflow_env \<Rightarrow> workflow \<Rightarrow> unit action" where
  "register_writer_lease env flow = (let name = workspace_writer_lease_name (name_of flow) in
     bind_io (update_workflow_status (namespace_of flow) (name_of flow) (\<lambda>st. st\<lparr>wf_workspaceWriterLeaseRef := name\<rparr>)) (\<lambda>updated.
       append_workflow_event (env_sha env) updated ''WorkspaceWriterLeaseCreated'' '''' 0 ''create'' name ''created'' ''''
         [(''lease'', name)] (Fields [(''writerEpoch'', JInt 0)])))"

definition ensure_workspace_writer_lease :: "workflow_env \<Rightarrow> workflow \<Rightarrow> unit action" where
  "ensure_workspace_writer_lease env flow =
     bind_io (attempt_io (k_get WriterLeases (namespace_of flow) (workspace_writer_lease_name (name_of flow)))) (\<lambda>res. case res of
         Inl e \<Rightarrow> (if e = NotFound
           then seq_io (ignoring AlreadyExists (bind_io (k_create WriterLeases (new_writer_lease flow)) (\<lambda>_. ret ())))
             (register_writer_lease env flow)
           else raise e)
       | Inr lease \<Rightarrow>
           if \<not> is_controlled_by lease flow
           then fail_workflow (env_sha env) flow ''InvalidWorkspaceWriterLease'' ''lease is not controlled by workflow''
           else register_writer_lease env flow)"

definition default_volume_size :: string where
  "default_volume_size = ''250Mi''"

definition volume_size :: "workflow \<Rightarrow> string" where
  "volume_size flow = (if wf_requestedVolumeSize (spec flow) = '''' then default_volume_size else wf_requestedVolumeSize (spec flow))"

definition new_volume_claim :: "workflow_env \<Rightarrow> workflow \<Rightarrow> volume_claim" where
  "new_volume_claim env flow =
     \<lparr>meta = new_meta (namespace_of flow) (name_of flow @ ''-workspace'') [(label_workflow, wf_workflowID (spec flow))]
        (Some (owner_ref_of ''SovereignWorkflow'' flow)),
      spec = \<lparr>claim_size = volume_size flow,
        claim_storageClass = (if env_storageClass env = '''' then None else Some (env_storageClass env))\<rparr>, status = ()\<rparr>"

definition register_workspace :: "workflow_env \<Rightarrow> workflow \<Rightarrow> unit action" where
  "register_workspace env flow = (let name = name_of flow @ ''-workspace'' in
     bind_io (update_workflow_status (namespace_of flow) (name_of flow) (\<lambda>st. st\<lparr>wf_pvcName := name\<rparr>)) (\<lambda>updated.
       append_workflow_event (env_sha env) updated ''WorkspaceCreated'' '''' 0 ''create'' name ''created'' ''''
         [(''pvc'', name)] (Fields [(''requestedVolumeSize'', JString (wf_requestedVolumeSize (spec updated)))])))"

definition ensure_workspace :: "workflow_env \<Rightarrow> workflow \<Rightarrow> unit action" where
  "ensure_workspace env flow =
     bind_io (attempt_io (k_get Claims (namespace_of flow) (name_of flow @ ''-workspace''))) (\<lambda>res. case res of
         Inl e \<Rightarrow> (if e = NotFound
           then (if \<not> env_quantity env (volume_size flow)
             then fail_workflow (env_sha env) flow ''InvalidWorkspaceSize'' ''quantities must match the regular expression''
             else seq_io (ignoring AlreadyExists (bind_io (k_create Claims (new_volume_claim env flow)) (\<lambda>_. ret ())))
               (register_workspace env flow))
           else raise e)
       | Inr _ \<Rightarrow> register_workspace env flow)"

subsection \<open>The execution of an attempt\<close>

text \<open>The copies of pointers and maps the code makes are the values themselves here.\<close>

definition execution_meta :: "step_attempt \<Rightarrow> step_config \<Rightarrow> object_meta" where
  "execution_meta attempt step = new_meta (namespace_of attempt) (name_of attempt)
     [(label_workflow, go_map_get (labels (meta attempt)) label_workflow), (label_step, step_name step)]
     (Some (owner_ref_of ''StepAttempt'' attempt))"

definition execution_reference :: "string \<Rightarrow> step_attempt \<Rightarrow> typed_local_reference" where
  "execution_reference kind attempt = \<lparr>tl_apiVersion = group_version, tl_kind = kind, tl_name = name_of attempt\<rparr>"

definition new_agent_run ::
  "step_attempt \<Rightarrow> step_config \<Rightarrow> agent_step_spec \<Rightarrow> failed_agent_attempt option \<Rightarrow> artifact_reference list \<Rightarrow> agent_run" where
  "new_agent_run attempt step agent feedback inputs =
     \<lparr>meta = execution_meta attempt step,
      spec = \<lparr>run_attemptRef = name_of attempt, run_priorAttemptRef = feedback, run_workflowRef = sa_workflowRef (spec attempt),
        run_stepName = step_name step, run_attempt = sa_retryNumber (spec attempt), run_responsibility = ag_responsibility agent,
        run_image = ag_image agent, run_executable = ag_executable agent, run_capabilities = ag_capabilities agent,
        run_inputs = inputs, run_outputContracts = step_outputs step, run_inference = ag_inference agent, run_timeout = step_timeout step\<rparr>,
      status = \<lparr>run_observedGeneration = 0, run_phase = NoPhase, run_podRef = '''', run_collectorJobRef = '''',
        run_inferenceLeaseRef = '''', run_workspaceWriterLeaseRef = '''', run_workspaceWriterEpoch = 0,
        run_workspaceWriterReleased = False, run_failureReason = '''', run_failureMessage = '''', run_retryable = False,
        run_completion = None, run_startedAt = None, run_completedAt = None, run_conditions = []\<rparr>\<rparr>"

definition new_utility_operation ::
  "step_attempt \<Rightarrow> step_config \<Rightarrow> utility_operation_request \<Rightarrow> resolved_approval option \<Rightarrow> artifact_reference list \<Rightarrow> utility_operation" where
  "new_utility_operation attempt step operation approval inputs =
     \<lparr>meta = execution_meta attempt step,
      spec = \<lparr>uo_approval = approval, uo_attemptRef = name_of attempt, uo_workflowRef = sa_workflowRef (spec attempt),
        uo_stepName = step_name step, uo_attempt = sa_retryNumber (spec attempt), uo_operation = operation,
        uo_inputs = inputs, uo_outputContracts = step_outputs step, uo_timeout = step_timeout step\<rparr>,
      status = \<lparr>uo_observedGeneration = 0, uo_phase = NoPhase, uo_jobRef = '''', uo_collectorJobRef = '''',
        uo_policyDecisionID = '''', uo_workspaceWriterLeaseRef = '''', uo_workspaceWriterEpoch = 0,
        uo_workspaceWriterReleased = False, uo_failureReason = '''', uo_failureMessage = '''', uo_retryable = False,
        uo_startedAt = None, uo_completedAt = None, uo_conditions = []\<rparr>\<rparr>"

definition new_approval_request :: "step_attempt \<Rightarrow> step_config \<Rightarrow> approval_spec \<Rightarrow> artifact_reference list \<Rightarrow> approval_request" where
  "new_approval_request attempt step approval inputs =
     \<lparr>meta = execution_meta attempt step,
      spec = \<lparr>rq_attemptRef = recovery_uid attempt, rq_workflowRef = sa_workflowRef (spec attempt), rq_stepName = step_name step,
        rq_attempt = sa_retryNumber (spec attempt), rq_approval = approval, rq_inputs = inputs\<rparr>,
      status = \<lparr>rq_decisionUID = '''', rq_observedGeneration = 0, rq_phase = NoPhase, rq_decisionRef = '''',
        rq_failureReason = '''', rq_retryable = False, rq_startedAt = None, rq_completedAt = None, rq_conditions = []\<rparr>\<rparr>"

definition new_validation_run :: "step_attempt \<Rightarrow> step_config \<Rightarrow> validation_step_spec \<Rightarrow> artifact_reference list \<Rightarrow> validation_run" where
  "new_validation_run attempt step validation inputs =
     \<lparr>meta = execution_meta attempt step,
      spec = \<lparr>vr_attemptRef = name_of attempt, vr_workflowRef = sa_workflowRef (spec attempt), vr_stepName = step_name step,
        vr_attempt = sa_retryNumber (spec attempt), vr_provider = vs_provider validation, vr_commit = vs_commit validation,
        vr_imageDigest = vs_imageDigest validation, vr_overlayPath = vs_overlayPath validation,
        vr_destination = vs_destination validation, vr_inputs = inputs\<rparr>,
      status = \<lparr>vr_observedGeneration = 0, vr_phase = NoPhase, vr_providerRef = '''', vr_accessURL = '''',
        vr_resultArtifactRef = '''', vr_failureReason = '''', vr_retryable = False, vr_conditions = []\<rparr>\<rparr>"

definition create_execution :: "('s, 't) kind \<Rightarrow> string \<Rightarrow> step_attempt \<Rightarrow> ('s, 't) kobj \<Rightarrow> typed_local_reference action" where
  "create_execution K kind attempt object =
     seq_io (ignoring AlreadyExists (bind_io (k_create K object) (\<lambda>_. ret ()))) (ret (execution_reference kind attempt))"

definition start_agent_run ::
  "workflow \<Rightarrow> step_attempt \<Rightarrow> step_config \<Rightarrow> failed_agent_attempt option \<Rightarrow> artifact_reference list \<Rightarrow> typed_local_reference action" where
  "start_agent_run flow attempt step feedback inputs =
     bind_io (workflow_retry_test_input flow step) (\<lambda>priorTests. case step_agent step of
         None \<Rightarrow> raise (Invalid ''agent step has no agent specification'')
       | Some agent \<Rightarrow> create_execution AgentRuns ''AgentRun'' attempt (new_agent_run attempt step agent feedback
           (inputs @ (case priorTests of None \<Rightarrow> [] | Some prior \<Rightarrow> [prior]))))"

definition start_utility_operation ::
  "workflow_env \<Rightarrow> workflow \<Rightarrow> step_attempt \<Rightarrow> step_config \<Rightarrow> artifact_reference list \<Rightarrow> typed_local_reference action" where
  "start_utility_operation env flow attempt step inputs = (case step_utility step of
       None \<Rightarrow> raise (Invalid ''utility step has no utility operation'')
     | Some operation \<Rightarrow> bind_io (resolve_required_approval (env_sha env) flow attempt step inputs) (\<lambda>approval.
         create_execution UtilityOperations ''UtilityOperation'' attempt (new_utility_operation attempt step operation approval inputs)))"

definition ensure_domain_execution ::
  "workflow_env \<Rightarrow> workflow \<Rightarrow> step_attempt \<Rightarrow> step_config \<Rightarrow> failed_agent_attempt option \<Rightarrow> typed_local_reference action" where
  "ensure_domain_execution env flow attempt step feedback =
     bind_io (resolve_step_inputs flow attempt step) (\<lambda>inputs. case step_kind step of
         ExecutionKindAgent \<Rightarrow> start_agent_run flow attempt step feedback inputs
       | ExecutionKindUtility \<Rightarrow> start_utility_operation env flow attempt step inputs
       | ExecutionKindHumanGate \<Rightarrow> (case step_approval step of
             None \<Rightarrow> raise (Invalid ''human gate has no approval specification'')
           | Some approval \<Rightarrow> create_execution ApprovalRequests ''ApprovalRequest'' attempt (new_approval_request attempt step approval inputs))
       | ExecutionKindValidation \<Rightarrow> (case step_validation step of
             None \<Rightarrow> raise (Invalid ''validation step has no validation specification'')
           | Some validation \<Rightarrow> create_execution ValidationRuns ''ValidationRun'' attempt (new_validation_run attempt step validation inputs))
       | OtherKind _ \<Rightarrow> raise (Invalid ''unsupported execution kind''))"

subsection \<open>Attempts\<close>

definition new_step_attempt :: "workflow \<Rightarrow> step_config \<Rightarrow> int \<Rightarrow> step_attempt" where
  "new_step_attempt flow step number =
     \<lparr>meta = new_meta (namespace_of flow) (attempt_name (step_name step) (wf_workflowAttempt (status flow)) number)
        [(label_workflow, wf_workflowID (spec flow)), (label_step, step_name step)] (Some (owner_ref_of ''SovereignWorkflow'' flow)),
      spec = \<lparr>sa_workflowRef = recovery_uid flow, sa_stepName = step_name step, sa_retryNumber = number,
        sa_workflowAttempt = wf_workflowAttempt (status flow), sa_kind = step_kind step\<rparr>,
      status = \<lparr>sa_observedGeneration = 0, sa_phase = NoPhase, sa_executionRef = None, sa_failureReason = '''',
        sa_failureMessage = '''', sa_retryable = False, sa_completion = None, sa_startedAt = None, sa_completedAt = None,
        sa_conditions = []\<rparr>\<rparr>"

definition record_attempt_execution_ref :: "step_attempt \<Rightarrow> typed_local_reference \<Rightarrow> unit action" where
  "record_attempt_execution_ref attempt reference = retry_on_conflict (
     bind_io (k_get StepAttempts (namespace_of attempt) (name_of attempt)) (\<lambda>latest.
       if sa_executionRef (status latest) = Some reference then ret ()
       else bind_io (k_update_status StepAttempts (latest\<lparr>status := (status latest)\<lparr>sa_executionRef := Some reference,
              sa_observedGeneration := generation (meta latest)\<rparr>\<rparr>)) (\<lambda>_. ret ())))"

definition active_attempt_status :: "string \<Rightarrow> string \<Rightarrow> int \<Rightarrow> workflow_status \<Rightarrow> workflow_status" where
  "active_attempt_status stepName attemptName gen st = st\<lparr>wf_phase := PhaseRunning, wf_activeStepName := stepName,
     wf_activeAttemptRef := attemptName, wf_observedGeneration := gen\<rparr>"

definition activate_attempt :: "workflow_env \<Rightarrow> workflow \<Rightarrow> step_config \<Rightarrow> int \<Rightarrow> unit action" where
  "activate_attempt env flow step number = (let name = attempt_name (step_name step) (wf_workflowAttempt (status flow)) number in
     bind_io (update_with_generation flow (active_attempt_status (step_name step) name)) (\<lambda>updated.
       append_workflow_event (env_sha env) updated ''StepAttemptCreated'' (step_name step) number ''create'' name ''created'' ''''
         [(''attempt'', name)] NoData))"

definition create_attempt_with_feedback ::
  "workflow_env \<Rightarrow> workflow \<Rightarrow> step_config \<Rightarrow> int \<Rightarrow> failed_agent_attempt option \<Rightarrow> unit action" where
  "create_attempt_with_feedback env flow step number feedback =
     seq_io (record_workflow_recovery (env_sha env) (env_encode env) flow)
     (bind_io (workflow_retry_feedback flow step) (\<lambda>origin.
       let attempt = new_step_attempt flow step number in
       seq_io (ignoring AlreadyExists (bind_io (k_create StepAttempts attempt) (\<lambda>_. ret ())))
       (bind_io (k_get StepAttempts (namespace_of attempt) (name_of attempt)) (\<lambda>attempt.
        bind_io (ensure_domain_execution env flow attempt step (merge_retry_feedback origin feedback)) (\<lambda>executionRef.
          seq_io (record_workflow_retry (env_sha env) flow attempt executionRef)
          (seq_io (record_attempt_execution_ref attempt executionRef)
          (activate_attempt env flow step number)))))))"

definition create_attempt :: "workflow_env \<Rightarrow> workflow \<Rightarrow> step_config \<Rightarrow> int \<Rightarrow> unit action" where
  "create_attempt env flow step number = create_attempt_with_feedback env flow step number None"

text \<open>
  The update of \<open>beginWorkflowRetry\<close>: nothing where the workflow moved on since it was read.
\<close>

definition rewind_status ::
  "workflow \<Rightarrow> step_attempt \<Rightarrow> string \<Rightarrow> workflow_recovery_evidence \<Rightarrow> workflow \<Rightarrow> workflow_status" where
  "rewind_status flow failed restartStep evidence latest =
     (if uid_of latest \<noteq> uid_of flow \<or> deletion (meta latest) \<noteq> None \<or> is_terminal (wf_phase (status latest))
         \<or> wf_activeAttemptRef (status latest) \<noteq> name_of failed \<or> wf_workflowAttempt (status latest) \<noteq> sa_workflowAttempt (spec failed)
      then status latest
      else (let iteration = int32 (wf_workflowAttempt (status latest) + 1) in
        (status latest)\<lparr>wf_workflowAttempt := iteration, wf_activeStepName := restartStep, wf_activeAttemptRef := '''',
          wf_phase := PhaseRunning, wf_observedGeneration := generation (meta latest),
          wf_refinement := Some \<lparr>ref_retryObservation = None, ref_recovery = Some evidence, ref_iteration = iteration,
            ref_triggerStepName = sa_stepName (spec failed), ref_triggerAttemptRef = name_of failed,
            ref_restartStepName = restartStep\<rparr>\<rparr>))"

definition begin_workflow_retry :: "workflow_env \<Rightarrow> workflow \<Rightarrow> step_attempt \<Rightarrow> string \<Rightarrow> unit action" where
  "begin_workflow_retry env flow failed restartStep =
     bind_io (capture_workflow_recovery flow failed restartStep) (\<lambda>evidence.
     bind_io (retry_on_conflict (bind_io (k_get Workflows (namespace_of flow) (name_of flow)) (\<lambda>latest.
        k_update_status Workflows (latest\<lparr>status := rewind_status flow failed restartStep evidence latest\<rparr>)))) (\<lambda>updated.
       record_workflow_recovery (env_sha env) (env_encode env) updated))"

subsection \<open>The decision to retry a step\<close>

definition maximum_attempts :: "step_config \<Rightarrow> int" where
  "maximum_attempts step = (if step_maxAttempts step = 0 then 1 else step_maxAttempts step)"

definition recovery_decision :: "workflow_env \<Rightarrow> workflow \<Rightarrow> step_attempt \<Rightarrow> step_config \<Rightarrow> int \<Rightarrow> decision_evaluated action" where
  "recovery_decision env flow failed step nextAttempt =
     (let inputDigest = digest_bytes (env_sha env) (env_encodeDecision env
            (wf_workflowAttempt (status flow), step, status failed, name_of failed, nextAttempt))
      in bind_io (failed_attempt_evidence_events flow failed) (\<lambda>evidenceEvents.
        ret \<lparr>de_approvalBinding = None, de_schemaVersion = ''v1'', de_primitive = workflow_resource_ref ''SovereignWorkflow'' flow,
          de_decision = \<lparr>dr_schemaVersion = ''v1'',
            dr_id = deterministic_id (env_sha env) [''workflow-recovery-selection'', uid_of flow, name_of failed, inputDigest],
            dr_kind = ''controller'', dr_revision = ''workflow-recovery/v1'', dr_sourceDigest = '''', dr_inputDigest = inputDigest,
            dr_outcome = ''selected''\<rparr>,
          de_authorityEvent = '''', de_inputEvent = '''', de_evidenceEvents = evidenceEvents,
          de_invariants =
           [passed_invariant ''failed-attempt-terminal'' ''Failed or Interrupted'' (phase_text (sa_phase (status failed)))
              ''recovery is evaluated only for a terminal unsuccessful attempt'',
            passed_invariant ''failed-attempt-retryable'' ''true'' (if sa_retryable (status failed) then ''true'' else ''false'')
              ''the execution primitive classified the failure as retryable'',
            passed_invariant ''step-attempt-budget-remaining'' (''next attempt <= '' @ show_int (maximum_attempts step))
              (show_int nextAttempt) ''the selected retry remains within the declared step policy'']\<rparr>))"

definition append_recovery_events :: "workflow_env \<Rightarrow> workflow \<Rightarrow> step_attempt \<Rightarrow> step_config \<Rightarrow> int \<Rightarrow> unit action" where
  "append_recovery_events env flow failed step nextAttempt =
     (let retryName = attempt_name (step_name step) (wf_workflowAttempt (status flow)) nextAttempt;
          references = [(''failedAttempt'', name_of failed), (''retryAttempt'', retryName)]
      in bind_io (recovery_decision env flow failed step nextAttempt) (\<lambda>payload.
        seq_io (append_workflow_event (env_sha env) flow ''RecoveryDecisionSelected'' (step_name step) (sa_retryNumber (spec failed))
            ''select'' (step_name step) ''selected'' (sa_failureReason (status failed)) references (DecisionData payload))
          (append_workflow_event (env_sha env) flow ''StepAttemptRetried'' (step_name step) nextAttempt ''retry'' retryName ''created''
            (sa_failureReason (status failed)) references
            (Fields [(''retryFrom'', JString (step_name step)), (''previousAttempt'', JInt (sa_retryNumber (spec failed))),
              (''nextAttempt'', JInt nextAttempt), (''failureReason'', JString (sa_failureReason (status failed))),
              (''interruptedPhase'', JString (phase_text (sa_phase (status failed))))]))))"

subsection \<open>Completion\<close>

definition producer_name :: "step_attempt \<Rightarrow> string" where
  "producer_name attempt = (case sa_executionRef (status attempt) of None \<Rightarrow> name_of attempt | Some ref \<Rightarrow> tl_name ref)"

definition final_output :: "step_attempt \<Rightarrow> contract_reference \<Rightarrow> artifact \<Rightarrow> bool" where
  "final_output attempt output a \<longleftrightarrow> art_workflowRef (spec a) = sa_workflowRef (spec attempt)
     \<and> tl_name (art_producerRef (spec a)) = producer_name attempt \<and> art_contract (spec a) = output"

text \<open>How many accepted artifacts one output has; nothing where one was rejected.\<close>

fun accepted_count :: "(artifact \<Rightarrow> bool) \<Rightarrow> artifact list \<Rightarrow> nat \<Rightarrow> nat option" where
  "accepted_count p [] n = Some n"
| "accepted_count p (a # as) n =
     (if \<not> p a then accepted_count p as n
      else if art_phase (status a) = PhaseFailed then None
      else accepted_count p as (if artifact_accepted a then Suc n else n))"

text \<open>Whether all outputs are there, and otherwise why they never will be.\<close>

fun outputs_accepted :: "step_attempt \<Rightarrow> artifact list \<Rightarrow> contract_reference list \<Rightarrow> bool \<times> string" where
  "outputs_accepted attempt arts [] = (True, '''')"
| "outputs_accepted attempt arts (output # rest) =
     (let label = ''final output '' @ contract_name output @ ''/'' @ contract_version output
      in case accepted_count (final_output attempt output) arts 0 of
        None \<Rightarrow> (False, label @ '' was rejected'')
      | Some n \<Rightarrow> if n = 0 then (False, '''')
          else if n > 1 then (False, label @ '' resolved to '' @ show_int (int n) @ '' accepted artifacts'')
          else outputs_accepted attempt arts rest)"

definition final_step_outputs_accepted :: "workflow \<Rightarrow> step_attempt \<Rightarrow> step_config \<Rightarrow> (bool \<times> string) action" where
  "final_step_outputs_accepted flow attempt step =
     (if step_outputs step = [] then ret (True, '''')
      else bind_io (k_list Artifacts (namespace_of flow)) (\<lambda>arts. ret (outputs_accepted attempt arts (step_outputs step))))"

definition later_attempt :: "step_attempt \<Rightarrow> step_attempt option \<Rightarrow> step_attempt option" where
  "later_attempt attempt selected =
     (if sa_phase (status attempt) \<noteq> PhaseSucceeded then selected
      else (case selected of
          None \<Rightarrow> Some attempt
        | Some s \<Rightarrow>
            if sa_workflowAttempt (spec attempt) > sa_workflowAttempt (spec s)
               \<or> sa_workflowAttempt (spec attempt) = sa_workflowAttempt (spec s) \<and> sa_retryNumber (spec attempt) > sa_retryNumber (spec s)
            then Some attempt else selected))"

definition labelled :: "workflow \<Rightarrow> string \<Rightarrow> step_attempt \<Rightarrow> bool" where
  "labelled flow stepName attempt \<longleftrightarrow> map_of (labels (meta attempt)) label_workflow = Some (wf_workflowID (spec flow))
     \<and> map_of (labels (meta attempt)) label_step = Some stepName"

definition find_final_succeeded_attempt :: "workflow \<Rightarrow> step_attempt option action" where
  "find_final_succeeded_attempt flow =
     (if wf_steps (spec flow) = [] then ret None
      else bind_io (k_list StepAttempts (namespace_of flow)) (\<lambda>attempts.
        ret (fold later_attempt (filter (labelled flow (step_name (last (wf_steps (spec flow))))) attempts) None)))"

definition authorization_event_types :: "(string \<times> string) list" where
  "authorization_event_types = [(''AgentRun'', ''AgentExecutionAuthorized''), (''UtilityOperation'', ''UtilityExecutionAuthorized''),
     (''ValidationRun'', ''ValidationEvaluated'')]"

definition authorizes_execution :: "typed_local_reference \<Rightarrow> event \<Rightarrow> bool" where
  "authorizes_execution ref e \<longleftrightarrow> ev_type e = go_map_get authorization_event_types (tl_kind ref)
     \<and> (ev_target e = tl_name ref \<or> go_map_get (ev_references e) ''agentRun'' = tl_name ref
       \<or> go_map_get (ev_references e) ''utilityOperation'' = tl_name ref \<or> go_map_get (ev_references e) ''validationRun'' = tl_name ref)"

definition workflow_completion_decision_event :: "workflow \<Rightarrow> step_attempt option \<Rightarrow> string action" where
  "workflow_completion_decision_event flow attempt = (case attempt of
       None \<Rightarrow> ret ''''
     | Some a \<Rightarrow> (case sa_executionRef (status a) of
           None \<Rightarrow> ret ''''
         | Some ref \<Rightarrow> bind_io (list_workflow_events (name_of flow)) (\<lambda>events.
             ret (case find (authorizes_execution ref) (rev events) of None \<Rightarrow> '''' | Some e \<Rightarrow> ev_id e))))"

definition blank_consequence :: consequence_evidence where
  "blank_consequence = \<lparr>cq_schemaVersion = ''v1'', cq_kind = '''', cq_resource = None, cq_artifact = None, cq_digest = '''',
     cq_externalID = '''', cq_target = '''', cq_before = '''', cq_after = ''''\<rparr>"

definition final_artifact :: "step_attempt \<Rightarrow> artifact \<Rightarrow> bool" where
  "final_artifact attempt a \<longleftrightarrow> art_workflowRef (spec a) = sa_workflowRef (spec attempt)
     \<and> tl_name (art_producerRef (spec a)) = producer_name attempt \<and> artifact_accepted a"

definition artifact_consequence :: "artifact \<Rightarrow> consequence_evidence" where
  "artifact_consequence a = (let evidence = artifact_evidence_of a in
     blank_consequence\<lparr>cq_kind := ''final-artifact'', cq_resource := Some (ae_artifact evidence), cq_artifact := Some evidence,
       cq_digest := art_digest (spec a), cq_target := ae_contract evidence\<rparr>)"

definition attempt_consequences :: "workflow \<Rightarrow> step_attempt option \<Rightarrow> consequence_evidence list action" where
  "attempt_consequences flow finalAttempt = (case finalAttempt of
       None \<Rightarrow> ret []
     | Some attempt \<Rightarrow> bind_io (k_list Artifacts (namespace_of flow)) (\<lambda>arts.
         ret (blank_consequence\<lparr>cq_kind := ''final-step-attempt'', cq_resource := Some (workflow_resource_ref ''StepAttempt'' attempt),
                cq_after := phase_text (sa_phase (status attempt))\<rparr>
           # map artifact_consequence (filter (final_artifact attempt) (sort_key name_of arts)))))"

definition append_workflow_completed :: "workflow_env \<Rightarrow> workflow \<Rightarrow> step_attempt option \<Rightarrow> unit action" where
  "append_workflow_completed env flow known =
     bind_io (gets has_recorder) (\<lambda>recorder. if \<not> recorder then ret ()
       else bind_io (case known of Some attempt \<Rightarrow> ret (Some attempt) | None \<Rightarrow> find_final_succeeded_attempt flow) (\<lambda>finalAttempt.
         bind_io (workflow_completion_decision_event flow finalAttempt) (\<lambda>decisionEvent.
         bind_io (attempt_consequences flow finalAttempt) (\<lambda>consequences.
           append_workflow_event (env_sha env) flow ''WorkflowCompleted''
             (case finalAttempt of None \<Rightarrow> '''' | Some a \<Rightarrow> sa_stepName (spec a))
             (case finalAttempt of None \<Rightarrow> 0 | Some a \<Rightarrow> sa_retryNumber (spec a))
             ''complete'' (name_of flow) ''succeeded'' ''AllStepsSucceeded'' [(''finalDecisionEvent'', decisionEvent)]
             (ConsequenceData \<lparr>cs_schemaVersion = ''v1'', cs_decisionEvent = decisionEvent,
                cs_consequences = blank_consequence\<lparr>cq_kind := ''workflow-state'',
                  cq_resource := Some (workflow_resource_ref ''SovereignWorkflow'' flow), cq_after := phase_text PhaseSucceeded\<rparr>
                  # consequences\<rparr>)))))"

subsection \<open>From one attempt to the next\<close>

text \<open>What \<open>Reconcile\<close> does for an active attempt that was read.\<close>

datatype transition =
    Wait
  | AwaitApproval
  | Complete step_config
  | StartStep step_config
  | Rewind string
  | RetryStep step_config int
  | FailWorkflow string string

definition failure_transition :: "workflow \<Rightarrow> step_attempt \<Rightarrow> step_config \<Rightarrow> failure_decision \<Rightarrow> transition" where
  "failure_transition flow attempt step decision = (case fd_action decision of
       FailureActionRetryWorkflow \<Rightarrow>
         if wf_maxWorkflowAttempt (spec flow) = 0 \<or> wf_workflowAttempt (status flow) \<ge> wf_maxWorkflowAttempt (spec flow)
         then FailWorkflow ''WorkflowRetriesExhausted'' (sa_failureReason (status attempt))
         else Rewind (fd_restartStep decision)
     | FailureActionFailWorkflow \<Rightarrow> FailWorkflow ''StepFailed'' (sa_failureReason (status attempt))
     | FailureActionRetryStep \<Rightarrow>
         if sa_retryable (status attempt) \<and> sa_retryNumber (spec attempt) < maximum_attempts step
         then RetryStep step (int32 (sa_retryNumber (spec attempt) + 1))
         else FailWorkflow ''StepFailed'' (sa_failureReason (status attempt)))"

definition attempt_transition :: "workflow \<Rightarrow> step_attempt \<Rightarrow> transition" where
  "attempt_transition flow attempt =
     (let phase = sa_phase (status attempt); steps = wf_steps (spec flow); stepName = sa_stepName (spec attempt)
      in if phase = PhaseAwaitingApproval then
           (if wf_phase (status flow) = PhaseAwaitingApproval \<and> wf_observedGeneration (status flow) = generation (meta flow)
            then Wait else AwaitApproval)
         else if phase = PhaseSucceeded then (case next_step steps stepName of
             Some next \<Rightarrow> StartStep next
           | None \<Rightarrow> (case find_step steps stepName of
                 None \<Rightarrow> FailWorkflow ''StepMissing'' stepName
               | Some finalStep \<Rightarrow> Complete finalStep))
         else if phase = PhaseFailed \<or> phase = PhaseInterrupted then (case find_step steps stepName of
             None \<Rightarrow> FailWorkflow ''StepMissing'' stepName
           | Some step \<Rightarrow> (case decide_failure steps step phase of
                 Inl e \<Rightarrow> FailWorkflow ''InvalidRecoveryPolicy'' (error_text e)
               | Inr decision \<Rightarrow> failure_transition flow attempt step decision))
         else Wait)"

definition awaiting_status :: "int \<Rightarrow> workflow_status \<Rightarrow> workflow_status" where
  "awaiting_status gen st = st\<lparr>wf_phase := PhaseAwaitingApproval, wf_observedGeneration := gen\<rparr>"

definition succeeded_status :: "int \<Rightarrow> workflow_status \<Rightarrow> workflow_status" where
  "succeeded_status gen st = st\<lparr>wf_phase := PhaseSucceeded, wf_activeStepName := '''', wf_activeAttemptRef := '''',
     wf_observedGeneration := gen\<rparr>"

definition complete_workflow :: "workflow_env \<Rightarrow> workflow \<Rightarrow> step_attempt \<Rightarrow> step_config \<Rightarrow> int option action" where
  "complete_workflow env flow attempt finalStep =
     bind_io (final_step_outputs_accepted flow attempt finalStep) (\<lambda>(outputsReady, invalidReason).
       if invalidReason \<noteq> ''''
       then bind_io (fail_workflow (env_sha env) flow ''FinalOutputRejected'' invalidReason) (\<lambda>_. ret None)
       else if \<not> outputsReady then ret (Some 2)
       else bind_io (update_with_generation flow succeeded_status) (\<lambda>updated.
         bind_io (append_workflow_completed env updated (Some attempt)) (\<lambda>_. ret None)))"

definition perform_transition :: "workflow_env \<Rightarrow> workflow \<Rightarrow> step_attempt \<Rightarrow> transition \<Rightarrow> int option action" where
  "perform_transition env flow attempt t = (case t of
       Wait \<Rightarrow> ret None
     | AwaitApproval \<Rightarrow> bind_io (update_with_generation flow awaiting_status) (\<lambda>_. ret None)
     | Complete finalStep \<Rightarrow> complete_workflow env flow attempt finalStep
     | StartStep step \<Rightarrow> bind_io (create_attempt env flow step 1) (\<lambda>_. ret None)
     | Rewind restartStep \<Rightarrow> bind_io (begin_workflow_retry env flow attempt restartStep) (\<lambda>_. ret None)
     | RetryStep step number \<Rightarrow>
         seq_io (append_recovery_events env flow attempt step number)
         (bind_io (create_attempt_with_feedback env flow step number (retry_feedback_for_attempt attempt)) (\<lambda>_. ret None))
     | FailWorkflow reason message \<Rightarrow> bind_io (fail_workflow (env_sha env) flow reason message) (\<lambda>_. ret None))"

text \<open>The active attempt is gone: the next number among the step's attempts.\<close>

definition replace_missing_attempt :: "workflow_env \<Rightarrow> workflow \<Rightarrow> int option action" where
  "replace_missing_attempt env flow = (case find_step (wf_steps (spec flow)) (wf_activeStepName (status flow)) of
       None \<Rightarrow> bind_io (fail_workflow (env_sha env) flow ''StepMissing'' (wf_activeStepName (status flow))) (\<lambda>_. ret None)
     | Some step \<Rightarrow> bind_io (k_list StepAttempts (namespace_of flow)) (\<lambda>attempts.
         bind_io (create_attempt env flow step (next_retry_number (filter (labelled flow (step_name step)) attempts)
           (step_name step) (wf_workflowAttempt (status flow)))) (\<lambda>_. ret None)))"

definition start_active_step :: "workflow_env \<Rightarrow> workflow \<Rightarrow> int option action" where
  "start_active_step env flow =
     (if wf_activeStepName (status flow) = '''' then bind_io (create_attempt env flow (hd (wf_steps (spec flow))) 1) (\<lambda>_. ret None)
      else (case find_step (wf_steps (spec flow)) (wf_activeStepName (status flow)) of
          None \<Rightarrow> bind_io (fail_workflow (env_sha env) flow ''StepMissing'' (wf_activeStepName (status flow))) (\<lambda>_. ret None)
        | Some step \<Rightarrow> bind_io (create_attempt env flow step 1) (\<lambda>_. ret None)))"

definition advance_workflow :: "workflow_env \<Rightarrow> workflow \<Rightarrow> int option action" where
  "advance_workflow env flow =
     (if wf_activeAttemptRef (status flow) = '''' then start_active_step env flow
      else bind_io (attempt_io (k_get StepAttempts (namespace_of flow) (wf_activeAttemptRef (status flow)))) (\<lambda>res. case res of
          Inl e \<Rightarrow> (if e = NotFound then replace_missing_attempt env flow else raise e)
        | Inr attempt \<Rightarrow> perform_transition env flow attempt (attempt_transition flow attempt)))"

definition pending_status :: "int \<Rightarrow> workflow_status \<Rightarrow> workflow_status" where
  "pending_status gen st = st\<lparr>wf_phase := PhasePending, wf_observedGeneration := gen\<rparr>"

definition run_workflow :: "workflow_env \<Rightarrow> workflow \<Rightarrow> int option action" where
  "run_workflow env flow =
     bind_io (ensure_bootstrap env flow) (\<lambda>(ready, result, flow).
       if \<not> ready then ret result
       else seq_io (record_workflow_recovery (env_sha env) (env_encode env) flow)
         (if is_terminal (wf_phase (status flow))
          then (if wf_phase (status flow) = PhaseSucceeded
                then bind_io (append_workflow_completed env flow None) (\<lambda>_. ret None) else ret None)
          else advance_workflow env flow))"

definition prepare_workflow :: "workflow_env \<Rightarrow> workflow \<Rightarrow> int option action" where
  "prepare_workflow env flow =
     (if is_terminal (wf_phase (status flow)) \<and> wf_phase (status flow) \<noteq> PhaseSucceeded then ret None
      else if wf_steps (spec flow) = []
      then bind_io (fail_workflow (env_sha env) flow ''InvalidDefinition'' ''workflow must contain at least one step'') (\<lambda>_. ret None)
      else (case validate_approval_requirements (wf_steps (spec flow)) of
          Some e \<Rightarrow> bind_io (fail_workflow (env_sha env) flow ''InvalidApprovalBinding'' (error_text e)) (\<lambda>_. ret None)
        | None \<Rightarrow>
            if wf_phase (status flow) = NoPhase then bind_io (update_with_generation flow pending_status) (\<lambda>_. ret None)
            else if wf_pvcName (status flow) = '''' then bind_io (ensure_workspace env flow) (\<lambda>_. ret None)
            else if wf_workspaceWriterLeaseRef (status flow) = '''' then bind_io (ensure_workspace_writer_lease env flow) (\<lambda>_. ret None)
            else run_workflow env flow))"

definition reconcile_workflow :: "workflow_env \<Rightarrow> string \<Rightarrow> string \<Rightarrow> int option action" where
  "reconcile_workflow env ns n =
     bind_io (attempt_io (k_get Workflows ns n)) (\<lambda>res. case res of
         Inl e \<Rightarrow> (if e = NotFound then ret None else raise e)
       | Inr flow \<Rightarrow> bind_io (is_deleted flow) (\<lambda>deleting. if deleting then ret None else prepare_workflow env flow))"

text \<open>\<open>workflowForArtifact\<close>: the workflow an artifact's change wakes.\<close>

definition workflow_for_artifact :: "artifact \<Rightarrow> (string \<times> string) list" where
  "workflow_for_artifact a = (if ref_name (art_workflowRef (spec a)) = '''' then []
     else [(namespace_of a, ref_name (art_workflowRef (spec a)))])"

end
