(* ===== verification/Workflow_Progress.thy ===== *)
theory Workflow_Progress
  imports Workflow_Controller
begin

section \<open>What a reconciliation of a workflow keeps\<close>

text \<open>
  Facts about the stored workflows that \<open>reconcile_workflow\<close> keeps whatever fails. The locale
  \<open>workflow_fact\<close> collects them once: a fact about each workflow a client can read, which the
  writes of everything but the start of an attempt, a rewind and the completion leave alone.
\<close>

subsection \<open>Facts about the stored workflows\<close>

definition stored :: "(workflow \<Rightarrow> bool) \<Rightarrow> cluster \<Rightarrow> bool" where
  "stored good w \<longleftrightarrow> (\<forall>k f. find_by obj_key k (workflows w) = Some f \<longrightarrow> good f)"

lemma stored_frame [simp]:
  "stored good (w\<lparr>faults := fs\<rparr>) = stored good w" "stored good (w\<lparr>audit_log := a\<rparr>) = stored good w"
  "stored good (w\<lparr>next_uid := i\<rparr>) = stored good w"
  by (simp_all add: stored_def)

lemma storedD: "stored good w \<Longrightarrow> find_by obj_key k (workflows w) = Some f \<Longrightarrow> good f"
  unfolding stored_def by blast

text \<open>A change of the status that neither moves the workflow to another attempt nor completes it.\<close>

definition quiet :: "workflow_status \<Rightarrow> workflow_status \<Rightarrow> bool" where
  "quiet st st' \<longleftrightarrow> wf_workflowAttempt st' = wf_workflowAttempt st \<and> wf_activeStepName st' = wf_activeStepName st
     \<and> wf_activeAttemptRef st' = wf_activeAttemptRef st \<and> (wf_phase st' = PhaseSucceeded \<longrightarrow> wf_phase st = PhaseSucceeded)"

lemma quiet_same [simp]: "quiet st st" by (simp add: quiet_def)

text \<open>Kinds whose objects are not workflows.\<close>

definition apart :: "('s, 't) kind \<Rightarrow> bool" where
  "apart K \<longleftrightarrow> (\<forall>g w. workflows (upd_items K g w) = workflows w)"

lemma apart_kinds [simp]:
  "apart Claims" "apart ConfigMaps" "apart WriterLeases" "apart Jobs" "apart StepAttempts" "apart AgentRuns"
  "apart UtilityOperations" "apart ApprovalRequests" "apart ValidationRuns" "apart Artifacts"
  by (simp_all add: apart_def kind_defs)

lemma stored_apart: "apart K \<Longrightarrow> stored good (upd_items K g w) = stored good w"
  by (simp add: stored_def apart_def)

subsection \<open>What follows an attempt\<close>

lemma found_step: "find_step steps name = Some step \<Longrightarrow> step \<in> set steps \<and> step_name step = name"
  by (auto simp: find_step_def find_Some_iff)

lemma next_step_index:
  "next_step steps name = Some step \<Longrightarrow> \<exists>j. Suc j < length steps \<and> step_name (steps ! j) = name \<and> step = steps ! Suc j"
proof (induction steps name rule: next_step.induct)
  case (3 s t ss name)
  show ?case
  proof (cases "step_name s = name")
    case True
    with 3 show ?thesis by (intro exI [of _ 0]) simp
  next
    case False
    with 3 obtain j where "Suc j < length (t # ss)" "step_name ((t # ss) ! j) = name" "step = (t # ss) ! Suc j" by auto
    then show ?thesis by (intro exI [of _ "Suc j"]) simp
  qed
qed simp_all

text \<open>What each outcome of \<open>attempt_transition\<close> rests on.\<close>

lemma transition_start:
  "attempt_transition flow attempt = StartStep step \<Longrightarrow> next_step (wf_steps (spec flow)) (sa_stepName (spec attempt)) = Some step"
  by (auto simp: attempt_transition_def failure_transition_def Let_def
      split: if_splits option.splits sum.splits failure_action.splits)

lemma transition_retry:
  "attempt_transition flow attempt = RetryStep step number \<Longrightarrow>
     find_step (wf_steps (spec flow)) (sa_stepName (spec attempt)) = Some step
   \<and> sa_retryNumber (spec attempt) < maximum_attempts step \<and> number = int32 (sa_retryNumber (spec attempt) + 1)"
  by (auto simp: attempt_transition_def failure_transition_def Let_def
      split: if_splits option.splits sum.splits failure_action.splits)

lemma transition_rewind:
  assumes "attempt_transition flow attempt = Rewind r"
  shows "wf_workflowAttempt (status flow) < wf_maxWorkflowAttempt (spec flow)"
    and "0 \<le> step_index (wf_steps (spec flow)) r"
    and "step_index (wf_steps (spec flow)) r < step_index (wf_steps (spec flow)) (sa_stepName (spec attempt))"
proof -
  from assms obtain step d where d: "find_step (wf_steps (spec flow)) (sa_stepName (spec attempt)) = Some step"
      "decide_failure (wf_steps (spec flow)) step (sa_phase (status attempt)) = Inr d" "failure_transition flow attempt step d = Rewind r"
    by (auto simp: attempt_transition_def Let_def split: if_splits option.splits sum.splits)
  then have r: "fd_action d = FailureActionRetryWorkflow" "fd_restartStep d = r"
      "wf_workflowAttempt (status flow) < wf_maxWorkflowAttempt (spec flow)"
    by (auto simp: failure_transition_def split: if_splits failure_action.splits)
  from rewind_goes_back [OF d(2) r(1)] r found_step [OF d(1)]
  show "wf_workflowAttempt (status flow) < wf_maxWorkflowAttempt (spec flow)"
    "0 \<le> step_index (wf_steps (spec flow)) r"
    "step_index (wf_steps (spec flow)) r < step_index (wf_steps (spec flow)) (sa_stepName (spec attempt))"
    by simp_all
qed

lemma transition_complete:
  "attempt_transition flow attempt = Complete step \<Longrightarrow> sa_phase (status attempt) = PhaseSucceeded
   \<and> next_step (wf_steps (spec flow)) (sa_stepName (spec attempt)) = None
   \<and> find_step (wf_steps (spec flow)) (sa_stepName (spec attempt)) = Some step"
  by (auto simp: attempt_transition_def failure_transition_def Let_def
      split: if_splits option.splits sum.splits failure_action.splits)

subsection \<open>Facts and results\<close>

text \<open>An action that keeps a fact whatever fails, and whose result, if it gives one, satisfies \<open>p\<close>.\<close>

abbreviation gives :: "('w \<Rightarrow> bool) \<Rightarrow> ('w, 'a) io \<Rightarrow> ('a \<Rightarrow> bool) \<Rightarrow> bool" where
  "gives I m p \<equiv> triple I m (\<lambda>x w. I w \<and> p x) (\<lambda>_. I)"

lemma triple_result_bind:
  assumes "gives I m p" and "\<And>x. p x \<Longrightarrow> triple I (f x) Q (\<lambda>_. I)"
  shows "triple I (bind_io m f) Q (\<lambda>_. I)"
proof (rule triple_bind [OF assms(1)])
  fix x
  show "triple (\<lambda>w. I w \<and> p x) (f x) Q (\<lambda>_. I)" by (rule triple_pure) (rule assms(2))
qed

lemma gives_ret: "p x \<Longrightarrow> gives I (ret x) p"
  by (simp add: triple_def ret_def)

lemma gives_keeps: "gives I m p \<Longrightarrow> keeps I m"
  by (erule triple_weaken) auto

lemma gives_keeps_pre: "triple P m (\<lambda>x w. I w \<and> p x) (\<lambda>_. I) \<Longrightarrow> triple P m (\<lambda>_. I) (\<lambda>_. I)"
  by (erule triple_weaken) auto

lemma gives_seq: "keeps I m \<Longrightarrow> gives I n p \<Longrightarrow> gives I (seq_io m n) p"
  unfolding seq_io_def by (rule triple_bind)

lemma gives_after: "keeps I m \<Longrightarrow> (\<And>x. gives I (f x) p) \<Longrightarrow> gives I (bind_io m f) p"
  by (rule triple_bind)

lemma gives_case_prod: "(\<And>a b c. x = (a, b, c) \<Longrightarrow> triple I (f a b c) Q E) \<Longrightarrow>
   triple I (case x of (a, b, c) \<Rightarrow> f a b c) Q E"
  by (cases x) simp

locale workflow_fact =
  fixes good :: "workflow \<Rightarrow> bool" and k :: "string \<times> string" and sp :: workflow_spec
  assumes known_spec: "good f \<Longrightarrow> obj_key f = k \<Longrightarrow> spec f = sp"
    and same_workflow: "good f \<Longrightarrow> obj_key g = obj_key f \<Longrightarrow> spec g = spec f \<Longrightarrow> status g = status f \<Longrightarrow> good g"
    and quiet_status: "good f \<Longrightarrow> quiet (status f) st \<Longrightarrow> good (f\<lparr>status := st\<rparr>)"

sublocale workflow_fact \<subseteq> observed_fact "stored good"
  by unfold_locales simp_all

context observed_fact begin

lemma keeps_event: "keeps (I) (append_workflow_event sha flow t s a act tgt out reason refs payload)"
  unfolding append_workflow_event_def by (rule keeps_reads)

lemma keeps_completed: "keeps (I) (append_workflow_completed env flow attempt)"
  unfolding append_workflow_completed_def find_final_succeeded_attempt_def workflow_completion_decision_event_def
    attempt_consequences_def
  by (auto intro!: keeps_intros keeps_event keeps_list_events split: option.split)

lemma keeps_outputs: "keeps (I) (final_step_outputs_accepted flow attempt step)"
  unfolding final_step_outputs_accepted_def by (intro keeps_intros keeps_event)

end

context workflow_fact begin

subsection \<open>Writes\<close>

lemma stored_replace:
  assumes "stored good w" and "good y" and "obj_key y = j"
  shows "stored good (upd_items Workflows (replace_by obj_key j y) w)"
  unfolding stored_def
proof (intro allI impI)
  fix i f assume "find_by obj_key i (workflows (upd_items Workflows (replace_by obj_key j y) w)) = Some f"
  then have "f = y \<or> find_by obj_key i (workflows w) = Some f"
    using list_store.lookup_replace [where key = obj_key and k = j and v = y and j = i and s = "workflows w"] assms(3)
    by (auto simp: Workflows_def simp del: split_paired_All split: if_splits)
  then show "good f" using assms(1,2) storedD by blast
qed

text \<open>What holds of the replacement of a stored object holds after the write.\<close>

lemma write_precondition:
  assumes "stored good w" and "find_by obj_key (obj_key l) (workflows w) = Some cur" and "good y" and "obj_key y = obj_key l"
  shows "stored good w \<and> (\<forall>fs. stored good (w\<lparr>faults := fs\<rparr>)) \<and> find_by obj_key (obj_key l) (items Workflows w) = Some cur
    \<and> (\<forall>fs. stored good (upd_items Workflows (replace_by obj_key (obj_key l) y) (w\<lparr>faults := fs\<rparr>)))"
  using assms stored_replace [OF _ assms(3,4)] by (simp add: workflow_kind.items_faults) (simp add: Workflows_def)

lemma status_write:
  assumes "good (latest\<lparr>status := st\<rparr>)"
  shows "triple (\<lambda>w. stored good w \<and> find_by obj_key (obj_key latest) (workflows w) = Some latest)
     (k_update_status Workflows (latest\<lparr>status := st\<rparr>))
     (\<lambda>y w. stored good w \<and> good y \<and> obj_key y = obj_key latest) (\<lambda>_. stored good)"
proof -
  let ?l = "latest\<lparr>status := st\<rparr>"
  have new: "good (updated_status ?l latest)" by (rule same_workflow [OF assms]) simp_all
  have state: "triple (\<lambda>w. stored good w \<and> find_by obj_key (obj_key latest) (workflows w) = Some latest)
      (k_update_status Workflows ?l) (\<lambda>_. stored good) (\<lambda>_. stored good)"
    by (rule triple_pre [OF workflow_kind.update_status_triple [of "stored good" ?l latest]], rule write_precondition)
      (use new in simp_all)
  have result: "triple (\<lambda>w. stored good w \<and> find_by obj_key (obj_key latest) (workflows w) = Some latest)
      (k_update_status Workflows ?l) (\<lambda>y w. good y \<and> obj_key y = obj_key latest) (\<lambda>_ _. True)"
  proof (rule tripleI)
    fix w y w' assume P: "stored good w \<and> find_by obj_key (obj_key latest) (workflows w) = Some latest"
      and run: "k_update_status Workflows ?l w = (Inr y, w')"
    from run obtain cur where "find_by obj_key (obj_key ?l) (items Workflows w) = Some cur" and "y = updated_status ?l cur"
      by (rule workflow_kind.update_status_result)
    then have "y = updated_status ?l latest" using P by (simp add: Workflows_def)
    with new show "good y \<and> obj_key y = obj_key latest" by simp
  qed simp
  show ?thesis by (rule triple_weaken [OF triple_conj [OF state result]]) simp_all
qed

lemma status_loop:
  assumes "\<And>latest. good latest \<Longrightarrow> obj_key latest = (ns, n) \<Longrightarrow> good (latest\<lparr>status := f latest\<rparr>)"
  shows "triple (stored good) (retry_on_conflict (bind_io (k_get Workflows ns n)
       (\<lambda>latest. k_update_status Workflows (latest\<lparr>status := f latest\<rparr>))))
     (\<lambda>y w. stored good w \<and> good y \<and> obj_key y = (ns, n)) (\<lambda>_. stored good)"
proof -
  have get: "triple (stored good) (k_get Workflows ns n)
      (\<lambda>x w. stored good w \<and> find_by obj_key (ns, n) (items Workflows w) = Some x) (\<lambda>_. stored good)"
    by (rule workflow_kind.get_triple) simp
  have body: "triple (stored good) (bind_io (k_get Workflows ns n)
      (\<lambda>latest. k_update_status Workflows (latest\<lparr>status := f latest\<rparr>)))
      (\<lambda>y w. stored good w \<and> good y \<and> obj_key y = (ns, n)) (\<lambda>_. stored good)"
  proof (rule triple_bind [OF get])
    fix latest
    show "triple (\<lambda>w. stored good w \<and> find_by obj_key (ns, n) (items Workflows w) = Some latest)
        (k_update_status Workflows (latest\<lparr>status := f latest\<rparr>))
        (\<lambda>y w. stored good w \<and> good y \<and> obj_key y = (ns, n)) (\<lambda>_. stored good)"
    proof (cases "good latest \<and> obj_key latest = (ns, n)")
      case True
      then have "good (latest\<lparr>status := f latest\<rparr>)" using assms by blast
      from status_write [OF this] True show ?thesis by (auto simp: Workflows_def)
    next
      case False
      then show ?thesis by (auto simp: triple_def Workflows_def dest: storedD find_by_set)
    qed
  qed
  show ?thesis unfolding retry_on_conflict_def by (rule triple_retry_io [OF body])
qed

lemma status_update:
  assumes "\<And>st. quiet st (mutate st)"
  shows "triple (stored good) (update_workflow_status ns n mutate)
     (\<lambda>y w. stored good w \<and> good y \<and> obj_key y = (ns, n)) (\<lambda>_. stored good)"
  unfolding update_workflow_status_def by (rule status_loop) (rule quiet_status, assumption, rule assms)

lemma generation_update:
  assumes "\<And>f gen. good f \<Longrightarrow> obj_key f = obj_key flow \<Longrightarrow> good (f\<lparr>status := mutate gen (status f)\<rparr>)"
  shows "triple (stored good) (update_with_generation flow mutate)
     (\<lambda>y w. stored good w \<and> good y \<and> obj_key y = obj_key flow) (\<lambda>_. stored good)"
  unfolding update_with_generation_def using status_loop [of "namespace_of flow" "name_of flow"] assms
  by (simp add: obj_key_def)

lemma quiet_generation_update:
  "(\<And>gen st. quiet st (mutate gen st)) \<Longrightarrow> triple (stored good) (update_with_generation flow mutate)
     (\<lambda>y w. stored good w \<and> good y \<and> obj_key y = obj_key flow) (\<lambda>_. stored good)"
  by (rule generation_update) (rule quiet_status)

lemma keeps_update_metadata:
  assumes "\<And>f. obj_key (mutate f) = obj_key f \<and> spec (mutate f) = spec f"
  shows "keeps (stored good) (update_workflow ns n mutate)"
  unfolding update_workflow_def
proof (rule keeps_retry)
  have get: "triple (stored good) (k_get Workflows ns n)
      (\<lambda>x w. stored good w \<and> find_by obj_key (ns, n) (items Workflows w) = Some x) (\<lambda>_. stored good)"
    by (rule workflow_kind.get_triple) simp
  show "keeps (stored good) (bind_io (k_get Workflows ns n) (\<lambda>latest. bind_io (k_update Workflows (mutate latest)) (\<lambda>_. ret ())))"
  proof (rule triple_bind [OF get])
    fix latest
    show "triple (\<lambda>w. stored good w \<and> find_by obj_key (ns, n) (items Workflows w) = Some latest)
        (bind_io (k_update Workflows (mutate latest)) (\<lambda>_. ret ())) (\<lambda>_. stored good) (\<lambda>_. stored good)"
    proof (rule triple_bind [where R = "\<lambda>_. stored good"])
      have new: "good (updated_object (mutate latest) latest)" if "good latest"
        by (rule same_workflow [OF that]) (use assms in simp_all)
      have "stored good w \<and> (\<forall>fs. stored good (w\<lparr>faults := fs\<rparr>))
          \<and> find_by obj_key (obj_key (mutate latest)) (items Workflows w) = Some latest
          \<and> (\<forall>fs. stored good (upd_items Workflows (replace_by obj_key (obj_key (mutate latest))
                (updated_object (mutate latest) latest)) (w\<lparr>faults := fs\<rparr>)))"
        if w: "stored good w \<and> find_by obj_key (ns, n) (items Workflows w) = Some latest" for w
      proof (rule write_precondition)
        have "good latest" "obj_key latest = (ns, n)" using w find_by_set [of obj_key "(ns, n)" "workflows w" latest]
          by (auto simp: Workflows_def dest: storedD)
        then show "find_by obj_key (obj_key (mutate latest)) (workflows w) = Some latest"
          "good (updated_object (mutate latest) latest)"
          "obj_key (updated_object (mutate latest) latest) = obj_key (mutate latest)"
          using w assms new by (auto simp: Workflows_def simp del: obj_key_simp)
      qed (use w in simp)
      then show "triple (\<lambda>w. stored good w \<and> find_by obj_key (ns, n) (items Workflows w) = Some latest)
          (k_update Workflows (mutate latest)) (\<lambda>_. stored good) (\<lambda>_. stored good)"
        by (rule triple_pre [OF workflow_kind.update_triple [of "stored good" "mutate latest" latest]])
    qed (rule triple_ret)
  qed
qed

subsection \<open>What leaves the workflows where they are\<close>

lemma keeps_apart:
  assumes "apart K"
  shows "keeps (stored good) (k_create K x)" "keeps (stored good) (k_update K x)"
    "keeps (stored good) (k_update_status K x)" "keeps (stored good) (k_delete K x)"
  by (intro keeps_create keeps_update keeps_update_status keeps_delete; simp add: stored_apart [OF assms])+

lemma keeps_status: "(\<And>st. quiet st (mutate st)) \<Longrightarrow> keeps (stored good) (update_workflow_status ns n mutate)"
  by (rule gives_keeps, rule status_update)

lemma quiet_failed: "quiet st (failed_status gen reason message st)"
  by (simp add: quiet_def failed_status_def)

lemma keeps_fail: "keeps (stored good) (fail_workflow sha flow reason message)"
  unfolding fail_workflow_def
  by (intro keeps_bind keeps_event) (rule gives_keeps, rule quiet_generation_update, rule quiet_failed)

lemma keeps_acquire: "keeps (stored good) (acquire_workspace_writer flow leaseName kind object expected now)"
  unfolding acquire_workspace_writer_def
  by (auto intro!: keeps_intros keeps_apart split: sum.split acquire_outcome.split)

lemma keeps_release: "keeps (stored good) (release_workspace_writer ns grant now)"
  unfolding release_workspace_writer_def by (auto intro!: keeps_intros keeps_apart)

lemma keeps_new: "apart K \<Longrightarrow> keeps (stored good) (ignoring e (bind_io (k_create K x) (\<lambda>_. ret ())))"
  by (intro keeps_intros keeps_apart)

lemma keeps_gone: "apart K \<Longrightarrow> keeps (stored good) (ignoring e (k_delete K x))"
  by (intro keeps_intros keeps_apart)

lemmas keeps_workflows = keeps_intros keeps_event keeps_fail keeps_acquire keeps_release keeps_new keeps_gone

subsection \<open>The bootstrap\<close>

text \<open>A copy of the workflow that was read, and of whom only the status was replaced.\<close>

definition known :: "workflow \<Rightarrow> bool" where
  "known flow \<longleftrightarrow> good flow \<and> obj_key flow = k"

lemma known_update:
  assumes flow: "known flow" and y: "good y \<and> obj_key y = obj_key flow"
  shows "known (flow\<lparr>status := status y\<rparr>)"
proof -
  have key: "obj_key flow = k" "obj_key y = k" using flow y by (simp_all add: known_def)
  have good: "good flow" "good y" using flow y by (simp_all add: known_def)
  have "spec flow = spec y" using known_spec [OF good(1) key(1)] known_spec [OF good(2) key(2)] by simp
  then have "good (flow\<lparr>status := status y\<rparr>)" using key by (intro same_workflow [OF good(2)]) simp_all
  with key show ?thesis by (simp add: known_def)
qed

lemma gives_status:
  assumes "known flow" and "\<And>st. quiet st (mutate st)"
  shows "gives (stored good) (bind_io (update_workflow_status (namespace_of flow) (name_of flow) mutate)
     (\<lambda>updated. ret (flow\<lparr>status := status updated\<rparr>))) known"
proof (rule triple_result_bind [OF status_update])
  fix y assume "good y \<and> obj_key y = (namespace_of flow, name_of flow)"
  then have "known (flow\<lparr>status := status y\<rparr>)" by (intro known_update assms(1)) (simp add: obj_key_def)
  then show "gives (stored good) (ret (flow\<lparr>status := status y\<rparr>)) known" by (rule gives_ret)
qed (rule assms(2))

abbreviation outcome_known :: "bool \<times> int option \<times> workflow \<Rightarrow> bool" where
  "outcome_known r \<equiv> known (snd (snd r))"

lemma gives_stop: "known flow \<Longrightarrow> keeps (stored good) m \<Longrightarrow> gives (stored good) (bind_io m (\<lambda>_. ret (b, t, flow))) outcome_known"
  by (rule gives_after) (auto intro: gives_ret)

lemma gives_release:
  assumes "known flow"
  shows "gives (stored good) (release_bootstrap_writer flow) known"
  unfolding release_bootstrap_writer_def
  by (intro triple_if triple_case_sum gives_ret triple_raise gives_after gives_seq gives_status keeps_workflows assms)
    (simp add: quiet_def)

lemma keeps_get_writer: "keeps (stored good) (get_workspace_writer env flow)"
  unfolding get_workspace_writer_def
  by (auto intro!: keeps_workflows keeps_status simp: quiet_def split: writer_state.split)

lemma keeps_bootstrap_job: "keeps (stored good) (create_bootstrap_job env flow grant)"
  unfolding create_bootstrap_job_def Let_def
  by (intro keeps_workflows keeps_status) (simp_all add: quiet_def)

lemma gives_continue:
  assumes "known flow"
  shows "gives (stored good) (continue_bootstrap_job env missing flow) outcome_known"
  unfolding continue_bootstrap_job_def
  by (intro gives_after keeps_get_writer triple_case_sum triple_if gives_stop keeps_bootstrap_job assms gives_ret)
    (simp_all add: assms)

lemma gives_observe_job:
  assumes "known flow"
  shows "gives (stored good) (observe_bootstrap_job env flow job) outcome_known"
proof -
  have rest: "gives (stored good)
      (if job_active (status job) = 0 \<and> job_failed (status job) > 0
       then bind_io (release_bootstrap_writer g) (\<lambda>g.
         bind_io (fail_workflow (env_sha env) g ''BootstrapJobFailed'' ''bootstrap storage job failed'') (\<lambda>_. ret (False, None, g)))
       else if job_active (status job) = 0 \<and> job_succeeded (status job) > 0 then ret (True, None, g)
       else continue_bootstrap_job env False g) outcome_known" if "known g" for g
    by (intro triple_if triple_result_bind [OF gives_release [OF that]] gives_stop keeps_fail gives_continue that gives_ret)
      (simp_all add: that)
  show ?thesis unfolding observe_bootstrap_job_def
    by (intro triple_if gives_stop keeps_fail assms, rule triple_result_bind [OF _ rest])
      (auto intro!: triple_if gives_status gives_ret assms simp: quiet_def)
qed

lemma gives_deploy:
  assumes "known flow"
  shows "gives (stored good) (deploy_bootstrap_job env flow) outcome_known"
  unfolding deploy_bootstrap_job_def
  by (intro gives_after keeps_workflows triple_case_sum triple_if gives_continue gives_observe_job assms)

lemma keeps_cleanup: "keeps (stored good) (cleanup_bootstrap_resources flow)"
  unfolding cleanup_bootstrap_resources_def delete_bootstrap_source_def delete_bootstrap_job_def
  by (intro keeps_workflows) simp_all

lemma keeps_change_request: "keeps (stored good) (create_change_request env flow cr)"
  unfolding create_change_request_def Let_def by (intro keeps_workflows) simp_all

lemma keeps_load: "keeps (stored good) (load_bootstrap_change_request env flow)"
  unfolding load_bootstrap_change_request_def Let_def
  by (intro keeps_workflows) (auto intro: keeps_workflows split: option.split document.split)

lemma keeps_accepted: "keeps (stored good) (accepted_bootstrap_artifact flow)"
  unfolding accepted_bootstrap_artifact_def by (intro keeps_workflows)

lemma gives_complete_bootstrap:
  assumes "known flow"
  shows "gives (stored good) (complete_bootstrap env flow a) known"
  unfolding complete_bootstrap_def
  by (intro triple_result_bind [OF quiet_generation_update] gives_seq triple_if keeps_workflows keeps_cleanup gives_ret
      known_update assms) (simp add: quiet_def admitted_status_def)

lemma gives_observe_artifact:
  assumes "known flow"
  shows "gives (stored good) (observe_bootstrap_artifact env flow a) outcome_known"
proof -
  have rest: "gives (stored good)
      (if art_phase (status a) = PhaseSucceeded then bind_io (complete_bootstrap env g a) (\<lambda>g. ret (True, None, g))
       else if art_phase (status a) = PhaseFailed then failing env g ''BootstrapArtifactRejected'' (artifact_condition_message a)
       else ret (False, Some 2, g)) outcome_known" if "known g" for g
    unfolding failing_def
    by (intro triple_if triple_result_bind [OF gives_complete_bootstrap [OF that]] gives_stop keeps_fail that gives_ret)
      (simp_all add: that)
  show ?thesis unfolding observe_bootstrap_artifact_def failing_def
    by (intro triple_case_option gives_stop keeps_fail assms triple_result_bind [OF gives_release [OF assms]]
        rest [unfolded failing_def])
qed

lemma gives_start:
  assumes "known flow"
  shows "gives (stored good) (start_bootstrap env flow) outcome_known"
proof -
  have rest: "gives (stored good) (if \<not> deployed then ret (False, result, g)
      else seq_io (create_change_request env g cr)
        (bind_io (release_bootstrap_writer g) (\<lambda>g. ret (False, Some 2, g)))) outcome_known"
    if "known g" for deployed result cr g
    by (intro triple_if gives_seq keeps_change_request triple_result_bind [OF gives_release [OF that]] gives_ret)
      (simp_all add: that)
  show ?thesis unfolding start_bootstrap_def failing_def
    by (intro gives_after keeps_attempt keeps_load triple_case_sum gives_stop keeps_fail assms
        triple_result_bind [OF gives_deploy [OF assms]] gives_case_prod rest) simp
qed

lemma gives_bootstrap:
  assumes "known flow"
  shows "gives (stored good) (ensure_bootstrap env flow) outcome_known"
  unfolding ensure_bootstrap_def failing_def
  by (intro triple_case_option triple_if gives_after triple_case_sum gives_stop keeps_fail keeps_attempt keeps_accepted
      keeps_cleanup keeps_reads gives_start gives_observe_artifact triple_raise assms)

subsection \<open>Attempts and their executions\<close>

lemma keeps_required_approval: "keeps (stored good) (resolve_required_approval sha flow consumer step inputs)"
  unfolding resolve_required_approval_def find_gate_def find_request_def find_decision_def require_evidence_def
    from_option_def from_sum_def
  by (auto intro!: keeps_workflows split: option.split sum.split resolution.split)

lemma keeps_execution: "keeps (stored good) (ensure_domain_execution env flow attempt step feedback)"
proof -
  have create: "keeps (stored good) (create_execution K kind attempt x)" if "apart K" for K kind x
    unfolding create_execution_def by (intro keeps_workflows that)
  show ?thesis
    unfolding ensure_domain_execution_def start_agent_run_def start_utility_operation_def
    by (auto intro!: keeps_workflows keeps_test_input keeps_required_approval create split: execution_kind.split option.split)
qed

lemma quiet_observation: "quiet st (st\<lparr>wf_refinement := r\<rparr>)"
  by (simp add: quiet_def)

lemma keeps_observation: "keeps (stored good) (persist_retry_observation sha decisionID flow attempt run)"
  unfolding persist_retry_observation_def
proof (rule keeps_retry, rule triple_bind [OF workflow_kind.get_triple])
  fix latest
  let ?P = "\<lambda>w. stored good w \<and> find_by obj_key (namespace_of flow, name_of flow) (items Workflows w) = Some latest"
  have key: "obj_key latest = (namespace_of flow, name_of flow) \<and> good latest" if "?P w" for w
    using that find_by_set [of obj_key "(namespace_of flow, name_of flow)" "workflows w" latest]
    by (auto simp: Workflows_def dest: storedD)
  have store: "triple ?P (k_update_status Workflows (latest\<lparr>status := (status latest)\<lparr>wf_refinement := r\<rparr>\<rparr>))
      (\<lambda>_. stored good) (\<lambda>_. stored good)" for r
  proof (cases "obj_key latest = (namespace_of flow, name_of flow) \<and> good latest")
    case True
    then have "good (latest\<lparr>status := (status latest)\<lparr>wf_refinement := r\<rparr>\<rparr>)" by (simp add: quiet_status quiet_observation)
    from gives_keeps_pre [OF status_write [OF this]] True show ?thesis by (auto simp: Workflows_def)
  next
    case False
    then show ?thesis using key unfolding triple_def by blast
  qed
  have stop: "triple ?P (raise e) (\<lambda>_. stored good) (\<lambda>_. stored good)" "triple ?P (ret x) (\<lambda>_. stored good) (\<lambda>_. stored good)"
    for e and x :: int by (simp_all add: triple_def raise_def ret_def)
  show "triple ?P (observe_retry sha decisionID flow attempt run latest) (\<lambda>_. stored good) (\<lambda>_. stored good)"
    unfolding observe_retry_def
    by (intro triple_case_option triple_if stop triple_bind_gets triple_bind [OF store] triple_ret)
qed simp

lemma keeps_record_retry: "keeps (stored good) (record_workflow_retry sha flow attempt ref)"
  unfolding record_workflow_retry_def append_workflow_recovery_event_def Let_def
  by (intro keeps_workflows) (auto intro!: keeps_workflows keeps_recovery_execution keeps_observation split: execution.split)

lemma keeps_execution_ref: "keeps (stored good) (record_attempt_execution_ref attempt ref)"
  unfolding record_attempt_execution_ref_def by (intro keeps_workflows keeps_apart) simp

text \<open>The start of an attempt, where its name may become the workflow's active attempt.\<close>

lemma keeps_create_attempt:
  assumes "\<And>f gen. good f \<Longrightarrow> obj_key f = obj_key flow \<Longrightarrow> good (f\<lparr>status := active_attempt_status (step_name step)
      (attempt_name (step_name step) (wf_workflowAttempt (status flow)) number) gen (status f)\<rparr>)"
  shows "keeps (stored good) (create_attempt_with_feedback env flow step number feedback)"
proof -
  have activate: "keeps (stored good) (activate_attempt env flow step number)"
    unfolding activate_attempt_def Let_def
    by (intro keeps_bind keeps_event gives_keeps [OF generation_update] assms)
  show ?thesis unfolding create_attempt_with_feedback_def Let_def
    by (intro keeps_workflows keeps_record_recovery keeps_retry_feedback keeps_execution keeps_record_retry
        keeps_execution_ref activate) simp
qed

lemma keeps_recovery_events: "keeps (stored good) (append_recovery_events env flow failed step number)"
  unfolding append_recovery_events_def recovery_decision_def Let_def
  by (intro keeps_workflows keeps_evidence_events)

subsection \<open>A reconciliation up to the active attempt\<close>

lemma keeps_deleted: "keeps (stored good) (is_deleted flow)"
  unfolding is_deleted_def namespace_terminating_def
  by (intro keeps_workflows keeps_update_metadata) (simp_all add: add_finalizer_def remove_finalizer_def obj_key_def)

lemma keeps_workspace: "keeps (stored good) (ensure_workspace env flow)"
  unfolding ensure_workspace_def register_workspace_def Let_def
  by (intro keeps_workflows keeps_status) (simp_all add: quiet_def)

lemma keeps_writer_lease: "keeps (stored good) (ensure_workspace_writer_lease env flow)"
  unfolding ensure_workspace_writer_lease_def register_writer_lease_def Let_def
  by (intro keeps_workflows keeps_status) (simp_all add: quiet_def)

lemma reconcile_up_to:
  assumes advance: "\<And>flow. known flow \<Longrightarrow> wf_steps sp \<noteq> [] \<Longrightarrow> triple (stored good) (advance_workflow env flow) (\<lambda>_. Q) (\<lambda>_. Q)"
    and Q: "\<And>w. stored good w \<Longrightarrow> Q w" and key: "k = (ns, n)"
  shows "triple (stored good) (reconcile_workflow env ns n) (\<lambda>_. Q) (\<lambda>_. Q)"
proof -
  have keep: "triple (stored good) m (\<lambda>_. Q) (\<lambda>_. Q)" if "keeps (stored good) m" for m :: "'x action"
    by (rule triple_post [OF that]) (simp_all add: Q)
  have after: "triple (stored good) (bind_io m f) (\<lambda>_. Q) (\<lambda>_. Q)"
    if "gives (stored good) m p" and "\<And>x. p x \<Longrightarrow> triple (stored good) (f x) (\<lambda>_. Q) (\<lambda>_. Q)" for m :: "'x action" and f :: "'x \<Rightarrow> 'y action" and p
  proof (rule triple_bind [where R = "\<lambda>x w. stored good w \<and> p x"])
    show "triple (stored good) m (\<lambda>x w. stored good w \<and> p x) (\<lambda>_. Q)" by (rule triple_post [OF that(1)]) (simp_all add: Q)
    fix x show "triple (\<lambda>w. stored good w \<and> p x) (f x) (\<lambda>_. Q) (\<lambda>_. Q)" by (rule triple_pure) (rule that(2))
  qed
  have run: "triple (stored good) (run_workflow env flow) (\<lambda>_. Q) (\<lambda>_. Q)" if flow: "known flow" "wf_steps sp \<noteq> []" for flow
    unfolding run_workflow_def
  proof (rule after [OF gives_bootstrap [OF flow(1)]], rule gives_case_prod)
    fix r and ready :: bool and t and g assume "outcome_known r" and "r = (ready, t, g)"
    then have g: "known g" by simp
    have pause: "keeps (stored good) (bind_io (append_workflow_completed env g None) (\<lambda>_. ret None :: int option action))"
      by (intro keeps_workflows keeps_completed)
    have rest: "triple (stored good) (if is_terminal (wf_phase (status g))
        then (if wf_phase (status g) = PhaseSucceeded then bind_io (append_workflow_completed env g None) (\<lambda>_. ret None) else ret None)
        else advance_workflow env g) (\<lambda>_. Q) (\<lambda>_. Q)"
      by (intro triple_if keep [OF pause] keep [OF triple_ret] advance g flow(2))
    show "triple (stored good) (if \<not> ready then ret t
        else seq_io (record_workflow_recovery (env_sha env) (env_encode env) g)
          (if is_terminal (wf_phase (status g))
           then (if wf_phase (status g) = PhaseSucceeded then bind_io (append_workflow_completed env g None) (\<lambda>_. ret None) else ret None)
           else advance_workflow env g)) (\<lambda>_. Q) (\<lambda>_. Q)"
      unfolding seq_io_def
      by (rule triple_if, rule keep [OF triple_ret], rule triple_bind [where R = "\<lambda>_. stored good"],
          rule triple_post [OF keeps_record_recovery], simp, rule Q, simp, rule rest)
  qed
  have prepare: "triple (stored good) (prepare_workflow env flow) (\<lambda>_. Q) (\<lambda>_. Q)" if flow: "known flow" for flow
  proof (cases "wf_steps (spec flow) = []")
    case True
    have "keeps (stored good) (prepare_workflow env flow)"
      unfolding prepare_workflow_def using True by (auto intro!: keeps_workflows)
    then show ?thesis by (rule keep)
  next
    case False
    have steps: "wf_steps sp \<noteq> []" using False known_spec flow by (simp add: known_def)
    have stops: "keeps (stored good) (bind_io (fail_workflow (env_sha env) flow r m) (\<lambda>_. ret None :: int option action))"
        "keeps (stored good) (bind_io (update_with_generation flow pending_status) (\<lambda>_. ret None :: int option action))"
        "keeps (stored good) (bind_io (ensure_workspace env flow) (\<lambda>_. ret None :: int option action))"
        "keeps (stored good) (bind_io (ensure_workspace_writer_lease env flow) (\<lambda>_. ret None :: int option action))" for r m
      by (auto intro!: keeps_workflows keeps_workspace keeps_writer_lease gives_keeps [OF quiet_generation_update]
          simp: quiet_def pending_status_def)
    show ?thesis unfolding prepare_workflow_def
      by (intro triple_if triple_case_option keep [OF triple_ret] stops [THEN keep] run flow steps)
  qed
  have delete: "triple (stored good) (bind_io (is_deleted flow) (\<lambda>deleting. if deleting then ret None else prepare_workflow env flow))
      (\<lambda>_. Q) (\<lambda>_. Q)" if "known flow" for flow
    by (rule triple_bind [where R = "\<lambda>_. stored good"], rule triple_post [OF keeps_deleted], simp, rule Q, simp)
      (intro triple_if keep [OF triple_ret] prepare that)
  have read: "known x" if "stored good w" "find_by obj_key (ns, n) (workflows w) = Some x" for w x
    unfolding known_def using storedD [OF that] find_by_set [OF that(2)] by (simp add: key)
  have get: "gives (stored good) (k_get Workflows ns n) known"
    by (rule triple_post [OF workflow_kind.get_triple [of "stored good" ns n]])
      (auto simp: Workflows_def intro: read)
  show ?thesis unfolding reconcile_workflow_def
  proof (rule triple_attempt_bind [OF get])
    fix flow
    show "triple (\<lambda>w. stored good w \<and> known flow) (case Inr flow of Inl e \<Rightarrow> if e = NotFound then ret None else raise e
        | Inr flow \<Rightarrow> bind_io (is_deleted flow) (\<lambda>deleting. if deleting then ret None else prepare_workflow env flow)) (\<lambda>_. Q) (\<lambda>_. Q)"
      unfolding sum.case by (rule triple_pure) (rule delete)
  next
    fix e
    show "triple (stored good) (case Inl e of Inl e \<Rightarrow> if e = NotFound then ret None else raise e
        | Inr flow \<Rightarrow> bind_io (is_deleted flow) (\<lambda>deleting. if deleting then ret None else prepare_workflow env flow)) (\<lambda>_. Q) (\<lambda>_. Q)"
      unfolding sum.case by (intro triple_if keep [OF triple_ret] keep [OF triple_raise])
  qed
qed

subsection \<open>From the active attempt to the next\<close>

text \<open>
  \<open>starts_kept flow\<close>: the fact survives when an attempt of one of the steps becomes the active one
  of a workflow read as \<open>flow\<close>.
\<close>

definition starts_kept :: "workflow \<Rightarrow> bool" where
  "starts_kept flow \<longleftrightarrow> (\<forall>step \<in> set (wf_steps sp). \<forall>number f gen. good f \<longrightarrow> obj_key f = obj_key flow \<longrightarrow>
     good (f\<lparr>status := active_attempt_status (step_name step)
       (attempt_name (step_name step) (wf_workflowAttempt (status flow)) number) gen (status f)\<rparr>))"

lemma keeps_start:
  assumes "starts_kept flow" and "step \<in> set (wf_steps sp)"
  shows "keeps (stored good) (bind_io (create_attempt_with_feedback env flow step number feedback) (\<lambda>_. ret None :: int option action))"
    "keeps (stored good) (bind_io (create_attempt env flow step number) (\<lambda>_. ret None :: int option action))"
  unfolding create_attempt_def using assms
  by (auto intro!: keeps_bind triple_ret keeps_create_attempt simp: starts_kept_def simp del: obj_key_simp)

lemma keeps_stop: "keeps (stored good) (bind_io (fail_workflow sha flow r m) (\<lambda>_. ret None :: int option action))"
  by (intro keeps_workflows)

lemma keeps_active_step:
  assumes "known flow" and "wf_steps sp \<noteq> []" and "starts_kept flow"
  shows "keeps (stored good) (start_active_step env flow)" "keeps (stored good) (replace_missing_attempt env flow)"
proof -
  have sp: "spec flow = sp" using assms(1) known_spec by (simp add: known_def)
  show "keeps (stored good) (start_active_step env flow)" unfolding start_active_step_def sp
    by (intro triple_if triple_case_option keeps_stop keeps_start assms(3)) (use assms(2) found_step in auto)
  show "keeps (stored good) (replace_missing_attempt env flow)" unfolding replace_missing_attempt_def sp
    by (intro triple_case_option keeps_stop keeps_bind keeps_reads keeps_start [unfolded keeps_bind] assms(3))
      (use found_step in auto)
qed

lemma keeps_perform:
  assumes flow: "known flow" "starts_kept flow"
    and complete: "\<And>step. t = Complete step \<Longrightarrow> triple P (perform_transition env flow attempt t) (\<lambda>_. Q) (\<lambda>_. Q)"
    and rewind: "\<And>r. t = Rewind r \<Longrightarrow> triple P (perform_transition env flow attempt t) (\<lambda>_. Q) (\<lambda>_. Q)"
    and t: "t = attempt_transition flow attempt" and P: "\<And>w. P w \<Longrightarrow> stored good w" and Q: "\<And>w. stored good w \<Longrightarrow> Q w"
  shows "triple P (perform_transition env flow attempt t) (\<lambda>_. Q) (\<lambda>_. Q)"
proof -
  have keep: "triple P m (\<lambda>_. Q) (\<lambda>_. Q)" if "keeps (stored good) m" for m :: "int option action"
    by (rule triple_weaken [OF that]) (simp_all add: P Q)
  have sp: "spec flow = sp" using flow(1) known_spec by (simp add: known_def)
  show ?thesis
  proof (cases t)
    case Wait
    then show ?thesis by (simp add: perform_transition_def keep [OF triple_ret])
  next
    case AwaitApproval
    have "keeps (stored good) (bind_io (update_with_generation flow awaiting_status) (\<lambda>_. ret None :: int option action))"
      by (intro keeps_bind triple_ret gives_keeps [OF quiet_generation_update]) (simp add: quiet_def awaiting_status_def)
    with AwaitApproval show ?thesis by (simp add: perform_transition_def keep)
  next
    case (StartStep step)
    then have "step \<in> set (wf_steps sp)" using transition_start next_step_index t sp by (metis nth_mem)
    from keeps_start(2) [OF flow(2) this] StartStep show ?thesis by (simp add: perform_transition_def keep)
  next
    case (RetryStep step number)
    then have "step \<in> set (wf_steps sp)" using transition_retry found_step t sp by metis
    from keeps_seq [OF keeps_recovery_events keeps_start(1) [OF flow(2) this]] RetryStep
    show ?thesis by (simp add: perform_transition_def keep)
  next
    case (FailWorkflow r m)
    with keeps_stop show ?thesis by (simp add: perform_transition_def keep)
  qed (use complete rewind in simp_all)
qed

text \<open>\<open>P\<close> is what is known once the active attempt has been read.\<close>

lemma advance_triple:
  assumes flow: "known flow" "starts_kept flow" "wf_steps sp \<noteq> []" and Q: "\<And>w. stored good w \<Longrightarrow> Q w"
    and step: "\<And>attempt step t. t = attempt_transition flow attempt \<Longrightarrow> wf_activeAttemptRef (status flow) \<noteq> '''' \<Longrightarrow>
        name_of attempt = wf_activeAttemptRef (status flow) \<Longrightarrow> (\<exists>r. t = Rewind r) \<or> t = Complete step \<Longrightarrow>
        triple (\<lambda>w. stored good w \<and> find_by obj_key (namespace_of flow, wf_activeAttemptRef (status flow)) (step_attempts w) = Some attempt)
          (perform_transition env flow attempt t) (\<lambda>_. Q) (\<lambda>_. Q)"
  shows "triple (stored good) (advance_workflow env flow) (\<lambda>_. Q) (\<lambda>_. Q)"
proof -
  have keep: "triple (stored good) m (\<lambda>_. Q) (\<lambda>_. Q)" if "keeps (stored good) m" for m :: "int option action"
    by (rule triple_post [OF that]) (simp_all add: Q)
  let ?ref = "wf_activeAttemptRef (status flow)"
  show ?thesis unfolding advance_workflow_def
  proof (rule triple_if)
    show "triple (stored good) (start_active_step env flow) (\<lambda>_. Q) (\<lambda>_. Q)"
      by (rule keep, rule keeps_active_step) (rule flow)+
  next
    assume ref: "?ref \<noteq> ''''"
    show "triple (stored good) (bind_io (attempt_io (k_get StepAttempts (namespace_of flow) ?ref)) (\<lambda>res. case res of
         Inl e \<Rightarrow> (if e = NotFound then replace_missing_attempt env flow else raise e)
       | Inr attempt \<Rightarrow> perform_transition env flow attempt (attempt_transition flow attempt))) (\<lambda>_. Q) (\<lambda>_. Q)"
    proof (rule triple_attempt_bind [OF step_attempt_kind.get_triple])
      fix attempt
      let ?P = "\<lambda>w. stored good w \<and> find_by obj_key (namespace_of flow, ?ref) (items StepAttempts w) = Some attempt"
      have "triple ?P (perform_transition env flow attempt (attempt_transition flow attempt)) (\<lambda>_. Q) (\<lambda>_. Q)"
      proof (cases "name_of attempt = ?ref")
        case True
        show ?thesis
          by (rule keeps_perform [OF flow(1,2) _ _ refl])
            (use step [OF refl ref True] Q in \<open>auto simp: StepAttempts_def\<close>)
      next
        case False
        then have "\<not> ?P w" for w using find_by_set [of obj_key "(namespace_of flow, ?ref)" _ attempt] by fastforce
        then show ?thesis by (auto simp: triple_def)
      qed
      then show "triple ?P (case Inr attempt of Inl e \<Rightarrow> if e = NotFound then replace_missing_attempt env flow else raise e
          | Inr attempt \<Rightarrow> perform_transition env flow attempt (attempt_transition flow attempt)) (\<lambda>_. Q) (\<lambda>_. Q)" by simp
    next
      fix e show "triple (stored good) (case Inl e of Inl e \<Rightarrow> if e = NotFound then replace_missing_attempt env flow else raise e
          | Inr attempt \<Rightarrow> perform_transition env flow attempt (attempt_transition flow attempt)) (\<lambda>_. Q) (\<lambda>_. Q)"
        unfolding sum.case
        by (intro triple_if keep keeps_active_step(2) [OF flow(1,3,2)] triple_raise)
    qed simp
  qed
qed

end

subsection \<open>Where a workflow stands\<close>

text \<open>
  The iteration is a number of rewinds within the budget of the definition (an \<open>int32\<close>); the active
  step is a step of the definition, and the active attempt is named after it and the iteration.
\<close>

definition well_placed :: "workflow \<Rightarrow> bool" where
  "well_placed f \<longleftrightarrow> (let st = status f; names = map step_name (wf_steps (spec f)) in
     wf_maxWorkflowAttempt (spec f) \<le> max_int32
   \<and> 0 \<le> wf_workflowAttempt st \<and> (wf_workflowAttempt st = 0 \<or> wf_workflowAttempt st \<le> wf_maxWorkflowAttempt (spec f))
   \<and> (wf_activeStepName st = '''' \<or> wf_activeStepName st \<in> set names)
   \<and> (wf_activeAttemptRef st \<noteq> '''' \<longrightarrow> wf_activeStepName st \<in> set names
        \<and> (\<exists>r. wf_activeAttemptRef st = attempt_name (wf_activeStepName st) (wf_workflowAttempt st) r)))"

lemma well_placed_cong:
  "spec g = spec f \<Longrightarrow> wf_workflowAttempt (status g) = wf_workflowAttempt (status f) \<Longrightarrow>
   wf_activeStepName (status g) = wf_activeStepName (status f) \<Longrightarrow>
   wf_activeAttemptRef (status g) = wf_activeAttemptRef (status f) \<Longrightarrow> well_placed g = well_placed f"
  by (simp add: well_placed_def Let_def)

text \<open>The workflow at \<open>k\<close> is in iteration \<open>a\<close>; or it was rewound to the next.\<close>

definition in_iteration :: "string \<times> string \<Rightarrow> workflow_spec \<Rightarrow> int \<Rightarrow> workflow \<Rightarrow> bool" where
  "in_iteration k sp a f \<longleftrightarrow> well_placed f \<and> (obj_key f = k \<longrightarrow> spec f = sp \<and> wf_workflowAttempt (status f) = a)"

definition past_iteration :: "string \<times> string \<Rightarrow> workflow_spec \<Rightarrow> int \<Rightarrow> workflow \<Rightarrow> bool" where
  "past_iteration k sp a f \<longleftrightarrow> well_placed f
     \<and> (obj_key f = k \<longrightarrow> spec f = sp \<and> (wf_workflowAttempt (status f) = a \<or> wf_activeAttemptRef (status f) = ''''))"

interpretation steady: workflow_fact "in_iteration k sp a" k sp for k sp a
  by unfold_locales (auto simp: in_iteration_def quiet_def simp del: obj_key_simp cong: conj_cong intro: iffD1 [OF well_placed_cong, rotated -1])

interpretation rewound: workflow_fact "past_iteration k sp a" k sp for k sp a
  by unfold_locales (auto simp: past_iteration_def quiet_def simp del: obj_key_simp cong: conj_cong intro: iffD1 [OF well_placed_cong, rotated -1])

lemma past_of_in: "stored (in_iteration k sp a) w \<Longrightarrow> stored (past_iteration k sp a) w"
  by (auto simp: stored_def in_iteration_def past_iteration_def simp del: split_paired_All)

lemma placed_of_past: "stored (past_iteration k sp a) w \<Longrightarrow> stored well_placed w"
  by (auto simp: stored_def past_iteration_def simp del: split_paired_All)

lemma rewind_placed:
  assumes latest: "past_iteration k sp a latest" "obj_key latest = k" and a: "0 \<le> a" "a < wf_maxWorkflowAttempt sp"
    and name: "name_of failed \<noteq> ''''" and r: "0 \<le> step_index (wf_steps sp) r"
  shows "past_iteration k sp a (latest\<lparr>status := rewind_status flow failed r evidence latest\<rparr>)"
proof (cases "wf_activeAttemptRef (status latest) = name_of failed")
  case False
  then have "rewind_status flow failed r evidence latest = status latest" by (simp add: rewind_status_def)
  with latest show ?thesis by simp
next
  case True
  from latest True name have at: "well_placed latest" "spec latest = sp" "wf_workflowAttempt (status latest) = a"
    by (auto simp: past_iteration_def)
  then have bound: "int32 (a + 1) = a + 1" using a by (simp add: well_placed_def Let_def max_int32_def)
  have step: "r \<in> set (map step_name (wf_steps sp))" using step_index_nonneg [OF r] by (metis length_map nth_map nth_mem)
  have "well_placed (latest\<lparr>status := rewind_status flow failed r evidence latest\<rparr>)"
    using at a step bound unfolding rewind_status_def well_placed_def Let_def by simp (use bound in auto)
  moreover have "wf_workflowAttempt (rewind_status flow failed r evidence latest) = a
      \<or> wf_activeAttemptRef (rewind_status flow failed r evidence latest) = ''''"
    using at(3) by (simp add: rewind_status_def Let_def)
  ultimately show ?thesis using at(2) by (simp add: past_iteration_def)
qed

lemma rewind_triple:
  assumes flow: "obj_key flow = k" and a: "0 \<le> a" "a < wf_maxWorkflowAttempt sp"
    and name: "name_of failed \<noteq> ''''" and r: "0 \<le> step_index (wf_steps sp) r"
  shows "triple (stored (in_iteration k sp a)) (begin_workflow_retry env flow failed r) (\<lambda>_. stored well_placed) (\<lambda>_. stored well_placed)"
proof -
  have "keeps (stored (past_iteration k sp a)) (begin_workflow_retry env flow failed r)"
    unfolding begin_workflow_retry_def
    by (intro keeps_bind rewound.keeps_capture rewound.keeps_record_recovery
        gives_keeps [OF rewound.status_loop] rewind_placed a name r) (use flow in \<open>simp_all add: obj_key_def\<close>)
  then show ?thesis by (rule triple_weaken) (auto intro: past_of_in placed_of_past)
qed

lemma started_placed:
  assumes "steady.known k sp a flow" shows "steady.starts_kept k sp a flow"
  unfolding steady.starts_kept_def
proof (intro ballI allI impI)
  fix step number f gen assume step: "step \<in> set (wf_steps sp)" and f: "in_iteration k sp a f" "obj_key f = obj_key flow"
  have "obj_key flow = k" "wf_workflowAttempt (status flow) = a" using assms by (auto simp: steady.known_def in_iteration_def)
  with f step show "in_iteration k sp a (f\<lparr>status := active_attempt_status (step_name step)
      (attempt_name (step_name step) (wf_workflowAttempt (status flow)) number) gen (status f)\<rparr>)"
    by (auto simp: in_iteration_def well_placed_def Let_def active_attempt_status_def)
qed

lemma completed_placed: "in_iteration k sp a f \<Longrightarrow> in_iteration k sp a (f\<lparr>status := succeeded_status gen (status f)\<rparr>)"
  by (simp add: in_iteration_def well_placed_def Let_def succeeded_status_def)

lemma complete_placed: "keeps (stored (in_iteration k sp a)) (complete_workflow env flow attempt step)"
  unfolding complete_workflow_def
  by (intro steady.keeps_workflows steady.keeps_outputs steady.keeps_completed gives_keeps [OF steady.generation_update] completed_placed)

lemma advance_placed:
  assumes flow: "steady.known k sp a flow" "wf_steps sp \<noteq> []"
  shows "triple (stored (in_iteration k sp a)) (advance_workflow env flow) (\<lambda>_. stored well_placed) (\<lambda>_. stored well_placed)"
proof (rule steady.advance_triple [OF flow(1) started_placed [OF flow(1)] flow(2)])
  have known: "obj_key flow = k" "spec flow = sp" "wf_workflowAttempt (status flow) = a" "0 \<le> a"
    using flow(1) by (auto simp: steady.known_def in_iteration_def well_placed_def Let_def)
  have weak: "stored (in_iteration k sp a) w \<Longrightarrow> stored well_placed w" for w by (blast intro: past_of_in placed_of_past)
  then show "stored (in_iteration k sp a) w \<Longrightarrow> stored well_placed w" for w .
  fix attempt step t
  assume t: "t = attempt_transition flow attempt" "wf_activeAttemptRef (status flow) \<noteq> ''''"
    "name_of attempt = wf_activeAttemptRef (status flow)" "(\<exists>r. t = Rewind r) \<or> t = Complete step"
  have "triple (stored (in_iteration k sp a)) (perform_transition env flow attempt t) (\<lambda>_. stored well_placed) (\<lambda>_. stored well_placed)"
    using t(4)
  proof (elim disjE exE)
    fix r assume r: "t = Rewind r"
    note go = transition_rewind [OF t(1) [symmetric, unfolded r]]
    have "triple (stored (in_iteration k sp a)) (begin_workflow_retry env flow attempt r) (\<lambda>_. stored well_placed) (\<lambda>_. stored well_placed)"
      by (rule rewind_triple) (use known go t(2,3) in simp_all)
    then show ?thesis unfolding r perform_transition_def transition.case by (rule triple_bind) (rule triple_ret)
  next
    assume c: "t = Complete step"
    show ?thesis unfolding c perform_transition_def transition.case
      by (rule triple_post [OF complete_placed]) (simp_all add: weak)
  qed
  then show "triple (\<lambda>w. stored (in_iteration k sp a) w \<and> find_by obj_key (namespace_of flow, wf_activeAttemptRef (status flow))
      (step_attempts w) = Some attempt) (perform_transition env flow attempt t) (\<lambda>_. stored well_placed) (\<lambda>_. stored well_placed)"
    by (rule triple_pre) simp
qed

text \<open>Every state of the cluster fixes the definition and the iteration of the workflow at a key.\<close>

lemma placed_at:
  assumes "stored well_placed w"
  obtains sp a where "stored (in_iteration k sp a) w"
proof -
  let ?at = "find_by obj_key k (workflows w)"
  have "stored (in_iteration k (spec (the ?at)) (wf_workflowAttempt (status (the ?at)))) w"
    unfolding stored_def
  proof (intro allI impI)
    fix j f assume f: "find_by obj_key j (workflows w) = Some f"
    have "f = the ?at" if "obj_key f = k"
    proof -
      have "j = k" using find_by_set [OF f] that by simp
      with f show ?thesis by simp
    qed
    with storedD [OF assms f] show "in_iteration k (spec (the ?at)) (wf_workflowAttempt (status (the ?at))) f"
      unfolding in_iteration_def by metis
  qed
  then show thesis by (rule that)
qed

lemma reconcile_placed: "keeps (stored well_placed) (reconcile_workflow env ns n)"
proof -
  have "triple (stored (in_iteration (ns, n) sp a)) (reconcile_workflow env ns n) (\<lambda>_. stored well_placed) (\<lambda>_. stored well_placed)" for sp a
    by (rule steady.reconcile_up_to [OF advance_placed]) (auto intro: past_of_in placed_of_past)
  then show ?thesis unfolding triple_def using placed_at by (metis (lifting))
qed

subsection \<open>What a completed workflow rests on\<close>

text \<open>The workflow at \<open>k\<close> is not completed; and it still has the active attempt it was read with.\<close>

definition unfinished :: "string \<times> string \<Rightarrow> workflow_spec \<Rightarrow> workflow \<Rightarrow> bool" where
  "unfinished k sp f \<longleftrightarrow> (obj_key f = k \<longrightarrow> spec f = sp \<and> wf_phase (status f) \<noteq> PhaseSucceeded)"

definition awaiting_attempt :: "string \<times> string \<Rightarrow> workflow_spec \<Rightarrow> string \<Rightarrow> workflow \<Rightarrow> bool" where
  "awaiting_attempt k sp ref f \<longleftrightarrow> unfinished k sp f \<and> (obj_key f = k \<longrightarrow> wf_activeAttemptRef (status f) = ref)"

interpretation unfinished: workflow_fact "unfinished k sp" k sp for k sp
  by unfold_locales (auto simp: unfinished_def quiet_def simp del: obj_key_simp)

interpretation awaiting: workflow_fact "awaiting_attempt k sp ref" k sp for k sp ref
  by unfold_locales (auto simp: awaiting_attempt_def unfinished_def quiet_def simp del: obj_key_simp)

text \<open>One accepted artifact and no rejected one for each output of the last step, from the attempt at \<open>ref\<close>.\<close>

definition outputs_settled :: "cluster \<Rightarrow> string \<Rightarrow> step_attempt \<Rightarrow> step_config \<Rightarrow> bool" where
  "outputs_settled w ns attempt step \<longleftrightarrow> (\<forall>output \<in> set (step_outputs step).
     length (filter (\<lambda>a. namespace_of a = ns \<and> final_output attempt output a \<and> artifact_accepted a) (artifacts w)) = 1
   \<and> \<not> (\<exists>a \<in> set (artifacts w). namespace_of a = ns \<and> final_output attempt output a \<and> art_phase (status a) = PhaseFailed))"

definition finished :: "string \<Rightarrow> workflow_spec \<Rightarrow> string \<Rightarrow> cluster \<Rightarrow> bool" where
  "finished ns sp ref w \<longleftrightarrow> (\<exists>attempt step. find_by obj_key (ns, ref) (step_attempts w) = Some attempt
     \<and> sa_phase (status attempt) = PhaseSucceeded \<and> next_step (wf_steps sp) (sa_stepName (spec attempt)) = None
     \<and> find_step (wf_steps sp) (sa_stepName (spec attempt)) = Some step \<and> outputs_settled w ns attempt step)"

interpretation finished: observed_fact "finished ns sp ref" for ns sp ref
  by unfold_locales (simp_all add: finished_def outputs_settled_def)

lemma accepted_count_result:
  "accepted_count p as n = Some m \<Longrightarrow> m = n + length (filter (\<lambda>a. p a \<and> artifact_accepted a) as)
   \<and> \<not> (\<exists>a \<in> set as. p a \<and> art_phase (status a) = PhaseFailed)"
proof (induction as arbitrary: n)
  case (Cons a as)
  show ?case
    by (cases "p a"; cases "art_phase (status a) = PhaseFailed"; cases "artifact_accepted a")
      (use Cons.IH [of n] Cons.IH [of "Suc n"] Cons.prems in simp_all)
qed simp

lemma outputs_accepted_result:
  "outputs_accepted attempt arts outs = (True, reason) \<Longrightarrow> output \<in> set outs \<Longrightarrow>
     length (filter (\<lambda>a. final_output attempt output a \<and> artifact_accepted a) arts) = 1
   \<and> \<not> (\<exists>a \<in> set arts. final_output attempt output a \<and> art_phase (status a) = PhaseFailed)"
proof (induction outs)
  case (Cons c rest)
  from Cons.prems(1) obtain n where n: "accepted_count (final_output attempt c) arts 0 = Some n" "n \<noteq> 0" "\<not> n > 1"
      and rest: "outputs_accepted attempt arts rest = (True, reason)"
    by (auto simp: Let_def split: option.splits if_splits)
  have "n = 1" using n(2,3) by simp
  with accepted_count_result [OF n(1)]
  have "length (filter (\<lambda>a. final_output attempt c a \<and> artifact_accepted a) arts) = 1"
    "\<not> (\<exists>a \<in> set arts. final_output attempt c a \<and> art_phase (status a) = PhaseFailed)" by simp_all
  then show ?case using Cons.IH [OF rest] Cons.prems(2) by (cases "output = c") simp_all
qed simp

lemma outputs_ready:
  assumes "final_step_outputs_accepted flow attempt step w = (Inr (True, reason), w')"
  shows "outputs_settled w' (namespace_of flow) attempt step \<and> step_attempts w' = step_attempts w"
proof (cases "step_outputs step")
  case Nil
  with assms show ?thesis by (simp add: final_step_outputs_accepted_def outputs_settled_def ret_def)
next
  case Cons
  with assms obtain arts where list: "k_list Artifacts (namespace_of flow) w = (Inr arts, w')"
      and out: "outputs_accepted attempt arts (step_outputs step) = (True, reason)"
    by (auto simp: final_step_outputs_accepted_def ret_def elim!: bind_io_result)
  obtain fs where w': "w' = w\<lparr>faults := fs\<rparr>" using artifact_kind.list_result(2) [OF list] ..
  have arts: "arts = filter (\<lambda>a. namespace_of a = namespace_of flow) (artifacts w')"
    using artifact_kind.list_result(1) [OF list] by (simp add: w' Artifacts_def)
  have "outputs_settled w' (namespace_of flow) attempt step" unfolding outputs_settled_def
  proof
    fix c assume "c \<in> set (step_outputs step)"
    from outputs_accepted_result [OF out this]
    show "length (filter (\<lambda>a. namespace_of a = namespace_of flow \<and> final_output attempt c a \<and> artifact_accepted a) (artifacts w')) = 1
      \<and> \<not> (\<exists>a \<in> set (artifacts w'). namespace_of a = namespace_of flow \<and> final_output attempt c a \<and> art_phase (status a) = PhaseFailed)"
      unfolding arts by (auto simp: conj_commute conj_left_commute)
  qed
  with w' show ?thesis by simp
qed

abbreviation unfinished_or_finished :: "string \<times> string \<Rightarrow> workflow_spec \<Rightarrow> string \<Rightarrow> cluster \<Rightarrow> bool" where
  "unfinished_or_finished k sp ref w \<equiv> stored (unfinished k sp) w \<or> finished (fst k) sp ref w"

lemma complete_triple:
  assumes at: "attempt_transition flow attempt = Complete step" and flow: "obj_key flow = k" "spec flow = sp"
  shows "triple (\<lambda>w. stored (unfinished k sp) w \<and> find_by obj_key (fst k, ref) (step_attempts w) = Some attempt)
     (complete_workflow env flow attempt step) (\<lambda>_. unfinished_or_finished k sp ref) (\<lambda>_. unfinished_or_finished k sp ref)"
proof -
  let ?P = "\<lambda>w. stored (unfinished k sp) w \<and> find_by obj_key (fst k, ref) (step_attempts w) = Some attempt"
  let ?Q = "unfinished_or_finished k sp ref"
  have ns: "namespace_of flow = fst k" using flow(1) by (auto simp: obj_key_def)
  have outputs: "triple ?P (final_step_outputs_accepted flow attempt step)
      (\<lambda>r w. stored (unfinished k sp) w \<and> (fst r \<longrightarrow> finished (fst k) sp ref w)) (\<lambda>_. ?Q)"
  proof (rule tripleI)
    fix w r w' assume P: "?P w" and run: "final_step_outputs_accepted flow attempt step w = (Inr r, w')"
    have "stored (unfinished k sp) w'" using triple_resultD [OF unfinished.keeps_outputs] P run by blast
    moreover have "finished (fst k) sp ref w'" if "fst r"
    proof -
      from that run obtain reason where "final_step_outputs_accepted flow attempt step w = (Inr (True, reason), w')" by (cases r) auto
      from outputs_ready [OF this] P transition_complete [OF at] flow(2) ns
      show ?thesis unfolding finished_def by auto
    qed
    ultimately show "stored (unfinished k sp) w' \<and> (fst r \<longrightarrow> finished (fst k) sp ref w')" by blast
  next
    fix w e w' assume "?P w" and "final_step_outputs_accepted flow attempt step w = (Inl e, w')"
    then show "?Q w'" using triple_errorD [OF unfinished.keeps_outputs] by blast
  qed
  have fail: "triple (stored (unfinished k sp)) (bind_io (fail_workflow sha flow r m) (\<lambda>_. ret None :: int option action)) (\<lambda>_. ?Q) (\<lambda>_. ?Q)"
    for sha r m by (rule triple_post [OF unfinished.keeps_stop]) simp_all
  have settle: "keeps (finished (fst k) sp ref) (update_with_generation flow succeeded_status)"
    unfolding update_with_generation_def
    by (intro finished.keeps_intros keeps_update_status) (simp_all add: finished_def outputs_settled_def Workflows_def)
  have finish: "triple (finished (fst k) sp ref) (bind_io (update_with_generation flow succeeded_status) (\<lambda>updated.
         bind_io (append_workflow_completed env updated (Some attempt)) (\<lambda>_. ret None :: int option action))) (\<lambda>_. ?Q) (\<lambda>_. ?Q)"
    by (rule triple_post [where Q' = "\<lambda>_. finished (fst k) sp ref" and E' = "\<lambda>_. finished (fst k) sp ref"])
      (intro finished.keeps_intros settle finished.keeps_completed, simp_all)
  show ?thesis unfolding complete_workflow_def
  proof (rule triple_bind [OF outputs])
    fix r :: "bool \<times> string"
    show "triple (\<lambda>w. stored (unfinished k sp) w \<and> (fst r \<longrightarrow> finished (fst k) sp ref w))
       (case r of (outputsReady, invalidReason) \<Rightarrow>
         if invalidReason \<noteq> '''' then bind_io (fail_workflow (env_sha env) flow ''FinalOutputRejected'' invalidReason) (\<lambda>_. ret None)
         else if \<not> outputsReady then ret (Some (2 :: int))
         else bind_io (update_with_generation flow succeeded_status) (\<lambda>updated.
           bind_io (append_workflow_completed env updated (Some attempt)) (\<lambda>_. ret None))) (\<lambda>_. ?Q) (\<lambda>_. ?Q)"
      by (rule triple_case_prod, rule triple_if, rule triple_pre [OF fail], simp, rule triple_if,
          simp add: triple_def ret_def, rule triple_pre [OF finish], simp)
  qed
qed

lemma started_unfinished: "unfinished.starts_kept k sp flow"
  unfolding unfinished.starts_kept_def by (auto simp: unfinished_def active_attempt_status_def simp del: obj_key_simp)

lemma rewind_unfinished: "keeps (stored (unfinished k sp)) (begin_workflow_retry env flow failed r)"
proof -
  have "unfinished k sp (latest\<lparr>status := rewind_status flow failed r evidence latest\<rparr>)" if "unfinished k sp latest" for latest evidence
    using that by (simp add: unfinished_def rewind_status_def Let_def del: obj_key_simp)
  then show ?thesis unfolding begin_workflow_retry_def
    by (intro keeps_bind unfinished.keeps_capture unfinished.keeps_record_recovery gives_keeps [OF unfinished.status_loop])
qed

lemma unfinished_of_awaiting: "stored (awaiting_attempt k sp ref) w \<Longrightarrow> stored (unfinished k sp) w"
  by (auto simp: stored_def awaiting_attempt_def simp del: split_paired_All)

lemma advance_completes:
  assumes flow: "awaiting.known k sp ref flow" "wf_steps sp \<noteq> []"
  shows "triple (stored (awaiting_attempt k sp ref)) (advance_workflow env flow) (\<lambda>_. unfinished_or_finished k sp ref) (\<lambda>_. unfinished_or_finished k sp ref)"
proof -
  have known: "obj_key flow = k" "spec flow = sp" "wf_activeAttemptRef (status flow) = ref" "unfinished k sp flow"
    using flow(1) by (auto simp: awaiting.known_def awaiting_attempt_def unfinished_def)
  then have known': "unfinished.known k sp flow" by (simp add: unfinished.known_def)
  have "triple (stored (unfinished k sp)) (advance_workflow env flow) (\<lambda>_. unfinished_or_finished k sp ref) (\<lambda>_. unfinished_or_finished k sp ref)"
  proof (rule unfinished.advance_triple [OF known' started_unfinished flow(2)])
    fix attempt step t
    assume t: "t = attempt_transition flow attempt" "(\<exists>r. t = Rewind r) \<or> t = Complete step"
    have ns: "namespace_of flow = fst k" using known(1) by (auto simp: obj_key_def)
    show "triple (\<lambda>w. stored (unfinished k sp) w \<and> find_by obj_key (namespace_of flow, wf_activeAttemptRef (status flow)) (step_attempts w) = Some attempt)
        (perform_transition env flow attempt t) (\<lambda>_. unfinished_or_finished k sp ref) (\<lambda>_. unfinished_or_finished k sp ref)"
      using t(2)
    proof (elim disjE exE)
      fix r assume r: "t = Rewind r"
      have "keeps (stored (unfinished k sp)) (perform_transition env flow attempt t)"
        unfolding r perform_transition_def transition.case by (intro keeps_bind rewind_unfinished triple_ret)
      then show ?thesis by (rule triple_weaken) simp_all
    next
      assume c: "t = Complete step"
      from complete_triple [OF t(1) [symmetric, unfolded c] known(1,2)]
      show ?thesis unfolding c perform_transition_def transition.case ns known(3) .
    qed
  qed simp
  then show ?thesis by (rule triple_pre) (rule unfinished_of_awaiting)
qed

lemma reconcile_completes:
  "triple (stored (awaiting_attempt (ns, n) sp ref)) (reconcile_workflow env ns n)
     (\<lambda>_. unfinished_or_finished (ns, n) sp ref) (\<lambda>_. unfinished_or_finished (ns, n) sp ref)"
  by (rule awaiting.reconcile_up_to [OF advance_completes]) (use unfinished_of_awaiting in auto)

subsection \<open>An example\<close>

text \<open>
  Tests are written and a candidate is tested with them: the attempt to test it, the last step, has
  ended in phase \<open>p\<close> with the results \<open>arts\<close>.
\<close>

definition demo_env :: workflow_env where
  "demo_env = \<lparr>env_sha = zero_sha, env_encode = (\<lambda>_. []), env_encodeDecision = (\<lambda>_. []), env_decode = (\<lambda>_ _. None),
     env_quantity = (\<lambda>_. True), env_storageClass = '''', env_bootstrapImage = ''bootstrap''\<rparr>"

definition tested_step :: step_config where
  "tested_step = (demo_step ''test-candidate'' ExecutionKindValidation 2)\<lparr>step_inputs := [wants ''test-change-set''],
     step_outputs := [contract ''test-report'']\<rparr>"

definition request_artifact :: artifact where
  "request_artifact = result_artifact ''change-request'' ''change-request'' '''' 0"

definition tested_flow :: workflow where
  "tested_flow = (let base = steps_workflow [tests_step, tested_step] in base\<lparr>
     meta := (meta base)\<lparr>finalizers := [workflow_finalizer]\<rparr>,
     spec := (spec base)\<lparr>wf_bootstrap := \<lparr>bs_sourceRef = \<lparr>ref_name = ''source'', ref_uid = ''us''\<rparr>, bs_key = ''request.json'',
       bs_expectedDigest = zero_digest, bs_contract = contract ''change-request'', bs_artifactName = ''change-request''\<rparr>\<rparr>,
     status := (status base)\<lparr>wf_activeStepName := ''test-candidate'', wf_activeAttemptRef := attempt_name ''test-candidate'' 0 1,
       wf_pvcName := ''claim'', wf_workspaceWriterLeaseRef := ''writer'', wf_bootstrapArtifactRef := Some (recovery_uid request_artifact),
       wf_conditions := [\<lparr>cond_type = ''BootstrapReady'', cond_status = ConditionTrue, cond_reason = ''ChangeRequestAccepted'',
         cond_message = '''', cond_generation = 1\<rparr>]\<rparr>\<rparr>)"

definition tested_cluster :: "resource_phase \<Rightarrow> artifact list \<Rightarrow> cluster" where
  "tested_cluster p arts = empty_cluster\<lparr>workflows := [tested_flow],
     step_attempts := [iteration_attempt ''test-author'' 0 PhaseSucceeded, iteration_attempt ''test-candidate'' 0 p],
     artifacts := request_artifact # arts\<rparr>"

abbreviation test_report :: artifact where
  "test_report \<equiv> result_artifact ''report'' ''test-report'' ''test-candidate'' 0"

text \<open>The run of \<open>reconcile_workflow\<close>, reduced to where it leaves the workflow.\<close>

definition place_after :: "resource_phase \<Rightarrow> artifact list \<Rightarrow> (resource_phase \<times> string \<times> int) list" where
  "place_after p arts = map (\<lambda>f. (wf_phase (status f), wf_activeStepName (status f), wf_workflowAttempt (status f)))
     (workflows (snd (reconcile_workflow demo_env ''team'' ''wf'' (tested_cluster p arts))))"

lemma tested_outcomes:
  "place_after PhaseSucceeded [test_report] = [(PhaseSucceeded, '''', 0)]"
  "place_after PhaseSucceeded [] = [(PhaseRunning, ''test-candidate'', 0)]"
  "place_after PhaseFailed [test_report] = [(PhaseRunning, ''test-author'', 1)]"
  by code_simp+

subsection \<open>Properties\<close>

lemma stored_ifI: "(\<And>f. f \<in> set (workflows w) \<Longrightarrow> good f) \<Longrightarrow> stored good w"
  unfolding stored_def using find_by_set by fast

lemma tested_placed: "stored well_placed (tested_cluster p arts)"
proof (rule stored_ifI)
  fix f assume "f \<in> set (workflows (tested_cluster p arts))"
  then have "f = tested_flow" by (simp add: tested_cluster_def)
  moreover have "well_placed tested_flow" unfolding well_placed_def Let_def
    by (auto simp: tested_flow_def steps_workflow_def tested_step_def demo_step_def max_int32_def Let_def)
  ultimately show "well_placed f" by simp
qed

text \<open>
  C10: A workflow always stands somewhere in its definition: the iteration is between zero and the
  budget of rewinds, within an \<open>int32\<close>, the active step is one of the definition's, and an active
  attempt is an attempt of that step in that iteration. Every reconciliation, of every workflow,
  keeps this for all stored workflows, whatever calls fail, conflict or are retried.
\<close>

theorem workflows_stay_well_placed:
  assumes "stored well_placed w"
  shows "stored well_placed (snd (reconcile_workflow env ns n w))"
proof (cases "reconcile_workflow env ns n w")
  case (Pair res w')
  then show ?thesis
    using triple_resultD [OF reconcile_placed assms] triple_errorD [OF reconcile_placed assms] by (cases res) auto
qed

theorem workflows_stay_well_placed_witness:
  "stored well_placed (snd (reconcile_workflow demo_env ''team'' ''wf'' (tested_cluster PhaseFailed [test_report])))"
  by (rule workflows_stay_well_placed [OF tested_placed])

text \<open>The attempt \<open>ref\<close> has succeeded, it is an attempt of the last step, and the outputs of that step are settled.\<close>

lemma unfinished_completes:
  assumes flow: "find_by obj_key (ns, n) (workflows w) = Some flow" "wf_phase (status flow) \<noteq> PhaseSucceeded"
    and run: "reconcile_workflow env ns n w = (res, w')"
    and flow': "find_by obj_key (ns, n) (workflows w') = Some flow'" "wf_phase (status flow') = PhaseSucceeded"
  shows "finished ns (spec flow) (wf_activeAttemptRef (status flow)) w'"
proof -
  let ?ref = "wf_activeAttemptRef (status flow)"
  have "stored (awaiting_attempt (ns, n) (spec flow) ?ref) w"
    unfolding stored_def
  proof (intro allI impI)
    fix j f assume f: "find_by obj_key j (workflows w) = Some f"
    have "f = flow" if "obj_key f = (ns, n)" using find_by_set [OF f] that f flow(1) by simp
    with flow(2) show "awaiting_attempt (ns, n) (spec flow) ?ref f" by (auto simp: awaiting_attempt_def unfinished_def)
  qed
  then have "unfinished_or_finished (ns, n) (spec flow) ?ref w'"
    using triple_resultD [OF reconcile_completes] triple_errorD [OF reconcile_completes] run by (cases res) blast+
  moreover have "\<not> stored (unfinished (ns, n) (spec flow)) w'"
    using storedD [where good = "unfinished (ns, n) (spec flow)", OF _ flow'(1)] flow'(2) find_by_set [OF flow'(1)]
    by (auto simp: unfinished_def)
  ultimately show ?thesis by simp
qed

text \<open>
  C11: A workflow is completed only on its results. When a reconciliation, with whatever failures,
  leaves a workflow Succeeded that was not, the attempt that was active is stored and succeeded, no
  step follows the step it is an attempt of, and each output of that step has exactly one accepted
  artifact from that attempt's execution and none that was rejected.
\<close>

theorem completed_workflows_have_their_outputs:
  assumes "find_by obj_key (ns, n) (workflows w) = Some flow" and "wf_phase (status flow) \<noteq> PhaseSucceeded"
    and "reconcile_workflow env ns n w = (res, w')"
    and "find_by obj_key (ns, n) (workflows w') = Some flow'" and "wf_phase (status flow') = PhaseSucceeded"
  shows "\<exists>attempt step. find_by obj_key (ns, wf_activeAttemptRef (status flow)) (step_attempts w') = Some attempt
     \<and> sa_phase (status attempt) = PhaseSucceeded \<and> next_step (wf_steps (spec flow)) (sa_stepName (spec attempt)) = None
     \<and> find_step (wf_steps (spec flow)) (sa_stepName (spec attempt)) = Some step \<and> outputs_settled w' ns attempt step"
  using unfinished_completes [OF assms] unfolding finished_def .

theorem completed_workflows_have_their_outputs_witness:
  "\<exists>attempt step. find_by obj_key (''team'', attempt_name ''test-candidate'' 0 1)
       (step_attempts (snd (reconcile_workflow demo_env ''team'' ''wf'' (tested_cluster PhaseSucceeded [test_report])))) = Some attempt
     \<and> outputs_settled (snd (reconcile_workflow demo_env ''team'' ''wf'' (tested_cluster PhaseSucceeded [test_report]))) ''team'' attempt step"
proof -
  let ?w = "tested_cluster PhaseSucceeded [test_report]"
  obtain res w' where run: "reconcile_workflow demo_env ''team'' ''wf'' ?w = (res, w')" by (rule prod.exhaust)
  have flow: "find_by obj_key (''team'', ''wf'') (workflows ?w) = Some tested_flow" "wf_phase (status tested_flow) \<noteq> PhaseSucceeded"
    "wf_activeAttemptRef (status tested_flow) = attempt_name ''test-candidate'' 0 1" by code_simp+
  have "(case find_by obj_key (''team'', ''wf'') (workflows (snd (reconcile_workflow demo_env ''team'' ''wf'' ?w))) of
      None \<Rightarrow> False | Some f \<Rightarrow> wf_phase (status f) = PhaseSucceeded)" by code_simp
  then obtain f where f: "find_by obj_key (''team'', ''wf'') (workflows w') = Some f" "wf_phase (status f) = PhaseSucceeded"
    by (auto simp: run split: option.splits)
  from completed_workflows_have_their_outputs [OF flow(1,2) run f] show ?thesis unfolding run flow(3) snd_conv by blast
qed

end
