(* ===== verification/Workflow_Budget.thy ===== *)
theory Workflow_Budget
  imports Workflow_Progress
begin

section \<open>The number of attempts of a workflow\<close>

text \<open>
  The attempts of a workflow in the order the controller starts them: each is what
  \<open>attempt_transition\<close> makes of the one before, a retry of its step, the first attempt of the next
  step, or, after a rewind, the first attempt of the step the workflow restarts at. The budgets of
  the definition bound the length of every such sequence, so a workflow cannot run for ever.
\<close>

subsection \<open>From one attempt to the next\<close>

text \<open>What \<open>advance_workflow\<close> has established when it reads the active attempt of a workflow.\<close>

definition active_for :: "workflow \<Rightarrow> step_attempt \<Rightarrow> bool" where
  "active_for flow attempt \<longleftrightarrow> deletion (meta flow) = None \<and> \<not> is_terminal (wf_phase (status flow))
     \<and> wf_activeAttemptRef (status flow) = name_of attempt \<and> sa_workflowAttempt (spec attempt) = wf_workflowAttempt (status flow)"

text \<open>The attempt that is created next, with \<open>evidence\<close> what a rewind captures.\<close>

definition next_attempt :: "workflow_recovery_evidence \<Rightarrow> workflow \<Rightarrow> step_attempt \<Rightarrow> step_attempt option" where
  "next_attempt evidence flow attempt = (case attempt_transition flow attempt of
       StartStep step \<Rightarrow> Some (new_step_attempt flow step 1)
     | RetryStep step number \<Rightarrow> Some (new_step_attempt flow step number)
     | Rewind r \<Rightarrow> map_option (\<lambda>step. new_step_attempt (flow\<lparr>status := rewind_status flow attempt r evidence flow\<rparr>) step 1)
         (find_step (wf_steps (spec flow)) r)
     | _ \<Rightarrow> None)"

fun attempt_run :: "(step_attempt \<Rightarrow> workflow_recovery_evidence) \<Rightarrow> workflow_spec \<Rightarrow> (workflow \<times> step_attempt) list \<Rightarrow> bool" where
  "attempt_run evidence sp [] \<longleftrightarrow> True"
| "attempt_run evidence sp [(flow, attempt)] \<longleftrightarrow> spec flow = sp \<and> active_for flow attempt"
| "attempt_run evidence sp ((flow, attempt) # (flow', attempt') # rest) \<longleftrightarrow>
     spec flow = sp \<and> active_for flow attempt
   \<and> (case next_attempt (evidence attempt) flow attempt of None \<Rightarrow> False | Some new \<Rightarrow> spec attempt' = spec new)
   \<and> attempt_run evidence sp ((flow', attempt') # rest)"

subsection \<open>The order of the attempts\<close>

text \<open>An attempt within the budgets; \<open>bound\<close> is the largest number of attempts of a step.\<close>

definition in_budget :: "workflow_spec \<Rightarrow> int \<Rightarrow> step_attempt_spec \<Rightarrow> bool" where
  "in_budget sp bound a \<longleftrightarrow> 0 \<le> sa_workflowAttempt a \<and> sa_workflowAttempt a \<le> wf_maxWorkflowAttempt sp
     \<and> 0 \<le> step_index (wf_steps sp) (sa_stepName a) \<and> 1 \<le> sa_retryNumber a \<and> sa_retryNumber a \<le> bound"

definition attempts_left :: "workflow_spec \<Rightarrow> int \<Rightarrow> step_attempt_spec \<Rightarrow> int" where
  "attempts_left sp bound a = (let n = int (length (wf_steps sp)) in
     (wf_maxWorkflowAttempt sp - sa_workflowAttempt a) * (n * bound)
     + (n - 1 - step_index (wf_steps sp) (sa_stepName a)) * bound + (bound - sa_retryNumber a))"

definition budgets :: "workflow_spec \<Rightarrow> int \<Rightarrow> bool" where
  "budgets sp bound \<longleftrightarrow> distinct (map step_name (wf_steps sp)) \<and> wf_maxWorkflowAttempt sp \<le> max_int32 \<and> 1 \<le> bound \<and> bound \<le> max_int32
     \<and> list_all (\<lambda>step. maximum_attempts step \<le> bound) (wf_steps sp)"

lemma step_index_bounds: "0 \<le> step_index steps name \<Longrightarrow> step_index steps name < int (length steps)"
  using step_index_nonneg [of steps name] by (simp add: nat_less_iff)

lemma step_index_nth:
  assumes "distinct (map step_name steps)" and "j < length steps"
  shows "step_index steps (step_name (steps ! j)) = int j"
proof (cases "first_index (step_name (steps ! j)) steps")
  case None
  let ?pre = "takeWhile (\<lambda>s. step_name s \<noteq> step_name (steps ! j)) steps"
  from None have "length steps \<le> length ?pre" by (simp add: first_index_def Let_def split: if_splits)
  with takeWhile_eq_take [of "\<lambda>s. step_name s \<noteq> step_name (steps ! j)" steps] have "?pre = steps" by simp
  then show ?thesis using assms(2) by (metis (mono_tags, lifting) nth_mem takeWhile_eq_all_conv)
next
  case (Some i)
  from first_index_less [OF Some] assms have "i = j" by (metis length_map nth_eq_iff_index_eq nth_map)
  with Some show ?thesis by (simp add: step_index_def)
qed

lemma left_nonneg: "in_budget sp bound a \<Longrightarrow> 1 \<le> bound \<Longrightarrow> 0 \<le> attempts_left sp bound a"
  using step_index_bounds by (auto simp: in_budget_def attempts_left_def Let_def intro!: add_nonneg_nonneg mult_nonneg_nonneg)

text \<open>The three ways on: the next retry, the next step, the next iteration.\<close>

lemma left_decreases:
  fixes i j r i' j' r' n m b :: int
  assumes "i' = i \<and> j' = j \<and> r' = r + 1 \<or> i' = i \<and> j' = j + 1 \<and> r' = 1 \<or> i' = i + 1 \<and> j - j' < n \<and> r' = 1"
    and "1 \<le> b" and "r \<le> b"
  shows "(m - i') * (n * b) + (n - 1 - j') * b + (b - r') < (m - i) * (n * b) + (n - 1 - j) * b + (b - r)"
  using assms(1)
proof (elim disjE conjE)
  assume next_iteration: "i' = i + 1" "j - j' < n" "r' = 1"
  then have "1 * b \<le> (n + j' - j) * b" using assms(2) by (intro mult_right_mono) simp_all
  with next_iteration assms(3) show ?thesis by (simp add: algebra_simps)
qed (use assms(2,3) in \<open>simp_all add: algebra_simps\<close>)

lemma next_attempt_in_budget:
  assumes flow: "spec flow = sp" "active_for flow attempt" and budget: "budgets sp bound" "in_budget sp bound (spec attempt)"
    and new: "next_attempt evidence flow attempt = Some new"
  shows "in_budget sp bound (spec new) \<and> attempts_left sp bound (spec new) < attempts_left sp bound (spec attempt)"
proof -
  let ?i = "sa_workflowAttempt (spec attempt)" and ?j = "step_index (wf_steps sp) (sa_stepName (spec attempt))"
    and ?r = "sa_retryNumber (spec attempt)"
  let ?i' = "sa_workflowAttempt (spec new)" and ?j' = "step_index (wf_steps sp) (sa_stepName (spec new))"
    and ?r' = "sa_retryNumber (spec new)"
  have i: "wf_workflowAttempt (status flow) = ?i" using flow(2) by (simp add: active_for_def)
  have old: "0 \<le> ?i" "?i \<le> wf_maxWorkflowAttempt sp" "0 \<le> ?j" "1 \<le> ?r" "?r \<le> bound" "1 \<le> bound" "bound \<le> max_int32"
      "wf_maxWorkflowAttempt sp \<le> max_int32"
    using budget by (auto simp: in_budget_def budgets_def)
  have "0 \<le> ?i' \<and> ?i' \<le> wf_maxWorkflowAttempt sp \<and> 0 \<le> ?j' \<and> 1 \<le> ?r' \<and> ?r' \<le> bound
    \<and> (?i' = ?i \<and> ?j' = ?j \<and> ?r' = ?r + 1 \<or> ?i' = ?i \<and> ?j' = ?j + 1 \<and> ?r' = 1
       \<or> ?i' = ?i + 1 \<and> ?j - ?j' < int (length (wf_steps sp)) \<and> ?r' = 1)"
  proof (cases "attempt_transition flow attempt")
    case (StartStep step)
    then have new': "new = new_step_attempt flow step 1" using new by (simp add: next_attempt_def)
    from next_step_index [OF transition_start [OF StartStep]] obtain j where
      j: "Suc j < length (wf_steps sp)" "step_name (wf_steps sp ! j) = sa_stepName (spec attempt)" "step = wf_steps sp ! Suc j"
      using flow(1) by auto
    have "distinct (map step_name (wf_steps sp))" using budget(1) by (simp add: budgets_def)
    from step_index_nth [OF this j(1)] step_index_nth [OF this, of j] j have "?j' = ?j + 1" by (simp add: new' new_step_attempt_def)
    with old show ?thesis by (simp add: new' new_step_attempt_def i)
  next
    case (RetryStep step number)
    then have new': "new = new_step_attempt flow step number" using new by (simp add: next_attempt_def)
    from transition_retry [OF RetryStep] found_step [of "wf_steps (spec flow)"] flow(1)
    have step: "step \<in> set (wf_steps sp)" "step_name step = sa_stepName (spec attempt)" "?r < maximum_attempts step" "number = int32 (?r + 1)"
      by auto
    then have r: "?r + 1 \<le> bound" using budget(1) by (fastforce simp: budgets_def list_all_iff)
    then have "number = ?r + 1" using step(4) old by (simp add: max_int32_def)
    with old r step(2) show ?thesis by (simp add: new' new_step_attempt_def i)
  next
    case (Rewind r)
    then obtain step where step: "find_step (wf_steps sp) r = Some step"
      and new': "new = new_step_attempt (flow\<lparr>status := rewind_status flow attempt r evidence flow\<rparr>) step 1"
      using new flow(1) by (auto simp: next_attempt_def)
    from transition_rewind [OF Rewind] flow(1) i have earlier: "?i < wf_maxWorkflowAttempt sp" "0 \<le> step_index (wf_steps sp) r"
      "step_index (wf_steps sp) r < ?j" by auto
    have "int32 (?i + 1) = ?i + 1" using old earlier(1) by (simp add: max_int32_def)
    then have "?i' = ?i + 1" using flow(2) i by (simp add: new' new_step_attempt_def rewind_status_def active_for_def Let_def)
    moreover have "?j' = step_index (wf_steps sp) r" using found_step [OF step] by (simp add: new' new_step_attempt_def)
    moreover have "?r' = 1" by (simp add: new' new_step_attempt_def)
    ultimately show ?thesis using old earlier step_index_bounds [OF old(3)] by simp
  qed (use new in \<open>simp_all add: next_attempt_def\<close>)
  with old left_decreases [of ?i' ?i ?j' ?j ?r' ?r "int (length (wf_steps sp))" bound "wf_maxWorkflowAttempt sp"]
  show ?thesis by (simp add: in_budget_def attempts_left_def Let_def)
qed

lemma run_is_bounded:
  "attempt_run evidence sp ((flow, attempt) # rest) \<Longrightarrow> budgets sp bound \<Longrightarrow> in_budget sp bound (spec attempt) \<Longrightarrow>
   int (length rest) \<le> attempts_left sp bound (spec attempt)"
proof (induction rest arbitrary: flow attempt)
  case Nil
  then show ?case using left_nonneg by (simp add: budgets_def)
next
  case (Cons x rest)
  obtain g b where x: "x = (g, b)" by (cases x)
  from Cons.prems(1) obtain new where new: "next_attempt (evidence attempt) flow attempt = Some new" "spec b = spec new"
      "spec flow = sp" "active_for flow attempt" "attempt_run evidence sp ((g, b) # rest)"
    by (auto simp: x split: option.splits)
  from next_attempt_in_budget [OF new(3,4) Cons.prems(2,3) new(1)] Cons.IH [OF new(5) Cons.prems(2)] new(2)
  show ?case by simp
qed

subsection \<open>Properties\<close>


text \<open>A candidate that fails once is tested again with new tests; the run ends in the second iteration.\<close>

definition demo_position :: "string \<Rightarrow> int \<Rightarrow> resource_phase \<Rightarrow> workflow \<times> step_attempt" where
  "demo_position step iteration p = (let base = iteration_attempt step iteration p;
       a = base\<lparr>spec := (spec base)\<lparr>sa_kind := (if step = ''test-candidate'' then ExecutionKindValidation else ExecutionKindAgent)\<rparr>\<rparr> in
     (tested_flow\<lparr>status := (status tested_flow)\<lparr>wf_workflowAttempt := iteration, wf_activeStepName := step,
        wf_activeAttemptRef := name_of a\<rparr>\<rparr>, a))"

definition demo_evidence :: "step_attempt \<Rightarrow> workflow_recovery_evidence" where
  "demo_evidence a = \<lparr>rec_selectedAt = 0, rec_triggerAttempt = recovery_uid a, rec_previousAttempt = None,
     rec_previousOutcome = NoPhase, rec_fromWorkflowAttempt = 0, rec_maxWorkflowAttempt = 0, rec_failureReason = '''',
     rec_feedback = None, rec_inputLinks = [], rec_reports = [], rec_evidenceEvents = [], rec_missing = []\<rparr>"


end
