(* ===== verification/Cluster_Reads.thy ===== *)
theory Cluster_Reads
  imports Workflow_Recovery Cluster_Calls
begin

section \<open>What a reconciliation has read\<close>

text \<open>
  The controllers read several objects and then act on all of them. Here a read leaves the fact
  that the cluster holds the object it returned, on top of what was known before, and a write of
  the status of an object that was read replaces exactly that object. What is known must be a fact
  no script of faults and no event touches, \<open>observed_fact\<close>.
\<close>

lemma observed_conj [intro]: "observed_fact I \<Longrightarrow> observed_fact J \<Longrightarrow> observed_fact (\<lambda>w. I w \<and> J w)"
  unfolding observed_fact_def by blast

lemma observed_const [intro]: "observed_fact (\<lambda>_. b)"
  by unfold_locales

definition seen :: "('s, 't) kind \<Rightarrow> string \<Rightarrow> string \<Rightarrow> ('s, 't) kobj \<Rightarrow> cluster \<Rightarrow> bool" where
  "seen K ns n x w \<longleftrightarrow> find_by obj_key (ns, n) (items K w) = Some x"

lemma seen_member: "seen K ns n x w \<Longrightarrow> x \<in> set (items K w) \<and> namespace_of x = ns \<and> name_of x = n"
  unfolding seen_def using find_by_set by force

context resource_kind begin

lemma observed_seen [intro]: "observed_fact (seen K ns n x)"
  by unfold_locales (simp_all add: seen_def items_faults items_audit)

lemma get_seen:
  assumes "observed_fact I"
  shows "triple I (k_get K ns n) (\<lambda>x w. I w \<and> seen K ns n x w) (\<lambda>_. I)"
proof -
  have "\<And>fs w. I w \<Longrightarrow> I (w\<lparr>faults := fs\<rparr>)" using assms by (rule observed_fact.faults_stable)
  from get_triple [where I = I, OF this] show ?thesis by (simp add: seen_def)
qed

text \<open>A write back of what was read: the stored object is the one that was changed.\<close>

lemma update_status_seen:
  assumes "observed_fact I" and "obj_key l = (ns, n)"
    and "\<And>w. I w \<Longrightarrow> I (upd_items K (replace_by obj_key (ns, n) (updated_status l cur)) w)"
  shows "triple (\<lambda>w. I w \<and> seen K ns n cur w) (k_update_status K l) (\<lambda>_. I) (\<lambda>_. I)"
proof (rule triple_pre [OF update_status_triple [where cur = cur]])
  have f: "\<And>fs w. I w \<Longrightarrow> I (w\<lparr>faults := fs\<rparr>)" using assms(1) by (rule observed_fact.faults_stable)
  fix w assume "I w \<and> seen K ns n cur w"
  then show "I w \<and> (\<forall>fs. I (w\<lparr>faults := fs\<rparr>)) \<and> find_by obj_key (obj_key l) (items K w) = Some cur
      \<and> (\<forall>fs. I (upd_items K (replace_by obj_key (obj_key l) (updated_status l cur)) (w\<lparr>faults := fs\<rparr>)))"
    using f assms(3) unfolding assms(2) seen_def by blast
qed

lemma update_seen:
  assumes "observed_fact I" and "obj_key l = (ns, n)"
    and "\<And>w. I w \<Longrightarrow> I (upd_items K (replace_by obj_key (ns, n) (updated_object l cur)) w)"
  shows "triple (\<lambda>w. I w \<and> seen K ns n cur w) (k_update K l) (\<lambda>_. I) (\<lambda>_. I)"
proof (rule triple_pre [OF update_triple [where cur = cur]])
  have f: "\<And>fs w. I w \<Longrightarrow> I (w\<lparr>faults := fs\<rparr>)" using assms(1) by (rule observed_fact.faults_stable)
  fix w assume "I w \<and> seen K ns n cur w"
  then show "I w \<and> (\<forall>fs. I (w\<lparr>faults := fs\<rparr>)) \<and> find_by obj_key (obj_key l) (items K w) = Some cur
      \<and> (\<forall>fs. I (upd_items K (replace_by obj_key (obj_key l) (updated_object l cur)) (w\<lparr>faults := fs\<rparr>)))"
    using f assms(3) unfolding assms(2) seen_def by blast
qed

end

context observed_fact begin

lemma keeps_terminating: "keeps I (namespace_terminating ns)"
  unfolding namespace_terminating_def by (auto intro!: keeps_intros)

end

end
