(* ===== verification/Artifact_Store.thy ===== *)
theory Artifact_Store
  imports Artifact_Evidence Agent_Contract Cluster_Calls "HOL-Library.AList"
begin

section \<open>The content-addressed artifact store\<close>

text \<open>
  \<open>internal/artifacts/store.go\<close>, \<open>internal/artifacts/collector.go\<close> and
  \<open>cmd/artifact-bootstrap/main.go\<close>: content is written under the name of its digest and read
  back, and the outputs an agent left in its staging directory are stored with their claims. The
  disk is a map from clean paths to entries; each system call takes one entry of a script, which
  lets it through or makes it fail, a write after some bytes. Stores and staging directories are
  given by absolute paths, as by every caller; a link to a file is an entry of its own kind, links
  among the directories of a path are not modelled.
\<close>

subsection \<open>The disk\<close>

datatype disk_entry = RegularFile string | Directory | OtherEntry

datatype disk_fault = Works | Fails nat

record disk =
  disk_entries :: "(string list \<times> disk_entry) list"
  disk_script :: "disk_fault list"

type_synonym 'a disk_action = "(disk, 'a) io"

definition entry_at :: "disk \<Rightarrow> string list \<Rightarrow> disk_entry option" where
  "entry_at d p = map_of (disk_entries d) p"

definition set_entry :: "string list \<Rightarrow> disk_entry \<Rightarrow> disk \<Rightarrow> disk" where
  "set_entry p e d = d\<lparr>disk_entries := AList.update p e (disk_entries d)\<rparr>"

definition remove_entry :: "string list \<Rightarrow> disk \<Rightarrow> disk" where
  "remove_entry p d = d\<lparr>disk_entries := AList.delete p (disk_entries d)\<rparr>"

text \<open>\<open>damage n\<close> is what a call leaves behind that fails after \<open>n\<close> bytes.\<close>

definition sys_call :: "(nat \<Rightarrow> disk \<Rightarrow> disk) \<Rightarrow> 'a disk_action \<Rightarrow> 'a disk_action" where
  "sys_call damage m = (\<lambda>d. case disk_script d of
       [] \<Rightarrow> m d
     | Works # fs \<Rightarrow> m (d\<lparr>disk_script := fs\<rparr>)
     | Fails n # fs \<Rightarrow> (Inl (Transient ''system call failed''), damage n (d\<lparr>disk_script := fs\<rparr>)))"

definition unharmed :: "nat \<Rightarrow> disk \<Rightarrow> disk" where
  "unharmed n d = d"

definition os_lstat :: "string \<Rightarrow> disk_entry disk_action" where
  "os_lstat path = sys_call unharmed (\<lambda>d. case entry_at d (path_elements path) of
       None \<Rightarrow> (Inl NotFound, d) | Some e \<Rightarrow> (Inr e, d))"

definition os_read_file :: "string \<Rightarrow> string disk_action" where
  "os_read_file path = sys_call unharmed (\<lambda>d. case entry_at d (path_elements path) of
       None \<Rightarrow> (Inl NotFound, d)
     | Some (RegularFile content) \<Rightarrow> (Inr content, d)
     | Some _ \<Rightarrow> (Inl (Transient ''not a regular file''), d))"

definition os_mkdir_all :: "string \<Rightarrow> unit disk_action" where
  "os_mkdir_all path = sys_call unharmed (\<lambda>d. case entry_at d (path_elements path) of
       None \<Rightarrow> (Inr (), set_entry (path_elements path) Directory d)
     | Some Directory \<Rightarrow> (Inr (), d)
     | Some _ \<Rightarrow> (Inl (Transient ''not a directory''), d))"

text \<open>A name that is not in use.\<close>

definition temp_name :: "string \<Rightarrow> nat \<Rightarrow> string" where
  "temp_name root n = root @ ''/.artifact-'' @ show_nat n"

fun free_temp :: "disk \<Rightarrow> string \<Rightarrow> nat \<Rightarrow> nat \<Rightarrow> nat option" where
  "free_temp d root 0 n = None"
| "free_temp d root (Suc k) n =
     (if entry_at d (path_elements (temp_name root n)) = None then Some n else free_temp d root k (Suc n))"

definition os_create_temp :: "string \<Rightarrow> string disk_action" where
  "os_create_temp root = sys_call unharmed (\<lambda>d. case free_temp d root (Suc (length (disk_entries d))) 0 of
       None \<Rightarrow> (Inl (Transient ''no free name''), d)
     | Some n \<Rightarrow> (Inr (temp_name root n), set_entry (path_elements (temp_name root n)) (RegularFile '''') d))"

definition os_write :: "string \<Rightarrow> string \<Rightarrow> unit disk_action" where
  "os_write path content = sys_call (\<lambda>n. set_entry (path_elements path) (RegularFile (take n content)))
     (\<lambda>d. (Inr (), set_entry (path_elements path) (RegularFile content) d))"

text \<open>\<open>Chmod\<close> and \<open>Close\<close>: of the file's content they change nothing.\<close>

definition os_touch :: "unit disk_action" where
  "os_touch = sys_call unharmed (\<lambda>d. (Inr (), d))"

definition os_rename :: "string \<Rightarrow> string \<Rightarrow> unit disk_action" where
  "os_rename old new = sys_call unharmed (\<lambda>d. case entry_at d (path_elements old) of
       None \<Rightarrow> (Inl NotFound, d)
     | Some e \<Rightarrow> if entry_at d (path_elements new) = Some Directory then (Inl (Transient ''is a directory''), d)
         else (Inr (), set_entry (path_elements new) e (remove_entry (path_elements old) d)))"

definition os_remove :: "string \<Rightarrow> unit disk_action" where
  "os_remove path = sys_call unharmed (\<lambda>d. case entry_at d (path_elements path) of
       None \<Rightarrow> (Inl NotFound, d) | Some _ \<Rightarrow> (Inr (), remove_entry (path_elements path) d))"

text \<open>\<open>defer\<close>: the clean-up runs last, and its result is dropped.\<close>

definition deferring :: "'b disk_action \<Rightarrow> 'a disk_action \<Rightarrow> 'a disk_action" where
  "deferring cleanup m = (\<lambda>d. case m d of (r, d') \<Rightarrow> (r, snd (cleanup d')))"

subsection \<open>store.go\<close>

record stored_content =
  sc_digest :: string
  sc_path :: string
  sc_bytes :: string

text \<open>The name of a digest in a store.\<close>

definition digest_filename :: "string \<Rightarrow> go_error + string" where
  "digest_filename digest = (case cut_prefix digest ''sha256:'' of
       None \<Rightarrow> Inl (Invalid ''artifact digest must use sha256'')
     | Some hex \<Rightarrow>
         if length hex \<noteq> 64 then Inl (Invalid ''artifact digest must contain 64 hexadecimal characters'')
         else if \<not> list_all is_lower_hex hex then Inl (Invalid ''artifact digest must contain lowercase hexadecimal characters'')
         else Inr hex)"

text \<open>\<open>filepath.Join\<close> of an absolute path and a name.\<close>

definition join_path :: "string \<Rightarrow> string \<Rightarrow> string" where
  "join_path root name = CHR ''/'' # join_with ''/'' (path_elements (root @ ''/'' @ name))"

definition content_path :: "string \<Rightarrow> string \<Rightarrow> go_error + string" where
  "content_path root digest = (case digest_filename digest of Inl e \<Rightarrow> Inl e | Inr hex \<Rightarrow> Inr (join_path root hex))"

definition verify_stored :: "(string \<Rightarrow> string) \<Rightarrow> string \<Rightarrow> string \<Rightarrow> stored_content disk_action" where
  "verify_stored sha root digest = (case content_path root digest of
       Inl e \<Rightarrow> raise e
     | Inr path \<Rightarrow> bind_io (os_lstat path) (\<lambda>info. case info of
           RegularFile present \<Rightarrow>
             if int (length present) > max_artifact_bytes then raise (Invalid ''stored artifact exceeds limit'')
             else bind_io (os_read_file path) (\<lambda>content.
               if digest_bytes sha content \<noteq> digest then raise (Invalid ''stored artifact digest mismatch'')
               else ret \<lparr>sc_digest = digest, sc_path = path, sc_bytes = content\<rparr>)
         | _ \<Rightarrow> raise (Invalid ''stored artifact must be a regular file'')))"

text \<open>From the temporary file to the end of \<open>Put\<close>.\<close>

definition publish_content :: "(string \<Rightarrow> string) \<Rightarrow> string \<Rightarrow> string \<Rightarrow> string \<Rightarrow> string \<Rightarrow> string \<Rightarrow> stored_content disk_action" where
  "publish_content sha root digest destination content temporary =
     seq_io os_touch
    (seq_io (os_write temporary content)
    (seq_io os_touch
    (bind_io (attempt_io (os_rename temporary destination)) (\<lambda>renamed. case renamed of
         Inr _ \<Rightarrow> verify_stored sha root digest
       | Inl e \<Rightarrow> bind_io (attempt_io (os_lstat destination)) (\<lambda>there. case there of
             Inl _ \<Rightarrow> raise e
           | Inr _ \<Rightarrow> verify_stored sha root digest)))))"

definition put_content :: "(string \<Rightarrow> string) \<Rightarrow> string \<Rightarrow> string \<Rightarrow> stored_content disk_action" where
  "put_content sha root content =
     (if int (length content) > max_artifact_bytes then raise (Invalid ''artifact content exceeds limit'')
      else let digest = digest_bytes sha content in case content_path root digest of
        Inl e \<Rightarrow> raise e
      | Inr destination \<Rightarrow>
          seq_io (os_mkdir_all root)
         (bind_io (attempt_io (os_lstat destination)) (\<lambda>there. case there of
              Inr _ \<Rightarrow> verify_stored sha root digest
            | Inl e \<Rightarrow> if e \<noteq> NotFound then raise e
                else bind_io (os_create_temp root) (\<lambda>temporary.
                  deferring (os_remove temporary) (publish_content sha root digest destination content temporary)))))"

subsection \<open>collector.go\<close>

definition contract_reference_from :: "string \<Rightarrow> go_error + contract_reference" where
  "contract_reference_from contract = (case cut_byte (CHR ''/'') contract of
       (_, None) \<Rightarrow> Inl (Invalid ''artifact contract must use exact name/version form'')
     | (name, Some version) \<Rightarrow>
         if name = '''' \<or> version = '''' \<or> CHR ''/'' \<in> set version
         then Inl (Invalid ''artifact contract must use exact name/version form'')
         else Inr \<lparr>contract_name = name, contract_version = version\<rparr>)"

definition contained_path :: "string \<Rightarrow> string \<Rightarrow> string \<Rightarrow> go_error + string" where
  "contained_path cwd root candidate =
     (let target = abs_elements cwd candidate;
          relative = join_with ''/'' (rel_elements (abs_elements cwd root) target)
      in if relative = ''..'' \<or> has_prefix relative ''../'' then Inl (Invalid ''artifact path escapes staging root'')
         else Inr (CHR ''/'' # join_with ''/'' target))"

text \<open>\<open>projectClaims\<close>: the document is decoded again from the stored bytes.\<close>

definition project_stored_claims ::
  "(string \<Rightarrow> string) \<Rightarrow> (string \<Rightarrow> string \<Rightarrow> document option) \<Rightarrow> contract_reference \<Rightarrow> string \<Rightarrow> go_error + artifact_claims option" where
  "project_stored_claims sha decode contract content =
     (let key = contract_key contract in
      if key = ''change-request/v1'' \<and> validate_contract sha decode key content \<noteq> None
        then Inl (Invalid ''change request is invalid'')
      else if key \<notin> set claim_contracts then Inr None
      else (case decode key content of None \<Rightarrow> Inl (Invalid ''decode claims'') | Some d \<Rightarrow> project_claims sha d))"

record collect_env =
  col_sha :: "string \<Rightarrow> string"
  col_decode :: "string \<Rightarrow> string \<Rightarrow> document option"
  col_cwd :: string
  col_stagingRoot :: string
  col_artifactRoot :: string
  col_workflow :: uid_reference
  col_producer :: typed_local_reference
  col_sourceRevision :: string

text \<open>From the bytes that were stored to the spec of the artifact.\<close>

definition collected_spec :: "collect_env \<Rightarrow> contract_reference \<Rightarrow> stored_content \<Rightarrow> go_error + artifact_spec" where
  "collected_spec env contract stored =
     (case registry_validate (col_sha env) (col_decode env) (contract_name contract) (contract_version contract) (sc_bytes stored) of
        Some e \<Rightarrow> Inl e
      | None \<Rightarrow> (case project_stored_claims (col_sha env) (col_decode env) contract (sc_bytes stored) of
            Inl e \<Rightarrow> Inl e
          | Inr artClaims \<Rightarrow> (case validate_claims (col_sha env) contract artClaims of
                Some e \<Rightarrow> Inl e
              | None \<Rightarrow> Inr \<lparr>art_workflowRef = col_workflow env, art_producerRef = col_producer env, art_producerUID = '''',
                  art_producerGrantRef = \<lparr>ref_name = '''', ref_uid = ''''\<rparr>, art_contract = contract,
                  art_digest = sc_digest stored, art_path = sc_path stored, art_classification = '''',
                  art_sourceRevision = col_sourceRevision env, art_claims = artClaims\<rparr>)))"

definition collect_file :: "collect_env \<Rightarrow> contract_reference \<Rightarrow> string \<Rightarrow> artifact_spec disk_action" where
  "collect_file env contract source =
     bind_io (os_lstat source) (\<lambda>info. case info of
         RegularFile present \<Rightarrow>
           if int (length present) > max_artifact_bytes then raise (Invalid ''artifact exceeds limit'')
           else bind_io (os_read_file source) (\<lambda>content.
             case registry_validate (col_sha env) (col_decode env) (contract_name contract) (contract_version contract) content of
               Some e \<Rightarrow> raise e
             | None \<Rightarrow> bind_io (put_content (col_sha env) (col_artifactRoot env) content) (\<lambda>stored.
                 case collected_spec env contract stored of Inl e \<Rightarrow> raise e | Inr s \<Rightarrow> ret s))
       | _ \<Rightarrow> raise (Invalid ''artifact must be a regular file''))"

definition collect_output :: "collect_env \<Rightarrow> artifact_output \<Rightarrow> artifact_spec disk_action" where
  "collect_output env output =
     (if ao_mediaType output \<noteq> '''' \<and> ao_mediaType output \<noteq> ''application/json''
      then raise (Invalid ''artifact contract requires application/json'')
      else case contract_reference_from (ao_contract output) of
        Inl e \<Rightarrow> raise e
      | Inr contract \<Rightarrow> (case contained_path (col_cwd env) (col_stagingRoot env) (ao_path output) of
            Inl e \<Rightarrow> raise e
          | Inr source \<Rightarrow> collect_file env contract source))"

fun collect_outputs :: "collect_env \<Rightarrow> artifact_output list \<Rightarrow> artifact_spec list disk_action" where
  "collect_outputs env [] = ret []"
| "collect_outputs env (output # outputs) =
     bind_io (collect_output env output) (\<lambda>s. bind_io (collect_outputs env outputs) (\<lambda>specs. ret (s # specs)))"

subsection \<open>cmd/artifact-bootstrap\<close>

text \<open>\<open>os.Stat\<close> follows the link of a projected ConfigMap key; the target is the entry here.\<close>

definition bootstrap_store ::
  "(string \<Rightarrow> string) \<Rightarrow> (string \<Rightarrow> string \<Rightarrow> document option) \<Rightarrow> string \<Rightarrow> string \<Rightarrow> string \<Rightarrow> string \<Rightarrow> unit disk_action" where
  "bootstrap_store sha decode source store contract expectedDigest =
     (if source = '''' \<or> store = '''' \<or> contract = '''' \<or> expectedDigest = ''''
      then raise (Invalid ''source, artifact-store, contract, and expected-digest are required'')
      else bind_io (os_lstat source) (\<lambda>info. case info of
          RegularFile _ \<Rightarrow> bind_io (os_read_file source) (\<lambda>content.
            case validate_contract sha decode contract content of
              Some e \<Rightarrow> raise e
            | None \<Rightarrow>
                if digest_bytes sha content \<noteq> expectedDigest then raise (Invalid ''bootstrap digest mismatch'')
                else bind_io (put_content sha store content) (\<lambda>stored.
                  if sc_digest stored \<noteq> expectedDigest then raise (Invalid ''stored bootstrap digest mismatch'')
                  else case validate_contract sha decode contract (sc_bytes stored) of
                    Some e \<Rightarrow> raise e | None \<Rightarrow> ret ()))
        | _ \<Rightarrow> raise (Invalid ''bootstrap input must be a regular file'')))"

subsection \<open>Paths in a store\<close>

lemma clean_elements_snoc:
  "e \<noteq> '''' \<Longrightarrow> e \<noteq> ''.'' \<Longrightarrow> e \<noteq> ''..'' \<Longrightarrow> clean_elements out (es @ [e]) = clean_elements out es @ [e]"
  by (induction out es rule: clean_elements.induct) auto

lemma split_on_snoc: "d \<notin> set w \<Longrightarrow> split_on d (s @ d # w) = split_on d s @ [w]"
  by (induction s) (auto simp: split_on_single split: list.splits)

text \<open>A plain name in a directory.\<close>

definition plain_name :: "string \<Rightarrow> bool" where
  "plain_name n \<longleftrightarrow> n \<noteq> '''' \<and> n \<noteq> ''.'' \<and> n \<noteq> ''..'' \<and> CHR ''/'' \<notin> set n"

lemma elements_below: "plain_name n \<Longrightarrow> path_elements (root @ ''/'' @ n) = path_elements root @ [n]"
  unfolding path_elements_def plain_name_def by (simp add: split_on_snoc clean_elements_snoc)


lemma elements_plain: "e \<in> set (path_elements p) \<Longrightarrow> e \<noteq> '''' \<and> e \<noteq> ''.'' \<and> e \<noteq> ''..''"
  unfolding path_elements_def using clean_elements_plain [of "[]"] by simp

lemma clean_elements_subset: "set (clean_elements out es) \<subseteq> set out \<union> set es"
proof (induction out es rule: clean_elements.induct)
  case (2 out e es)
  have "set (tl out) \<subseteq> set out" by (cases out) auto
  with 2 show ?case by auto
qed simp

lemma elements_no_slash: "e \<in> set (path_elements p) \<Longrightarrow> CHR ''/'' \<notin> set e"
  unfolding path_elements_def using clean_elements_subset [of "[]"] split_on_no_sep by fastforce

lemma clean_elements_id: "\<forall>e \<in> set es. e \<noteq> '''' \<and> e \<noteq> ''.'' \<and> e \<noteq> ''..'' \<Longrightarrow> clean_elements out es = rev out @ es"
  by (induction es arbitrary: out) auto

lemma elements_of_clean:
  assumes "es = path_elements p"
  shows "path_elements (CHR ''/'' # join_with ''/'' es) = es"
proof (cases es)
  case Nil
  then show ?thesis by (simp add: path_elements_def)
next
  case (Cons e rest)
  have "split_on (CHR ''/'') (join_with ''/'' es) = es"
    by (rule split_join) (use elements_no_slash assms Cons in auto)
  then show ?thesis using clean_elements_id [of es] elements_plain assms
    by (auto simp: path_elements_def [of "CHR ''/'' # _"])
qed

lemma elements_join: "plain_name n \<Longrightarrow> path_elements (join_path root n) = path_elements root @ [n]"
  unfolding join_path_def elements_of_clean [OF refl] by (rule elements_below)

definition digest_name :: "string \<Rightarrow> bool" where
  "digest_name hex \<longleftrightarrow> length hex = 64 \<and> list_all is_lower_hex hex"

lemma hex_not_punctuation: "is_lower_hex c \<Longrightarrow> c \<noteq> CHR ''/'' \<and> c \<noteq> CHR ''.''"
  by (auto simp: is_lower_hex_def is_digit_def byte_in_def)

lemma digest_name_plain: "digest_name hex \<Longrightarrow> plain_name hex \<and> hd hex \<noteq> CHR ''.''"
  by (cases hex) (auto simp: digest_name_def plain_name_def list_all_iff dest: hex_not_punctuation)

lemma digest_filename_bytes: "digest_filename (digest_bytes sha c) = Inr hex \<longleftrightarrow> hex = sha c \<and> digest_name (sha c)"
  by (auto simp: digest_filename_def digest_bytes_def cut_prefix_def has_prefix_def digest_name_def)

lemma content_path_bytes:
  "content_path root (digest_bytes sha c) = Inr path \<Longrightarrow> digest_name (sha c) \<and> path = join_path root (sha c)
     \<and> path_elements path = path_elements root @ [sha c]"
  using digest_name_plain elements_join
  by (auto simp: content_path_def digest_filename_bytes split: sum.splits)

lemma temp_elements: "path_elements (temp_name root n) = path_elements root @ [''.artifact-'' @ show_nat n]"
proof -
  have "CHR ''/'' \<notin> set (show_nat n)" using show_nat_digits [of "CHR ''/''" n] by (auto simp: is_digit_def byte_in_def)
  then show ?thesis unfolding temp_name_def using elements_below [of "''.artifact-'' @ show_nat n" root]
    by (simp add: plain_name_def)
qed


subsection \<open>What the calls keep\<close>

lemma sys_call_triple:
  assumes "\<And>d fs. P d \<Longrightarrow> P (d\<lparr>disk_script := fs\<rparr>)" and "\<And>d n. P d \<Longrightarrow> E (Transient ''system call failed'') (damage n d)"
    and "triple P m Q E"
  shows "triple P (sys_call damage m) Q E"
  unfolding triple_def
proof (intro allI impI)
  fix d assume d: "P d"
  show "case sys_call damage m d of (Inl e, w') \<Rightarrow> E e w' | (Inr x, w') \<Rightarrow> Q x w'"
  proof (cases "disk_script d")
    case Nil
    then show ?thesis using d assms(3) by (simp add: sys_call_def triple_def)
  next
    case (Cons f fs)
    have d': "P (d\<lparr>disk_script := fs\<rparr>)" by (rule assms(1) [OF d])
    with assms(2,3) Cons show ?thesis by (cases f) (simp_all add: sys_call_def triple_def)
  qed
qed

text \<open>A fact about the entries, whatever the script.\<close>

locale disk_fact =
  fixes I :: "disk \<Rightarrow> bool"
  assumes any_script [simp]: "I (d\<lparr>disk_script := fs\<rparr>) = I d"
begin

lemma lstat_triple:
  "triple I (os_lstat p) (\<lambda>e d. I d \<and> entry_at d (path_elements p) = Some e)
     (\<lambda>e d. I d \<and> (e = NotFound \<longrightarrow> entry_at d (path_elements p) = None))"
  unfolding os_lstat_def by (rule sys_call_triple) (auto simp: triple_def unharmed_def split: option.splits)

lemma read_triple:
  "triple I (os_read_file p) (\<lambda>c d. I d \<and> entry_at d (path_elements p) = Some (RegularFile c)) (\<lambda>_. I)"
  unfolding os_read_file_def
  by (rule sys_call_triple) (auto simp: triple_def unharmed_def split: option.splits disk_entry.splits)

lemma keeps_touch: "keeps I os_touch"
  unfolding os_touch_def by (rule sys_call_triple) (auto simp: triple_def unharmed_def)

lemma verify_triple:
  "triple I (verify_stored sha root digest)
     (\<lambda>r d. I d \<and> sc_digest r = digest \<and> digest_bytes sha (sc_bytes r) = digest \<and> content_path root digest = Inr (sc_path r)
        \<and> entry_at d (path_elements (sc_path r)) = Some (RegularFile (sc_bytes r))) (\<lambda>_. I)"
proof (cases "content_path root digest")
  case (Inl e)
  then show ?thesis by (simp add: verify_stored_def triple_def raise_def)
next
  case (Inr path)
  have read: "triple I (if int (length present) > max_artifact_bytes then raise (Invalid ''stored artifact exceeds limit'')
      else bind_io (os_read_file path) (\<lambda>content.
        if digest_bytes sha content \<noteq> digest then raise (Invalid ''stored artifact digest mismatch'')
        else ret \<lparr>sc_digest = digest, sc_path = path, sc_bytes = content\<rparr>))
      (\<lambda>r d. I d \<and> sc_digest r = digest \<and> digest_bytes sha (sc_bytes r) = digest \<and> path = sc_path r
        \<and> entry_at d (path_elements (sc_path r)) = Some (RegularFile (sc_bytes r))) (\<lambda>_. I)" for present
    by (rule triple_if, rule triple_raise, rule triple_bind [OF read_triple])
      (simp add: triple_def ret_def raise_def)
  have info: "triple (\<lambda>d. I d \<and> entry_at d (path_elements path) = Some info) (case info of
           RegularFile present \<Rightarrow>
             if int (length present) > max_artifact_bytes then raise (Invalid ''stored artifact exceeds limit'')
             else bind_io (os_read_file path) (\<lambda>content.
               if digest_bytes sha content \<noteq> digest then raise (Invalid ''stored artifact digest mismatch'')
               else ret \<lparr>sc_digest = digest, sc_path = path, sc_bytes = content\<rparr>)
         | _ \<Rightarrow> raise (Invalid ''stored artifact must be a regular file''))
      (\<lambda>r d. I d \<and> sc_digest r = digest \<and> digest_bytes sha (sc_bytes r) = digest \<and> path = sc_path r
        \<and> entry_at d (path_elements (sc_path r)) = Some (RegularFile (sc_bytes r))) (\<lambda>_. I)" for info
  proof (cases info)
    case (RegularFile present)
    show ?thesis unfolding RegularFile disk_entry.case by (rule triple_pre [OF read]) simp
  qed (simp_all add: triple_def raise_def)
  show ?thesis unfolding verify_stored_def Inr sum.case
    by (rule triple_bind [OF triple_post [OF lstat_triple] triple_post [OF info]]) simp_all
qed

end

subsection \<open>The store as a map\<close>

text \<open>The content stored under the name of a digest.\<close>

definition stored_map :: "string \<Rightarrow> disk \<Rightarrow> string \<rightharpoonup> string" where
  "stored_map root d hex = (if \<not> digest_name hex then None
     else case entry_at d (path_elements root @ [hex]) of Some (RegularFile c) \<Rightarrow> Some c | _ \<Rightarrow> None)"

lemma entry_at_script [simp]: "entry_at (d\<lparr>disk_script := fs\<rparr>) p = entry_at d p"
  by (simp add: entry_at_def)

lemma stored_map_script [simp]: "stored_map root (d\<lparr>disk_script := fs\<rparr>) = stored_map root d"
  by (simp add: stored_map_def fun_eq_iff)

lemma entry_at_set [simp]: "entry_at (set_entry p e d) q = (if q = p then Some e else entry_at d q)"
  by (simp add: entry_at_def set_entry_def update_conv')

lemma entry_at_remove [simp]: "entry_at (remove_entry p d) q = (if q = p then None else entry_at d q)"
  by (simp add: entry_at_def remove_entry_def delete_conv')

text \<open>Entries that are not content of the store: its directory and temporary files.\<close>

definition beside :: "string \<Rightarrow> string list \<Rightarrow> bool" where
  "beside root p \<longleftrightarrow> (\<forall>hex. digest_name hex \<longrightarrow> p \<noteq> path_elements root @ [hex])"

lemma beside_temp [simp]: "beside root (path_elements (temp_name root n))"
  unfolding beside_def temp_elements using digest_name_plain by fastforce

lemma beside_root [simp]: "beside root (path_elements root)"
  by (simp add: beside_def)

lemma stored_map_beside [simp]:
  "beside root p \<Longrightarrow> stored_map root (set_entry p e d) = stored_map root d"
  "beside root p \<Longrightarrow> stored_map root (remove_entry p d) = stored_map root d"
  by (auto simp: stored_map_def beside_def fun_eq_iff)

lemma stored_map_content:
  "digest_name hex \<Longrightarrow> stored_map root (set_entry (path_elements root @ [hex]) (RegularFile c) d) = (stored_map root d)(hex \<mapsto> c)"
  by (auto simp: stored_map_def fun_eq_iff)

interpretation unchanged: disk_fact "\<lambda>d. stored_map root d = m" for root m
  by unfold_locales simp

lemma temp_is_new: "free_temp d root k n = Some i \<Longrightarrow> entry_at d (path_elements (temp_name root i)) = None"
  by (induction k arbitrary: n) (auto split: if_splits)

lemma create_temp_triple:
  "triple (\<lambda>d. stored_map root d = m) (os_create_temp root)
     (\<lambda>t d. stored_map root d = m \<and> (\<exists>n. t = temp_name root n)) (\<lambda>_ d. stored_map root d = m)"
  unfolding os_create_temp_def
  by (rule sys_call_triple) (auto simp: triple_def unharmed_def split: option.splits)

lemma mkdir_triple: "keeps (\<lambda>d. stored_map root d = m) (os_mkdir_all root)"
  unfolding os_mkdir_all_def
  by (rule sys_call_triple) (auto simp: triple_def unharmed_def split: option.splits disk_entry.splits)

lemma write_temp_triple:
  "triple (\<lambda>d. stored_map root d = m) (os_write (temp_name root n) content)
     (\<lambda>_ d. stored_map root d = m \<and> entry_at d (path_elements (temp_name root n)) = Some (RegularFile content))
     (\<lambda>_ d. stored_map root d = m)"
  unfolding os_write_def by (rule sys_call_triple) (simp_all add: triple_def)

lemma publish_triple:
  assumes hex: "digest_name hex" and path: "path_elements destination = path_elements root @ [hex]"
  shows "triple (\<lambda>d. stored_map root d = m \<and> entry_at d (path_elements (temp_name root n)) = Some (RegularFile content))
     (os_rename (temp_name root n) destination)
     (\<lambda>_ d. stored_map root d = m(hex \<mapsto> content)) (\<lambda>_ d. stored_map root d = m)"
  unfolding os_rename_def
  by (rule sys_call_triple)
    (auto simp: triple_def unharmed_def path stored_map_content [OF hex] split: option.splits)


text \<open>Either nothing was stored, or the content under a name that was free.\<close>

definition put_outcome :: "string \<Rightarrow> (string \<rightharpoonup> string) \<Rightarrow> string \<Rightarrow> string \<Rightarrow> disk \<Rightarrow> bool" where
  "put_outcome root m hex content d \<longleftrightarrow>
     stored_map root d = m \<or> m hex = None \<and> stored_map root d = m(hex \<mapsto> content)"

interpretation outcome: disk_fact "put_outcome root m hex content" for root m hex content
  by unfold_locales (simp add: put_outcome_def)

definition put_result :: "(string \<Rightarrow> string) \<Rightarrow> string \<Rightarrow> (string \<rightharpoonup> string) \<Rightarrow> string \<Rightarrow> stored_content \<Rightarrow> disk \<Rightarrow> bool" where
  "put_result sha root m content r d \<longleftrightarrow> put_outcome root m (sha content) content d
     \<and> sc_digest r = digest_bytes sha content \<and> content_path root (sc_digest r) = Inr (sc_path r)
     \<and> stored_map root d (sha content) = Some (sc_bytes r) \<and> sha (sc_bytes r) = sha content"

lemma remove_temp: "stored_map root (snd (os_remove (temp_name root n) d)) = stored_map root d"
  by (auto simp: os_remove_def sys_call_def unharmed_def split: list.splits disk_fault.splits option.splits)

lemma deferring_triple:
  assumes "triple P m Q E" and "\<And>x d. Q x d \<Longrightarrow> Q x (snd (cleanup d))" and "\<And>e d. E e d \<Longrightarrow> E e (snd (cleanup d))"
  shows "triple P (deferring cleanup m) Q E"
  using assms unfolding triple_def deferring_def by (fastforce split: prod.splits sum.splits)

lemma verify_put:
  "triple (put_outcome root m (sha content) content) (verify_stored sha root (digest_bytes sha content))
     (put_result sha root m content) (\<lambda>_. put_outcome root m (sha content) content)"
  by (rule triple_post [OF outcome.verify_triple])
    (auto simp: put_result_def stored_map_def dest!: content_path_bytes)

lemma publish_content_triple:
  assumes dest: "content_path root (digest_bytes sha content) = Inr destination" and free: "m (sha content) = None"
  shows "triple (\<lambda>d. stored_map root d = m) (publish_content sha root (digest_bytes sha content) destination content (temp_name root n))
     (put_result sha root m content) (\<lambda>_. put_outcome root m (sha content) content)"
proof -
  let ?P = "\<lambda>d. stored_map root d = m" and ?J = "put_outcome root m (sha content) content"
  note at = content_path_bytes [OF dest]
  have written: "disk_fact (\<lambda>d. ?P d \<and> entry_at d (path_elements (temp_name root n)) = Some (RegularFile content))"
    by unfold_locales simp
  have rename: "triple (\<lambda>d. ?P d \<and> entry_at d (path_elements (temp_name root n)) = Some (RegularFile content))
      (os_rename (temp_name root n) destination) (\<lambda>_. ?J) (\<lambda>_. ?J)"
    by (rule triple_post [OF publish_triple [where hex = "sha content"]])
      (use at free in \<open>auto simp: put_outcome_def\<close>)
  have settle: "triple ?J (case renamed of Inr _ \<Rightarrow> verify_stored sha root (digest_bytes sha content)
       | Inl e \<Rightarrow> bind_io (attempt_io (os_lstat destination)) (\<lambda>there. case there of
             Inl _ \<Rightarrow> raise e | Inr _ \<Rightarrow> verify_stored sha root (digest_bytes sha content)))
      (put_result sha root m content) (\<lambda>_. ?J)" for renamed :: "go_error + unit"
  proof (cases renamed)
    case (Inl e)
    show ?thesis unfolding Inl sum.case
      by (rule triple_attempt_bind [OF outcome.lstat_triple], simp, rule triple_pre [OF verify_put], simp)
        (simp add: triple_def raise_def)
  qed (simp add: verify_put)
  show ?thesis unfolding publish_content_def seq_io_def
    by (rule triple_bind [OF triple_post [OF unchanged.keeps_touch]], assumption, simp add: put_outcome_def,
        rule triple_bind [OF triple_post [OF write_temp_triple]], assumption, simp add: put_outcome_def,
        rule triple_bind [OF triple_post [OF disk_fact.keeps_touch [OF written]]], assumption, simp add: put_outcome_def,
        rule triple_attempt_bind [OF rename]) (rule settle)+
qed

lemma put_triple:
  "triple (\<lambda>d. stored_map root d = m) (put_content sha root content)
     (put_result sha root m content) (\<lambda>_. put_outcome root m (sha content) content)"
proof (cases "content_path root (digest_bytes sha content)")
  case (Inl e)
  then show ?thesis by (simp add: put_content_def triple_def raise_def put_outcome_def Let_def)
next
  case (Inr destination)
  let ?P = "\<lambda>d. stored_map root d = m"
  note at = content_path_bytes [OF Inr]
  have new: "triple ?P (bind_io (os_create_temp root) (\<lambda>temporary.
      deferring (os_remove temporary) (publish_content sha root (digest_bytes sha content) destination content temporary)))
      (put_result sha root m content) (\<lambda>_. put_outcome root m (sha content) content)" if "m (sha content) = None"
  proof (rule triple_bind [where R = "\<lambda>t d. ?P d \<and> (\<exists>n. t = temp_name root n)", OF triple_post [OF create_temp_triple]])
    fix t
    show "triple (\<lambda>d. ?P d \<and> (\<exists>n. t = temp_name root n))
        (deferring (os_remove t) (publish_content sha root (digest_bytes sha content) destination content t))
        (put_result sha root m content) (\<lambda>_. put_outcome root m (sha content) content)"
    proof (rule triple_pure, elim exE)
      fix n assume "t = temp_name root n"
      then show "triple ?P (deferring (os_remove t) (publish_content sha root (digest_bytes sha content) destination content t))
          (put_result sha root m content) (\<lambda>_. put_outcome root m (sha content) content)"
        by (simp only:) (rule deferring_triple [OF publish_content_triple [where m = m and sha = sha and content = content, OF Inr that]],
            auto simp: put_result_def put_outcome_def remove_temp)
    qed
  qed (auto simp: put_outcome_def)
  have body: "triple ?P (bind_io (attempt_io (os_lstat destination)) (\<lambda>there. case there of
              Inr _ \<Rightarrow> verify_stored sha root (digest_bytes sha content)
            | Inl e \<Rightarrow> if e \<noteq> NotFound then raise e
                else bind_io (os_create_temp root) (\<lambda>temporary.
                  deferring (os_remove temporary) (publish_content sha root (digest_bytes sha content) destination content temporary))))
      (put_result sha root m content) (\<lambda>_. put_outcome root m (sha content) content)"
  proof (rule triple_attempt_bind [OF unchanged.lstat_triple])
    fix e
    show "triple (\<lambda>d. ?P d \<and> entry_at d (path_elements destination) = Some e)
        (case Inr e of Inr _ \<Rightarrow> verify_stored sha root (digest_bytes sha content)
            | Inl e \<Rightarrow> if e \<noteq> NotFound then raise e
                else bind_io (os_create_temp root) (\<lambda>temporary.
                  deferring (os_remove temporary) (publish_content sha root (digest_bytes sha content) destination content temporary)))
        (put_result sha root m content) (\<lambda>_. put_outcome root m (sha content) content)"
      unfolding sum.case by (rule triple_pre [OF verify_put]) (simp add: put_outcome_def)
  next
    fix e
    show "triple (\<lambda>d. ?P d \<and> (e = NotFound \<longrightarrow> entry_at d (path_elements destination) = None))
        (case Inl e of Inr _ \<Rightarrow> verify_stored sha root (digest_bytes sha content)
            | Inl e \<Rightarrow> if e \<noteq> NotFound then raise e
                else bind_io (os_create_temp root) (\<lambda>temporary.
                  deferring (os_remove temporary) (publish_content sha root (digest_bytes sha content) destination content temporary)))
        (put_result sha root m content) (\<lambda>_. put_outcome root m (sha content) content)"
    proof (cases "e = NotFound")
      case True
      show ?thesis
      proof (cases "m (sha content)")
        case None
        show ?thesis using True by (auto intro: triple_pre [OF new [OF None]])
      next
        case (Some c)
        then have "False" if "stored_map root d = m" "entry_at d (path_elements destination) = None" for d
          using that at by (auto simp: stored_map_def fun_eq_iff split: if_splits dest!: spec [of _ "sha content"])
        with True show ?thesis by (auto simp: triple_def)
      qed
    qed (simp add: triple_def raise_def put_outcome_def)
  qed
  show ?thesis unfolding put_content_def Let_def Inr sum.case seq_io_def
    by (rule triple_if, simp add: triple_def raise_def put_outcome_def,
        rule triple_bind [OF triple_post [OF mkdir_triple]], assumption, simp add: put_outcome_def, rule body)
qed


subsection \<open>What is collected\<close>

text \<open>
  What a spec of a collected output stands for: content stored under its digest, valid under the
  declared contract, with the claims projected from it.
\<close>

definition collected :: "collect_env \<Rightarrow> (string \<rightharpoonup> string) \<Rightarrow> artifact_output \<Rightarrow> artifact_spec \<Rightarrow> bool" where
  "collected env store output s \<longleftrightarrow> (\<exists>content.
     contract_reference_from (ao_contract output) = Inr (art_contract s)
   \<and> art_digest s = digest_bytes (col_sha env) content \<and> content_path (col_artifactRoot env) (art_digest s) = Inr (art_path s)
   \<and> store (col_sha env content) = Some content
   \<and> registry_validate (col_sha env) (col_decode env) (contract_name (art_contract s)) (contract_version (art_contract s)) content = None
   \<and> project_stored_claims (col_sha env) (col_decode env) (art_contract s) content = Inr (art_claims s)
   \<and> validate_claims (col_sha env) (art_contract s) (art_claims s) = None
   \<and> art_workflowRef s = col_workflow env \<and> art_producerRef s = col_producer env)"

text \<open>What is stored stays stored, and every addition is content under its own digest.\<close>

definition grown :: "(string \<Rightarrow> string) \<Rightarrow> (string \<rightharpoonup> string) \<Rightarrow> (string \<rightharpoonup> string) \<Rightarrow> bool" where
  "grown sha m m' \<longleftrightarrow> (\<forall>hex c. m hex = Some c \<longrightarrow> m' hex = Some c) \<and> (\<forall>hex c. m hex = None \<longrightarrow> m' hex = Some c \<longrightarrow> sha c = hex)"

lemma grown_refl [simp]: "grown sha m m"
  by (simp add: grown_def)

lemma grown_trans: "grown sha m m' \<Longrightarrow> grown sha m' m'' \<Longrightarrow> grown sha m m''"
  unfolding grown_def by (metis option.exhaust)

lemma grown_outcome: "put_outcome root m (sha content) content d \<Longrightarrow> grown sha m (stored_map root d)"
  by (auto simp: put_outcome_def grown_def split: if_splits)

lemma collected_grown: "collected env m output s \<Longrightarrow> grown (col_sha env) m m' \<Longrightarrow> collected env m' output s"
  unfolding collected_def grown_def by blast

text \<open>The store has grown since it was \<open>m\<close>.\<close>

definition store_grown :: "collect_env \<Rightarrow> (string \<rightharpoonup> string) \<Rightarrow> disk \<Rightarrow> bool" where
  "store_grown env m d \<longleftrightarrow> grown (col_sha env) m (stored_map (col_artifactRoot env) d)"

interpretation grows: disk_fact "store_grown env m" for env m
  by unfold_locales (simp add: store_grown_def)

lemma grown_put:
  "triple (store_grown env m) (put_content (col_sha env) (col_artifactRoot env) content)
     (\<lambda>r d. store_grown env m d \<and> sc_digest r = digest_bytes (col_sha env) (sc_bytes r)
        \<and> content_path (col_artifactRoot env) (sc_digest r) = Inr (sc_path r)
        \<and> stored_map (col_artifactRoot env) d (col_sha env (sc_bytes r)) = Some (sc_bytes r)) (\<lambda>_. store_grown env m)"
proof -
  have at: "triple (\<lambda>d. stored_map (col_artifactRoot env) d = m' \<and> grown (col_sha env) m m')
      (put_content (col_sha env) (col_artifactRoot env) content)
     (\<lambda>r d. store_grown env m d \<and> sc_digest r = digest_bytes (col_sha env) (sc_bytes r)
        \<and> content_path (col_artifactRoot env) (sc_digest r) = Inr (sc_path r)
        \<and> stored_map (col_artifactRoot env) d (col_sha env (sc_bytes r)) = Some (sc_bytes r)) (\<lambda>_. store_grown env m)" for m'
    by (rule triple_pure, rule triple_post [OF put_triple])
      (auto simp: put_result_def store_grown_def digest_bytes_def dest!: grown_outcome intro: grown_trans)
  show ?thesis unfolding triple_def
  proof (intro allI impI)
    fix d assume "store_grown env m d"
    then have "stored_map (col_artifactRoot env) d = stored_map (col_artifactRoot env) d
        \<and> grown (col_sha env) m (stored_map (col_artifactRoot env) d)" by (simp add: store_grown_def)
    with at [of "stored_map (col_artifactRoot env) d"]
    show "case put_content (col_sha env) (col_artifactRoot env) content d of (Inl e, w') \<Rightarrow> store_grown env m w'
      | (Inr r, d) \<Rightarrow> store_grown env m d \<and> sc_digest r = digest_bytes (col_sha env) (sc_bytes r)
        \<and> content_path (col_artifactRoot env) (sc_digest r) = Inr (sc_path r)
        \<and> stored_map (col_artifactRoot env) d (col_sha env (sc_bytes r)) = Some (sc_bytes r)"
      unfolding triple_def by (simp split: prod.splits sum.splits)
  qed
qed

lemma collected_spec_result:
  assumes "collected_spec env contract stored = Inr s" and "contract_reference_from (ao_contract output) = Inr contract"
    and "sc_digest stored = digest_bytes (col_sha env) (sc_bytes stored)"
    and "content_path (col_artifactRoot env) (sc_digest stored) = Inr (sc_path stored)"
    and "store (col_sha env (sc_bytes stored)) = Some (sc_bytes stored)"
  shows "collected env store output s"
  using assms by (auto simp: collected_spec_def collected_def split: option.splits sum.splits)

lemma collect_file_triple:
  assumes "contract_reference_from (ao_contract output) = Inr contract"
  shows "triple (store_grown env m) (collect_file env contract source)
     (\<lambda>s d. store_grown env m d \<and> collected env (stored_map (col_artifactRoot env) d) output s) (\<lambda>_. store_grown env m)"
proof -
  let ?Q = "\<lambda>s d. store_grown env m d \<and> collected env (stored_map (col_artifactRoot env) d) output s"
  have stored: "triple (store_grown env m) (bind_io (put_content (col_sha env) (col_artifactRoot env) content) (\<lambda>stored.
      case collected_spec env contract stored of Inl e \<Rightarrow> raise e | Inr s \<Rightarrow> ret s)) ?Q (\<lambda>_. store_grown env m)" for content
    by (rule triple_bind [OF grown_put])
      (auto simp: triple_def ret_def raise_def intro: collected_spec_result [OF _ assms] split: sum.splits)
  have regular: "triple (store_grown env m) (if int (length present) > max_artifact_bytes then raise (Invalid ''artifact exceeds limit'')
      else bind_io (os_read_file source) (\<lambda>content.
        case registry_validate (col_sha env) (col_decode env) (contract_name contract) (contract_version contract) content of
          Some e \<Rightarrow> raise e
        | None \<Rightarrow> bind_io (put_content (col_sha env) (col_artifactRoot env) content) (\<lambda>stored.
            case collected_spec env contract stored of Inl e \<Rightarrow> raise e | Inr s \<Rightarrow> ret s))) ?Q (\<lambda>_. store_grown env m)" for present
    by (rule triple_if, rule triple_raise, rule triple_bind [where R = "\<lambda>_. store_grown env m", OF triple_post [OF grows.read_triple]], simp, simp)
      (intro triple_case_option triple_raise stored)
  show ?thesis unfolding collect_file_def
  proof (rule triple_bind [where R = "\<lambda>info d. store_grown env m d \<and> entry_at d (path_elements source) = Some info", OF triple_post [OF grows.lstat_triple]], simp, simp)
    fix info
    show "triple (\<lambda>d. store_grown env m d \<and> entry_at d (path_elements source) = Some info) (case info of
         RegularFile present \<Rightarrow>
           if int (length present) > max_artifact_bytes then raise (Invalid ''artifact exceeds limit'')
           else bind_io (os_read_file source) (\<lambda>content.
             case registry_validate (col_sha env) (col_decode env) (contract_name contract) (contract_version contract) content of
               Some e \<Rightarrow> raise e
             | None \<Rightarrow> bind_io (put_content (col_sha env) (col_artifactRoot env) content) (\<lambda>stored.
                 case collected_spec env contract stored of Inl e \<Rightarrow> raise e | Inr s \<Rightarrow> ret s))
       | _ \<Rightarrow> raise (Invalid ''artifact must be a regular file'')) ?Q (\<lambda>_. store_grown env m)"
      by (rule triple_pre [where P' = "store_grown env m"], cases info) (simp_all add: regular, simp_all add: triple_def raise_def)
  qed
qed

lemma collect_output_triple:
  "triple (store_grown env m) (collect_output env output)
     (\<lambda>s d. store_grown env m d \<and> collected env (stored_map (col_artifactRoot env) d) output s) (\<lambda>_. store_grown env m)"
  unfolding collect_output_def by (intro triple_if triple_raise triple_case_sum collect_file_triple)

lemma collect_outputs_triple:
  "triple (store_grown env m) (collect_outputs env outputs)
     (\<lambda>specs d. store_grown env m d \<and> list_all2 (collected env (stored_map (col_artifactRoot env) d)) outputs specs)
     (\<lambda>_. store_grown env m)"
proof (induction outputs arbitrary: m)
  case Nil
  then show ?case by (simp add: triple_def ret_def)
next
  case (Cons first outputs)
  let ?store = "stored_map (col_artifactRoot env)"
  have rest: "triple (\<lambda>d. store_grown env m d \<and> collected env (?store d) first s)
      (bind_io (collect_outputs env outputs) (\<lambda>specs. ret (s # specs)))
      (\<lambda>specs d. store_grown env m d \<and> list_all2 (collected env (?store d)) (first # outputs) specs) (\<lambda>_. store_grown env m)" for s
  proof (rule tripleI)
    fix d specs d' assume d: "store_grown env m d \<and> collected env (?store d) first s"
      and run: "bind_io (collect_outputs env outputs) (\<lambda>specs. ret (s # specs)) d = (Inr specs, d')"
    from run obtain rest where rest: "collect_outputs env outputs d = (Inr rest, d')" "specs = s # rest"
      by (auto simp: ret_def elim!: bind_io_result)
    have "store_grown env (?store d) d" by (simp add: store_grown_def)
    from triple_resultD [OF Cons.IH this rest(1)] d rest(2)
    show "store_grown env m d' \<and> list_all2 (collected env (?store d')) (first # outputs) specs"
      by (auto simp: store_grown_def intro: grown_trans collected_grown)
  next
    fix d e d' assume d: "store_grown env m d \<and> collected env (?store d) first s"
      and "bind_io (collect_outputs env outputs) (\<lambda>specs. ret (s # specs)) d = (Inl e, d')"
    then have "collect_outputs env outputs d = (Inl e, d')" by (auto simp: bind_io_def ret_def split: prod.splits sum.splits)
    with triple_errorD [OF Cons.IH] d show "store_grown env m d'" by blast
  qed
  show ?case unfolding collect_outputs.simps by (rule triple_bind [OF collect_output_triple rest])
qed


subsection \<open>An example\<close>

text \<open>A store that holds nothing, and one result in the staging directory of an attempt.\<close>

definition demo_collect :: collect_env where
  "demo_collect = \<lparr>col_sha = zero_sha,
     col_decode = (\<lambda>key data. if key = ''test-report/v1'' \<and> data = ''report'' then Some (TestReportDoc (demo_report 2)) else None),
     col_cwd = ''/'', col_stagingRoot = ''/workspace/staging'', col_artifactRoot = ''/workspace/artifacts'',
     col_workflow = \<lparr>ref_name = ''wf'', ref_uid = ''uw''\<rparr>,
     col_producer = \<lparr>tl_apiVersion = group_version, tl_kind = ''AgentRun'', tl_name = ''a-1''\<rparr>, col_sourceRevision = ''r1''\<rparr>"

definition demo_output :: artifact_output where
  "demo_output = \<lparr>ao_contract = ''test-report/v1'', ao_path = ''/workspace/staging/out/../report.json'', ao_mediaType = ''''\<rparr>"

definition demo_disk :: "disk_fault list \<Rightarrow> disk" where
  "demo_disk script = \<lparr>disk_entries = [([''workspace'', ''staging'', ''report.json''], RegularFile ''report'')], disk_script = script\<rparr>"

lemma demo_collected:
  "case collect_outputs demo_collect [demo_output] (demo_disk []) of
     (Inr [s], d) \<Rightarrow> art_path s = ''/workspace/artifacts/'' @ zeros 64 \<and> stored_map ''/workspace/artifacts'' d (zeros 64) = Some ''report''
   | _ \<Rightarrow> False"
  "fst (collect_output demo_collect (demo_output\<lparr>ao_path := ''/workspace/staging/../secret''\<rparr>) (demo_disk []))
     = Inl (Invalid ''artifact path escapes staging root'')"
  by code_simp+

text \<open>A write that fails half-way leaves no content and no temporary file behind.\<close>

lemma demo_failed_write:
  "disk_entries (snd (put_content zero_sha ''/workspace/artifacts'' ''report'' (demo_disk [Works, Works, Works, Works, Fails 3])))
     = disk_entries (demo_disk []) @ [([''workspace'', ''artifacts''], Directory)]"
  by code_simp

subsection \<open>Properties\<close>

text \<open>
  C13: The store is written atomically. Whatever system calls fail, an attempt to store content
  leaves the map from digests to content as it was, or adds the content under its own digest where
  there was none; and if it succeeds, the store holds, under that digest, the bytes it returns, and
  they have that digest.
\<close>

theorem storing_is_atomic:
  assumes "put_content sha root content d = (res, d')"
  shows "(stored_map root d' = stored_map root d
      \<or> stored_map root d (sha content) = None \<and> stored_map root d' = (stored_map root d)(sha content \<mapsto> content))
    \<and> (case res of Inl _ \<Rightarrow> True | Inr r \<Rightarrow> sc_digest r = digest_bytes sha content \<and> sha (sc_bytes r) = sha content
        \<and> stored_map root d' (sha content) = Some (sc_bytes r))"
  using triple_resultD [OF put_triple refl, of sha root content d] triple_errorD [OF put_triple refl, of sha root content d] assms
  by (cases res) (auto simp: put_result_def put_outcome_def)

theorem storing_is_atomic_witness:
  "stored_map ''/s'' (snd (put_content zero_sha ''/s'' ''report'' (demo_disk []))) (zeros 64) \<noteq> None"
proof -
  let ?run = "put_content zero_sha ''/s'' ''report'' (demo_disk [])"
  have "(case fst ?run of Inr _ \<Rightarrow> True | Inl _ \<Rightarrow> False)" by code_simp
  then obtain r where r: "fst ?run = Inr r" by (auto split: sum.splits)
  then have "?run = (Inr r, snd ?run)" by (metis prod.collapse)
  from storing_is_atomic [OF this] show ?thesis by (auto simp: zero_sha_def)
qed



end
