(* ===== verification/Artifact_Validation.thy ===== *)
theory Artifact_Validation
  imports Workflow_Controller Cluster_Reads Artifact_Store
begin

section \<open>Publication and acceptance of artifacts\<close>

text \<open>
  \<open>internal/controllers/artifact_controller.go\<close> and the publication loop of
  \<open>cmd/artifact-collector/main.go\<close>: the collector creates an Artifact for each content it stored, and
  the controller accepts it when its metadata and claims are valid and, for the artifact a workflow
  is started from, when its provenance is proven.
\<close>

subsection \<open>cmd/artifact-collector\<close>

text \<open>\<open>fmt.Sprintf("%02d")\<close> of an index.\<close>

definition pad2 :: "nat \<Rightarrow> string" where
  "pad2 n = zero_pad 2 (show_nat n)"

definition artifact_name :: "string \<Rightarrow> string \<Rightarrow> nat \<Rightarrow> string" where
  "artifact_name attempt contractName index =
     (let n = map (\<lambda>c. if c = CHR ''/'' then CHR ''-'' else c) (to_lower (map (\<lambda>c. if c = CHR ''_'' then CHR ''-'' else c) contractName))
      in attempt @ ''-'' @ trim_byte (CHR ''-'') (take 25 n) @ ''-'' @ pad2 index)"

record publisher =
  pub_namespace :: string
  pub_workflow :: string
  pub_attempt :: string
  pub_producerUID :: string
  pub_producerGrant :: uid_reference

definition published_artifact :: "publisher \<Rightarrow> nat \<Rightarrow> artifact_spec \<Rightarrow> artifact" where
  "published_artifact p index s =
     \<lparr>meta = new_meta (pub_namespace p) (artifact_name (pub_attempt p) (contract_name (art_contract s)) index)
        [(''sovereign-ai.io/workflow-id'', pub_workflow p), (''sovereign-ai.io/attempt'', pub_attempt p)] None,
      spec = s\<lparr>art_producerUID := pub_producerUID p, art_producerGrantRef := pub_producerGrant p\<rparr>,
      status = \<lparr>art_observedGeneration = 0, art_phase = NoPhase, art_conditions = []\<rparr>\<rparr>"

text \<open>An Artifact of that name is taken for the one to publish when its digest is the same.\<close>

definition publish_artifact :: "artifact \<Rightarrow> unit action" where
  "publish_artifact a = bind_io (attempt_io (k_create Artifacts a)) (\<lambda>res. case res of
       Inr _ \<Rightarrow> ret ()
     | Inl e \<Rightarrow>
         if e = AlreadyExists then
           bind_io (attempt_io (k_get Artifacts (namespace_of a) (name_of a))) (\<lambda>existing. case existing of
               Inr x \<Rightarrow> if art_digest (spec x) = art_digest (spec a) then ret () else raise e
             | Inl _ \<Rightarrow> raise e)
         else raise e)"

fun publish_artifacts :: "publisher \<Rightarrow> nat \<Rightarrow> artifact_spec list \<Rightarrow> unit action" where
  "publish_artifacts p index [] = ret ()"
| "publish_artifacts p index (s # specs) =
     seq_io (publish_artifact (published_artifact p index s)) (publish_artifacts p (Suc index) specs)"

subsection \<open>artifact_controller.go\<close>

text \<open>A reason and a message; the empty reason is none.\<close>

definition bootstrap_evidence :: "workflow_env \<Rightarrow> workflow \<Rightarrow> change_request \<Rightarrow> artifact \<Rightarrow> (string \<times> string) action" where
  "bootstrap_evidence env flow cr a =
     (if (case project_change_request_claims (env_sha env) cr of
           Inl _ \<Rightarrow> True | Inr expectedClaims \<Rightarrow> art_claims (spec a) \<noteq> Some expectedClaims)
      then ret (''InvalidBootstrapClaims'', ''bootstrap Artifact claims do not match the exact admitted change request'')
      else if art_sourceRevision (spec a) \<noteq> chr_sourceCommit cr
      then ret (''InvalidBootstrapProvenance'', ''bootstrap Artifact source revision does not match the change request'')
      else (let jobName = (if wf_bootstrapJobRef (status flow) = '''' then bootstrap_job_name (name_of flow)
                           else wf_bootstrapJobRef (status flow))
        in bind_io (attempt_io (k_get Jobs (namespace_of flow) jobName)) (\<lambda>res. case res of
            Inl _ \<Rightarrow> ret (''BootstrapVerificationUnavailable'', ''bootstrap storage Job is unavailable'')
          | Inr job \<Rightarrow>
              if \<not> is_controlled_by job flow \<or> job_succeeded (status job) = 0 \<or> job_failed (status job) > 0
              then ret (''BootstrapVerificationFailed'', ''bootstrap storage Job did not complete successfully'')
              else ret ('''', ''''))))"

definition validate_bootstrap_artifact :: "workflow_env \<Rightarrow> artifact \<Rightarrow> (string \<times> string) action" where
  "validate_bootstrap_artifact env a =
     bind_io (attempt_io (k_get Workflows (namespace_of a) (tl_name (art_producerRef (spec a))))) (\<lambda>res. case res of
         Inl _ \<Rightarrow> ret (''BootstrapWorkflowUnavailable'', ''bootstrap workflow is unavailable'')
       | Inr flow \<Rightarrow> (case validate_bootstrap_artifact_identity flow a of
             Some e \<Rightarrow> ret (''InvalidBootstrapProvenance'', error_text e)
           | None \<Rightarrow> bind_io (attempt_io (load_bootstrap_change_request env flow)) (\<lambda>res. case res of
                 Inl e \<Rightarrow> ret (''InvalidBootstrapSource'', error_text e)
               | Inr cr \<Rightarrow> bootstrap_evidence env flow cr a)))"

definition from_workflow :: "artifact \<Rightarrow> bool" where
  "from_workflow a \<longleftrightarrow> tl_kind (art_producerRef (spec a)) = ''SovereignWorkflow''"

definition validate_stored_artifact :: "workflow_env \<Rightarrow> artifact \<Rightarrow> (string \<times> string) action" where
  "validate_stored_artifact env a =
     (if contract_name (art_contract (spec a)) = '''' \<or> contract_version (art_contract (spec a)) = '''' \<or> art_path (spec a) = ''''
      then ret (''InvalidMetadata'', ''artifact requires a versioned contract and content path'')
      else (case validate_claims (env_sha env) (art_contract (spec a)) (art_claims (spec a)) of
          Some e \<Rightarrow> ret (''InvalidClaims'', error_text e)
        | None \<Rightarrow> if from_workflow a then validate_bootstrap_artifact env a else ret ('''', '''')))"

definition producer_decision_event :: "artifact \<Rightarrow> string action" where
  "producer_decision_event a =
     (if from_workflow a then ret ''''
      else bind_io (list_workflow_events (ref_name (art_workflowRef (spec a)))) (\<lambda>events.
        ret (case find (authorizes_execution (art_producerRef (spec a))) (rev events) of None \<Rightarrow> '''' | Some e \<Rightarrow> ev_id e)))"

definition accepted_consequence :: "artifact \<Rightarrow> consequence_evidence" where
  "accepted_consequence a = (let evidence = artifact_evidence_of a in
     blank_consequence\<lparr>cq_kind := ''artifact-accepted'', cq_resource := Some (ae_artifact evidence), cq_artifact := Some evidence,
       cq_digest := art_digest (spec a),
       cq_target := contract_name (art_contract (spec a)) @ ''/'' @ contract_version (art_contract (spec a))\<rparr>)"

definition artifact_event_data :: "artifact \<Rightarrow> resource_phase \<Rightarrow> event_data action" where
  "artifact_event_data a phase =
     (if phase = PhaseSucceeded
      then bind_io (producer_decision_event a) (\<lambda>decisionEvent. ret (ConsequenceData \<lparr>cs_schemaVersion = ''v1'',
        cs_decisionEvent = decisionEvent, cs_consequences = [accepted_consequence a]\<rparr>))
      else ret (Fields
        [(''contract'', JObject [(''name'', JString (contract_name (art_contract (spec a)))),
            (''version'', JString (contract_version (art_contract (spec a))))]),
         (''classification'', JString (art_classification (spec a))),
         (''sourceRevision'', JString (art_sourceRevision (spec a)))]))"

definition append_artifact_event :: "workflow_env \<Rightarrow> artifact \<Rightarrow> resource_phase \<Rightarrow> string \<Rightarrow> unit action" where
  "append_artifact_event env a phase reason =
     bind_io (artifact_event_data a phase) (\<lambda>payload.
       append_controller_event (env_sha env) ''artifact-controller'' (blank_options\<lparr>
         op_type := (if phase = PhaseFailed then ''ArtifactRejected'' else ''ArtifactAccepted''),
         op_subject := \<lparr>sub_project = '''', sub_namespace = namespace_of a, sub_workflow = ref_name (art_workflowRef (spec a)),
           sub_step = '''', sub_attempt = 0\<rparr>,
         op_action := ''validate'', op_target := name_of a,
         op_outcome := (if phase = PhaseFailed then ''rejected'' else ''accepted''), op_reason := reason,
         op_references := [(''artifact'', name_of a), (''digest'', art_digest (spec a)), (''path'', art_path (spec a)),
           (''producer'', tl_kind (art_producerRef (spec a)) @ ''/'' @ tl_name (art_producerRef (spec a)))],
         op_data := payload\<rparr>))"

text \<open>The status that goes with the outcome of the validation.\<close>

definition judged_status :: "artifact \<Rightarrow> string \<times> string \<Rightarrow> artifact_status" where
  "judged_status a outcome = (case outcome of (reason, message) \<Rightarrow>
     \<lparr>art_observedGeneration = generation (meta a),
      art_phase = (if reason = '''' then PhaseSucceeded else PhaseFailed),
      art_conditions = set_condition
        (if reason = '''' then \<lparr>cond_type = ''Valid'', cond_status = ConditionTrue, cond_reason = ''ContractAccepted'',
            cond_message = ''stored bytes, digest, and typed contract are valid'', cond_generation = generation (meta a)\<rparr>
         else \<lparr>cond_type = ''Valid'', cond_status = ConditionFalse, cond_reason = reason,
            cond_message = message, cond_generation = generation (meta a)\<rparr>) (art_conditions (status a))\<rparr>)"

definition record_judgement :: "workflow_env \<Rightarrow> artifact \<Rightarrow> string \<times> string \<Rightarrow> unit action" where
  "record_judgement env a outcome =
     (let st = judged_status a outcome; phase = art_phase st;
          reason = (if fst outcome = '''' then ''ContractAccepted'' else fst outcome)
      in if art_phase (status a) = phase \<and> art_observedGeneration (status a) = generation (meta a)
         then (if phase = PhaseSucceeded then append_artifact_event env a phase reason else ret ())
         else bind_io (k_update_status Artifacts (a\<lparr>status := st\<rparr>)) (\<lambda>a. append_artifact_event env a phase reason))"

definition judge_artifact :: "workflow_env \<Rightarrow> artifact \<Rightarrow> unit action" where
  "judge_artifact env a =
     (if from_workflow a \<and> artifact_accepted a \<and> validate_claims (env_sha env) (art_contract (spec a)) (art_claims (spec a)) = None
      then append_artifact_event env a PhaseSucceeded ''ContractAccepted''
      else bind_io (validate_stored_artifact env a) (record_judgement env a))"

definition reconcile_artifact :: "workflow_env \<Rightarrow> string \<Rightarrow> string \<Rightarrow> unit action" where
  "reconcile_artifact env ns n =
     bind_io (attempt_io (k_get Artifacts ns n)) (\<lambda>res. case res of
         Inl e \<Rightarrow> if e = NotFound then ret () else raise e
       | Inr a \<Rightarrow> bind_io (namespace_terminating (namespace_of a)) (\<lambda>terminating.
           if terminating then ret () else judge_artifact env a))"

subsection \<open>What an accepted artifact stands for\<close>

text \<open>
  The provenance of a bootstrap artifact: the workflow that names it, the immutable content under
  the digest the API admitted, the claims of that content, and the Job that stored it.
\<close>

definition submitted_content :: "cluster \<Rightarrow> workflow \<Rightarrow> string \<Rightarrow> bool" where
  "submitted_content w flow content \<longleftrightarrow> (\<exists>source \<in> set (config_maps w).
     name_of source = ref_name (bs_sourceRef (wf_bootstrap (spec flow)))
     \<and> uid_of source = ref_uid (bs_sourceRef (wf_bootstrap (spec flow))) \<and> cm_immutable (spec source) = Some True
     \<and> map_of (cm_binaryData (spec source)) (bs_key (wf_bootstrap (spec flow))) = Some content)"

definition loaded_request :: "workflow_env \<Rightarrow> cluster \<Rightarrow> workflow \<Rightarrow> change_request \<Rightarrow> bool" where
  "loaded_request env w flow cr \<longleftrightarrow> (\<exists>content. submitted_content w flow content
     \<and> digest_bytes (env_sha env) content = bs_expectedDigest (wf_bootstrap (spec flow))
     \<and> env_decode env ''change-request/v1'' content = Some (ChangeRequestDoc cr))"

definition stored_by_job :: "cluster \<Rightarrow> workflow \<Rightarrow> bool" where
  "stored_by_job w flow \<longleftrightarrow> (\<exists>job \<in> set (jobs w). is_controlled_by job flow \<and> job_succeeded (status job) \<noteq> 0
     \<and> job_failed (status job) \<le> 0)"

definition bootstrap_proven :: "workflow_env \<Rightarrow> cluster \<Rightarrow> artifact \<Rightarrow> bool" where
  "bootstrap_proven env w a \<longleftrightarrow> (\<exists>flow \<in> set (workflows w). \<exists>cr.
     validate_bootstrap_artifact_identity flow a = None \<and> loaded_request env w flow cr
     \<and> (\<exists>c. project_change_request_claims (env_sha env) cr = Inr c \<and> art_claims (spec a) = Some c)
     \<and> art_sourceRevision (spec a) = chr_sourceCommit cr \<and> stored_by_job w flow)"

definition vetted :: "workflow_env \<Rightarrow> cluster \<Rightarrow> artifact \<Rightarrow> bool" where
  "vetted env w a \<longleftrightarrow> contract_name (art_contract (spec a)) \<noteq> '''' \<and> contract_version (art_contract (spec a)) \<noteq> ''''
     \<and> art_path (spec a) \<noteq> '''' \<and> validate_claims (env_sha env) (art_contract (spec a)) (art_claims (spec a)) = None
     \<and> (from_workflow a \<longrightarrow> bootstrap_proven env w a)"

lemma vetted_frame [simp]:
  "vetted env (w\<lparr>faults := fs\<rparr>) a = vetted env w a" "vetted env (w\<lparr>audit_log := l\<rparr>) a = vetted env w a"
  "vetted env (upd_items Artifacts f w) a = vetted env w a"
  by (simp_all add: vetted_def bootstrap_proven_def loaded_request_def submitted_content_def stored_by_job_def Artifacts_def)

lemma vetted_judged: "vetted env w (updated_status x a) = vetted env w a"
  by (simp add: vetted_def bootstrap_proven_def from_workflow_def validate_bootstrap_artifact_identity_def
      is_controlled_by_def owner_ref_of_def)

text \<open>The reads that find nothing wrong show what they have seen; \<open>I\<close> is what the caller knows.\<close>

lemma observed_loaded: "observed_fact (\<lambda>w. loaded_request env w flow cr)"
  by unfold_locales (simp_all add: loaded_request_def submitted_content_def)

lemma load_triple:
  assumes "observed_fact I"
  shows "triple I (load_bootstrap_change_request env flow) (\<lambda>cr w. I w \<and> loaded_request env w flow cr) (\<lambda>_. I)"
  unfolding load_bootstrap_change_request_def Let_def
  by (rule triple_bind [OF config_map_kind.get_seen [OF assms]])
    (auto simp: triple_def ret_def raise_def loaded_request_def submitted_content_def ConfigMaps_def
        dest!: seen_member split: option.splits document.splits, blast)

lemma evidence_triple:
  assumes "observed_fact I"
    and "\<And>w. I w \<Longrightarrow> flow \<in> set (workflows w) \<and> validate_bootstrap_artifact_identity flow a = None \<and> loaded_request env w flow cr"
  shows "triple I (bootstrap_evidence env flow cr a) (\<lambda>r w. I w \<and> (fst r = '''' \<longrightarrow> bootstrap_proven env w a)) (\<lambda>_. I)"
proof -
  let ?ok = "\<exists>c. project_change_request_claims (env_sha env) cr = Inr c \<and> art_claims (spec a) = Some c"
  let ?Q = "\<lambda>r w. I w \<and> (fst r = '''' \<longrightarrow> bootstrap_proven env w a)"
  let ?judge = "\<lambda>res. case res of
            Inl _ \<Rightarrow> ret (''BootstrapVerificationUnavailable'', ''bootstrap storage Job is unavailable'')
          | Inr job \<Rightarrow>
              if \<not> is_controlled_by job flow \<or> job_succeeded (status job) = 0 \<or> job_failed (status job) > 0
              then ret (''BootstrapVerificationFailed'', ''bootstrap storage Job did not complete successfully'')
              else ret ('''', '''')"
  have judged: "triple I (bind_io (attempt_io (k_get Jobs ns jobName)) ?judge) ?Q (\<lambda>_. I)"
    if ok: ?ok and rev: "art_sourceRevision (spec a) = chr_sourceCommit cr" for ns jobName
  proof (rule triple_attempt_bind [OF job_kind.get_seen [OF assms(1)]])
    fix job
    have "bootstrap_proven env w a" if "I w" "seen Jobs ns jobName job w"
      "is_controlled_by job flow" "job_succeeded (status job) \<noteq> 0" "\<not> job_failed (status job) > 0" for w
      using assms(2) [OF that(1)] ok rev seen_member [OF that(2)] that(3-)
      by (auto simp: bootstrap_proven_def stored_by_job_def Jobs_def not_less)
    then show "triple (\<lambda>w. I w \<and> seen Jobs ns jobName job w) (?judge (Inr job)) ?Q (\<lambda>_. I)"
      by (simp add: triple_def ret_def)
  qed (simp add: triple_def ret_def)
  have "?ok" if "\<not> (case project_change_request_claims (env_sha env) cr of
           Inl _ \<Rightarrow> True | Inr expectedClaims \<Rightarrow> art_claims (spec a) \<noteq> Some expectedClaims)"
    using that by (auto split: sum.splits)
  with judged show ?thesis unfolding bootstrap_evidence_def Let_def by (auto simp: triple_def ret_def)
qed

lemma validate_bootstrap_triple:
  assumes "observed_fact I"
  shows "triple I (validate_bootstrap_artifact env a) (\<lambda>r w. I w \<and> (fst r = '''' \<longrightarrow> bootstrap_proven env w a)) (\<lambda>_. I)"
proof -
  let ?Q = "\<lambda>r w. I w \<and> (fst r = '''' \<longrightarrow> bootstrap_proven env w a)"
  let ?F = "\<lambda>flow w. I w \<and> seen Workflows (namespace_of a) (tl_name (art_producerRef (spec a))) flow w"
  have F: "observed_fact (?F flow)" for flow
    by (intro observed_conj assms workflow_kind.observed_seen)
  have judged: "triple (?F flow) (bind_io (attempt_io (load_bootstrap_change_request env flow)) (\<lambda>res. case res of
                 Inl e \<Rightarrow> ret (''InvalidBootstrapSource'', error_text e)
               | Inr cr \<Rightarrow> bootstrap_evidence env flow cr a)) ?Q (\<lambda>_. I)"
    if "validate_bootstrap_artifact_identity flow a = None" for flow
  proof (rule triple_attempt_bind [OF load_triple [OF F]])
    fix cr
    have "triple (\<lambda>w. ?F flow w \<and> loaded_request env w flow cr) (bootstrap_evidence env flow cr a)
        (\<lambda>r w. (?F flow w \<and> loaded_request env w flow cr) \<and> (fst r = '''' \<longrightarrow> bootstrap_proven env w a))
        (\<lambda>_ w. ?F flow w \<and> loaded_request env w flow cr)"
      by (rule evidence_triple [OF observed_conj [OF F observed_loaded]])
        (use that in \<open>auto simp: Workflows_def dest!: seen_member\<close>)
    then show "triple (\<lambda>w. ?F flow w \<and> loaded_request env w flow cr) (case Inr cr of
                 Inl e \<Rightarrow> ret (''InvalidBootstrapSource'', error_text e)
               | Inr cr \<Rightarrow> bootstrap_evidence env flow cr a) ?Q (\<lambda>_. I)"
      by (auto elim!: triple_post)
  qed (simp add: triple_def ret_def)
  show ?thesis unfolding validate_bootstrap_artifact_def
  proof (rule triple_attempt_bind [OF workflow_kind.get_seen [OF assms]])
    fix flow
    show "triple (?F flow) (case Inr flow of
         Inl _ \<Rightarrow> ret (''BootstrapWorkflowUnavailable'', ''bootstrap workflow is unavailable'')
       | Inr flow \<Rightarrow> (case validate_bootstrap_artifact_identity flow a of
             Some e \<Rightarrow> ret (''InvalidBootstrapProvenance'', error_text e)
           | None \<Rightarrow> bind_io (attempt_io (load_bootstrap_change_request env flow)) (\<lambda>res. case res of
                 Inl e \<Rightarrow> ret (''InvalidBootstrapSource'', error_text e)
               | Inr cr \<Rightarrow> bootstrap_evidence env flow cr a))) ?Q (\<lambda>_. I)"
      using judged [of flow] by (cases "validate_bootstrap_artifact_identity flow a") (auto simp: triple_def ret_def)
  qed (simp add: triple_def ret_def)
qed

lemma validate_triple:
  assumes "observed_fact I"
  shows "triple I (validate_stored_artifact env a) (\<lambda>r w. I w \<and> (fst r = '''' \<longrightarrow> vetted env w a)) (\<lambda>_. I)"
proof -
  let ?named = "contract_name (art_contract (spec a)) \<noteq> '''' \<and> contract_version (art_contract (spec a)) \<noteq> '''' \<and> art_path (spec a) \<noteq> ''''"
  let ?claims = "validate_claims (env_sha env) (art_contract (spec a)) (art_claims (spec a)) = None"
  have "triple I (validate_bootstrap_artifact env a) (\<lambda>r w. I w \<and> (fst r = '''' \<longrightarrow> vetted env w a)) (\<lambda>_. I)" if ?named ?claims
    by (rule triple_post [OF validate_bootstrap_triple [OF assms]]) (use that in \<open>auto simp: vetted_def\<close>)
  moreover have "triple I (ret r) (\<lambda>r w. I w \<and> (fst r = '''' \<longrightarrow> vetted env w a)) (\<lambda>_. I)"
    if "fst r \<noteq> '''' \<or> ?named \<and> ?claims \<and> \<not> from_workflow a" for r :: "string \<times> string"
    using that by (auto simp: triple_def ret_def vetted_def)
  ultimately show ?thesis unfolding validate_stored_artifact_def by (auto split: option.split)
qed

text \<open>Every artifact that is accepted now was accepted before or has been vetted.\<close>

definition acceptance_earned :: "workflow_env \<Rightarrow> cluster \<Rightarrow> cluster \<Rightarrow> bool" where
  "acceptance_earned env w0 w \<longleftrightarrow> (\<forall>a \<in> set (artifacts w). artifact_accepted a \<longrightarrow>
     (\<exists>b \<in> set (artifacts w0). obj_key b = obj_key a \<and> artifact_accepted b) \<or> vetted env w a)"

lemma earned_refl: "acceptance_earned env w w"
  by (auto simp: acceptance_earned_def)

lemma observed_earned: "observed_fact (acceptance_earned env w0)"
  by unfold_locales (simp_all add: acceptance_earned_def)

lemma observed_vetted: "observed_fact (\<lambda>w. b \<longrightarrow> vetted env w a)"
  by unfold_locales simp_all

lemma judged_accepted: "artifact_accepted (updated_status (a\<lparr>status := judged_status a r\<rparr>) a) \<Longrightarrow> fst r = ''''"
  by (auto simp: artifact_accepted_def judged_status_def split: prod.splits if_splits)

context observed_fact begin

lemma keeps_artifact_event: "keeps I (append_artifact_event env a phase reason)"
  unfolding append_artifact_event_def artifact_event_data_def producer_decision_event_def
  by (auto intro!: keeps_intros keeps_list_events)

end

lemma earned_replaced:
  assumes "acceptance_earned env w0 w" and "artifact_accepted (updated_status x a) \<Longrightarrow> vetted env w a"
  shows "acceptance_earned env w0 (upd_items Artifacts (replace_by obj_key k (updated_status x a)) w)"
proof -
  have items: "artifacts (upd_items Artifacts f w) = f (artifacts w)" for f by (simp add: Artifacts_def)
  show ?thesis unfolding acceptance_earned_def items
  proof (intro ballI impI)
    fix c assume c: "c \<in> set (replace_by obj_key k (updated_status x a) (artifacts w))" and "artifact_accepted c"
    from set_replace_by [OF c] this
    show "(\<exists>b \<in> set (artifacts w0). obj_key b = obj_key c \<and> artifact_accepted b)
        \<or> vetted env (upd_items Artifacts (replace_by obj_key k (updated_status x a)) w) c"
      using assms by (auto simp: acceptance_earned_def vetted_judged)
  qed
qed

lemma record_judgement_triple:
  "triple (\<lambda>w. acceptance_earned env w0 w \<and> (fst r = '''' \<longrightarrow> vetted env w a) \<and> seen Artifacts (namespace_of a) (name_of a) a w)
     (record_judgement env a r) (\<lambda>_. acceptance_earned env w0) (\<lambda>_. acceptance_earned env w0)"
proof -
  let ?I = "\<lambda>w. acceptance_earned env w0 w \<and> (fst r = '''' \<longrightarrow> vetted env w a)"
  let ?a = "a\<lparr>status := judged_status a r\<rparr>"
  have event: "keeps (acceptance_earned env w0) (append_artifact_event env b phase reason)" for b phase reason
    by (rule observed_fact.keeps_artifact_event [OF observed_earned])
  have "triple (\<lambda>w. ?I w \<and> seen Artifacts (namespace_of a) (name_of a) a w) (k_update_status Artifacts ?a) (\<lambda>_. ?I) (\<lambda>_. ?I)"
  proof (rule artifact_kind.update_status_seen)
    fix w assume I: "?I w"
    show "?I (upd_items Artifacts (replace_by obj_key (namespace_of a, name_of a) (updated_status ?a a)) w)"
      using earned_replaced [of env w0 w ?a a] I judged_accepted [of a r] by simp
  qed (auto intro!: observed_conj observed_earned observed_vetted simp: obj_key_def)
  then have saved: "triple (\<lambda>w. ?I w \<and> seen Artifacts (namespace_of a) (name_of a) a w) (k_update_status Artifacts ?a)
      (\<lambda>_. acceptance_earned env w0) (\<lambda>_. acceptance_earned env w0)"
    by (rule triple_post) auto
  show ?thesis unfolding record_judgement_def Let_def
    by (intro triple_if triple_bind [OF triple_pre [OF saved]] event triple_pre [OF event] triple_pre [OF triple_ret]) auto
qed

lemma reconcile_earned: "keeps (acceptance_earned env w0) (reconcile_artifact env ns n)"
proof -
  let ?E = "acceptance_earned env w0"
  have obs: "observed_fact (\<lambda>w. ?E w \<and> seen Artifacts ns n a w)" for a
    by (intro observed_conj observed_earned artifact_kind.observed_seen)
  have judge: "triple (\<lambda>w. ?E w \<and> seen Artifacts ns n a w) (judge_artifact env a) (\<lambda>_. ?E) (\<lambda>_. ?E)" for a
    unfolding judge_artifact_def
  proof (rule triple_if)
    show "triple (\<lambda>w. ?E w \<and> seen Artifacts ns n a w) (append_artifact_event env a PhaseSucceeded ''ContractAccepted'') (\<lambda>_. ?E) (\<lambda>_. ?E)"
      by (rule triple_pre [OF observed_fact.keeps_artifact_event [OF observed_earned]]) simp
    show "triple (\<lambda>w. ?E w \<and> seen Artifacts ns n a w) (bind_io (validate_stored_artifact env a) (record_judgement env a)) (\<lambda>_. ?E) (\<lambda>_. ?E)"
    proof (rule triple_bind [where R = "\<lambda>r w. (?E w \<and> seen Artifacts ns n a w) \<and> (fst r = '''' \<longrightarrow> vetted env w a)",
        OF triple_post [OF validate_triple [OF obs]]])
      fix r
      show "triple (\<lambda>w. (?E w \<and> seen Artifacts ns n a w) \<and> (fst r = '''' \<longrightarrow> vetted env w a)) (record_judgement env a r) (\<lambda>_. ?E) (\<lambda>_. ?E)"
        by (rule triple_pre [OF record_judgement_triple]) (auto dest: seen_member)
    qed auto
  qed
  have found: "triple (\<lambda>w. ?E w \<and> seen Artifacts ns n a w) (bind_io (namespace_terminating (namespace_of a)) (\<lambda>terminating.
           if terminating then ret () else judge_artifact env a)) (\<lambda>_. ?E) (\<lambda>_. ?E)" for a
    by (rule triple_bind [where R = "\<lambda>_ w. ?E w \<and> seen Artifacts ns n a w", OF triple_post [OF observed_fact.keeps_terminating [OF obs]]])
      (auto intro!: triple_if judge triple_pre [OF triple_ret])
  show ?thesis unfolding reconcile_artifact_def
  proof (rule triple_attempt_bind [OF artifact_kind.get_seen [OF observed_earned]])
    fix a
    show "triple (\<lambda>w. ?E w \<and> seen Artifacts ns n a w) (case Inr a of
         Inl e \<Rightarrow> if e = NotFound then ret () else raise e
       | Inr a \<Rightarrow> bind_io (namespace_terminating (namespace_of a)) (\<lambda>terminating.
           if terminating then ret () else judge_artifact env a)) (\<lambda>_. ?E) (\<lambda>_. ?E)"
      using found by simp
  qed (simp add: triple_def ret_def raise_def)
qed

subsection \<open>Examples\<close>

text \<open>A workflow that has been submitted with a change request, which its Job has stored.\<close>

definition submitted_request :: change_request where
  "submitted_request = \<lparr>chr_summary = ''s'', chr_description = ''d'', chr_criteria = demo_criteria, chr_setDigest = zero_digest,
     chr_repositoryURL = ''https://git.example/app.git'', chr_sourceCommit = zeros 40\<rparr>"

definition request_env :: workflow_env where
  "request_env = \<lparr>env_sha = zero_sha, env_encode = (\<lambda>_. []), env_encodeDecision = (\<lambda>_. []),
     env_decode = (\<lambda>key data. if key = ''change-request/v1'' \<and> data = ''request'' then Some (ChangeRequestDoc submitted_request) else None),
     env_quantity = (\<lambda>_. True), env_storageClass = '''', env_bootstrapImage = ''bootstrap''\<rparr>"

definition submitted_flow :: workflow where
  "submitted_flow = (let base = steps_workflow [] in base\<lparr>
     spec := (spec base)\<lparr>wf_bootstrap := \<lparr>bs_sourceRef = \<lparr>ref_name = ''source'', ref_uid = ''us''\<rparr>, bs_key = ''request.json'',
       bs_expectedDigest = zero_digest, bs_contract = \<lparr>contract_name = ''change-request'', contract_version = ''v1''\<rparr>,
       bs_artifactName = ''change-request''\<rparr>\<rparr>,
     status := (status base)\<lparr>wf_pvcName := ''claim'', wf_workspaceWriterLeaseRef := ''writer''\<rparr>\<rparr>)"

definition submitted_artifact :: artifact where
  "submitted_artifact = (let a = bootstrap_artifact submitted_flow submitted_request (no_claims\<lparr>claim_changeRequest := Some
       \<lparr>claim_acceptanceCriteria = [\<lparr>criterion_id = ''RQ-001'', criterion_digest = zero_digest\<rparr>],
        claim_acceptanceCriteriaSetDigest = zero_digest\<rparr>\<rparr>)
     in a\<lparr>meta := (meta a)\<lparr>obj_uid := ''ua'', resource_version := 1, generation := 1\<rparr>\<rparr>)"

definition submitted_cluster :: "fault list \<Rightarrow> cluster" where
  "submitted_cluster script = empty_cluster\<lparr>faults := script, workflows := [submitted_flow],
     artifacts := [submitted_artifact],
     config_maps := [\<lparr>meta = bare_meta ''team'' ''source'' ''us'',
       spec = \<lparr>cm_immutable = Some True, cm_data = [], cm_binaryData = [(''request.json'', ''request'')]\<rparr>, status = ()\<rparr>],
     jobs := [(build_bootstrap_job submitted_flow ''bootstrap'' \<lparr>grant_lease = ''writer'', grant_holder = ''h'', grant_epoch = 1\<rparr>)
       \<lparr>status := \<lparr>job_active = 0, job_succeeded = 1, job_failed = 0\<rparr>\<rparr>]\<rparr>"

definition judged :: "fault list \<Rightarrow> cluster" where
  "judged script = snd (reconcile_artifact request_env ''team'' ''change-request'' (submitted_cluster script))"

lemma request_accepted: "map artifact_accepted (artifacts (judged [])) = [True]"
  by code_simp

text \<open>
  One read of the workflow that times out and the artifact is rejected, as if it were invalid: the
  reconciliation reports no error, so it is not repeated, and the workflow controller, which meets
  the rejected artifact next, fails the workflow for good.
\<close>

definition rejected_artifact :: artifact where
  "rejected_artifact = submitted_artifact\<lparr>status := judged_status submitted_artifact
     (''BootstrapWorkflowUnavailable'', ''bootstrap workflow is unavailable'')\<rparr>"

lemma transient_read_rejects:
  "(case reconcile_artifact request_env ''team'' ''change-request'' (submitted_cluster [Pass, Pass, Deny (Transient ''timeout'')])
    of (res, w) \<Rightarrow> (res, map status (artifacts w))) = (Inr (), [status rejected_artifact])"
  by code_simp

lemma transient_read_fails_the_workflow:
  "map (\<lambda>f. (wf_phase (status f), map cond_reason (wf_conditions (status f))))
     (workflows (snd (ensure_bootstrap request_env submitted_flow ((submitted_cluster [])\<lparr>artifacts := [rejected_artifact]\<rparr>))))
   = [(PhaseFailed, [''BootstrapArtifactRejected''])]"
  by code_simp

subsection \<open>Properties\<close>

text \<open>
  C14: No artifact is accepted unvetted. An artifact that is accepted after a reconciliation,
  whatever the reconciliation was refused or lost on the way, was accepted before or has been
  vetted: it has a versioned contract, a path and valid claims, and if it is the one its workflow
  starts from, the cluster shows its provenance: the workflow that admitted exactly this identity
  and digest, the immutable submission with that digest, the very claims and revision of its
  content, and the finished Job that stored it.
\<close>

theorem accepted_artifacts_are_vetted:
  assumes "reconcile_artifact env ns n w = (res, w')" and "a \<in> set (artifacts w')" and "artifact_accepted a"
  shows "(\<exists>b \<in> set (artifacts w). obj_key b = obj_key a \<and> artifact_accepted b) \<or> vetted env w' a"
proof -
  have "acceptance_earned env w w'"
    using triple_resultD [OF reconcile_earned earned_refl] triple_errorD [OF reconcile_earned earned_refl] assms(1)
    by (cases res) blast+
  with assms(2,3) show ?thesis by (simp add: acceptance_earned_def)
qed

theorem accepted_artifacts_are_vetted_witness:
  "\<exists>a \<in> set (artifacts (judged [])). vetted request_env (judged []) a"
proof -
  let ?w = "submitted_cluster []"
  obtain res where run: "reconcile_artifact request_env ''team'' ''change-request'' ?w = (res, judged [])"
    unfolding judged_def by (metis prod.collapse)
  have none: "\<not> list_ex artifact_accepted (artifacts ?w)"
    by code_simp
  from request_accepted obtain a where "a \<in> set (artifacts (judged []))" "artifact_accepted a"
    by (cases "artifacts (judged [])") auto
  with accepted_artifacts_are_vetted [OF run] none show ?thesis by (auto simp: list_ex_iff)
qed

end
