(* ===== verification/Writer_Terms.thy ===== *)
theory Writer_Terms
  imports Cluster_Reads Workspace_Writer
begin

section \<open>The writer's term of an execution\<close>

text \<open>
  An AgentRun and a UtilityOperation hold the workflow's writer lease in the same way
  (\<open>ensureWorkspaceWriter\<close>, \<open>workspaceWriterGrant\<close>, \<open>reconcileWorkspaceWriterRelease\<close>,
  \<open>deleteWorkspaceWriterWorkloads\<close> and \<open>finalizeWorkspaceWriter\<close> of their controllers, alike up to
  the names): the term is acquired before any workload exists and recorded in the status, and it is
  released only when every workload that could write is seen to be quiet. The operations are
  written once over what the kinds differ in, \<open>writer_owner\<close>.
\<close>

subsection \<open>The operations\<close>

text \<open>
  How a kind keeps its term in its status, saves it and records events; which workloads write for
  an object (the questions whether each is quiet, the deletions of each).
\<close>

record ('s, 't) writer_owner =
  own_kind :: "('s, 't) kind"
  own_kindName :: string
  own_workflow :: "'s \<Rightarrow> string"
  own_lease :: "'t \<Rightarrow> string"
  own_epoch :: "'t \<Rightarrow> int"
  own_released :: "'t \<Rightarrow> bool"
  own_record :: "string \<Rightarrow> int \<Rightarrow> bool \<Rightarrow> 't \<Rightarrow> 't"
  own_save :: "('s, 't) kobj \<Rightarrow> unit action"
  own_event :: "('s, 't) kobj \<Rightarrow> string \<Rightarrow> string \<Rightarrow> string \<Rightarrow> string \<Rightarrow> string \<Rightarrow> unit action"
  own_quiet :: "('s, 't) kobj \<Rightarrow> bool action list"
  own_drop :: "('s, 't) kobj \<Rightarrow> unit action list"

definition no_grant :: writer_grant where
  "no_grant = \<lparr>grant_lease = '''', grant_holder = '''', grant_epoch = 0\<rparr>"

definition writer_epoch_reason :: "writer_grant \<Rightarrow> string" where
  "writer_epoch_reason grant = ''WriterEpoch'' @ show_int (grant_epoch grant)"

definition granted_object :: "('s, 't) writer_owner \<Rightarrow> writer_grant \<Rightarrow> ('s, 't) kobj \<Rightarrow> ('s, 't) kobj" where
  "granted_object own grant x = x\<lparr>status := own_record own (grant_lease grant) (grant_epoch grant) False (status x)\<rparr>"

text \<open>The object comes back with the term in its status.\<close>

definition record_term :: "('s, 't) writer_owner \<Rightarrow> writer_grant \<Rightarrow> ('s, 't) kobj \<Rightarrow> ('s, 't) kobj action" where
  "record_term own grant x = (let x' = granted_object own grant x in
     seq_io (own_save own x')
      (seq_io (if own_epoch own (status x) = 0
          then own_event own x' ''WorkspaceWriterAcquired'' ''acquire'' (grant_lease grant) ''granted'' (writer_epoch_reason grant)
          else ret ())
       (ret x')))"

definition ensure_writer :: "('s, 't) writer_owner \<Rightarrow> ('s, 't) kobj \<Rightarrow> (writer_grant \<times> writer_state \<times> ('s, 't) kobj) action" where
  "ensure_writer own x =
     bind_io (k_get Workflows (namespace_of x) (own_workflow own (spec x))) (\<lambda>flow.
       if wf_workspaceWriterLeaseRef (status flow) = '''' then ret (no_grant, WorkspaceWriterBlocked, x)
       else bind_io (gets clock) (\<lambda>now.
         bind_io (acquire_workspace_writer flow (wf_workspaceWriterLeaseRef (status flow)) (own_kindName own) x
             (own_epoch own (status x)) now) (\<lambda>(grant, state).
           if state \<noteq> WorkspaceWriterGranted then ret (grant, state, x)
           else bind_io (record_term own grant x) (\<lambda>x'. ret (grant, state, x')))))"

definition owner_grant :: "('s, 't) writer_owner \<Rightarrow> ('s, 't) kobj \<Rightarrow> go_error + writer_grant" where
  "owner_grant own x = (case workspace_writer_identity (own_kindName own) x of
       Inl e \<Rightarrow> Inl e
     | Inr holder \<Rightarrow>
         if own_lease own (status x) = '''' \<or> own_epoch own (status x) < 1 then Inl (Invalid ''no workspace writer grant'')
         else Inr \<lparr>grant_lease = own_lease own (status x), grant_holder = holder, grant_epoch = own_epoch own (status x)\<rparr>)"

fun all_quiet :: "bool action list \<Rightarrow> bool action" where
  "all_quiet [] = ret True"
| "all_quiet (q # qs) = bind_io q (\<lambda>quiet. bind_io (all_quiet qs) (\<lambda>rest. ret (quiet \<and> rest)))"

definition reconcile_writer_release :: "('s, 't) writer_owner \<Rightarrow> ('s, 't) kobj \<Rightarrow> int option action" where
  "reconcile_writer_release own x =
     (if own_epoch own (status x) < 1 \<or> own_released own (status x) then ret None
      else bind_io (all_quiet (own_quiet own x)) (\<lambda>quiet.
        if \<not> quiet then ret (Some 2)
        else (case owner_grant own x of
            Inl e \<Rightarrow> raise e
          | Inr grant \<Rightarrow> bind_io (gets clock) (\<lambda>now.
              seq_io (release_workspace_writer (namespace_of x) grant now)
                (let x' = x\<lparr>status := own_record own (own_lease own (status x)) (own_epoch own (status x)) True (status x)\<rparr>
                 in seq_io (own_save own x')
                   (seq_io (own_event own x' ''WorkspaceWriterReleased'' ''release'' (grant_lease grant) ''released''
                        (writer_epoch_reason grant)) (ret None)))))))"

definition delete_writer_workloads :: "('s, 't) writer_owner \<Rightarrow> ('s, 't) kobj \<Rightarrow> unit action" where
  "delete_writer_workloads own x = each_io (ignoring NotFound) (own_drop own x)"

definition writer_finalizer :: string where
  "writer_finalizer = ''sovereign-ai.io/workspace-writer-release''"

definition without_finalizer :: "('s, 't) kobj \<Rightarrow> ('s, 't) kobj" where
  "without_finalizer x = x\<lparr>meta := (meta x)\<lparr>finalizers := filter (\<lambda>f. f \<noteq> writer_finalizer) (finalizers (meta x))\<rparr>\<rparr>"

definition finalize_writer :: "('s, 't) writer_owner \<Rightarrow> ('s, 't) kobj \<Rightarrow> int option action" where
  "finalize_writer own x =
     (if writer_finalizer \<notin> set (finalizers (meta x)) then ret None
      else seq_io (delete_writer_workloads own x)
       (bind_io (all_quiet (own_quiet own x)) (\<lambda>quiet.
          if \<not> quiet then ret (Some 2)
          else seq_io (if own_epoch own (status x) > 0 \<and> \<not> own_released own (status x)
              then (case owner_grant own x of
                  Inl e \<Rightarrow> raise e
                | Inr grant \<Rightarrow> bind_io (gets clock) (\<lambda>now. release_workspace_writer (namespace_of x) grant now))
              else ret ())
           (bind_io (k_update (own_kind own) (without_finalizer x)) (\<lambda>_. ret None)))))"

subsection \<open>What the workloads are\<close>

definition plain_job :: job_spec where
  "plain_job = \<lparr>job_podLabels = [], job_podAnnotations = [], job_pod = plain_pod, job_backoffLimit = None,
     job_activeDeadlineSeconds = None, job_ttlSecondsAfterFinished = None\<rparr>"

definition delete_pod :: "string \<Rightarrow> string \<Rightarrow> unit action" where
  "delete_pod ns n = k_delete Pods \<lparr>meta = new_meta ns n [] None, spec = plain_pod, status = new_pod_status\<rparr>"

definition delete_job :: "string \<Rightarrow> string \<Rightarrow> unit action" where
  "delete_job ns n = k_delete Jobs \<lparr>meta = new_meta ns n [] None, spec = plain_job, status = new_job_status\<rparr>"

subsection \<open>Writes keep what is known of other kinds\<close>

definition untouched :: "('s, 't) kind \<Rightarrow> (cluster \<Rightarrow> bool) \<Rightarrow> bool" where
  "untouched K I \<longleftrightarrow> (\<forall>f w. I w \<longrightarrow> I (upd_items K f w))"

definition uncounted :: "(cluster \<Rightarrow> bool) \<Rightarrow> bool" where
  "uncounted I \<longleftrightarrow> (\<forall>n w. I w \<longrightarrow> I (w\<lparr>next_uid := n\<rparr>))"

lemma untouched_conj [intro]: "untouched K I \<Longrightarrow> untouched K J \<Longrightarrow> untouched K (\<lambda>w. I w \<and> J w)"
  by (simp add: untouched_def)

lemma uncounted_conj [intro]: "uncounted I \<Longrightarrow> uncounted J \<Longrightarrow> uncounted (\<lambda>w. I w \<and> J w)"
  by (simp add: uncounted_def)

context observed_fact begin

lemma keeps_writes:
  "untouched K I \<Longrightarrow> keeps I (k_update K x)" "untouched K I \<Longrightarrow> keeps I (k_update_status K x)"
  "untouched K I \<Longrightarrow> keeps I (k_delete K x)" "untouched K I \<Longrightarrow> uncounted I \<Longrightarrow> keeps I (k_create K x)"
  by (auto intro!: keeps_update keeps_update_status keeps_delete keeps_create faults_stable simp: untouched_def uncounted_def)

lemma keeps_gets_clock: "keeps I (gets f)"
  by (rule triple_intros)

lemma keeps_acquire:
  "untouched WriterLeases I \<Longrightarrow> keeps I (acquire_workspace_writer flow leaseName kind x expected now)"
  unfolding acquire_workspace_writer_def
  by (auto intro!: keeps_intros keeps_writes split: sum.split acquire_outcome.split)

lemma keeps_release: "untouched WriterLeases I \<Longrightarrow> keeps I (release_workspace_writer ns grant now)"
  unfolding release_workspace_writer_def by (auto intro!: keeps_intros keeps_writes split: sum.split option.split)

lemma keeps_quiescent: "keeps I (pod_writer_quiescent ns n)" "keeps I (job_writer_quiescent ns n)"
  unfolding pod_writer_quiescent_def job_writer_quiescent_def by (auto intro!: keeps_intros)

lemma keeps_all_quiet: "(\<And>q. q \<in> set qs \<Longrightarrow> keeps I q) \<Longrightarrow> keeps I (all_quiet qs)"
  by (induction qs) (auto intro!: keeps_intros)

lemma keeps_drops: "untouched Pods I \<Longrightarrow> keeps I (delete_pod ns n)" "untouched Jobs I \<Longrightarrow> keeps I (delete_job ns n)"
  unfolding delete_pod_def delete_job_def by (auto intro!: keeps_writes)

end

subsection \<open>A granted term\<close>

text \<open>The cluster shows \<open>x\<close> as the holder of the workflow's writer lease at the epoch of the grant.\<close>

definition holds_term :: "string \<Rightarrow> ('s, 't) kobj \<Rightarrow> ('a, 'b) kobj \<Rightarrow> writer_grant \<Rightarrow> cluster \<Rightarrow> bool" where
  "holds_term kind x flow grant w \<longleftrightarrow> (\<exists>lease. find_by obj_key (namespace_of flow, grant_lease grant) (writer_leases w) = Some lease
     \<and> workspace_writer_identity kind x = Inr (grant_holder grant) \<and> current_holder lease = grant_holder grant
     \<and> current_epoch lease = grant_epoch grant \<and> is_controlled_by lease flow)"

lemma observed_term [intro]: "observed_fact (holds_term kind x flow grant)"
  by unfold_locales (simp_all add: holds_term_def)

lemma acquire_decision_lease:
  "acquire_decision flow leaseName holder expected now lease = Inr (Settled grant st) \<Longrightarrow> grant_lease grant = leaseName"
  "acquire_decision flow leaseName holder expected now lease = Inr (Swap l grant) \<Longrightarrow> grant_lease grant = leaseName"
  by (auto simp: acquire_decision_def Let_def split: if_splits)

lemma acquire_names_lease:
  assumes "acquire_workspace_writer flow leaseName kind x expected now w = (Inr (grant, st), w')"
  shows "grant_lease grant = leaseName"
proof (cases "workspace_writer_identity kind x")
  case (Inr holder)
  from assms [unfolded acquire_workspace_writer_def Inr sum.case, THEN retry_on_conflict_resultD]
  show ?thesis
    by (auto simp: ret_def raise_def elim!: bind_io_result dest: acquire_decision_lease split: sum.splits acquire_outcome.splits)
qed (use assms in \<open>simp add: acquire_workspace_writer_def raise_def\<close>)

lemma acquire_triple:
  assumes "observed_fact I" and "untouched WriterLeases I"
  shows "triple I (acquire_workspace_writer flow leaseName kind x expected now)
     (\<lambda>r w. case r of (grant, st) \<Rightarrow> I w \<and> (st = WorkspaceWriterGranted \<longrightarrow> holds_term kind x flow grant w)) (\<lambda>_. I)"
proof (rule tripleI)
  fix w r w' assume I: "I w" and run: "acquire_workspace_writer flow leaseName kind x expected now w = (Inr r, w')"
  obtain grant st where r: "r = (grant, st)" by fastforce
  have "I w'" by (rule triple_resultD [OF observed_fact.keeps_acquire [OF assms] I run])
  moreover have "holds_term kind x flow grant w'" if st: "st = WorkspaceWriterGranted"
  proof (cases "workspace_writer_identity kind x")
    case (Inl e)
    then show ?thesis using run by (simp add: acquire_workspace_writer_def raise_def)
  next
    case (Inr holder)
    from run [unfolded r st acquire_workspace_writer_def Inr sum.case, THEN retry_on_conflict_resultD]
      acquire_attempt_granted [OF _ join_with_slash_nonempty [OF Inr]]
    have "\<exists>lease. find_by obj_key (namespace_of flow, leaseName) (writer_leases w') = Some lease
       \<and> current_holder lease = holder \<and> current_epoch lease = grant_epoch grant
       \<and> is_controlled_by lease flow \<and> grant_holder grant = holder" by blast
    with Inr acquire_names_lease [OF run [unfolded r]] show ?thesis by (auto simp: holds_term_def)
  qed
  ultimately show "case r of (grant, st) \<Rightarrow> I w' \<and> (st = WorkspaceWriterGranted \<longrightarrow> holds_term kind x flow grant w')" by (simp add: r)
next
  fix w e w' assume "I w" and "acquire_workspace_writer flow leaseName kind x expected now w = (Inl e, w')"
  then show "I w'" by (rule triple_errorD [OF observed_fact.keeps_acquire [OF assms]])
qed

subsection \<open>Quiet workloads\<close>

definition pod_quiet :: "string \<Rightarrow> string \<Rightarrow> cluster \<Rightarrow> bool" where
  "pod_quiet ns n w \<longleftrightarrow> n \<noteq> '''' \<longrightarrow> (case find_by obj_key (ns, n) (pods w) of None \<Rightarrow> True
     | Some pod \<Rightarrow> pod_phase (status pod) = PodSucceeded \<or> pod_phase (status pod) = PodFailed)"

definition job_quiet :: "string \<Rightarrow> string \<Rightarrow> cluster \<Rightarrow> bool" where
  "job_quiet ns n w \<longleftrightarrow> n \<noteq> '''' \<longrightarrow> (case find_by obj_key (ns, n) (jobs w) of None \<Rightarrow> True
     | Some job \<Rightarrow> job_active (status job) = 0 \<and> (job_succeeded (status job) > 0 \<or> job_failed (status job) > 0))"

lemma observed_quiet [intro]: "observed_fact (pod_quiet ns n)" "observed_fact (job_quiet ns n)"
  by (unfold_locales; simp add: pod_quiet_def job_quiet_def)+

lemma quiescent_honest:
  "triple honest (pod_writer_quiescent ns n) (\<lambda>b w. honest w \<and> (b \<longrightarrow> pod_quiet ns n w)) (\<lambda>_. honest)"
  "triple honest (job_writer_quiescent ns n) (\<lambda>b w. honest w \<and> (b \<longrightarrow> job_quiet ns n w)) (\<lambda>_. honest)"
proof -
  have pod: "triple honest (bind_io (attempt_io (k_get Pods ns n)) (\<lambda>r. case r of
          Inl e \<Rightarrow> (if e = NotFound then ret True else raise e)
        | Inr pod \<Rightarrow> ret (pod_phase (status pod) = PodSucceeded \<or> pod_phase (status pod) = PodFailed)))
     (\<lambda>b w. honest w \<and> (b \<longrightarrow> pod_quiet ns n w)) (\<lambda>_. honest)"
    by (rule triple_attempt_bind [OF pod_kind.honest_get])
      (auto simp: triple_def ret_def raise_def pod_quiet_def Pods_def)
  have job: "triple honest (bind_io (attempt_io (k_get Jobs ns n)) (\<lambda>r. case r of
          Inl e \<Rightarrow> (if e = NotFound then ret True else raise e)
        | Inr job \<Rightarrow> ret (job_active (status job) = 0 \<and> (job_succeeded (status job) > 0 \<or> job_failed (status job) > 0))))
     (\<lambda>b w. honest w \<and> (b \<longrightarrow> job_quiet ns n w)) (\<lambda>_. honest)"
    by (rule triple_attempt_bind [OF job_kind.honest_get])
      (auto simp: triple_def ret_def raise_def job_quiet_def Jobs_def)
  show "triple honest (pod_writer_quiescent ns n) (\<lambda>b w. honest w \<and> (b \<longrightarrow> pod_quiet ns n w)) (\<lambda>_. honest)"
    unfolding pod_writer_quiescent_def using pod by (auto simp: triple_def ret_def pod_quiet_def)
  show "triple honest (job_writer_quiescent ns n) (\<lambda>b w. honest w \<and> (b \<longrightarrow> job_quiet ns n w)) (\<lambda>_. honest)"
    unfolding job_writer_quiescent_def using job by (auto simp: triple_def ret_def job_quiet_def)
qed

lemma triple_and:
  "triple P m Q E \<Longrightarrow> keeps I m \<Longrightarrow> triple (\<lambda>w. P w \<and> I w) m (\<lambda>x w. Q x w \<and> I w) (\<lambda>e w. E e w \<and> I w)"
  unfolding triple_def by (fastforce split: prod.splits sum.splits)

text \<open>Two questions in a row: what the first saw still holds.\<close>

lemma both_quiet:
  assumes "triple honest p (\<lambda>b w. honest w \<and> (b \<longrightarrow> A w)) (\<lambda>_. honest)"
    and "triple honest q (\<lambda>b w. honest w \<and> (b \<longrightarrow> B w)) (\<lambda>_. honest)" and "keeps A q"
  shows "triple honest (all_quiet [p, q]) (\<lambda>b w. honest w \<and> (b \<longrightarrow> A w \<and> B w)) (\<lambda>_. honest)"
proof -
  have second: "triple (\<lambda>w. honest w \<and> (a \<longrightarrow> A w)) q (\<lambda>b w. (honest w \<and> (b \<longrightarrow> B w)) \<and> (a \<longrightarrow> A w)) (\<lambda>_. honest)" for a
    by (rule triple_post [OF triple_and [where I = "\<lambda>w. a \<longrightarrow> A w", OF assms(2)]])
      (cases a; use assms(3) in \<open>auto simp: triple_def split: prod.split sum.split\<close>)+
  have last: "triple (\<lambda>w. (honest w \<and> (b \<longrightarrow> B w)) \<and> (a \<longrightarrow> A w)) (bind_io (ret True) (\<lambda>rest. ret (b \<and> rest)))
      (\<lambda>r w. honest w \<and> (a \<and> r \<longrightarrow> A w \<and> B w)) (\<lambda>_. honest)" for a b
    by (auto simp: triple_def ret_def bind_io_def)
  have rest: "triple (\<lambda>w. honest w \<and> (a \<longrightarrow> A w)) (bind_io (all_quiet [q]) (\<lambda>rest. ret (a \<and> rest)))
      (\<lambda>b w. honest w \<and> (b \<longrightarrow> A w \<and> B w)) (\<lambda>_. honest)" for a
  proof (rule triple_bind [where R = "\<lambda>r w. honest w \<and> (a \<and> r \<longrightarrow> A w \<and> B w)"])
    show "triple (\<lambda>w. honest w \<and> (a \<longrightarrow> A w)) (all_quiet [q]) (\<lambda>r w. honest w \<and> (a \<and> r \<longrightarrow> A w \<and> B w)) (\<lambda>_. honest)"
      unfolding all_quiet.simps by (rule triple_bind [OF second last])
  qed (auto simp: triple_def ret_def)
  show ?thesis unfolding all_quiet.simps(2) [of p "[q]"] by (rule triple_bind [OF assms(1) rest])
qed

lemma triple_seq: "triple P m (\<lambda>_. R) E \<Longrightarrow> triple R n Q E \<Longrightarrow> triple P (seq_io m n) Q E"
  unfolding seq_io_def by (rule triple_bind)

lemma triple_ex:
  assumes "\<And>x. triple (P x) m Q E"
  shows "triple (\<lambda>w. \<exists>x. P x w) m Q E"
  by (rule tripleI) (use triple_resultD [OF assms] triple_errorD [OF assms] in blast)+

subsection \<open>Calls under honest reads\<close>

lemma honest_call:
  assumes "\<And>w. faults (snd (m w)) = faults w"
  shows "keeps honest (api_call m)"
proof -
  have "triple honest (api_call m) (\<lambda>x w. honest w \<and> True) (\<lambda>e w. honest w \<and> (e = NotFound \<longrightarrow> True))"
  proof (rule api_call_honest)
    fix w assume "honest w"
    then have "honest (snd (m w))" by (simp add: honest_def assms)
    then show "case m w of (Inl e, w') \<Rightarrow> honest w' \<and> (e = NotFound \<longrightarrow> True) | (Inr x, w') \<Rightarrow> honest w' \<and> True"
      by (auto split: prod.split sum.split)
  qed
  then show ?thesis by simp
qed

lemma honest_record: "keeps honest (record_event e)"
proof -
  have "keeps honest (api_call (\<lambda>w. (Inr (), w\<lparr>audit_log := map_option (mem_append (clock w) e) (audit_log w)\<rparr>)))"
    by (rule honest_call) simp
  then show ?thesis unfolding record_event_def triple_def by (auto split: option.split)
qed

context resource_kind begin

lemma keeps_honest: "keeps honest (k_get K ns n)" "keeps honest (k_update K x)"
  by (rule triple_post [OF honest_get] triple_post [OF honest_update]; simp)+

end

interpretation namespace_kind: resource_kind Namespaces
  by unfold_locales (simp_all add: Namespaces_def)

lemma honest_terminating: "keeps honest (namespace_terminating ns)"
  unfolding namespace_terminating_def by (intro triple_intros namespace_kind.keeps_honest)

subsection \<open>A term that is held\<close>

text \<open>The lease under a key, held by somebody at an epoch.\<close>

definition term_shown :: "string \<times> string \<Rightarrow> string \<Rightarrow> int \<Rightarrow> cluster \<Rightarrow> bool" where
  "term_shown k h e w \<longleftrightarrow> h \<noteq> '''' \<and> (\<exists>lease. find_by obj_key k (writer_leases w) = Some lease \<and> current_holder lease = h
     \<and> current_epoch lease = e)"

lemma observed_shown [intro]: "observed_fact (term_shown k h e)"
  by unfold_locales (simp_all add: term_shown_def)

text \<open>Nobody acquires a lease that is held.\<close>

lemma acquire_keeps_shown:
  "keeps (term_shown k h e) (acquire_workspace_writer flow leaseName kind x expected now)"
proof -
  let ?K = "term_shown k h e" and ?key = "(namespace_of flow, leaseName)"
  have swap: "triple (\<lambda>w. ?K w \<and> seen WriterLeases (namespace_of flow) leaseName lease w) (k_update WriterLeases lease') (\<lambda>_. ?K) (\<lambda>_. ?K)"
    if "current_holder lease = ''''" "meta lease' = meta lease" for lease lease'
  proof (cases "k = ?key")
    case True
    have "\<not> (?K w \<and> seen WriterLeases (namespace_of flow) leaseName lease w)" for w
      using that(1) True by (auto simp: term_shown_def seen_def WriterLeases_def)
    then show ?thesis by (intro tripleI) blast+
  next
    case False
    show ?thesis
    proof (cases "obj_key lease = ?key")
      case True
      have key: "obj_key lease' = ?key" using True obj_key_meta [OF that(2)] by simp
      show ?thesis
      proof (rule writer_lease_kind.update_seen [OF observed_shown key])
        fix w assume K: "?K w"
        have "obj_key (updated_object lease' lease) = ?key" using True by simp
        then show "?K (upd_items WriterLeases (replace_by obj_key ?key (updated_object lease' lease)) w)"
          using K False by (simp add: term_shown_def WriterLeases_def store_simps)
      qed
    next
      case False
      then have "\<not> seen WriterLeases (namespace_of flow) leaseName lease w" for w
        unfolding seen_def using find_by_set by metis
      then show ?thesis by (intro tripleI) blast+
    qed
  qed
  have decide: "triple (\<lambda>w. ?K w \<and> seen WriterLeases (namespace_of flow) leaseName lease w)
     (case acquire_decision flow leaseName holder expected now lease of
              Inl e \<Rightarrow> raise e
            | Inr (Settled grant state) \<Rightarrow> ret (grant, state)
            | Inr (Swap lease' grant) \<Rightarrow> bind_io (k_update WriterLeases lease') (\<lambda>_. ret (grant, WorkspaceWriterGranted)))
     (\<lambda>_. ?K) (\<lambda>_. ?K)" for lease holder
  proof (cases "acquire_decision flow leaseName holder expected now lease")
    case (Inr out)
    then show ?thesis
    proof (cases out)
      case (Swap lease' grant)
      note d = acquire_decision_swap [OF Inr [unfolded Swap]]
      show ?thesis unfolding Inr Swap sum.case acquire_outcome.case
        by (rule triple_bind [OF swap [OF d(1,7)]]) (rule triple_ret)
    qed (simp add: triple_def ret_def)
  qed (simp add: triple_def raise_def)
  show ?thesis unfolding acquire_workspace_writer_def
    by (intro triple_case_sum triple_raise keeps_retry triple_bind [OF writer_lease_kind.get_seen [OF observed_shown] decide])
qed

subsection \<open>The term of an owner\<close>

context resource_kind begin

lemma honest_delete: "keeps honest (k_delete K x)"
  unfolding k_delete_def
  by (rule triple_post [OF api_call_honest [where A = "\<lambda>_. True" and B = "\<lambda>_ _. True"]])
    (auto simp: honest_upd split: option.splits)

end

text \<open>
  The contract of an owner: saving and recording touch only its own kind and the audit log, its
  deletions only Pods and Jobs, and when every question is answered with yes, under reads that
  report nothing absent that is there, its workloads are \<open>calm\<close>.
\<close>

locale term_owner =
  fixes own :: "('s, 't) writer_owner" and calm :: "('s, 't) kobj \<Rightarrow> cluster \<Rightarrow> bool"
  assumes keeps_save: "observed_fact I \<Longrightarrow> untouched (own_kind own) I \<Longrightarrow> keeps I (own_save own x)"
    and keeps_own_event: "observed_fact I \<Longrightarrow> keeps I (own_event own x a b c d e)"
    and keeps_quiet: "observed_fact I \<Longrightarrow> keeps I (all_quiet (own_quiet own x))"
    and keeps_drop: "observed_fact I \<Longrightarrow> untouched Pods I \<Longrightarrow> untouched Jobs I \<Longrightarrow> act \<in> set (own_drop own x) \<Longrightarrow> keeps I act"
    and honest_drop: "act \<in> set (own_drop own x) \<Longrightarrow> keeps honest act"
    and quiet_calm: "triple honest (all_quiet (own_quiet own x)) (\<lambda>b w. honest w \<and> (b \<longrightarrow> calm x w)) (\<lambda>_. honest)"
    and observed_calm: "observed_fact (calm x)"
    and calm_apart: "untouched WriterLeases (calm x)" "untouched (own_kind own) (calm x)"
    and term_apart: "untouched (own_kind own) (holds_term kindName (y :: ('s, 't) kobj) (flow :: workflow) grant)"
    and flow_apart: "untouched (own_kind own) (seen Workflows ns n flow)"
begin

text \<open>A term is granted only when the cluster shows it, and the status records it.\<close>

definition grants_term :: "('s, 't) kobj \<Rightarrow> writer_grant \<times> writer_state \<times> ('s, 't) kobj \<Rightarrow> cluster \<Rightarrow> bool" where
  "grants_term x r w \<longleftrightarrow> (case r of (grant, st, x') \<Rightarrow>
     if st = WorkspaceWriterGranted
     then x' = granted_object own grant x \<and> (\<exists>flow. seen Workflows (namespace_of x) (own_workflow own (spec x)) flow w
       \<and> holds_term (own_kindName own) x flow grant w)
     else x' = x)"

lemma record_term_triple:
  assumes "observed_fact I" and "untouched (own_kind own) I"
  shows "triple I (record_term own grant x) (\<lambda>x' w. I w \<and> x' = granted_object own grant x) (\<lambda>_. I)"
proof -
  have "keeps I (record_term own grant x)"
    unfolding record_term_def Let_def by (intro triple_intros keeps_save keeps_own_event assms)
  moreover have "x' = granted_object own grant x" if "record_term own grant x w = (Inr x', w')" for w x' w'
    using that by (auto simp: record_term_def Let_def seq_io_def ret_def elim!: bind_io_result)
  ultimately show ?thesis unfolding triple_def by (fastforce split: prod.splits sum.splits)
qed

lemma ensure_triple:
  assumes I: "observed_fact I" "untouched WriterLeases I" "untouched (own_kind own) I"
  shows "triple I (ensure_writer own x) (\<lambda>r w. I w \<and> grants_term x r w) (\<lambda>_. I)"
proof -
  let ?F = "\<lambda>flow w. I w \<and> seen Workflows (namespace_of x) (own_workflow own (spec x)) flow w"
  let ?H = "\<lambda>flow grant w. ?F flow w \<and> holds_term (own_kindName own) x flow grant w"
  let ?Q = "\<lambda>r w. I w \<and> grants_term x r w"
  let ?answer = "\<lambda>(grant, state). if state \<noteq> WorkspaceWriterGranted then ret (grant, state, x)
           else bind_io (record_term own grant x) (\<lambda>x'. ret (grant, state, x'))"
  have leases_apart: "untouched WriterLeases (seen Workflows ns n flow)" for ns n flow
    by (simp add: untouched_def seen_def WriterLeases_def Workflows_def)
  have F: "observed_fact (?F flow)" "untouched WriterLeases (?F flow)" "untouched (own_kind own) (?F flow)" for flow
    by (rule observed_conj [OF I(1) workflow_kind.observed_seen] untouched_conj [OF I(2) leases_apart]
        untouched_conj [OF I(3) flow_apart])+
  have H: "observed_fact (?H flow grant)" "untouched (own_kind own) (?H flow grant)" for flow grant
    by (rule observed_conj [OF F(1) observed_term] untouched_conj [OF F(3) term_apart])+
  have granted: "triple (?H flow grant) (bind_io (record_term own grant x) (\<lambda>x'. ret (grant, WorkspaceWriterGranted, x'))) ?Q (\<lambda>_. I)" for flow grant
  proof (rule triple_bind)
    show "triple (?H flow grant) (record_term own grant x) (\<lambda>x' w. ?H flow grant w \<and> x' = granted_object own grant x) (\<lambda>_. I)"
      by (rule triple_post [OF record_term_triple [OF H]]) auto
  qed (auto simp: triple_def ret_def grants_term_def)
  have answer: "triple (\<lambda>w. case r of (grant, st) \<Rightarrow> ?F flow w
       \<and> (st = WorkspaceWriterGranted \<longrightarrow> holds_term (own_kindName own) x flow grant w)) (?answer r) ?Q (\<lambda>_. I)" for flow r
  proof (cases r)
    case (Pair grant st)
    show ?thesis
    proof (cases "st = WorkspaceWriterGranted")
      case True
      with granted [of flow grant] show ?thesis by (simp only: Pair prod.case not_True_eq_False if_False simp_thms)
    next
      case False
      then show ?thesis by (auto simp: Pair triple_def ret_def grants_term_def)
    qed
  qed
  have step: "triple (?F flow) (bind_io (acquire_workspace_writer flow (wf_workspaceWriterLeaseRef (status flow)) (own_kindName own) x
             (own_epoch own (status x)) now) ?answer) ?Q (\<lambda>_. I)" for flow now
    by (rule triple_bind [OF _ answer], rule triple_post [OF acquire_triple [OF F(1,2)]]) auto
  have "triple (?F flow) (bind_io (gets clock) (\<lambda>now. bind_io (acquire_workspace_writer flow
       (wf_workspaceWriterLeaseRef (status flow)) (own_kindName own) x (own_epoch own (status x)) now) ?answer)) ?Q (\<lambda>_. I)" for flow
    by (rule triple_bind [OF triple_post [OF observed_fact.keeps_gets_clock [OF F(1)]] step]) auto
  then show ?thesis unfolding ensure_writer_def
    by (intro triple_bind [OF workflow_kind.get_seen [OF I(1)]] triple_if) (auto simp: triple_def ret_def grants_term_def)
qed

text \<open>The lease changes hands only when the workloads are calm.\<close>

lemma keeps_workloads:
  assumes "observed_fact I" "untouched Pods I" "untouched Jobs I"
  shows "keeps I (delete_writer_workloads own x)"
proof -
  have "keeps I (each_io (ignoring NotFound) acts)" if "set acts \<subseteq> set (own_drop own x)" for acts
    using that by (induction acts) (auto intro!: keeps_seq [OF keeps_ignoring [OF keeps_drop]] triple_ret assms)
  then show ?thesis by (simp add: delete_writer_workloads_def)
qed

lemma honest_workloads: "keeps honest (delete_writer_workloads own x)"
proof -
  have "keeps honest (each_io (ignoring NotFound) acts)" if "set acts \<subseteq> set (own_drop own x)" for acts
    using that by (induction acts) (auto intro!: keeps_seq [OF keeps_ignoring [OF honest_drop]] triple_ret)
  then show ?thesis by (simp add: delete_writer_workloads_def)
qed

lemma quiet_triple:
  assumes "observed_fact K"
  shows "triple (\<lambda>w. honest w \<and> K w) (all_quiet (own_quiet own x)) (\<lambda>b w. K w \<and> (b \<longrightarrow> calm x w)) (\<lambda>_. K)"
  by (rule triple_post [OF triple_and [OF quiet_calm keeps_quiet [OF assms]]]) auto

text \<open>An action taken only when all is quiet, and that keeps it so.\<close>

lemma when_quiet:
  assumes "observed_fact K" and "keeps (calm x) m"
  shows "triple (\<lambda>w. honest w \<and> K w) (bind_io (all_quiet (own_quiet own x)) (\<lambda>quiet. if \<not> quiet then ret later else m))
     (\<lambda>_ w. K w \<or> calm x w) (\<lambda>_ w. K w \<or> calm x w)"
proof (rule triple_bind [where R = "\<lambda>b w. K w \<and> (b \<longrightarrow> calm x w)"])
  show "triple (\<lambda>w. honest w \<and> K w) (all_quiet (own_quiet own x)) (\<lambda>b w. K w \<and> (b \<longrightarrow> calm x w)) (\<lambda>_ w. K w \<or> calm x w)"
    by (rule triple_post [OF quiet_triple [OF assms(1)]]) auto
  fix quiet
  show "triple (\<lambda>w. K w \<and> (quiet \<longrightarrow> calm x w)) (if \<not> quiet then ret later else m) (\<lambda>_ w. K w \<or> calm x w) (\<lambda>_ w. K w \<or> calm x w)"
  proof (cases quiet)
    case True
    then show ?thesis by (auto intro!: triple_post [OF triple_pre [OF assms(2)]])
  qed (simp add: triple_def ret_def)
qed

lemma release_calm:
  assumes "observed_fact K"
  shows "triple (\<lambda>w. honest w \<and> K w) (reconcile_writer_release own x) (\<lambda>_ w. K w \<or> calm x w) (\<lambda>_ w. K w \<or> calm x w)"
proof -
  have "triple (\<lambda>w. honest w \<and> K w) (ret None) (\<lambda>_ w. K w \<or> calm x w) (\<lambda>_ w. K w \<or> calm x w)"
    by (simp add: triple_def ret_def)
  then show ?thesis unfolding reconcile_writer_release_def Let_def
    by (intro triple_if when_quiet assms triple_intros keeps_save keeps_own_event observed_fact.keeps_release observed_calm calm_apart)
qed

lemma finalize_calm:
  assumes K: "observed_fact K" "untouched Pods K" "untouched Jobs K"
  shows "triple (\<lambda>w. honest w \<and> K w) (finalize_writer own x) (\<lambda>_ w. K w \<or> calm x w) (\<lambda>_ w. K w \<or> calm x w)"
proof -
  have "triple (\<lambda>w. honest w \<and> K w) (delete_writer_workloads own x) (\<lambda>_ w. honest w \<and> K w) (\<lambda>_ w. K w \<or> calm x w)"
    by (rule triple_post [OF triple_and [OF honest_workloads keeps_workloads [OF K]]]) auto
  moreover have "triple (\<lambda>w. honest w \<and> K w) (ret None) (\<lambda>_ w. K w \<or> calm x w) (\<lambda>_ w. K w \<or> calm x w)"
    by (simp add: triple_def ret_def)
  moreover have "keeps (calm x) (seq_io (if own_epoch own (status x) > 0 \<and> \<not> own_released own (status x)
              then (case owner_grant own x of
                  Inl e \<Rightarrow> raise e
                | Inr grant \<Rightarrow> bind_io (gets clock) (\<lambda>now. release_workspace_writer (namespace_of x) grant now))
              else ret ())
           (bind_io (k_update (own_kind own) (without_finalizer x)) (\<lambda>_. ret (None :: int option))))"
    by (intro triple_intros observed_fact.keeps_release observed_fact.keeps_writes observed_calm calm_apart)
  ultimately show ?thesis unfolding finalize_writer_def seq_io_def [of "delete_writer_workloads own x"]
    by (intro triple_if triple_bind [where R = "\<lambda>_ w. honest w \<and> K w"] when_quiet K)
qed

text \<open>What the operations keep.\<close>

lemma keeps_reconcile_release:
  "observed_fact I \<Longrightarrow> untouched WriterLeases I \<Longrightarrow> (\<And>y. keeps I (own_save own y)) \<Longrightarrow> keeps I (reconcile_writer_release own x)"
  unfolding reconcile_writer_release_def Let_def
  by (intro triple_intros keeps_quiet keeps_own_event observed_fact.keeps_release; simp)

lemma keeps_finalize:
  "observed_fact I \<Longrightarrow> untouched WriterLeases I \<Longrightarrow> (\<And>y. keeps I (k_update (own_kind own) y))
   \<Longrightarrow> keeps I (delete_writer_workloads own x) \<Longrightarrow> keeps I (finalize_writer own x)"
  unfolding finalize_writer_def
  by (intro triple_intros keeps_quiet observed_fact.keeps_release; simp)

lemma keeps_ensure:
  assumes "observed_fact I" "untouched (own_kind own) I"
    and "\<And>flow l ep now. keeps I (acquire_workspace_writer (flow :: workflow) l (own_kindName own) x ep now)"
  shows "keeps I (ensure_writer own x)"
  unfolding ensure_writer_def record_term_def Let_def
  by (intro triple_intros assms keeps_save keeps_own_event observed_fact.keeps_reads(1))

end

lemma untouched_apart [simp]:
  "untouched AgentRuns (holds_term kind x flow grant)" "untouched AgentRuns (seen Workflows ns n flow)"
  "untouched WriterLeases (seen Workflows ns n flow)" "untouched WriterLeases (seen InferenceLeases ns n l)"
  "untouched AgentRuns (seen InferenceLeases ns n l)"
  "untouched Secrets (holds_term kind x flow grant)" "untouched Secrets (seen Workflows ns n flow)"
  "untouched ConfigMaps (holds_term kind x flow grant)" "untouched ConfigMaps (seen Workflows ns n flow)"
  "untouched Pods (holds_term kind x flow grant)" "untouched Pods (seen Workflows ns n flow)"
  "untouched Jobs (holds_term kind x flow grant)" "untouched Jobs (seen Workflows ns n flow)"
  "uncounted (holds_term kind x flow grant)" "uncounted (seen Workflows ns n flow)"
  by (simp_all add: untouched_def uncounted_def holds_term_def seen_def kind_defs)

end
