(* ===== verification/Collector.thy ===== *)
theory Collector
  imports Writer_Terms
begin

section \<open>Executions and their collectors\<close>

text \<open>
  \<open>internal/controllers/execution_path.go\<close> and \<open>artifactcollector.go\<close>: where an execution keeps its files on
  the workflow's volume, and the objects that collect its result, a Job with an account of its own that
  may create and read Artifacts and nothing else. \<open>getenv\<close> stands for \<open>os.Getenv\<close>.
\<close>

definition execution_control_path :: "string \<Rightarrow> string" where
  "execution_control_path n = ''/workspace/.sovereign/attempts/'' @ n @ ''/control''"

definition execution_staging_path :: "string \<Rightarrow> string" where
  "execution_staging_path n = ''/workspace/.sovereign/attempts/'' @ n @ ''/staging''"

definition execution_result_path :: "string \<Rightarrow> string" where
  "execution_result_path n = execution_control_path n @ ''/result.json''"

definition execution_audit_events_path :: "string \<Rightarrow> string" where
  "execution_audit_events_path n = execution_control_path n @ ''/events.jsonl''"

text \<open>An event whose identity the caller goes on to use; without a recorder it is built all the same.\<close>

definition append_identified_event :: "(string \<Rightarrow> string) \<Rightarrow> string \<Rightarrow> event_options \<Rightarrow> string action" where
  "append_identified_event sha controllerID opts =
     bind_io (gets (\<lambda>w. new_event sha (clock w) (controller_options controllerID (clock w) opts))) (\<lambda>e.
       seq_io (record_event e) (ret (ev_id e)))"

definition primitive_ref :: "string \<Rightarrow> ('s, 't) kobj \<Rightarrow> resource_ref" where
  "primitive_ref kind x = \<lparr>rr_schemaVersion = ''v1'', rr_apiVersion = group_version, rr_kind = kind,
     rr_namespace = namespace_of x, rr_name = name_of x, rr_uid = uid_of x\<rparr>"

subsection \<open>Evidence of established authority\<close>

text \<open>
  \<open>appendExecutionAuthorityEstablished\<close> of the controllers that hold a writer's term, up to the event: what they read and
  the payload they build from it; \<open>noun\<close> is what the texts call the execution.
\<close>

definition current_fence :: "string \<Rightarrow> int \<Rightarrow> string" where
  "current_fence holder epoch = holder @ ''@'' @ show_int epoch"

definition passed :: "string \<Rightarrow> string \<Rightarrow> string \<Rightarrow> string \<Rightarrow> invariant_result" where
  "passed i expected observed reason = \<lparr>inv_schemaVersion = ''v1'', inv_id = i, inv_outcome = ''passed'', inv_expected = expected,
     inv_observed = observed, inv_reason = reason\<rparr>"

definition lease_ref_of :: "writer_lease \<Rightarrow> resource_ref" where
  "lease_ref_of lease = \<lparr>rr_schemaVersion = ''v1'', rr_apiVersion = ''coordination.k8s.io/v1'', rr_kind = ''Lease'',
     rr_namespace = namespace_of lease, rr_name = name_of lease, rr_uid = uid_of lease\<rparr>"

definition authority_payload ::
  "string \<Rightarrow> string \<Rightarrow> ('s, 't) kobj \<Rightarrow> uid_reference \<Rightarrow> string list \<Rightarrow> workflow \<Rightarrow> step_attempt \<Rightarrow> writer_lease \<Rightarrow> writer_grant
    \<Rightarrow> owner_reference \<Rightarrow> authority_established" where
  "authority_payload kind noun x workflowRef capabilities flow attempt lease grant owner = \<lparr>
     au_schemaVersion = ''v1'',
     au_workflow = primitive_ref ''SovereignWorkflow'' flow,
     au_stepAttempt = primitive_ref ''StepAttempt'' attempt,
     au_primitive = primitive_ref kind x,
     au_workspaceWrite = Some \<lparr>wsa_schemaVersion = ''v1'', wsa_lease = lease_ref_of lease, wsa_holderIdentity = grant_holder grant,
       wsa_writerEpoch = grant_epoch grant, wsa_capabilities = capabilities\<rparr>,
     au_invariants = [
       passed ''workflow-uid-bound'' (uid_of flow) (ref_uid workflowRef) (''the '' @ noun @ '' is bound to the admitted workflow''),
       passed ''step-attempt-owns-primitive'' (uid_of attempt) (owner_uid owner) (''the authorized step attempt controls the '' @ noun),
       passed ''workspace-writer-fence-current'' (current_fence (grant_holder grant) (grant_epoch grant))
         (current_fence (current_holder lease) (current_epoch lease)) (''the '' @ noun @ '' holds the current exclusive writer term'')]\<rparr>"

text \<open>The payload of the established authority, refused when what is read does not bear it out.\<close>

definition authority_evidence ::
  "string \<Rightarrow> string \<Rightarrow> ('s, 't) kobj \<Rightarrow> uid_reference \<Rightarrow> string list \<Rightarrow> workflow \<Rightarrow> step_attempt \<Rightarrow> writer_lease \<Rightarrow> writer_grant
    \<Rightarrow> go_error + authority_established" where
  "authority_evidence kind noun x workflowRef capabilities flow attempt lease grant =
     (if uid_of flow = '''' \<or> uid_of attempt = '''' \<or> uid_of x = '''' \<or> uid_of lease = ''''
        then Inl (Invalid ''execution authority evidence requires UIDs'')
      else if uid_of flow \<noteq> ref_uid workflowRef then Inl (Invalid ''workflow UID does not match primitive workflow reference'')
      else (case controller_owner (meta x) of
          None \<Rightarrow> Inl (Invalid ''step attempt does not control primitive'')
        | Some owner \<Rightarrow>
            if owner_uid owner \<noteq> uid_of attempt then Inl (Invalid ''step attempt does not control primitive'')
            else if current_holder lease \<noteq> grant_holder grant \<or> current_epoch lease \<noteq> grant_epoch grant
              then Inl (Invalid ''workspace writer grant is no longer current'')
            else Inr (authority_payload kind noun x workflowRef capabilities flow attempt lease grant owner)))"

text \<open>What they read for it, in their order.\<close>

definition read_authority ::
  "string \<Rightarrow> string \<Rightarrow> ('s, 't) kobj \<Rightarrow> uid_reference \<Rightarrow> string \<Rightarrow> string list \<Rightarrow> writer_grant \<Rightarrow> authority_established action" where
  "read_authority kind noun x workflowRef attemptRef capabilities grant =
     bind_io (k_get Workflows (namespace_of x) (ref_name workflowRef)) (\<lambda>flow.
     bind_io (k_get StepAttempts (namespace_of x) attemptRef) (\<lambda>attempt.
     bind_io (k_get WriterLeases (namespace_of x) (grant_lease grant)) (\<lambda>lease.
       case authority_evidence kind noun x workflowRef capabilities flow attempt lease grant of
         Inl e \<Rightarrow> raise e | Inr payload \<Rightarrow> ret payload)))"

definition recording :: "bool action" where
  "recording = gets (\<lambda>w. audit_log w \<noteq> None)"

subsection \<open>artifactcollector.go\<close>

definition collector_name :: "('s, 't) kobj \<Rightarrow> string" where
  "collector_name owner = name_of owner @ ''-collector''"

definition collector_job_name :: "('s, 't) kobj \<Rightarrow> string" where
  "collector_job_name owner = name_of owner @ ''-collect''"

definition collector_audit_env :: "(string \<Rightarrow> string) \<Rightarrow> (string \<times> string) list" where
  "collector_audit_env getenv = map (\<lambda>n. (n, getenv n))
     (filter (\<lambda>n. getenv n \<noteq> '''') [''SOVEREIGN_AUDIT_DSN'', ''SOVEREIGN_AUDIT_REQUIRED''])"

text \<open>The StepAttempt that controls the owner, as the grant the producer acts under.\<close>

definition producer_grant :: "('s, 't) kobj \<Rightarrow> string \<times> string" where
  "producer_grant owner = (case controller_owner (meta owner) of
       None \<Rightarrow> ('''', '''')
     | Some r \<Rightarrow> if owner_kind r = ''StepAttempt'' then (owner_name r, owner_uid r) else ('''', ''''))"

definition collector_account :: "string \<Rightarrow> ('s, 't) kobj \<Rightarrow> service_account" where
  "collector_account kind owner = \<lparr>meta = new_meta (namespace_of owner) (collector_name owner) [] (Some (owner_ref_of kind owner)),
     spec = Some True, status = ()\<rparr>"

definition collector_role :: "string \<Rightarrow> ('s, 't) kobj \<Rightarrow> role" where
  "collector_role kind owner = \<lparr>meta = new_meta (namespace_of owner) (collector_name owner) [] (Some (owner_ref_of kind owner)),
     spec = [\<lparr>rule_apiGroups = [''aim.sovereign.io''], rule_resources = [''artifacts''], rule_verbs = [''create'', ''get'']\<rparr>],
     status = ()\<rparr>"

definition collector_binding :: "string \<Rightarrow> ('s, 't) kobj \<Rightarrow> role_binding" where
  "collector_binding kind owner = \<lparr>meta = new_meta (namespace_of owner) (collector_name owner) [] (Some (owner_ref_of kind owner)),
     spec = \<lparr>rb_subjects = [(''ServiceAccount'', collector_name owner, namespace_of owner)],
       rb_roleRef = (''rbac.authorization.k8s.io'', ''Role'', collector_name owner)\<rparr>, status = ()\<rparr>"

definition collector_args :: "string \<Rightarrow> ('s, 't) kobj \<Rightarrow> workflow \<Rightarrow> string list" where
  "collector_args kind owner flow = [''--namespace'', namespace_of owner, ''--workflow'', name_of flow,
     ''--workflowuid'', uid_of flow, ''--attempt'', name_of owner, ''--producer-kind'', kind,
     ''--producer-api-version'', group_version, ''--producer-uid'', uid_of owner,
     ''--producer-grant'', fst (producer_grant owner), ''--producer-grant-uid'', snd (producer_grant owner),
     ''--result'', execution_result_path (name_of owner), ''--staging'', execution_staging_path (name_of owner),
     ''--artifact-store'', ''/workspace/.sovereign/artifacts'', ''--audit-events'', execution_audit_events_path (name_of owner),
     ''--source-revision'', wf_definitionRevision (spec flow)]"

definition collector_job :: "(string \<Rightarrow> string) \<Rightarrow> string \<Rightarrow> ('s, 't) kobj \<Rightarrow> workflow \<Rightarrow> string \<Rightarrow> writer_grant \<Rightarrow> job" where
  "collector_job getenv kind owner flow img grant =
     \<lparr>meta = (new_meta (namespace_of owner) (collector_job_name owner) [] (Some (owner_ref_of kind owner)))
        \<lparr>annotations := workspace_writer_annotations grant\<rparr>,
      spec = plain_job\<lparr>job_backoffLimit := Some 0, job_podAnnotations := workspace_writer_annotations grant,
        job_pod := plain_pod\<lparr>pod_restartPolicy := ''Never'', pod_serviceAccountName := collector_name owner,
          pod_security := Some workspace_workload_security_context,
          pod_containers := [(plain_container ''collector'' img)\<lparr>
            ctr_args := collector_args kind owner flow,
            ctr_env := collector_audit_env getenv @ workspace_writer_env grant,
            ctr_mounts := [\<lparr>vm_name = ''workspace'', vm_path = ''/workspace'', vm_readOnly = False\<rparr>]\<rparr>],
          pod_volumes := [(''workspace'', ClaimVolume (wf_pvcName (status flow)))]\<rparr>\<rparr>,
      status = new_job_status\<rparr>"

text \<open>The loop of the callers: what already exists is left as it is.\<close>

definition create_missing :: "('s, 't) kind \<Rightarrow> ('s, 't) kobj \<Rightarrow> unit action" where
  "create_missing K x = ignoring AlreadyExists (bind_io (k_create K x) (\<lambda>_. ret ()))"

definition create_collector ::
  "(string \<Rightarrow> string) \<Rightarrow> string \<Rightarrow> ('s, 't) kobj \<Rightarrow> workflow \<Rightarrow> string \<Rightarrow> writer_grant \<Rightarrow> unit action" where
  "create_collector getenv kind owner flow img grant =
     seq_io (create_missing ServiceAccounts (collector_account kind owner))
    (seq_io (create_missing Roles (collector_role kind owner))
    (seq_io (create_missing RoleBindings (collector_binding kind owner))
            (create_missing Jobs (collector_job getenv kind owner flow img grant))))"

subsection \<open>What they touch\<close>

context observed_fact begin

lemma keeps_recording: "keeps I recording"
  unfolding recording_def by (rule triple_intros)

lemma keeps_read_authority: "keeps I (read_authority kind noun x workflowRef attemptRef capabilities grant)"
  unfolding read_authority_def by (auto intro!: keeps_intros split: sum.split)

lemma keeps_identified: "keeps I (append_identified_event sha c opts)"
  unfolding append_identified_event_def by (intro keeps_intros)

lemma keeps_create_missing: "untouched K I \<Longrightarrow> uncounted I \<Longrightarrow> keeps I (create_missing K x)"
  unfolding create_missing_def by (intro keeps_intros keeps_writes)

lemma keeps_create_collector:
  "untouched ServiceAccounts I \<Longrightarrow> untouched Roles I \<Longrightarrow> untouched RoleBindings I \<Longrightarrow> untouched Jobs I \<Longrightarrow> uncounted I
   \<Longrightarrow> keeps I (create_collector getenv kind owner flow img grant)"
  unfolding create_collector_def by (intro keeps_intros keeps_create_missing)

end

subsection \<open>What is new\<close>

text \<open>An object as it was created from another, and collections in which every new object is of one make.\<close>

definition born :: "('s, 't) kobj \<Rightarrow> ('s, 't) kobj \<Rightarrow> bool" where
  "born x y \<longleftrightarrow> obj_key y = obj_key x \<and> spec y = spec x \<and> labels (meta y) = labels (meta x)
     \<and> annotations (meta y) = annotations (meta x) \<and> controller_owner (meta y) = controller_owner (meta x)"

definition only_new :: "('s, 't) kind \<Rightarrow> (string \<times> string) set \<Rightarrow> (('s, 't) kobj \<Rightarrow> bool) \<Rightarrow> cluster \<Rightarrow> bool" where
  "only_new K S P w \<longleftrightarrow> (\<forall>y \<in> set (items K w). obj_key y \<in> S \<or> P y)"

definition keys_of :: "('s, 't) kind \<Rightarrow> cluster \<Rightarrow> (string \<times> string) set" where
  "keys_of K w = obj_key ` set (items K w)"

lemma only_new_start: "only_new K (keys_of K w) P w"
  by (simp add: only_new_def keys_of_def)

lemma only_new_weaken: "only_new K S P w \<Longrightarrow> (\<And>y. P y \<Longrightarrow> Q y) \<Longrightarrow> only_new K S Q w"
  by (auto simp: only_new_def)

context resource_kind begin

lemma observed_only_new [intro]: "observed_fact (only_new K S P)"
  by unfold_locales (simp_all add: only_new_def items_faults items_audit)

lemma uncounted_only_new: "uncounted (only_new K S P)"
  by (simp add: uncounted_def only_new_def items_uid)

text \<open>Creating an object of the make, and deleting any, adds no other.\<close>

lemma create_only_new:
  assumes "observed_fact I" "untouched K I" "uncounted I" and "\<And>y. born x y \<Longrightarrow> P y"
  shows "keeps (\<lambda>w. I w \<and> only_new K S P w) (create_missing K x)"
proof -
  have I: "I (w\<lparr>faults := fs\<rparr>)" if "I w" for fs w using assms(1) that by (rule observed_fact.faults_stable)
  have "keeps (\<lambda>w. I w \<and> only_new K S P w) (k_create K x)" unfolding k_create_def
  proof (rule keeps_api_call)
    fix fs w assume "I w \<and> only_new K S P w"
    then show "I (w\<lparr>faults := fs\<rparr>) \<and> only_new K S P (w\<lparr>faults := fs\<rparr>)" by (simp add: I only_new_def items_faults)
  next
    show "keeps (\<lambda>w. I w \<and> only_new K S P w) (\<lambda>w.
       if find_by obj_key (obj_key x) (items K w) \<noteq> None then (Inl AlreadyExists, w)
       else let y = x\<lparr>meta := (meta x)\<lparr>obj_uid := uid_text (next_uid w), resource_version := 1,
                      generation := 1, creation := clock w\<rparr>\<rparr>
            in (Inr y, (upd_items K (\<lambda>os. os @ [y]) w)\<lparr>next_uid := Suc (next_uid w)\<rparr>))"
      using assms(2,3,4)
      by (intro tripleI) (auto simp: Let_def only_new_def items_upd items_uid untouched_def uncounted_def born_def obj_key_def
          split: if_splits)
  qed
  then show ?thesis unfolding create_missing_def by (intro triple_intros)
qed

lemma delete_only_new:
  assumes "observed_fact I" "untouched K I" and "\<And>y d. P y \<Longrightarrow> P (y\<lparr>meta := (meta y)\<lparr>deletion := d\<rparr>\<rparr>)"
  shows "keeps (\<lambda>w. I w \<and> only_new K S P w) (k_delete K x)"
  unfolding k_delete_def
proof (rule keeps_api_call)
  fix fs w assume "I w \<and> only_new K S P w"
  then show "I (w\<lparr>faults := fs\<rparr>) \<and> only_new K S P (w\<lparr>faults := fs\<rparr>)"
    by (simp add: observed_fact.faults_stable [OF assms(1)] only_new_def items_faults)
next
  have gone: "only_new K S P (upd_items K (filter Q) w)" if "only_new K S P w" for Q w
    using that by (simp add: only_new_def items_upd)
  have mark: "only_new K S P (upd_items K (replace_by obj_key (obj_key x) (cur\<lparr>meta := (meta cur)\<lparr>deletion := d\<rparr>\<rparr>)) w)"
    if "only_new K S P w" "find_by obj_key (obj_key x) (items K w) = Some cur" for w cur d
  proof -
    have "obj_key (cur\<lparr>meta := (meta cur)\<lparr>deletion := d\<rparr>\<rparr>) = obj_key cur" by (simp add: obj_key_def)
    then show ?thesis using that assms(3) find_by_set [OF that(2)]
      by (auto simp: only_new_def items_upd dest!: set_replace_by)
  qed
  show "keeps (\<lambda>w. I w \<and> only_new K S P w) (\<lambda>w. case find_by obj_key (obj_key x) (items K w) of
       None \<Rightarrow> (Inl NotFound, w)
     | Some cur \<Rightarrow>
         if finalizers (meta cur) = [] then (Inr (), upd_items K (filter (\<lambda>o'. obj_key o' \<noteq> obj_key x)) w)
         else (Inr (), upd_items K (replace_by obj_key (obj_key x)
                (cur\<lparr>meta := (meta cur)\<lparr>deletion := (case deletion (meta cur) of None \<Rightarrow> Some (clock w) | Some t \<Rightarrow> Some t)\<rparr>\<rparr>)) w))"
    by (rule tripleI) (use assms(2) gone mark in \<open>auto simp: untouched_def split: option.splits if_splits\<close>)
qed

end

end
