(* ===== verification/Agent_Runs.thy ===== *)
theory Agent_Runs
  imports Collector Workflow_Bootstrap Inference_Lease
begin

section \<open>Agent runs (internal/controllers/agentrun)\<close>

text \<open>
  The controller of AgentRun: \<open>agentrun_controller.go\<close>, \<open>agentrun_inference.go\<close>, \<open>agentrun_build.go\<close> and
  \<open>context_capture.go\<close>. A run launches its pod only once the StepAttempt authorises it, its inputs are
  accepted, its inference lease runs and the workflow's writer lease shows it; the result is collected
  by a Job; the writer's term ends when both are quiet. The functions of Go that take the run by
  pointer and change its status give the changed run back. A result \<open>Inl\<close> of a stage of \<open>Reconcile\<close>
  ends it, with the seconds after which to come back; \<open>Inr\<close> goes on.
\<close>

subsection \<open>The reconciler's configuration\<close>

text \<open>
  What the reconciler is configured with, and what it takes from libraries and the system: SHA-256, the
  JSON encoders of the agent's input and of what is hashed, the decoder of the agent's termination
  message, the environment, the random bytes of the upload token.
\<close>

record agent_env =
  arc_sha :: "string \<Rightarrow> string"
  arc_encodeInput :: "agent_input \<Rightarrow> string"
  arc_encodeDecision :: "agent_run_spec \<times> string \<times> string \<Rightarrow> string"
  arc_decodeError :: "string \<Rightarrow> result_error option"
  arc_getenv :: "string \<Rightarrow> string"
  arc_token :: string
  arc_collectorImage :: string
  arc_mcpImage :: string
  arc_contextAPIAddress :: string
  arc_contextTLSNamespace :: string
  arc_contextTLSSecret :: string

subsection \<open>Events\<close>

definition run_event_options :: "agent_run \<Rightarrow> string \<Rightarrow> string \<Rightarrow> string \<Rightarrow> string \<Rightarrow> string \<Rightarrow> event_data \<Rightarrow> event_options" where
  "run_event_options run eventType act target outcome reason payload = blank_options\<lparr>op_type := eventType,
     op_subject := \<lparr>sub_project = '''', sub_namespace = namespace_of run, sub_workflow = ref_name (run_workflowRef (spec run)),
       sub_step = run_stepName (spec run), sub_attempt = run_attempt (spec run)\<rparr>,
     op_action := act, op_target := target, op_outcome := outcome, op_reason := reason, op_decisionID := decision_id_of payload,
     op_references := [(''agentRun'', name_of run), (''stepAttempt'', run_attemptRef (spec run)), (''pod'', run_podRef (status run)),
       (''collector'', run_collectorJobRef (status run)), (''lease'', run_inferenceLeaseRef (status run)),
       (''workspaceWriterLease'', run_workspaceWriterLeaseRef (status run)),
       (''writerEpoch'', show_int (run_workspaceWriterEpoch (status run)))],
     op_data := payload\<rparr>"

definition append_run_event_with_data ::
  "agent_env \<Rightarrow> agent_run \<Rightarrow> string \<Rightarrow> string \<Rightarrow> string \<Rightarrow> string \<Rightarrow> string \<Rightarrow> event_data \<Rightarrow> string action" where
  "append_run_event_with_data env run eventType act target outcome reason payload =
     append_identified_event (arc_sha env) ''agentrun-controller'' (run_event_options run eventType act target outcome reason payload)"

definition append_run_event :: "agent_env \<Rightarrow> agent_run \<Rightarrow> string \<Rightarrow> string \<Rightarrow> string \<Rightarrow> string \<Rightarrow> string \<Rightarrow> unit action" where
  "append_run_event env run eventType act target outcome reason =
     bind_io (append_run_event_with_data env run eventType act target outcome reason NoData) (\<lambda>_. ret ())"

subsection \<open>Status updates\<close>

definition update_run_status ::
  "string \<Rightarrow> string \<Rightarrow> (int \<Rightarrow> agent_run \<Rightarrow> agent_run option) \<Rightarrow> (agent_run \<times> bool) action" where
  "update_run_status ns n mutate = retry_on_conflict (
     bind_io (k_get AgentRuns ns n) (\<lambda>latest.
     bind_io (gets clock) (\<lambda>now. case mutate now latest of
         None \<Rightarrow> ret (latest, False)
       | Some latest' \<Rightarrow> bind_io (k_update_status AgentRuns latest') (\<lambda>updated. ret (updated, True)))))"

definition run_phase_mutation ::
  "agent_run_status \<Rightarrow> resource_phase \<Rightarrow> string \<Rightarrow> string \<Rightarrow> int \<Rightarrow> agent_run \<Rightarrow> agent_run option" where
  "run_phase_mutation run phase reason message now latest =
     (let st = status latest
      in if run_phase st = phase \<and> (case find_condition (run_conditions st) ''Ready'' of
              None \<Rightarrow> False | Some c \<Rightarrow> cond_reason c = reason \<and> cond_message c = message) then None
         else Some (latest\<lparr>status := st\<lparr>run_phase := phase, run_podRef := run_podRef run,
             run_collectorJobRef := run_collectorJobRef run, run_inferenceLeaseRef := run_inferenceLeaseRef run,
             run_workspaceWriterLeaseRef := run_workspaceWriterLeaseRef run,
             run_workspaceWriterEpoch := run_workspaceWriterEpoch run,
             run_workspaceWriterReleased := run_workspaceWriterReleased run,
             run_failureReason := run_failureReason run, run_failureMessage := run_failureMessage run,
             run_retryable := run_retryable run, run_observedGeneration := generation (meta latest),
             run_startedAt := (if phase = PhaseRunning \<and> run_startedAt st = None then Some now else run_startedAt st),
             run_completedAt := (if is_terminal phase then Some now else run_completedAt st),
             run_conditions := set_condition \<lparr>cond_type = ''Ready'', cond_status = condition_status_of phase,
               cond_reason = reason, cond_message = message, cond_generation = generation (meta latest)\<rparr>
               (run_conditions st)\<rparr>\<rparr>))"

definition set_run_phase :: "agent_env \<Rightarrow> agent_run \<Rightarrow> resource_phase \<Rightarrow> string \<Rightarrow> string \<Rightarrow> unit action" where
  "set_run_phase env run phase reason message =
     bind_io (update_run_status (namespace_of run) (name_of run) (run_phase_mutation (status run) phase reason message))
       (\<lambda>(updated, changed). if \<not> changed then ret ()
         else append_run_event env updated (''AgentRun'' @ phase_text phase) ''reconcile'' (name_of updated) (phase_text phase) reason)"

definition failed_run :: "string \<Rightarrow> bool \<Rightarrow> agent_run \<Rightarrow> agent_run" where
  "failed_run reason retryable run = run\<lparr>status := (status run)\<lparr>run_failureReason := reason, run_retryable := retryable\<rparr>\<rparr>"

definition fail_run :: "agent_env \<Rightarrow> agent_run \<Rightarrow> string \<Rightarrow> bool \<Rightarrow> unit action" where
  "fail_run env run reason retryable = set_run_phase env (failed_run reason retryable run) PhaseFailed reason
     (if run_failureMessage (status run) = '''' then ''agent run failed'' else run_failureMessage (status run))"

definition interrupt_run :: "agent_env \<Rightarrow> agent_run \<Rightarrow> string \<Rightarrow> bool \<Rightarrow> unit action" where
  "interrupt_run env run reason retryable =
     set_run_phase env (failed_run reason retryable run) PhaseInterrupted reason ''agent run interrupted''"

definition run_fields_mutation :: "agent_run_status \<Rightarrow> int \<Rightarrow> agent_run \<Rightarrow> agent_run option" where
  "run_fields_mutation run now latest =
     (let st = status latest
      in if run_inferenceLeaseRef st = run_inferenceLeaseRef run \<and> run_workspaceWriterLeaseRef st = run_workspaceWriterLeaseRef run
            \<and> run_workspaceWriterEpoch st = run_workspaceWriterEpoch run
            \<and> run_workspaceWriterReleased st = run_workspaceWriterReleased run then None
         else Some (latest\<lparr>status := st\<lparr>run_inferenceLeaseRef := run_inferenceLeaseRef run,
             run_workspaceWriterLeaseRef := run_workspaceWriterLeaseRef run,
             run_workspaceWriterEpoch := run_workspaceWriterEpoch run,
             run_workspaceWriterReleased := run_workspaceWriterReleased run,
             run_observedGeneration := generation (meta latest)\<rparr>\<rparr>))"

definition update_run_fields :: "agent_run \<Rightarrow> unit action" where
  "update_run_fields run =
     bind_io (update_run_status (namespace_of run) (name_of run) (run_fields_mutation (status run))) (\<lambda>_. ret ())"

subsection \<open>The writer's term of a run\<close>

definition run_owner :: "agent_env \<Rightarrow> (agent_run_spec, agent_run_status) writer_owner" where
  "run_owner env = \<lparr>own_kind = AgentRuns, own_kindName = ''AgentRun'', own_workflow = \<lambda>s. ref_name (run_workflowRef s),
     own_lease = run_workspaceWriterLeaseRef, own_epoch = run_workspaceWriterEpoch, own_released = run_workspaceWriterReleased,
     own_record = \<lambda>lease epoch released st. st\<lparr>run_workspaceWriterLeaseRef := lease, run_workspaceWriterEpoch := epoch,
       run_workspaceWriterReleased := released\<rparr>,
     own_save = update_run_fields,
     own_event = append_run_event env,
     own_quiet = \<lambda>run. [pod_writer_quiescent (namespace_of run) (name_of run),
       job_writer_quiescent (namespace_of run) (collector_job_name run)],
     own_drop = \<lambda>run. [delete_pod (namespace_of run) (name_of run), delete_job (namespace_of run) (collector_job_name run)]\<rparr>"

subsection \<open>agentrun_inference.go\<close>

definition with_annotation :: "string \<Rightarrow> string \<Rightarrow> ('s, 't) kobj \<Rightarrow> ('s, 't) kobj" where
  "with_annotation k v x = x\<lparr>meta := (meta x)\<lparr>annotations := (k, v) # filter (\<lambda>(j, _). j \<noteq> k) (annotations (meta x))\<rparr>\<rparr>"

definition request_lease_release :: "string \<Rightarrow> string \<Rightarrow> string \<Rightarrow> bool action" where
  "request_lease_release ns n reason = retry_on_conflict (
     bind_io (k_get InferenceLeases ns n) (\<lambda>latest.
       if go_map_get (annotations (meta latest)) release_annotation \<noteq> '''' then ret False
       else bind_io (k_update InferenceLeases (with_annotation release_annotation reason latest)) (\<lambda>_. ret True)))"

definition reconcile_inference_release :: "agent_env \<Rightarrow> agent_run \<Rightarrow> bool action" where
  "reconcile_inference_release env run =
     (if run_inferenceLeaseRef (status run) = '''' then ret True
      else bind_io (attempt_io (k_get InferenceLeases (namespace_of run) (run_inferenceLeaseRef (status run)))) (\<lambda>res. case res of
          Inl e \<Rightarrow> (if e = NotFound then ret True else raise e)
        | Inr lease \<Rightarrow>
            if is_terminal (il_phase (status lease)) then ret True
            else (let reason = (if deletion (meta run) \<noteq> None then ''AgentRunDeleted''
                                else ''AgentRun'' @ phase_text (run_phase (status run)))
              in bind_io (request_lease_release (namespace_of run) (run_inferenceLeaseRef (status run)) reason) (\<lambda>requested.
                seq_io (if requested then append_run_event env run ''InferenceLeaseReleaseRequested'' ''release'' (name_of lease)
                    ''requested'' reason else ret ()) (ret False)))))"

definition fresh_lease_status :: lease_status where
  "fresh_lease_status = \<lparr>il_observedGeneration = 0, il_phase = NoPhase, il_endpointRef = \<lparr>ns_namespace = '''', ns_name = ''''\<rparr>,
     il_endpointURL = '''', il_decisionID = '''', il_reason = '''', il_conditions = []\<rparr>"

definition run_lease_name :: "agent_run \<Rightarrow> string" where
  "run_lease_name run = name_of run @ ''-inference''"

definition requested_lease :: "agent_run \<Rightarrow> workflow \<Rightarrow> inference_request_spec \<Rightarrow> inference_lease" where
  "requested_lease run flow req = \<lparr>meta = new_meta (namespace_of run) (run_lease_name run) [] (Some (owner_ref_of ''AgentRun'' run)),
     spec = \<lparr>il_workflowRef = recovery_uid flow, il_attemptRef = run_attemptRef (spec run),
       il_projectRef = ref_name (wf_project (spec flow)), il_tenant = ref_name (wf_project (spec flow)),
       il_classification = wf_classification (spec flow), il_sharingScope = ir_sharingScope req, il_model = ir_model req,
       il_modelRevision = ir_modelRevision req, il_estimatedKVRAMMiB = ir_estimatedKVRAMMiB req, il_priority = ir_priority req,
       il_evictable = ir_evictable req\<rparr>,
     status = fresh_lease_status\<rparr>"

definition with_lease_ref :: "agent_run \<Rightarrow> agent_run" where
  "with_lease_ref run = run\<lparr>status := (status run)\<lparr>run_inferenceLeaseRef := run_lease_name run\<rparr>\<rparr>"

definition ensure_lease :: "agent_env \<Rightarrow> agent_run \<Rightarrow> inference_request_spec \<Rightarrow> (inference_lease \<times> agent_run) action" where
  "ensure_lease env run req =
     bind_io (attempt_io (k_get InferenceLeases (namespace_of run) (run_lease_name run))) (\<lambda>res. case res of
         Inr lease \<Rightarrow>
           if run_inferenceLeaseRef (status run) \<noteq> run_lease_name run
           then seq_io (update_run_fields (with_lease_ref run)) (ret (lease, with_lease_ref run))
           else ret (lease, run)
       | Inl e \<Rightarrow>
           if e \<noteq> NotFound then raise e
           else bind_io (k_get Workflows (namespace_of run) (ref_name (run_workflowRef (spec run)))) (\<lambda>flow.
             bind_io (k_create InferenceLeases (requested_lease run flow req)) (\<lambda>lease.
               seq_io (update_run_fields (with_lease_ref run))
              (seq_io (append_run_event env (with_lease_ref run) ''InferenceLeaseRequested'' ''request'' (run_lease_name run)
                  ''requested'' '''')
               (ret (lease, with_lease_ref run))))))"

subsection \<open>context_capture.go\<close>

definition hex_text :: "string \<Rightarrow> string" where
  "hex_text bytes = concat (map (\<lambda>c. [hex_digit (of_char c div 16), hex_digit (of_char c mod 16)]) bytes)"

definition trust_certificate :: "secret \<Rightarrow> string" where
  "trust_certificate source = (let ca = go_map_get (sec_data (spec source)) ''ca.crt''
     in if ca = '''' then go_map_get (sec_data (spec source)) ''tls.crt'' else ca)"

definition upload_credential :: "agent_env \<Rightarrow> agent_run \<Rightarrow> string \<Rightarrow> secret" where
  "upload_credential env run ca =
     \<lparr>meta = new_meta (namespace_of run) (context_credential_name (name_of run)) [] (Some (owner_ref_of ''AgentRun'' run)),
      spec = \<lparr>sec_type = '''', sec_immutable = None, sec_data = [(''token'', hex_text (arc_token env)), (''ca.crt'', ca)]\<rparr>,
      status = ()\<rparr>"

definition context_credential :: "agent_env \<Rightarrow> agent_run \<Rightarrow> secret action" where
  "context_credential env run =
     bind_io (attempt_io (k_get Secrets (namespace_of run) (context_credential_name (name_of run)))) (\<lambda>res. case res of
         Inr existing \<Rightarrow> ret existing
       | Inl e \<Rightarrow>
           if e \<noteq> NotFound then raise e
           else bind_io (k_get Secrets (arc_contextTLSNamespace env) (arc_contextTLSSecret env)) (\<lambda>source.
             if trust_certificate source = '''' then raise (Invalid ''context API certificate is missing'')
             else seq_io (create_missing Secrets (upload_credential env run (trust_certificate source)))
               (k_get Secrets (namespace_of run) (context_credential_name (name_of run)))))"

definition ensure_context_capture :: "agent_env \<Rightarrow> agent_run \<Rightarrow> context_capture option action" where
  "ensure_context_capture env run =
     (if arc_contextAPIAddress env = '''' then ret None
      else bind_io (context_credential env run) (\<lambda>existing.
        if \<not> is_controlled_by existing run \<or> length (go_map_get (sec_data (spec existing)) ''token'') \<noteq> 64
           \<or> go_map_get (sec_data (spec existing)) ''ca.crt'' = ''''
        then raise (Invalid ''invalid context upload credential'')
        else ret (Some \<lparr>cc_endpoint = arc_contextAPIAddress env, cc_namespace = namespace_of run, cc_agentRun = name_of run,
          cc_agentRunUID = uid_of run, cc_credentialPath = ''/context-upload/token'', cc_caPath = ''/context-upload/ca.crt''\<rparr>)))"

subsection \<open>agentrun_build.go\<close>

text \<open>\<open>json.Marshal\<close> of a list of strings.\<close>

definition json_strings :: "string list \<Rightarrow> string" where
  "json_strings xs = ''['' @ join_with '','' (map json_quote xs) @ '']''"

definition locked_down :: container_security where
  "locked_down = no_security\<lparr>cs_allowPrivilegeEscalation := Some False, cs_readOnlyRootFilesystem := Some True,
     cs_dropCapabilities := [''ALL'']\<rparr>"

definition mcp_container :: "agent_run \<Rightarrow> string \<Rightarrow> container" where
  "mcp_container run mcpImage = (plain_container ''mcp'' mcpImage)\<lparr>
     ctr_restartPolicy := ''Always'',
     ctr_env := [(''SOVEREIGN_MCP_ADDRESS'', ''127.0.0.1:8080''), (''SOVEREIGN_MCP_REQUIRE_IDENTITY'', ''false''),
       (''SOVEREIGN_AGENT_INPUT'', ''/control/input.json''), (''SOVEREIGN_REPOSITORY_ROOT'', ''/repository''),
       (''SOVEREIGN_WORKSPACE_OVERLAY_ROOT'', execution_staging_path (name_of run) @ ''/overlay'')],
     ctr_security := Some locked_down,
     ctr_mounts := [\<lparr>vm_name = ''workspace'', vm_path = ''/repository'', vm_readOnly = True\<rparr>,
       \<lparr>vm_name = ''workspace'', vm_path = ''/workspace'', vm_readOnly = False\<rparr>,
       \<lparr>vm_name = ''input'', vm_path = ''/control'', vm_readOnly = True\<rparr>]\<rparr>"

definition agent_container :: "agent_run \<Rightarrow> writer_grant \<Rightarrow> container" where
  "agent_container run grant = (plain_container ''agent'' (run_image (spec run)))\<lparr>
     ctr_command := [''/agent-wrapper''],
     ctr_args := [''--input'', ''/control/input.json'', ''--result'', execution_result_path (name_of run)],
     ctr_env := (''SOVEREIGN_AGENT_EXECUTABLE'', json_strings (run_executable (spec run))) # workspace_writer_env grant,
     ctr_security := Some locked_down,
     ctr_mounts := [\<lparr>vm_name = ''workspace'', vm_path = ''/workspace'', vm_readOnly = False\<rparr>,
       \<lparr>vm_name = ''input'', vm_path = ''/control'', vm_readOnly = True\<rparr>]\<rparr>"

definition build_agent_run_pod :: "agent_run \<Rightarrow> string \<Rightarrow> string \<Rightarrow> string \<Rightarrow> writer_grant \<Rightarrow> pod" where
  "build_agent_run_pod run pvcName configName mcpImage grant =
     \<lparr>meta = (new_meta (namespace_of run) (name_of run) [(label_workflow, go_map_get (labels (meta run)) label_workflow),
         (label_step, run_stepName (spec run)), (''sovereign-ai.io/agent-run'', name_of run)] None)
        \<lparr>annotations := workspace_writer_annotations grant\<rparr>,
      spec = plain_pod\<lparr>pod_restartPolicy := ''Never'', pod_automountToken := Some False,
        pod_security := Some workspace_workload_security_context,
        pod_initContainers := [mcp_container run mcpImage], pod_containers := [agent_container run grant],
        pod_volumes := [(''workspace'', ClaimVolume (if pvcName = '''' then ref_name (run_workflowRef (spec run)) @ ''-workspace'' else pvcName)),
          (''input'', ConfigMapVolume configName)]\<rparr>,
      status = new_pod_status\<rparr>"

text \<open>The volume of the upload credential, added to the first container, and the owner reference.\<close>

definition with_context_upload :: "agent_run \<Rightarrow> pod \<Rightarrow> pod" where
  "with_context_upload run pod = pod\<lparr>spec := (spec pod)\<lparr>
     pod_volumes := pod_volumes (spec pod) @ [(''context-upload'', SecretVolume (context_credential_name (name_of run)) [] (Some 288))],
     pod_containers := (case pod_containers (spec pod) of [] \<Rightarrow> []
       | c # cs \<Rightarrow> c\<lparr>ctr_mounts := ctr_mounts c @ [\<lparr>vm_name = ''context-upload'', vm_path = ''/context-upload'', vm_readOnly = True\<rparr>]\<rparr> # cs)\<rparr>\<rparr>"

definition controlled_by :: "string \<Rightarrow> ('s, 't) kobj \<Rightarrow> ('a, 'b) kobj \<Rightarrow> ('a, 'b) kobj" where
  "controlled_by kind owner x = x\<lparr>meta := (meta x)\<lparr>controller_owner := Some (owner_ref_of kind owner)\<rparr>\<rparr>"

subsection \<open>Inputs\<close>

definition artifact_input_of :: "artifact_reference \<Rightarrow> artifact \<Rightarrow> artifact_input" where
  "artifact_input_of requested a = \<lparr>ai_name = ar_name requested, ai_contract = contract_key (art_contract (spec a)),
     ai_digest = art_digest (spec a), ai_path = art_path (spec a)\<rparr>"

definition select_unpinned :: "uid_reference \<Rightarrow> artifact_reference \<Rightarrow> artifact list \<Rightarrow> artifact resolution" where
  "select_unpinned workflowRef requested all =
     (let matchingContract = filter (\<lambda>a. art_workflowRef (spec a) = workflowRef
            \<and> contract_name (art_contract (spec a)) = ar_name requested) all;
          matchingIdentity = filter (\<lambda>a. ar_digest requested = '''' \<or> art_digest (spec a) = ar_digest requested) matchingContract;
          accepted = filter artifact_accepted matchingIdentity;
          rejected = list_ex (\<lambda>a. \<not> artifact_accepted a \<and> art_phase (status a) = PhaseFailed) matchingIdentity;
          pending = list_ex (\<lambda>a. \<not> artifact_accepted a \<and> art_phase (status a) \<noteq> PhaseFailed) matchingIdentity
      in if length accepted > 1 then Rejected ''input artifact resolves to several accepted artifacts''
         else case accepted of a # _ \<Rightarrow> Resolved a
            | [] \<Rightarrow> if pending then Unready
                else if rejected then Rejected ''input artifact was rejected''
                else if ar_digest requested \<noteq> '''' \<and> list_ex artifact_accepted matchingContract
                  then Rejected ''input artifact has no accepted artifact with the digest''
                else Unready)"

text \<open>The loop over the requested inputs; \<open>names\<close> are the names so far.\<close>

fun agent_inputs_loop ::
  "agent_run \<Rightarrow> artifact list \<Rightarrow> string list \<Rightarrow> artifact_reference list \<Rightarrow> artifact_input list resolution action" where
  "agent_inputs_loop run all names [] = ret (Resolved [])"
| "agent_inputs_loop run all names (requested # inputs) =
     (if ar_name requested = '''' then ret (Rejected ''input artifact name is empty'')
      else if List.member names (ar_name requested) then ret (Rejected ''input artifact is declared more than once'')
      else bind_io (if ar_artifactRef requested \<noteq> None
          then resolve_pinned_input (namespace_of run) (run_workflowRef (spec run)) requested
          else ret (select_unpinned (run_workflowRef (spec run)) requested all)) (\<lambda>r. case r of
          Unready \<Rightarrow> ret Unready
        | Rejected reason \<Rightarrow> ret (Rejected reason)
        | Resolved a \<Rightarrow> bind_io (agent_inputs_loop run all (ar_name requested # names) inputs) (\<lambda>rest. case rest of
              Unready \<Rightarrow> ret Unready
            | Rejected reason \<Rightarrow> ret (Rejected reason)
            | Resolved as \<Rightarrow> ret (Resolved (artifact_input_of requested a # as)))))"

definition resolve_agent_inputs :: "agent_run \<Rightarrow> artifact_input list resolution action" where
  "resolve_agent_inputs run =
     (if run_inputs (spec run) = [] then ret (Resolved [])
      else bind_io (k_list Artifacts (namespace_of run)) (\<lambda>all. agent_inputs_loop run all [] (run_inputs (spec run))))"

subsection \<open>The workload\<close>

definition agent_input_of ::
  "agent_run \<Rightarrow> workflow \<Rightarrow> string \<Rightarrow> writer_grant \<Rightarrow> artifact_input list \<Rightarrow> context_capture option \<Rightarrow> agent_input" where
  "agent_input_of run flow endpoint grant inputs capture = \<lparr>
     inp_contextCapture = capture,
     inp_schemaVersion = agent_contract_version,
     inp_workflowID = wf_workflowID (spec flow),
     inp_stepName = run_stepName (spec run),
     inp_attempt = run_attempt (spec run),
     inp_role = run_stepName (spec run),
     inp_responsibility = run_responsibility (spec run),
     inp_inferenceModel = (case run_inference (spec run) of None \<Rightarrow> '''' | Some req \<Rightarrow> ir_model req),
     inp_artifacts = inputs,
     inp_outputs = map (\<lambda>c. \<lparr>ob_name = contract_name c, ob_version = contract_version c, ob_required = True,
       ob_mediaType = ''application/json''\<rparr>) (run_outputContracts (spec run)),
     inp_capabilities = run_capabilities (spec run),
     inp_inferenceEndpoint = endpoint,
     inp_mcpServer = ''http://127.0.0.1:8080/mcp'',
     inp_workspacePath = ''/workspace'',
     inp_stagingPath = execution_staging_path (name_of run),
     inp_controlPath = execution_control_path (name_of run),
     inp_resultPath = execution_result_path (name_of run),
     inp_auditEventsPath = execution_audit_events_path (name_of run),
     inp_retryFeedback = map_option feedback_of (run_priorAttemptRef (spec run)),
     inp_workspaceWrite = \<lparr>wa_leaseName = grant_lease grant, wa_holderIdentity = grant_holder grant, wa_writerEpoch = grant_epoch grant\<rparr>\<rparr>"

definition input_config_name :: "agent_run \<Rightarrow> string" where
  "input_config_name run = name_of run @ ''-input''"

definition input_config :: "agent_env \<Rightarrow> agent_run \<Rightarrow> agent_input \<Rightarrow> config_map" where
  "input_config env run inp = \<lparr>meta = new_meta (namespace_of run) (input_config_name run) [] (Some (owner_ref_of ''AgentRun'' run)),
     spec = \<lparr>cm_immutable = None, cm_data = [(''input.json'', arc_encodeInput env inp)], cm_binaryData = []\<rparr>, status = ()\<rparr>"

definition agent_pod :: "agent_env \<Rightarrow> agent_run \<Rightarrow> workflow \<Rightarrow> writer_grant \<Rightarrow> context_capture option \<Rightarrow> pod" where
  "agent_pod env run flow grant capture =
     (let pod = build_agent_run_pod run (wf_pvcName (status flow)) (input_config_name run) (arc_mcpImage env) grant
      in controlled_by ''AgentRun'' run (if capture \<noteq> None then with_context_upload run pod else pod))"

definition ensure_workload :: "agent_env \<Rightarrow> agent_run \<Rightarrow> string \<Rightarrow> writer_grant \<Rightarrow> artifact_input list \<Rightarrow> unit action" where
  "ensure_workload env run endpoint grant inputs =
     bind_io (k_get Workflows (namespace_of run) (ref_name (run_workflowRef (spec run)))) (\<lambda>flow.
       if uid_of flow \<noteq> ref_uid (run_workflowRef (spec run)) then raise (Invalid ''workflow UID does not match AgentRun workflow reference'')
       else bind_io (ensure_context_capture env run) (\<lambda>capture.
         seq_io (create_missing ConfigMaps (input_config env run (agent_input_of run flow endpoint grant inputs capture)))
          (create_missing Pods (agent_pod env run flow grant capture))))"

subsection \<open>Authorisation events\<close>

definition append_execution_authority :: "agent_env \<Rightarrow> agent_run \<Rightarrow> writer_grant \<Rightarrow> string action" where
  "append_execution_authority env run grant = bind_io recording (\<lambda>on. if \<not> on then ret ''''
     else bind_io (read_authority ''AgentRun'' ''primitive'' run (run_workflowRef (spec run)) (run_attemptRef (spec run))
         (run_capabilities (spec run)) grant) (\<lambda>payload.
       append_run_event_with_data env run ''ExecutionAuthorityEstablished'' ''authorize'' (name_of run) ''established'' ''''
         (AuthorityData payload)))"

definition append_run_inputs_resolved :: "agent_env \<Rightarrow> agent_run \<Rightarrow> artifact_evidence list \<Rightarrow> string action" where
  "append_run_inputs_resolved env run evidence = bind_io recording (\<lambda>on. if \<not> on then ret ''''
     else append_run_event_with_data env run ''InputsResolved'' ''resolve-inputs'' (name_of run) ''resolved'' ''''
       (InputsData (inputs_resolved_payload ''AgentRun'' run evidence)))"

definition run_decision :: "agent_env \<Rightarrow> agent_run \<Rightarrow> string \<Rightarrow> string \<Rightarrow> decision_evaluated" where
  "run_decision env run authorityEvent inputEvent =
     (let inputDigest = digest_bytes (arc_sha env) (arc_encodeDecision env (spec run, authorityEvent, inputEvent));
          lease = (if run_inference (spec run) = None then ''not-required'' else run_inferenceLeaseRef (status run));
          reason = (if run_inference (spec run) = None then ''the primitive does not require an inference lease''
            else ''the requested inference lease was admitted before agent execution'')
      in \<lparr>de_approvalBinding = None, de_schemaVersion = ''v1'', de_primitive = primitive_ref ''AgentRun'' run,
          de_decision = \<lparr>dr_schemaVersion = ''v1'',
            dr_id = deterministic_id (arc_sha env) [''agent-execution-authorization'', uid_of run, inputDigest],
            dr_kind = ''controller'', dr_revision = ''agentrun-execution/v1'', dr_sourceDigest = '''', dr_inputDigest = inputDigest,
            dr_outcome = ''allowed''\<rparr>,
          de_authorityEvent = authorityEvent, de_inputEvent = inputEvent, de_evidenceEvents = [],
          de_invariants = [
            passed ''execution-authority-linked'' authorityEvent authorityEvent ''execution authority was established for this exact primitive'',
            passed ''execution-inputs-linked'' inputEvent inputEvent ''resolved input evidence was recorded before execution'',
            passed ''inference-authority-ready'' lease lease reason]\<rparr>)"

definition append_execution_authorized :: "agent_env \<Rightarrow> agent_run \<Rightarrow> string \<Rightarrow> string \<Rightarrow> unit action" where
  "append_execution_authorized env run authorityEvent inputEvent = bind_io recording (\<lambda>on. if \<not> on then ret ()
     else bind_io (append_run_event_with_data env run ''AgentExecutionAuthorized'' ''authorize-execution'' (name_of run) ''authorized''
       '''' (DecisionData (run_decision env run authorityEvent inputEvent))) (\<lambda>_. ret ()))"

subsection \<open>Collection\<close>

definition run_collector_image :: "agent_env \<Rightarrow> string" where
  "run_collector_image env = (if arc_collectorImage env = '''' then ''sovereign-artifact-collector:dev'' else arc_collectorImage env)"

definition start_run_collection :: "agent_env \<Rightarrow> agent_run \<Rightarrow> unit action" where
  "start_run_collection env run =
     bind_io (k_get Workflows (namespace_of run) (ref_name (run_workflowRef (spec run)))) (\<lambda>flow.
       case owner_grant (run_owner env) run of
         Inl e \<Rightarrow> raise e
       | Inr grant \<Rightarrow> seq_io (create_collector (arc_getenv env) ''AgentRun'' run flow (run_collector_image env) grant)
           (set_run_phase env (run\<lparr>status := (status run)\<lparr>run_collectorJobRef := collector_job_name run\<rparr>\<rparr>) PhaseCollecting
             ''CollectorCreated'' ''agent result collector created''))"

definition reconcile_run_collection :: "agent_env \<Rightarrow> agent_run \<Rightarrow> int option action" where
  "reconcile_run_collection env run =
     bind_io (k_get Jobs (namespace_of run) (run_collectorJobRef (status run))) (\<lambda>job.
       if job_succeeded (status job) > 0 then
         seq_io (if run_failureReason (status run) \<noteq> '''' then fail_run env run (run_failureReason (status run)) (run_retryable (status run))
           else set_run_phase env run PhaseSucceeded ''ArtifactsCollected'' ''agent result and artifacts accepted'') (ret None)
       else if job_failed (status job) > 0 then
         seq_io (if run_failureReason (status run) \<noteq> '''' then fail_run env run (run_failureReason (status run)) (run_retryable (status run))
           else fail_run env run ''ArtifactCollectionFailed'' False) (ret None)
       else ret (Some 2))"

definition default_pod_failure :: "string \<times> string" where
  "default_pod_failure = (''AgentPodFailed'', ''agent pod failed without a valid structured diagnostic'')"

definition agent_pod_failure :: "agent_env \<Rightarrow> pod \<Rightarrow> string \<times> string" where
  "agent_pod_failure env pod =
     (case find (\<lambda>s. cst_name s = ''agent'' \<and> (case cst_terminated s of None \<Rightarrow> False | Some (_, m) \<Rightarrow> m \<noteq> ''''))
         (pod_containerStatuses (status pod)) of
        None \<Rightarrow> default_pod_failure
      | Some s \<Rightarrow> (case arc_decodeError env (case cst_terminated s of None \<Rightarrow> '''' | Some (_, m) \<Rightarrow> m) of
            None \<Rightarrow> default_pod_failure
          | Some detail \<Rightarrow> (let feedback = \<lparr>rf_previousAttemptRef = name_of pod, rf_code = re_code detail,
                rf_message = sanitize_retry_feedback_message (re_message detail)\<rparr>
              in if validate_retry_feedback feedback = None then (rf_code feedback, rf_message feedback) else default_pod_failure)))"

subsection \<open>Reconcile\<close>

definition run_not_deleted :: "agent_env \<Rightarrow> agent_run \<Rightarrow> (int option + agent_run) action" where
  "run_not_deleted env run =
     (if deletion (meta run) \<noteq> None then
        bind_io (reconcile_inference_release env run) (\<lambda>released.
          if \<not> released then ret (Inl (Some 2))
          else bind_io (finalize_writer (run_owner env) run) (\<lambda>r. ret (Inl r)))
      else bind_io (if writer_finalizer \<in> set (finalizers (meta run)) then ret run
            else k_update AgentRuns (add_finalizer writer_finalizer run)) (\<lambda>run.
        bind_io (namespace_terminating (namespace_of run)) (\<lambda>terminating.
          ret (if terminating then Inl None else Inr run))))"

text \<open>The inputs of a run without a pod, and the event that records them.\<close>

definition run_evidence :: "agent_env \<Rightarrow> agent_run \<Rightarrow> (int option + string) action" where
  "run_evidence env run = bind_io recording (\<lambda>on. if \<not> on then ret (Inr '''')
     else bind_io (resolve_artifact_evidence (arc_sha env) (namespace_of run) (run_workflowRef (spec run)) (run_inputs (spec run)))
       (\<lambda>ev. case ev of
           Unready \<Rightarrow> ret (Inl (Some 2))
         | Rejected _ \<Rightarrow> seq_io (fail_run env run ''InvalidArtifactInputs'' False) (ret (Inl None))
         | Resolved evidence \<Rightarrow> bind_io (append_run_inputs_resolved env run evidence) (\<lambda>i. ret (Inr i))))"

definition run_admit_inputs :: "agent_env \<Rightarrow> agent_run \<Rightarrow> (int option + artifact_input list \<times> string) action" where
  "run_admit_inputs env run =
     (if run_podRef (status run) \<noteq> '''' then ret (Inr ([], ''''))
      else bind_io (resolve_agent_inputs run) (\<lambda>r. case r of
          Rejected _ \<Rightarrow> seq_io (fail_run env run ''InvalidArtifactInputs'' False) (ret (Inl None))
        | Unready \<Rightarrow> seq_io (set_run_phase env run PhasePending ''WaitingForArtifactInputs''
              ''waiting for all declared input artifacts to be accepted'') (ret (Inl (Some 2)))
        | Resolved inputs \<Rightarrow> bind_io (run_evidence env run) (\<lambda>e. ret (case e of
              Inl stop \<Rightarrow> Inl stop | Inr inputEvent \<Rightarrow> Inr (inputs, inputEvent)))))"

definition delete_run_pod :: "agent_run \<Rightarrow> unit action" where
  "delete_run_pod run = (if run_podRef (status run) = '''' then ret ()
     else ignoring NotFound (delete_pod (namespace_of run) (run_podRef (status run))))"

definition run_endpoint :: "agent_env \<Rightarrow> agent_run \<Rightarrow> (int option + string \<times> agent_run) action" where
  "run_endpoint env run = (case run_inference (spec run) of
       None \<Rightarrow> ret (Inr ('''', run))
     | Some req \<Rightarrow> bind_io (ensure_lease env run req) (\<lambda>(lease, run). case il_phase (status lease) of
           PhaseInterrupted \<Rightarrow> seq_io (delete_run_pod run) (seq_io (interrupt_run env run (il_reason (status lease)) True) (ret (Inl None)))
         | PhaseFailed \<Rightarrow> seq_io (fail_run env run ''InferenceAdmissionFailed'' True) (ret (Inl None))
         | PhaseRunning \<Rightarrow> ret (Inr (il_endpointURL (status lease), run))
         | _ \<Rightarrow> ret (Inl (Some 2))))"

definition run_writer :: "agent_env \<Rightarrow> agent_run \<Rightarrow> (int option + writer_grant \<times> agent_run) action" where
  "run_writer env run = bind_io (ensure_writer (run_owner env) run) (\<lambda>(grant, state, run). case state of
       WorkspaceWriterBlocked \<Rightarrow>
         if run_podRef (status run) \<noteq> '''' \<or> run_collectorJobRef (status run) \<noteq> ''''
         then seq_io (delete_writer_workloads (run_owner env) run)
           (seq_io (interrupt_run env run ''WorkspaceWriterAuthorityNotEstablished'' True) (ret (Inl None)))
         else seq_io (set_run_phase env run PhasePending ''WorkspaceWriterBlocked'' ''another execution unit holds workspace write authority'')
           (ret (Inl (Some 2)))
     | WorkspaceWriterLost \<Rightarrow> seq_io (delete_writer_workloads (run_owner env) run)
         (seq_io (interrupt_run env run ''WorkspaceWriterAuthorityLost'' True) (ret (Inl None)))
     | WorkspaceWriterGranted \<Rightarrow> ret (Inr (grant, run)))"

definition launch_run :: "agent_env \<Rightarrow> agent_run \<Rightarrow> string \<Rightarrow> writer_grant \<Rightarrow> artifact_input list \<Rightarrow> string \<Rightarrow> unit action" where
  "launch_run env run endpoint grant inputs inputEvent =
     bind_io (append_execution_authority env run grant) (\<lambda>authorityEvent.
       seq_io (append_execution_authorized env run authorityEvent inputEvent)
      (seq_io (ensure_workload env run endpoint grant inputs)
         (set_run_phase env (run\<lparr>status := (status run)\<lparr>run_podRef := name_of run\<rparr>\<rparr>) PhasePreparing ''PodCreated'' ''agent pod created'')))"

definition failed_pod_run :: "agent_env \<Rightarrow> pod \<Rightarrow> agent_run \<Rightarrow> agent_run" where
  "failed_pod_run env pod run = (case agent_pod_failure env pod of (reason, message) \<Rightarrow>
     run\<lparr>status := (status run)\<lparr>run_failureReason := reason, run_failureMessage := message, run_retryable := True\<rparr>\<rparr>)"

definition observe_run :: "agent_env \<Rightarrow> agent_run \<Rightarrow> int option action" where
  "observe_run env run =
     bind_io (attempt_io (k_get Pods (namespace_of run) (run_podRef (status run)))) (\<lambda>res. case res of
         Inl e \<Rightarrow> if e = NotFound then seq_io (interrupt_run env run ''AgentPodLost'' True) (ret None) else raise e
       | Inr pod \<Rightarrow> (case pod_phase (status pod) of
             PodSucceeded \<Rightarrow> seq_io (start_run_collection env run) (ret None)
           | PodFailed \<Rightarrow> seq_io (start_run_collection env (failed_pod_run env pod run)) (ret None)
           | PodRunning \<Rightarrow> seq_io (set_run_phase env run PhaseRunning ''AgentRunning'' ''agent is running'') (ret None)
           | _ \<Rightarrow> ret (Some 2)))"

definition execute_run :: "agent_env \<Rightarrow> agent_run \<Rightarrow> artifact_input list \<Rightarrow> string \<Rightarrow> int option action" where
  "execute_run env run inputs inputEvent =
     bind_io (run_endpoint env run) (\<lambda>r. case r of Inl stop \<Rightarrow> ret stop
     | Inr (endpoint, run) \<Rightarrow> bind_io (run_writer env run) (\<lambda>r. case r of Inl stop \<Rightarrow> ret stop
       | Inr (grant, run) \<Rightarrow>
           if run_podRef (status run) = '''' then seq_io (launch_run env run endpoint grant inputs inputEvent) (ret None)
           else if run_collectorJobRef (status run) \<noteq> '''' then reconcile_run_collection env run
           else observe_run env run))"

definition authorised_run :: "agent_env \<Rightarrow> agent_run \<Rightarrow> int option action" where
  "authorised_run env run =
     bind_io (attempt_io (validate_domain_authority run (run_attemptRef (spec run)) ExecutionKindAgent (run_workflowRef (spec run))
         (run_stepName (spec run)) (run_attempt (spec run)))) (\<lambda>res. case res of
         Inl _ \<Rightarrow> seq_io (fail_run env run ''InvalidStepAttemptAuthority'' False) (ret None)
       | Inr authorized \<Rightarrow> if \<not> authorized then ret (Some 2)
           else bind_io (run_admit_inputs env run) (\<lambda>r. case r of Inl stop \<Rightarrow> ret stop
             | Inr (inputs, inputEvent) \<Rightarrow> execute_run env run inputs inputEvent))"

definition advance_run :: "agent_env \<Rightarrow> agent_run \<Rightarrow> int option action" where
  "advance_run env run =
     (if run_phase (status run) = NoPhase
      then seq_io (set_run_phase env run PhasePending ''Initialized'' ''agent run initialized'') (ret None)
      else if is_terminal (run_phase (status run))
      then bind_io (reconcile_inference_release env run) (\<lambda>released.
        if \<not> released then ret (Some 2) else reconcile_writer_release (run_owner env) run)
      else authorised_run env run)"

definition reconcile_agent_run :: "agent_env \<Rightarrow> string \<Rightarrow> string \<Rightarrow> int option action" where
  "reconcile_agent_run env ns n =
     bind_io (attempt_io (k_get AgentRuns ns n)) (\<lambda>res. case res of
         Inl e \<Rightarrow> if e = NotFound then ret None else raise e
       | Inr run \<Rightarrow> bind_io (run_not_deleted env run) (\<lambda>r. case r of Inl stop \<Rightarrow> ret stop
           | Inr run \<Rightarrow> advance_run env run))"

end
