(* ===== verification/Agent_Authority.thy ===== *)
theory Agent_Authority
  imports Agent_Runs
begin

section \<open>What an agent run may do\<close>

text \<open>
  Facts about the controller of \<open>Agent_Runs\<close>: what its operations touch, that a run's pod appears only
  with authority, accepted inputs, a running inference lease and the writer's term, that the term
  ends only when the run's workloads are quiet, that a terminal phase stays, and that the diagnostic
  of a failed pod can be handed to the next attempt.
\<close>

subsection \<open>What the operations touch\<close>

context observed_fact begin

lemma keeps_run_event: "keeps I (append_run_event_with_data env run t a g o' r d)" "keeps I (append_run_event env run t a g o' r)"
  unfolding append_run_event_with_data_def append_run_event_def by (intro keeps_intros keeps_identified)+

lemma keeps_update_run_status: "untouched AgentRuns I \<Longrightarrow> keeps I (update_run_status ns n mutate)"
  unfolding update_run_status_def by (intro keeps_intros keeps_writes)

lemma keeps_set_run_phase: "untouched AgentRuns I \<Longrightarrow> keeps I (set_run_phase env run phase reason message)"
  unfolding set_run_phase_def by (intro keeps_intros keeps_update_run_status keeps_run_event)

lemma keeps_fail_run:
  "untouched AgentRuns I \<Longrightarrow> keeps I (fail_run env run reason retryable)"
  "untouched AgentRuns I \<Longrightarrow> keeps I (interrupt_run env run reason retryable)"
  unfolding fail_run_def interrupt_run_def by (rule keeps_set_run_phase, assumption)+

lemma keeps_update_run_fields: "untouched AgentRuns I \<Longrightarrow> keeps I (update_run_fields run)"
  unfolding update_run_fields_def by (intro keeps_intros keeps_update_run_status)

lemmas keeps_run_status = keeps_set_run_phase keeps_fail_run keeps_update_run_fields

lemma keeps_inference_release: "untouched InferenceLeases I \<Longrightarrow> keeps I (reconcile_inference_release env run)"
  unfolding reconcile_inference_release_def request_lease_release_def Let_def
  by (intro keeps_intros keeps_writes keeps_run_event)

lemma keeps_context_capture: "untouched Secrets I \<Longrightarrow> uncounted I \<Longrightarrow> keeps I (ensure_context_capture env run)"
  unfolding ensure_context_capture_def context_credential_def
  by (intro keeps_intros keeps_create_missing)

lemma keeps_agent_inputs: "keeps I (agent_inputs_loop run all names inputs)"
  by (induction inputs arbitrary: names) (auto intro!: keeps_intros split: resolution.split)

lemma keeps_resolve_agent_inputs: "keeps I (resolve_agent_inputs run)"
  unfolding resolve_agent_inputs_def by (intro keeps_intros keeps_agent_inputs)

lemma keeps_run_authority:
  "keeps I (append_execution_authority env run grant)" "keeps I (append_execution_authorized env run authorityEvent inputEvent)"
  "keeps I (append_run_inputs_resolved env run evidence)"
  unfolding append_execution_authority_def append_execution_authorized_def append_run_inputs_resolved_def
  by (intro keeps_intros keeps_recording keeps_read_authority keeps_run_event)+

lemma keeps_run_evidence: "untouched AgentRuns I \<Longrightarrow> keeps I (run_evidence env run)"
  unfolding run_evidence_def
  by (auto intro!: keeps_intros keeps_recording keeps_run_authority keeps_run_status split: resolution.split)

lemma keeps_start_collection:
  "untouched AgentRuns I \<Longrightarrow> untouched ServiceAccounts I \<Longrightarrow> untouched Roles I \<Longrightarrow> untouched RoleBindings I \<Longrightarrow> untouched Jobs I
   \<Longrightarrow> uncounted I \<Longrightarrow> keeps I (start_run_collection env run)"
  unfolding start_run_collection_def by (auto intro!: keeps_intros keeps_create_collector keeps_run_status split: sum.split)

lemma keeps_run_collection: "untouched AgentRuns I \<Longrightarrow> keeps I (reconcile_run_collection env run)"
  unfolding reconcile_run_collection_def by (intro keeps_intros keeps_run_status)

lemma keeps_observe_run:
  "untouched AgentRuns I \<Longrightarrow> untouched ServiceAccounts I \<Longrightarrow> untouched Roles I \<Longrightarrow> untouched RoleBindings I \<Longrightarrow> untouched Jobs I
   \<Longrightarrow> uncounted I \<Longrightarrow> keeps I (observe_run env run)"
  unfolding observe_run_def
  by (auto intro!: keeps_intros keeps_start_collection keeps_run_status split: pod_phase.split)

end

subsection \<open>The run as an owner of the writer's term\<close>

text \<open>Quiet are the run's pod and its collector.\<close>

definition run_calm :: "agent_run \<Rightarrow> cluster \<Rightarrow> bool" where
  "run_calm run w \<longleftrightarrow> pod_quiet (namespace_of run) (name_of run) w
     \<and> job_quiet (namespace_of run) (collector_job_name run) w"

lemma run_owner_simps [simp]:
  "own_kind (run_owner env) = AgentRuns" "own_kindName (run_owner env) = ''AgentRun''"
  "own_epoch (run_owner env) = run_workspaceWriterEpoch" "own_save (run_owner env) = update_run_fields"
  "own_event (run_owner env) = append_run_event env" "own_released (run_owner env) = run_workspaceWriterReleased"
  "own_lease (run_owner env) = run_workspaceWriterLeaseRef"
  "own_workflow (run_owner env) s = ref_name (run_workflowRef s)"
  by (simp_all add: run_owner_def)

interpretation agent_owner: term_owner "run_owner env" run_calm for env
proof (rule term_owner.intro)
  fix I :: "cluster \<Rightarrow> bool" and x :: agent_run and a b c d e
  assume I: "observed_fact I"
  show "keeps I (own_event (run_owner env) x a b c d e)"
    using observed_fact.keeps_run_event(2) [OF I] by simp
  show "keeps I (all_quiet (own_quiet (run_owner env) x))"
    by (rule observed_fact.keeps_all_quiet [OF I]) (auto simp: run_owner_def intro: observed_fact.keeps_quiescent [OF I])
next
  fix I :: "cluster \<Rightarrow> bool" and x :: agent_run
  assume "observed_fact I" "untouched (own_kind (run_owner env)) I"
  then show "keeps I (own_save (run_owner env) x)" using observed_fact.keeps_update_run_fields by simp
next
  fix I :: "cluster \<Rightarrow> bool" and x :: agent_run and act
  assume "observed_fact I" "untouched Pods I" "untouched Jobs I" "act \<in> set (own_drop (run_owner env) x)"
  then show "keeps I act" using observed_fact.keeps_drops [of I] by (auto simp: run_owner_def)
next
  fix act and x :: agent_run assume "act \<in> set (own_drop (run_owner env) x)"
  then show "keeps honest act"
    by (auto simp: run_owner_def delete_pod_def delete_job_def pod_kind.honest_delete job_kind.honest_delete)
next
  fix x :: agent_run
  have "keeps (pod_quiet (namespace_of x) (name_of x)) (job_writer_quiescent ns n)" for ns n
    by (rule observed_fact.keeps_quiescent(2) [OF observed_quiet(1)])
  from both_quiet [OF quiescent_honest(1) quiescent_honest(2) this]
  show "triple honest (all_quiet (own_quiet (run_owner env) x)) (\<lambda>b w. honest w \<and> (b \<longrightarrow> run_calm x w)) (\<lambda>_. honest)"
    by (simp add: run_owner_def run_calm_def)
  show "observed_fact (run_calm x)" unfolding run_calm_def by (intro observed_conj observed_quiet)
  show "untouched WriterLeases (run_calm x)" "untouched (own_kind (run_owner env)) (run_calm x)"
    by (simp_all add: untouched_def run_calm_def pod_quiet_def job_quiet_def kind_defs)
qed simp_all

subsection \<open>The inputs that are delivered\<close>

definition agent_match :: "uid_reference \<Rightarrow> artifact_reference \<Rightarrow> artifact \<Rightarrow> bool" where
  "agent_match workflowRef requested a \<longleftrightarrow> art_workflowRef (spec a) = workflowRef
     \<and> contract_name (art_contract (spec a)) = ar_name requested
     \<and> (ar_digest requested = '''' \<or> art_digest (spec a) = ar_digest requested) \<and> artifact_accepted a"

text \<open>The accepted artifact a requested input stands for, alone of its kind where the input is not pinned.\<close>

definition agent_selected :: "cluster \<Rightarrow> agent_run \<Rightarrow> artifact_reference \<Rightarrow> artifact \<Rightarrow> bool" where
  "agent_selected w run requested a \<longleftrightarrow> a \<in> set (artifacts w) \<and> namespace_of a = namespace_of run
     \<and> agent_match (run_workflowRef (spec run)) requested a
     \<and> (case ar_artifactRef requested of
          Some pin \<Rightarrow> name_of a = ref_name pin \<and> uid_of a = ref_uid pin \<and> art_digest (spec a) = ar_digest requested
        | None \<Rightarrow> filter (agent_match (run_workflowRef (spec run)) requested)
            (filter (\<lambda>b. namespace_of b = namespace_of run) (artifacts w)) = [a])"

definition delivered :: "cluster \<Rightarrow> agent_run \<Rightarrow> artifact_input list \<Rightarrow> bool" where
  "delivered w run inputs \<longleftrightarrow> list_all2 (\<lambda>requested i. \<exists>a. agent_selected w run requested a
     \<and> i = artifact_input_of requested a) (run_inputs (spec run)) inputs"

lemma select_unpinned_resolved:
  assumes "select_unpinned workflowRef requested all = Resolved a"
  shows "filter (agent_match workflowRef requested) all = [a]"
proof -
  have same: "filter artifact_accepted (filter (\<lambda>a. ar_digest requested = '''' \<or> art_digest (spec a) = ar_digest requested)
     (filter (\<lambda>a. art_workflowRef (spec a) = workflowRef \<and> contract_name (art_contract (spec a)) = ar_name requested) all))
     = filter (agent_match workflowRef requested) all"
    unfolding filter_filter by (rule filter_cong [OF refl]) (auto simp: agent_match_def)
  have split: "length xs \<le> 1 \<Longrightarrow> xs = b # ys \<Longrightarrow> xs = [b]" for xs ys and b :: artifact by simp
  show ?thesis
    using assms unfolding select_unpinned_def Let_def same
    by (auto split: if_splits list.splits intro!: split)
qed

lemma agent_inputs_resolved:
  "agent_inputs_loop run all names inputs w = (Inr (Resolved ais), w') \<Longrightarrow>
   all = filter (\<lambda>b. namespace_of b = namespace_of run) (artifacts w) \<Longrightarrow>
   list_all2 (\<lambda>requested i. \<exists>a. agent_selected w run requested a \<and> i = artifact_input_of requested a) inputs ais"
proof (induction inputs arbitrary: names w ais w')
  case Nil
  then show ?case by (simp add: ret_def)
next
  case (Cons requested inputs)
  let ?choose = "if ar_artifactRef requested \<noteq> None
          then resolve_pinned_input (namespace_of run) (run_workflowRef (spec run)) requested
          else ret (select_unpinned (run_workflowRef (spec run)) requested all)"
  from Cons.prems(1) obtain a v rest w2 where choose: "?choose w = (Inr (Resolved a), v)"
    and tail: "agent_inputs_loop run all (ar_name requested # names) inputs v = (Inr (Resolved rest), w2)"
    and ais: "ais = artifact_input_of requested a # rest"
    by (auto simp: ret_def [of Unready] ret_def [of "Rejected _"] ret_def [of "Resolved _"] elim!: bind_io_result
        split: if_splits resolution.splits)
  have sel: "agent_selected w run requested a \<and> artifacts v = artifacts w"
  proof (cases "ar_artifactRef requested")
    case None
    with choose have one: "filter (agent_match (run_workflowRef (spec run)) requested) all = [a]" and v: "v = w"
      by (auto simp: ret_def dest: select_unpinned_resolved)
    have "a \<in> set (filter (agent_match (run_workflowRef (spec run)) requested) all)" unfolding one by simp
    then have "a \<in> set all" "agent_match (run_workflowRef (spec run)) requested a" by auto
    with one show ?thesis unfolding Cons.prems(2) v agent_selected_def None by simp
  next
    case (Some pin)
    with choose have run: "resolve_pinned_input (namespace_of run) (run_workflowRef (spec run)) requested w = (Inr (Resolved a), v)" by simp
    show ?thesis using pinned_resolved [OF run Some] Some
      by (auto simp: selected_artifact_def agent_selected_def agent_match_def)
  qed
  have same: "artifacts v = artifacts w" using sel ..
  have "agent_selected v run i b = agent_selected w run i b" for i b unfolding agent_selected_def same ..
  with Cons.IH [OF tail] Cons.prems(2) sel show ?case by (auto simp: ais)
qed

lemma agent_inputs_delivered:
  assumes "resolve_agent_inputs run w = (Inr (Resolved ais), w')"
  shows "delivered w run ais"
proof (cases "run_inputs (spec run) = []")
  case True
  with assms show ?thesis by (simp add: resolve_agent_inputs_def delivered_def ret_def)
next
  case False
  with assms obtain all v where list: "k_list Artifacts (namespace_of run) w = (Inr all, v)"
    and loop: "agent_inputs_loop run all [] (run_inputs (spec run)) v = (Inr (Resolved ais), w')"
    by (auto simp: resolve_agent_inputs_def elim!: bind_io_result)
  have same: "artifacts v = artifacts w" using artifact_kind.list_result(2) [OF list] by auto
  have "all = filter (\<lambda>b. namespace_of b = namespace_of run) (artifacts v)"
    using artifact_kind.list_result(1) [OF list] by (simp add: Artifacts_def same)
  from agent_inputs_resolved [OF loop this] show ?thesis
    unfolding delivered_def agent_selected_def same .
qed

subsection \<open>The facts a launch rests on\<close>

definition same_sources :: "cluster \<Rightarrow> cluster \<Rightarrow> bool" where
  "same_sources w0 w \<longleftrightarrow> step_attempts w = step_attempts w0 \<and> artifacts w = artifacts w0 \<and> workflows w = workflows w0"

lemma observed_same_sources [intro]: "observed_fact (same_sources w0)"
  by unfold_locales (simp_all add: same_sources_def)

definition authorises :: "cluster \<Rightarrow> agent_run \<Rightarrow> bool" where
  "authorises w run \<longleftrightarrow> (\<exists>attempt ref. find_by obj_key (namespace_of run, run_attemptRef (spec run)) (step_attempts w) = Some attempt
     \<and> validate_domain_binding attempt run (run_attemptRef (spec run)) ExecutionKindAgent (run_workflowRef (spec run))
         (run_stepName (spec run)) (run_attempt (spec run)) = None
     \<and> sa_executionRef (status attempt) = Some ref \<and> tl_apiVersion ref = group_version \<and> tl_kind ref = ''AgentRun''
     \<and> tl_name ref = name_of run)"

text \<open>The inference lease of the run, where it needs one, runs.\<close>

definition lease_ready :: "agent_run \<Rightarrow> cluster \<Rightarrow> bool" where
  "lease_ready run w \<longleftrightarrow> run_inference (spec run) = None
     \<or> (\<exists>lease. seen InferenceLeases (namespace_of run) (run_lease_name run) lease w \<and> il_phase (status lease) = PhaseRunning)"

lemma observed_lease_ready [intro]: "observed_fact (lease_ready run)"
  by unfold_locales (simp_all add: lease_ready_def seen_def InferenceLeases_def)

definition no_new_pods :: "cluster \<Rightarrow> cluster \<Rightarrow> bool" where
  "no_new_pods w0 w \<longleftrightarrow> only_new Pods (keys_of Pods w0) (\<lambda>_. False) w"

definition run_base :: "cluster \<Rightarrow> cluster \<Rightarrow> bool" where
  "run_base w0 w \<longleftrightarrow> same_sources w0 w \<and> no_new_pods w0 w"

definition run_ready :: "cluster \<Rightarrow> agent_run \<Rightarrow> cluster \<Rightarrow> bool" where
  "run_ready w0 run w \<longleftrightarrow> run_base w0 w \<and> lease_ready run w"

text \<open>The ground of a launch, and what is launched on it.\<close>

definition launch_ground :: "cluster \<Rightarrow> agent_run \<Rightarrow> workflow \<Rightarrow> writer_grant \<Rightarrow> cluster \<Rightarrow> bool" where
  "launch_ground w0 run flow grant w \<longleftrightarrow> (same_sources w0 w \<and> lease_ready run w)
     \<and> (seen Workflows (namespace_of run) (ref_name (run_workflowRef (spec run))) flow w \<and> holds_term ''AgentRun'' run flow grant w)"

definition launches :: "agent_env \<Rightarrow> cluster \<Rightarrow> agent_run \<Rightarrow> workflow \<Rightarrow> writer_grant \<Rightarrow> cluster \<Rightarrow> bool" where
  "launches env w0 run flow grant w \<longleftrightarrow> launch_ground w0 run flow grant w
     \<and> only_new Pods (keys_of Pods w0) (\<lambda>pod. \<exists>capture. born (agent_pod env run flow grant capture) pod) w"

text \<open>The run goes through the stages with its status changed, and without a pod as long as it had none.\<close>

definition same_run :: "agent_run \<Rightarrow> agent_run \<Rightarrow> bool" where
  "same_run run run' \<longleftrightarrow> (\<exists>st. run' = run\<lparr>status := st\<rparr> \<and> run_podRef st = run_podRef (status run))"

lemma same_run_refl [simp]: "same_run run run"
  unfolding same_run_def by (rule exI [of _ "status run"]) simp

lemma same_run_trans: "same_run a b \<Longrightarrow> same_run b c \<Longrightarrow> same_run a c"
  by (auto simp: same_run_def)

lemma run_status_facts [simp]:
  "lease_ready (run\<lparr>status := st\<rparr>) = lease_ready run" "holds_term kind (run\<lparr>status := st\<rparr>) flow grant = holds_term kind run flow grant"
  by (simp_all add: lease_ready_def run_lease_name_def holds_term_def workspace_writer_identity_def fun_eq_iff)

lemma agent_pod_status [simp]: "agent_pod env (run\<lparr>status := st\<rparr>) flow grant capture = agent_pod env run flow grant capture"
proof -
  have same: "meta (run\<lparr>status := st\<rparr>) = meta run" "spec (run\<lparr>status := st\<rparr>) = spec run" by simp_all
  show ?thesis
    unfolding agent_pod_def build_agent_run_pod_def input_config_name_def mcp_container_def agent_container_def controlled_by_def
      with_context_upload_def owner_ref_of_def same ..
qed

lemma same_run_facts:
  assumes "same_run run run'"
  shows "namespace_of run' = namespace_of run" "name_of run' = name_of run" "spec run' = spec run" "meta run' = meta run"
    "lease_ready run' = lease_ready run" "run_podRef (status run') = run_podRef (status run)"
    "holds_term kind run' flow grant = holds_term kind run flow grant"
    "agent_pod env run' flow grant capture = agent_pod env run flow grant capture"
  using assms by (auto simp: same_run_def)

lemma launch_apart [simp]:
  "untouched AgentRuns (same_sources w0)" "untouched AgentRuns (lease_ready run)" "untouched AgentRuns (no_new_pods w0)"
  "untouched WriterLeases (same_sources w0)" "untouched WriterLeases (lease_ready run)" "untouched WriterLeases (no_new_pods w0)"
  "untouched InferenceLeases (same_sources w0)" "untouched InferenceLeases (no_new_pods w0)"
  "untouched Secrets (same_sources w0)" "untouched Secrets (lease_ready run)"
  "untouched ConfigMaps (same_sources w0)" "untouched ConfigMaps (lease_ready run)"
  "untouched Pods (same_sources w0)" "untouched Pods (lease_ready run)"
  "untouched Jobs (same_sources w0)" "untouched Jobs (lease_ready run)" "untouched Jobs (no_new_pods w0)"
  "uncounted (same_sources w0)" "uncounted (lease_ready run)" "uncounted (no_new_pods w0)"
  by (simp_all add: untouched_def uncounted_def same_sources_def lease_ready_def no_new_pods_def only_new_def seen_def kind_defs)

subsection \<open>The stages\<close>

lemma observed_base [intro]: "observed_fact (run_base w0)"
  unfolding run_base_def [abs_def] no_new_pods_def [abs_def] by (intro observed_conj observed_same_sources pod_kind.observed_only_new)

lemma base_apart [simp]:
  "untouched AgentRuns (run_base w0)" "untouched WriterLeases (run_base w0)" "untouched InferenceLeases (run_base w0)"
  "untouched Jobs (run_base w0)" "uncounted (run_base w0)"
  "untouched ServiceAccounts (run_base w0)" "untouched Roles (run_base w0)" "untouched RoleBindings (run_base w0)"
  by (simp_all add: untouched_def uncounted_def run_base_def same_sources_def no_new_pods_def only_new_def kind_defs)

lemma base_delete_pod: "keeps (run_base w0) (delete_pod ns n)"
  unfolding run_base_def [abs_def] no_new_pods_def [abs_def] delete_pod_def
  by (rule pod_kind.delete_only_new) (auto intro: observed_same_sources)

lemma base_ready: "run_ready w0 run w \<longleftrightarrow> run_base w0 w \<and> lease_ready run w"
  by (simp add: run_ready_def)

lemma observed_ready [intro]: "observed_fact (run_ready w0 run)"
  unfolding run_ready_def [abs_def] by (intro observed_conj observed_base observed_lease_ready)

lemma ready_apart [simp]: "untouched AgentRuns (run_ready w0 run)" "untouched WriterLeases (run_ready w0 run)"
    "untouched Jobs (run_ready w0 run)"
  using base_apart launch_apart by (simp_all add: untouched_def run_ready_def)

lemma ready_delete_pod: "keeps (run_ready w0 run) (delete_pod ns n)"
proof -
  have "keeps (\<lambda>w. (same_sources w0 w \<and> lease_ready run w) \<and> no_new_pods w0 w) (delete_pod ns n)"
    unfolding no_new_pods_def [abs_def] delete_pod_def
    by (rule pod_kind.delete_only_new) (auto intro: observed_conj observed_same_sources observed_lease_ready untouched_conj)
  then show ?thesis by (simp add: run_ready_def [abs_def] run_base_def conj_ac)
qed

lemma ready_drops: "keeps (run_ready w0 run) (delete_writer_workloads (run_owner env) x)"
  unfolding delete_writer_workloads_def run_owner_def
  by (auto intro!: triple_intros ready_delete_pod observed_fact.keeps_drops(2) [OF observed_ready])

lemma authority_triple:
  "triple (run_base w0) (validate_domain_authority run (run_attemptRef (spec run)) ExecutionKindAgent (run_workflowRef (spec run))
         (run_stepName (spec run)) (run_attempt (spec run))) (\<lambda>b w. run_base w0 w \<and> (b \<longrightarrow> authorises w0 run)) (\<lambda>_. run_base w0)"
  unfolding validate_domain_authority_def
proof (rule triple_attempt_bind [OF step_attempt_kind.get_seen [OF observed_base]], goal_cases)
  case (1 attempt)
  have "authorises w0 run" if "run_base w0 w" "seen StepAttempts (namespace_of run) (run_attemptRef (spec run)) attempt w"
      "validate_domain_binding attempt run (run_attemptRef (spec run)) ExecutionKindAgent (run_workflowRef (spec run))
         (run_stepName (spec run)) (run_attempt (spec run)) = None"
      "sa_executionRef (status attempt) = Some ref" "tl_apiVersion ref = group_version" "tl_kind ref = ''AgentRun''"
      "tl_name ref = name_of run" for w ref
    using that by (auto simp: authorises_def run_base_def same_sources_def seen_def StepAttempts_def)
  then show ?case by (auto simp: triple_def ret_def raise_def domain_kind_def split: option.splits)
qed (simp add: triple_def ret_def raise_def)

lemma inputs_triple:
  "triple (run_base w0) (resolve_agent_inputs run)
     (\<lambda>r w. run_base w0 w \<and> (\<forall>inputs. r = Resolved inputs \<longrightarrow> delivered w0 run inputs)) (\<lambda>_. run_base w0)"
proof (rule tripleI)
  fix w r w' assume base: "run_base w0 w" and run: "resolve_agent_inputs run w = (Inr r, w')"
  have same: "artifacts w = artifacts w0" using base by (simp add: run_base_def same_sources_def)
  have "delivered w0 run inputs" if "r = Resolved inputs" for inputs
    using agent_inputs_delivered [OF run [unfolded that]] unfolding delivered_def agent_selected_def same .
  moreover have "run_base w0 w'"
    by (rule triple_resultD [OF observed_fact.keeps_resolve_agent_inputs [OF observed_base] base run])
  ultimately show "run_base w0 w' \<and> (\<forall>inputs. r = Resolved inputs \<longrightarrow> delivered w0 run inputs)" by blast
next
  fix w e w' assume "run_base w0 w" and "resolve_agent_inputs run w = (Inl e, w')"
  then show "run_base w0 w'" using triple_errorD [OF observed_fact.keeps_resolve_agent_inputs [OF observed_base]] by blast
qed

lemma admit_triple:
  "triple (run_base w0) (run_admit_inputs env run)
     (\<lambda>r w. run_base w0 w \<and> (\<forall>inputs i. r = Inr (inputs, i) \<longrightarrow> run_podRef (status run) = '''' \<longrightarrow> delivered w0 run inputs))
     (\<lambda>_. run_base w0)"
proof -
  let ?Q = "\<lambda>r w. run_base w0 w \<and> (\<forall>inputs i. r = Inr (inputs, i) \<longrightarrow> run_podRef (status run) = '''' \<longrightarrow> delivered w0 run inputs)"
  have stop: "triple (run_base w0) (seq_io m (ret (Inl s))) ?Q (\<lambda>_. run_base w0)" if "keeps (run_base w0) m" for m s
    by (rule triple_seq [OF that]) (simp add: triple_def ret_def)
  have go: "triple (\<lambda>w. run_base w0 w \<and> delivered w0 run inputs) (bind_io (run_evidence env run) (\<lambda>e. ret (case e of
              Inl stop \<Rightarrow> Inl stop | Inr inputEvent \<Rightarrow> Inr (inputs, inputEvent)))) ?Q (\<lambda>_. run_base w0)" for inputs
  proof (rule triple_pure, rule triple_bind)
    show "keeps (run_base w0) (run_evidence env run)"
      by (rule observed_fact.keeps_run_evidence [OF observed_base]) simp
  qed (simp add: triple_def ret_def split: sum.split)
  show ?thesis unfolding run_admit_inputs_def
  proof (rule triple_if)
    show "triple (run_base w0) (bind_io (resolve_agent_inputs run) (\<lambda>r. case r of
          Rejected _ \<Rightarrow> seq_io (fail_run env run ''InvalidArtifactInputs'' False) (ret (Inl None))
        | Unready \<Rightarrow> seq_io (set_run_phase env run PhasePending ''WaitingForArtifactInputs''
              ''waiting for all declared input artifacts to be accepted'') (ret (Inl (Some 2)))
        | Resolved inputs \<Rightarrow> bind_io (run_evidence env run) (\<lambda>e. ret (case e of
              Inl stop \<Rightarrow> Inl stop | Inr inputEvent \<Rightarrow> Inr (inputs, inputEvent))))) ?Q (\<lambda>_. run_base w0)"
    proof (rule triple_bind [OF inputs_triple], goal_cases)
      case (1 r)
      show ?case
      proof (cases r)
        case (Resolved inputs)
        then show ?thesis using go [of inputs] by (simp add: triple_def)
      next
        case Unready
        show ?thesis unfolding Unready resolution.case
          by (rule triple_pre [OF stop [OF observed_fact.keeps_run_status(1) [OF observed_base]]]) simp_all
      next
        case (Rejected reason)
        show ?thesis unfolding Rejected resolution.case
          by (rule triple_pre [OF stop [OF observed_fact.keeps_run_status(2) [OF observed_base]]]) simp_all
      qed
    qed
  qed (simp add: triple_def ret_def)
qed

lemma with_lease_ref_same: "same_run run (with_lease_ref run)"
  by (auto simp: same_run_def with_lease_ref_def)

text \<open>A lease that is reported running is in the cluster.\<close>

lemma ensure_lease_triple:
  "triple (run_base w0) (ensure_lease env run req)
     (\<lambda>r w. run_base w0 w \<and> same_run run (snd r) \<and> (il_phase (status (fst r)) = PhaseRunning \<longrightarrow> lease_ready run w))
     (\<lambda>_. run_base w0)"
proof -
  let ?Q = "\<lambda>r w. run_base w0 w \<and> same_run run (snd r) \<and> (il_phase (status (fst r)) = PhaseRunning \<longrightarrow> lease_ready run w)"
  let ?S = "\<lambda>lease w. run_base w0 w \<and> seen InferenceLeases (namespace_of run) (run_lease_name run) lease w"
  have S: "observed_fact (?S lease)" "untouched AgentRuns (?S lease)" for lease
    by (rule observed_conj [OF observed_base inference_lease_kind.observed_seen] untouched_conj [OF base_apart(1) untouched_apart(5)])+
  have ready: "run_base w0 w \<and> lease_ready run w" if "?S lease w" "il_phase (status lease) = PhaseRunning" for lease w
    using that by (auto simp: lease_ready_def)
  have found: "triple (?S lease) (if run_inferenceLeaseRef (status run) \<noteq> run_lease_name run
           then seq_io (update_run_fields (with_lease_ref run)) (ret (lease, with_lease_ref run)) else ret (lease, run)) ?Q (\<lambda>_. run_base w0)" for lease
  proof (rule triple_if)
    show "triple (?S lease) (seq_io (update_run_fields (with_lease_ref run)) (ret (lease, with_lease_ref run))) ?Q (\<lambda>_. run_base w0)"
    proof (rule triple_seq)
      show "triple (?S lease) (update_run_fields (with_lease_ref run)) (\<lambda>_. ?S lease) (\<lambda>_. run_base w0)"
        by (rule triple_post [OF observed_fact.keeps_update_run_fields [OF S]]) auto
    qed (use ready with_lease_ref_same in \<open>auto simp: triple_def ret_def\<close>)
  qed (use ready in \<open>auto simp: triple_def ret_def\<close>)
  have create: "keeps (run_base w0) (k_create InferenceLeases (requested_lease run flow req))" for flow
    by (intro observed_fact.keeps_writes observed_base base_apart)
  have new: "triple (run_base w0) (k_create InferenceLeases (requested_lease run flow req))
      (\<lambda>lease w. run_base w0 w \<and> il_phase (status lease) = NoPhase) (\<lambda>_. run_base w0)" for flow
  proof (rule tripleI)
    fix w lease w' assume base: "run_base w0 w" and run: "k_create InferenceLeases (requested_lease run flow req) w = (Inr lease, w')"
    have "run_base w0 w'"
      by (rule triple_resultD [OF create base run])
    moreover have "status lease = fresh_lease_status" using run unfolding k_create_def
      by (elim api_call_result) (auto simp: Let_def requested_lease_def split: if_splits)
    ultimately show "run_base w0 w' \<and> il_phase (status lease) = NoPhase" by (simp add: fresh_lease_status_def)
  next
    fix w e w' assume "run_base w0 w" and "k_create InferenceLeases (requested_lease run flow req) w = (Inl e, w')"
    then show "run_base w0 w'" by (rule triple_errorD [OF create])
  qed
  have recorded: "triple (\<lambda>w. run_base w0 w \<and> il_phase (status lease) = NoPhase) (seq_io (update_run_fields (with_lease_ref run))
              (seq_io (append_run_event env (with_lease_ref run) ''InferenceLeaseRequested'' ''request'' (run_lease_name run)
                  ''requested'' '''') (ret (lease, with_lease_ref run)))) ?Q (\<lambda>_. run_base w0)" for lease
    by (rule triple_pure, intro triple_seq [where R = "run_base w0"] observed_fact.keeps_update_run_fields observed_base base_apart
        observed_fact.keeps_run_event) (use with_lease_ref_same in \<open>auto simp: triple_def ret_def\<close>)
  have absent: "triple (run_base w0) (if e \<noteq> NotFound then raise e
        else bind_io (k_get Workflows (namespace_of run) (ref_name (run_workflowRef (spec run)))) (\<lambda>flow.
             bind_io (k_create InferenceLeases (requested_lease run flow req)) (\<lambda>lease.
               seq_io (update_run_fields (with_lease_ref run))
              (seq_io (append_run_event env (with_lease_ref run) ''InferenceLeaseRequested'' ''request'' (run_lease_name run)
                  ''requested'' '''') (ret (lease, with_lease_ref run)))))) ?Q (\<lambda>_. run_base w0)" for e
    by (intro triple_if triple_bind [OF observed_fact.keeps_reads(1) [OF observed_base]] triple_bind [OF new recorded])
      (simp add: triple_def raise_def)
  show ?thesis unfolding ensure_lease_def
    by (rule triple_attempt_bind [OF inference_lease_kind.get_seen [OF observed_base]]) (use found absent in simp_all)
qed

lemma base_stop:
  assumes "keeps (run_base w0) m"
  shows "triple (run_base w0) (seq_io m (ret (Inl s))) (\<lambda>r w. run_base w0 w \<and> (\<forall>x. r = Inr x \<longrightarrow> Q x w)) (\<lambda>_. run_base w0)"
  by (rule triple_seq [OF assms]) (simp add: triple_def ret_def)

lemma delete_run_pod_base: "keeps (run_base w0) (delete_run_pod run)"
  unfolding delete_run_pod_def by (intro triple_intros base_delete_pod)

lemma endpoint_triple:
  "triple (run_base w0) (run_endpoint env run)
     (\<lambda>r w. run_base w0 w \<and> (\<forall>x. r = Inr x \<longrightarrow> same_run run (snd x) \<and> lease_ready run w)) (\<lambda>_. run_base w0)"
proof (cases "run_inference (spec run)")
  case None
  then show ?thesis by (simp add: run_endpoint_def triple_def ret_def lease_ready_def)
next
  case (Some req)
  let ?Q = "\<lambda>r w. run_base w0 w \<and> (\<forall>x. r = Inr x \<longrightarrow> same_run run (snd x) \<and> lease_ready run w)"
  have stop: "triple (\<lambda>w. run_base w0 w \<and> P w) (seq_io m (ret (Inl s))) ?Q (\<lambda>_. run_base w0)" if "keeps (run_base w0) m" for P m s
    by (rule triple_pre [OF base_stop [OF that]]) simp
  have wait: "triple (\<lambda>w. run_base w0 w \<and> P w) (ret (Inl s)) ?Q (\<lambda>_. run_base w0)" for P s
    by (simp add: triple_def ret_def)
  have drop: "triple (\<lambda>w. run_base w0 w \<and> P w) (seq_io (delete_run_pod r) (seq_io (interrupt_run env r reason True) (ret (Inl s)))) ?Q
      (\<lambda>_. run_base w0)" for P s r reason
    by (rule triple_pre [where P' = "run_base w0"], intro triple_seq [OF delete_run_pod_base] base_stop
        observed_fact.keeps_run_status observed_base base_apart, simp)
  have "triple (\<lambda>w. run_base w0 w \<and> same_run run r \<and> (il_phase (status lease) = PhaseRunning \<longrightarrow> lease_ready run w))
     (case il_phase (status lease) of
           PhaseInterrupted \<Rightarrow> seq_io (delete_run_pod r) (seq_io (interrupt_run env r (il_reason (status lease)) True) (ret (Inl None)))
         | PhaseFailed \<Rightarrow> seq_io (fail_run env r ''InferenceAdmissionFailed'' True) (ret (Inl None))
         | PhaseRunning \<Rightarrow> ret (Inr (il_endpointURL (status lease), r))
         | _ \<Rightarrow> ret (Inl (Some 2))) ?Q (\<lambda>_. run_base w0)" for lease r
    by (cases "il_phase (status lease)")
      (simp_all only: resource_phase.case, (rule stop wait drop observed_fact.keeps_run_status observed_base base_apart
        | simp add: triple_def ret_def)+)
  then show ?thesis unfolding run_endpoint_def Some option.case
    by (intro triple_bind [OF ensure_lease_triple]) (auto split: prod.split)
qed

text \<open>A granted term is the run's own, on the workflow it names.\<close>

lemma writer_triple:
  assumes "same_run run0 run"
  shows "triple (run_ready w0 run0) (run_writer env run) (\<lambda>r w. run_ready w0 run0 w \<and> (\<forall>x. r = Inr x \<longrightarrow> same_run run0 (snd x)
       \<and> (\<exists>flow. seen Workflows (namespace_of run0) (ref_name (run_workflowRef (spec run0))) flow w
           \<and> holds_term ''AgentRun'' run0 flow (fst x) w))) (\<lambda>_. run_ready w0 run0)"
proof -
  let ?I = "run_ready w0 run0"
  let ?Q = "\<lambda>r w. ?I w \<and> (\<forall>x. r = Inr x \<longrightarrow> same_run run0 (snd x)
       \<and> (\<exists>flow. seen Workflows (namespace_of run0) (ref_name (run_workflowRef (spec run0))) flow w
           \<and> holds_term ''AgentRun'' run0 flow (fst x) w))"
  note facts = same_run_facts [OF assms]
  have I: "observed_fact ?I" "untouched WriterLeases ?I" "untouched (own_kind (run_owner env)) ?I" by auto
  have granted: "same_run run (granted_object (run_owner env) grant run)" for grant
    by (auto simp: same_run_def granted_object_def run_owner_def)
  have stop: "triple ?I (seq_io m (ret (Inl s))) ?Q (\<lambda>_. ?I)" if "keeps ?I m" for m s
    by (rule triple_seq [OF that]) (simp add: triple_def ret_def)
  have drop: "triple ?I (seq_io (delete_writer_workloads (run_owner env) r) (seq_io (interrupt_run env r reason True) (ret (Inl s)))) ?Q
      (\<lambda>_. ?I)" for r reason s
    by (intro triple_seq [OF ready_drops] stop observed_fact.keeps_run_status(3) I ready_apart)
  have wait: "triple (\<lambda>w. ?I w \<and> P w) (seq_io (set_run_phase env r phase reason message) (ret (Inl s))) ?Q (\<lambda>_. ?I)"
    for P r phase reason message s
    by (rule triple_pre [OF stop [OF observed_fact.keeps_run_status(1) [OF I(1) ready_apart(1)]]]) simp
  show ?thesis unfolding run_writer_def
  proof (rule triple_bind [OF agent_owner.ensure_triple [OF I]], goal_cases)
    case (1 r)
    obtain grant st run' where r: "r = (grant, st, run')" by (cases r) auto
    show ?case
    proof (cases st)
      case WorkspaceWriterGranted
      then show ?thesis unfolding r
        using granted [of grant] assms facts
        by (auto simp: triple_def ret_def agent_owner.grants_term_def dest: same_run_trans)
    next
      case WorkspaceWriterBlocked
      then show ?thesis unfolding r
        by (simp only: prod.case writer_state.case) (rule triple_if, rule triple_pre [OF drop], simp, rule wait)
    next
      case WorkspaceWriterLost
      then show ?thesis unfolding r
        by (simp only: prod.case writer_state.case) (rule triple_pre [OF drop], simp)
    qed
  qed
qed

subsection \<open>The launch\<close>

lemma observed_ground [intro]: "observed_fact (launch_ground w0 run flow grant)"
  unfolding launch_ground_def [abs_def]
  by (intro observed_conj observed_same_sources observed_lease_ready workflow_kind.observed_seen observed_term)

lemma ground_apart [simp]:
  "untouched AgentRuns (launch_ground w0 run flow grant)" "untouched Secrets (launch_ground w0 run flow grant)"
  "untouched ConfigMaps (launch_ground w0 run flow grant)" "untouched Pods (launch_ground w0 run flow grant)"
  "uncounted (launch_ground w0 run flow grant)"
  unfolding launch_ground_def [abs_def] by (intro untouched_conj uncounted_conj launch_apart untouched_apart)+

lemma observed_launches [intro]: "observed_fact (launches env w0 run flow grant)"
  unfolding launches_def [abs_def] by (intro observed_conj observed_ground pod_kind.observed_only_new)

lemma launches_apart [simp]:
  "untouched AgentRuns (launches env w0 run flow grant)" "untouched Secrets (launches env w0 run flow grant)"
  "untouched ConfigMaps (launches env w0 run flow grant)" "uncounted (launches env w0 run flow grant)"
  using ground_apart by (simp_all add: untouched_def uncounted_def launches_def only_new_def kind_defs)

lemma launches_start:
  assumes "run_ready w0 run w" "seen Workflows (namespace_of run) (ref_name (run_workflowRef (spec run))) flow w"
    and "holds_term ''AgentRun'' run flow grant w"
  shows "launches env w0 run flow grant w"
  using assms only_new_weaken [where P = "\<lambda>_. False"]
  by (auto simp: launches_def launch_ground_def run_ready_def run_base_def no_new_pods_def)

lemma launch_triple:
  assumes "same_run run0 run"
  shows "keeps (launches env w0 run0 flow grant) (launch_run env run endpoint grant inputs inputEvent)"
proof -
  let ?L = "launches env w0 run0 flow grant"
  note facts = same_run_facts [OF assms]
  have pod: "keeps ?L (create_missing Pods (agent_pod env run flow grant capture))" for capture
    unfolding launches_def [abs_def] by (rule pod_kind.create_only_new) (auto simp: facts)
  have get: "triple ?L (k_get Workflows (namespace_of run) (ref_name (run_workflowRef (spec run)))) (\<lambda>f w. ?L w \<and> f = flow) (\<lambda>_. ?L)"
    by (rule triple_post [OF workflow_kind.get_seen [OF observed_launches]])
      (auto simp: facts launches_def launch_ground_def seen_def)
  have work: "keeps ?L (ensure_workload env run endpoint grant inputs)" unfolding ensure_workload_def
  proof (rule triple_bind [OF get], rule triple_pure)
    fix f assume f: "f = flow"
    show "keeps ?L (if uid_of f \<noteq> ref_uid (run_workflowRef (spec run)) then raise (Invalid ''workflow UID does not match AgentRun workflow reference'')
       else bind_io (ensure_context_capture env run) (\<lambda>capture.
         seq_io (create_missing ConfigMaps (input_config env run (agent_input_of run f endpoint grant inputs capture)))
          (create_missing Pods (agent_pod env run f grant capture))))"
      unfolding f by (intro triple_intros pod observed_fact.keeps_context_capture observed_fact.keeps_create_missing observed_launches
          launches_apart)
  qed
  show ?thesis unfolding launch_run_def
    by (intro triple_intros work observed_fact.keeps_run_authority observed_fact.keeps_run_status(1) observed_launches launches_apart)
qed

text \<open>A pod that was not there is this run's, built for the term the cluster shows; otherwise there is none.\<close>

definition run_outcome :: "agent_env \<Rightarrow> cluster \<Rightarrow> agent_run \<Rightarrow> cluster \<Rightarrow> bool" where
  "run_outcome env w0 run w \<longleftrightarrow> run_base w0 w \<or> (run_podRef (status run) = '''' \<and> authorises w0 run
     \<and> (\<exists>inputs. delivered w0 run inputs) \<and> (\<exists>flow grant. launches env w0 run flow grant w))"

lemma base_outcome: "triple P m (\<lambda>_. run_base w0) (\<lambda>_. run_base w0) \<Longrightarrow> triple P m (\<lambda>_. run_outcome env w0 run) (\<lambda>_. run_outcome env w0 run)"
  by (erule triple_post) (simp_all add: run_outcome_def)

lemma execute_triple:
  assumes "authorises w0 run" and "run_podRef (status run) = '''' \<Longrightarrow> delivered w0 run inputs"
  shows "triple (run_base w0) (execute_run env run inputs inputEvent) (\<lambda>_. run_outcome env w0 run) (\<lambda>_. run_outcome env w0 run)"
proof -
  let ?O = "run_outcome env w0 run"
  have base: "run_base w0 w \<Longrightarrow> ?O w" for w by (simp add: run_outcome_def)
  have stop: "triple (\<lambda>w. run_base w0 w \<and> P w) (ret s) (\<lambda>_. ?O) (\<lambda>_. ?O)" for P s by (auto simp: triple_def ret_def base)
  have old: "keeps (run_base w0) (if run_collectorJobRef (status r) \<noteq> '''' then reconcile_run_collection env r else observe_run env r)" for r
    by (intro triple_if observed_fact.keeps_run_collection observed_fact.keeps_observe_run observed_base base_apart)
  have finish: "triple (\<lambda>w. run_ready w0 run w \<and> same_run run r \<and> (\<exists>flow. seen Workflows (namespace_of run) (ref_name (run_workflowRef (spec run))) flow w
           \<and> holds_term ''AgentRun'' run flow grant w))
     (if run_podRef (status r) = '''' then seq_io (launch_run env r endpoint grant inputs inputEvent) (ret None)
           else if run_collectorJobRef (status r) \<noteq> '''' then reconcile_run_collection env r else observe_run env r)
     (\<lambda>_. ?O) (\<lambda>_. ?O)" for grant r endpoint
  proof (cases "same_run run r")
    case True
    note facts = same_run_facts [OF True]
    have launched: "?O w" if "launches env w0 run flow grant w" "run_podRef (status r) = ''''" for flow w
      using that assms facts by (auto simp: run_outcome_def)
    have "triple (launches env w0 run flow grant) (seq_io (launch_run env r endpoint grant inputs inputEvent) (ret None)) (\<lambda>_. ?O) (\<lambda>_. ?O)"
      if "run_podRef (status r) = ''''" for flow
      by (rule triple_post [OF keeps_seq [OF launch_triple [OF True] triple_ret]]) (use launched that in blast)+
    then have run: "triple (\<lambda>w. run_ready w0 run w \<and> same_run run r \<and> (\<exists>flow. seen Workflows (namespace_of run)
           (ref_name (run_workflowRef (spec run))) flow w \<and> holds_term ''AgentRun'' run flow grant w))
        (seq_io (launch_run env r endpoint grant inputs inputEvent) (ret None)) (\<lambda>_. ?O) (\<lambda>_. ?O)"
      if "run_podRef (status r) = ''''"
      by (rule triple_pre [OF triple_ex [where P = "\<lambda>flow. launches env w0 run flow grant"]])
        (use that launches_start in blast)+
    show ?thesis
      by (rule triple_if [OF run triple_pre [OF base_outcome [OF old]]]) (auto simp: run_ready_def)
  qed (simp add: triple_def)
  let ?E = "\<lambda>r w. run_base w0 w \<and> (\<forall>x. r = Inr x \<longrightarrow> same_run run (snd x) \<and> lease_ready run w)"
  let ?W = "\<lambda>r w. run_ready w0 run w \<and> (\<forall>x. r = Inr x \<longrightarrow> same_run run (snd x)
       \<and> (\<exists>flow. seen Workflows (namespace_of run) (ref_name (run_workflowRef (spec run))) flow w
           \<and> holds_term ''AgentRun'' run flow (fst x) w))"
  have E: "triple (run_base w0) (run_endpoint env run) ?E (\<lambda>_. ?O)"
    by (rule triple_post [OF endpoint_triple]) (simp_all add: base)
  show ?thesis unfolding execute_run_def
  proof (rule triple_bind [OF E])
    fix r
    show "triple (?E r) (case r of Inl stop \<Rightarrow> ret stop
     | Inr (endpoint, run) \<Rightarrow> bind_io (run_writer env run) (\<lambda>r. case r of Inl stop \<Rightarrow> ret stop
       | Inr (grant, run) \<Rightarrow>
           if run_podRef (status run) = '''' then seq_io (launch_run env run endpoint grant inputs inputEvent) (ret None)
           else if run_collectorJobRef (status run) \<noteq> '''' then reconcile_run_collection env run
           else observe_run env run)) (\<lambda>_. ?O) (\<lambda>_. ?O)"
    proof (cases r)
      case (Inr x)
      obtain endpoint run1 where x: "x = (endpoint, run1)" by (cases x)
      show ?thesis unfolding Inr x
      proof (cases "same_run run run1")
        case True
        have "triple (run_ready w0 run) (bind_io (run_writer env run1) (\<lambda>r. case r of Inl stop \<Rightarrow> ret stop
          | Inr (grant, r) \<Rightarrow> if run_podRef (status r) = '''' then seq_io (launch_run env r endpoint grant inputs inputEvent) (ret None)
             else if run_collectorJobRef (status r) \<noteq> '''' then reconcile_run_collection env r
             else observe_run env r)) (\<lambda>_. ?O) (\<lambda>_. ?O)"
        proof (rule triple_bind)
          show "triple (run_ready w0 run) (run_writer env run1) ?W (\<lambda>_. ?O)"
            by (rule triple_post [OF writer_triple [OF True]]) (simp_all add: base_ready base)
          fix r2
          show "triple (?W r2) (case r2 of Inl stop \<Rightarrow> ret stop
            | Inr (grant, r) \<Rightarrow> if run_podRef (status r) = '''' then seq_io (launch_run env r endpoint grant inputs inputEvent) (ret None)
               else if run_collectorJobRef (status r) \<noteq> '''' then reconcile_run_collection env r
               else observe_run env r) (\<lambda>_. ?O) (\<lambda>_. ?O)"
          proof (cases r2)
            case (Inr y)
            obtain grant r' where y: "y = (grant, r')" by (cases y)
            show ?thesis unfolding Inr y sum.case prod.case by (rule triple_pre [OF finish]) auto
          next
            case (Inl s)
            show ?thesis unfolding Inl sum.case by (auto simp: triple_def ret_def base_ready base)
          qed
        qed
        then show "triple (\<lambda>w. run_base w0 w \<and> (\<forall>x. Inr (endpoint, run1) = Inr x \<longrightarrow> same_run run (snd x) \<and> lease_ready run w))
           (case Inr (endpoint, run1) of Inl stop \<Rightarrow> ret stop
            | Inr (endpoint, run) \<Rightarrow> bind_io (run_writer env run) (\<lambda>r. case r of Inl stop \<Rightarrow> ret stop
               | Inr (grant, run) \<Rightarrow> if run_podRef (status run) = '''' then seq_io (launch_run env run endpoint grant inputs inputEvent) (ret None)
                 else if run_collectorJobRef (status run) \<noteq> '''' then reconcile_run_collection env run
                 else observe_run env run)) (\<lambda>_. ?O) (\<lambda>_. ?O)"
          unfolding sum.case prod.case by (rule triple_pre) (auto simp: run_ready_def)
      qed (simp add: triple_def)
    next
      case (Inl s)
      show ?thesis unfolding Inl sum.case by (auto simp: triple_def ret_def base)
    qed
  qed
qed

lemma authorised_triple:
  "triple (run_base w0) (authorised_run env run) (\<lambda>_. run_outcome env w0 run) (\<lambda>_. run_outcome env w0 run)"
proof -
  let ?O = "run_outcome env w0 run"
  let ?A = "\<lambda>r w. run_base w0 w \<and> (\<forall>inputs i. r = Inr (inputs, i) \<longrightarrow> run_podRef (status run) = '''' \<longrightarrow> delivered w0 run inputs)"
  have go: "triple (\<lambda>w. run_base w0 w \<and> authorises w0 run) (bind_io (run_admit_inputs env run) (\<lambda>r. case r of Inl stop \<Rightarrow> ret stop
             | Inr (inputs, inputEvent) \<Rightarrow> execute_run env run inputs inputEvent)) (\<lambda>_. ?O) (\<lambda>_. ?O)"
  proof (rule triple_pure, rule triple_bind)
    assume auth: "authorises w0 run"
    show "triple (run_base w0) (run_admit_inputs env run) ?A (\<lambda>_. ?O)"
      by (rule triple_post [OF admit_triple]) (simp_all add: run_outcome_def)
    fix r
    show "triple (?A r) (case r of Inl stop \<Rightarrow> ret stop | Inr (inputs, inputEvent) \<Rightarrow> execute_run env run inputs inputEvent)
        (\<lambda>_. ?O) (\<lambda>_. ?O)"
    proof (cases r)
      case (Inr x)
      obtain inputs i where x: "x = (inputs, i)" by (cases x)
      show ?thesis
      proof (cases "run_podRef (status run) = '''' \<longrightarrow> delivered w0 run inputs")
        case True
        then show ?thesis unfolding Inr x sum.case prod.case by (intro triple_pre [OF execute_triple [OF auth]]) auto
      qed (auto simp: Inr x triple_def)
    qed (simp add: triple_def ret_def run_outcome_def)
  qed
  show ?thesis unfolding authorised_run_def
  proof (rule triple_attempt_bind [OF authority_triple])
    fix b
    show "triple (\<lambda>w. run_base w0 w \<and> (b \<longrightarrow> authorises w0 run)) (case Inr b of Inl _ \<Rightarrow> seq_io (fail_run env run ''InvalidStepAttemptAuthority'' False) (ret None)
       | Inr authorized \<Rightarrow> if \<not> authorized then ret (Some 2)
           else bind_io (run_admit_inputs env run) (\<lambda>r. case r of Inl stop \<Rightarrow> ret stop
             | Inr (inputs, inputEvent) \<Rightarrow> execute_run env run inputs inputEvent)) (\<lambda>_. ?O) (\<lambda>_. ?O)"
      using go by (cases b) (simp_all add: triple_def ret_def run_outcome_def)
  next
    fix e
    show "triple (run_base w0) (case Inl e of Inl _ \<Rightarrow> seq_io (fail_run env run ''InvalidStepAttemptAuthority'' False) (ret None)
       | Inr authorized \<Rightarrow> if \<not> authorized then ret (Some 2)
           else bind_io (run_admit_inputs env run) (\<lambda>r. case r of Inl stop \<Rightarrow> ret stop
             | Inr (inputs, inputEvent) \<Rightarrow> execute_run env run inputs inputEvent)) (\<lambda>_. ?O) (\<lambda>_. ?O)"
      unfolding sum.case by (intro base_outcome keeps_seq observed_fact.keeps_run_status observed_base base_apart triple_ret)
  qed
qed

lemma base_drops: "keeps (run_base w0) (delete_writer_workloads (run_owner env) x)"
  unfolding delete_writer_workloads_def run_owner_def
  by (auto intro!: triple_intros base_delete_pod observed_fact.keeps_drops(2) [OF observed_base])

lemma advance_run_triple:
  "triple (run_base w0) (advance_run env run) (\<lambda>_ w. run_base w0 w \<or> (\<not> is_terminal (run_phase (status run)) \<and> run_outcome env w0 run w))
     (\<lambda>_ w. run_base w0 w \<or> (\<not> is_terminal (run_phase (status run)) \<and> run_outcome env w0 run w))"
proof -
  have old: "keeps (run_base w0) (seq_io (set_run_phase env run PhasePending ''Initialized'' ''agent run initialized'') (ret None))"
    "keeps (run_base w0) (bind_io (reconcile_inference_release env run) (\<lambda>released.
        if \<not> released then ret (Some 2) else reconcile_writer_release (run_owner env) run))"
    by (intro triple_intros observed_fact.keeps_run_status observed_fact.keeps_inference_release agent_owner.keeps_reconcile_release
        observed_base base_apart; simp add: observed_fact.keeps_update_run_fields [OF observed_base])+
  show ?thesis unfolding advance_run_def
    by (intro triple_if triple_post [OF old(1)] triple_post [OF old(2)] triple_post [OF authorised_triple]) auto
qed

text \<open>The run as it was stored, with its finalizer.\<close>

definition stored_run :: "cluster \<Rightarrow> string \<Rightarrow> string \<Rightarrow> agent_run \<Rightarrow> bool" where
  "stored_run w ns n run \<longleftrightarrow> (\<exists>cur. find_by obj_key (ns, n) (agent_runs w) = Some cur \<and> deletion (meta cur) = None
     \<and> obj_key run = (ns, n) \<and> uid_of run = uid_of cur \<and> controller_owner (meta run) = controller_owner (meta cur)
     \<and> spec run = spec cur \<and> status run = status cur)"

lemma not_deleted_triple:
  assumes "find_by obj_key (ns, n) (agent_runs w0) = Some run"
  shows "triple (\<lambda>w. run_base w0 w \<and> seen AgentRuns ns n run w) (run_not_deleted env run)
     (\<lambda>r w. run_base w0 w \<and> (\<forall>run'. r = Inr run' \<longrightarrow> stored_run w0 ns n run')) (\<lambda>_. run_base w0)"
proof -
  let ?Q = "\<lambda>r w. run_base w0 w \<and> (\<forall>run'. r = Inr run' \<longrightarrow> stored_run w0 ns n run')"
  have key: "namespace_of run = ns" "name_of run = n" using find_by_set [OF assms] by simp_all
  have old: "keeps (run_base w0) (bind_io (reconcile_inference_release env run) (\<lambda>released.
          if \<not> released then ret (Inl (Some 2)) else bind_io (finalize_writer (run_owner env) run) (\<lambda>r. ret (Inl r))))"
    by (intro triple_intros observed_fact.keeps_inference_release agent_owner.keeps_finalize base_drops observed_base base_apart;
        simp add: observed_fact.keeps_writes(1) [OF observed_base])
  have deleted: "triple (\<lambda>w. run_base w0 w \<and> seen AgentRuns ns n run w) (bind_io (reconcile_inference_release env run) (\<lambda>released.
          if \<not> released then ret (Inl (Some 2)) else bind_io (finalize_writer (run_owner env) run) (\<lambda>r. ret (Inl r)))) ?Q (\<lambda>_. run_base w0)"
  proof (rule tripleI, goal_cases)
    case (1 w r w')
    then have "run_base w0 w'" using triple_resultD [OF old] by blast
    moreover have "\<exists>s. r = Inl s" using 1(2) by (auto simp: ret_def elim!: bind_io_result split: if_splits)
    ultimately show ?case by auto
  qed (use triple_errorD [OF old] in blast)
  let ?mark = "if writer_finalizer \<in> set (finalizers (meta run)) then ret run else k_update AgentRuns (add_finalizer writer_finalizer run)"
  have upd: "triple (\<lambda>w. run_base w0 w \<and> seen AgentRuns ns n run w) (k_update AgentRuns (add_finalizer writer_finalizer run))
     (\<lambda>y w. run_base w0 w \<and> y = updated_object (add_finalizer writer_finalizer run) run) (\<lambda>_. run_base w0)"
  proof (rule tripleI, goal_cases)
    case (1 w y w')
    from 1(2) obtain cur where "find_by obj_key (obj_key (add_finalizer writer_finalizer run)) (items AgentRuns w) = Some cur"
      "y = updated_object (add_finalizer writer_finalizer run) cur" by (rule agent_run_kind.update_result)
    moreover have "obj_key (add_finalizer writer_finalizer run) = (ns, n)" by (simp add: add_finalizer_def key)
    ultimately have "y = updated_object (add_finalizer writer_finalizer run) run" using 1(1) by (simp add: seen_def)
    moreover have "run_base w0 w'"
      using 1 triple_resultD [OF observed_fact.keeps_writes(1) [OF observed_base base_apart(1)]] by blast
    ultimately show ?case by simp
  qed (use triple_errorD [OF observed_fact.keeps_writes(1) [OF observed_base base_apart(1)]] in blast)
  have live: "triple (\<lambda>w. run_base w0 w \<and> seen AgentRuns ns n run w) ?mark (\<lambda>r w. run_base w0 w \<and> stored_run w0 ns n r) (\<lambda>_. run_base w0)"
    if "deletion (meta run) = None"
    using assms that key
    by (intro triple_if triple_post [OF upd]) (auto simp: triple_def ret_def stored_run_def add_finalizer_def)
  have rest: "triple (\<lambda>w. run_base w0 w \<and> stored_run w0 ns n r) (bind_io (namespace_terminating (namespace_of r)) (\<lambda>terminating.
          ret (if terminating then Inl None else Inr r))) ?Q (\<lambda>_. run_base w0)" for r
    by (rule triple_pure, rule triple_bind [OF observed_fact.keeps_terminating [OF observed_base]]) (simp add: triple_def ret_def)
  show ?thesis unfolding run_not_deleted_def
    by (intro triple_if deleted triple_bind [OF live rest]) simp
qed

text \<open>Whatever a reconciliation does, the new pods are those a launch justifies.\<close>

definition pods_justified :: "agent_env \<Rightarrow> cluster \<Rightarrow> string \<Rightarrow> string \<Rightarrow> cluster \<Rightarrow> bool" where
  "pods_justified env w0 ns n w \<longleftrightarrow> no_new_pods w0 w \<or> (\<exists>run. stored_run w0 ns n run \<and> \<not> is_terminal (run_phase (status run))
     \<and> run_podRef (status run) = '''' \<and> authorises w0 run \<and> (\<exists>inputs. delivered w0 run inputs)
     \<and> (\<exists>flow grant. launches env w0 run flow grant w))"

lemma reconcile_justified:
  "triple (\<lambda>w. w = w0) (reconcile_agent_run env ns n) (\<lambda>_. pods_justified env w0 ns n) (\<lambda>_. pods_justified env w0 ns n)"
proof -
  let ?J = "pods_justified env w0 ns n"
  have base: "run_base w0 w \<Longrightarrow> ?J w" for w by (simp add: pods_justified_def run_base_def)
  have start: "run_base w0 (w0\<lparr>faults := fs\<rparr>)" for fs
    by (simp add: run_base_def same_sources_def no_new_pods_def only_new_def keys_of_def Pods_def)
  have get: "triple (\<lambda>w. w = w0) (k_get AgentRuns ns n) (\<lambda>run w. (run_base w0 w \<and> seen AgentRuns ns n run w)
      \<and> find_by obj_key (ns, n) (agent_runs w0) = Some run) (\<lambda>_. run_base w0)"
  proof (rule tripleI, goal_cases)
    case (1 w run w')
    with get_frame [OF 1(2)] agent_run_kind.get_result(1,2) [OF 1(2)] show ?case
      by (auto simp: start seen_def AgentRuns_def)
  next
    case (2 w e w')
    with get_frame [OF 2(2)] show ?case by (auto simp: start)
  qed
  have go: "triple (\<lambda>w. run_base w0 w \<and> stored_run w0 ns n run) (advance_run env run) (\<lambda>_. ?J) (\<lambda>_. ?J)" for run
    by (rule triple_pure, rule triple_post [OF advance_run_triple]) (auto simp: run_base_def run_outcome_def pods_justified_def)
  have found: "triple (\<lambda>w. (run_base w0 w \<and> seen AgentRuns ns n run w) \<and> find_by obj_key (ns, n) (agent_runs w0) = Some run)
     (bind_io (run_not_deleted env run) (\<lambda>r. case r of Inl stop \<Rightarrow> ret stop | Inr run \<Rightarrow> advance_run env run)) (\<lambda>_. ?J) (\<lambda>_. ?J)" for run
  proof (rule triple_pure, rule triple_bind)
    assume "find_by obj_key (ns, n) (agent_runs w0) = Some run"
    from not_deleted_triple [OF this]
    show "triple (\<lambda>w. run_base w0 w \<and> seen AgentRuns ns n run w) (run_not_deleted env run)
      (\<lambda>r w. run_base w0 w \<and> (\<forall>run'. r = Inr run' \<longrightarrow> stored_run w0 ns n run')) (\<lambda>_. ?J)"
      by (rule triple_post) (simp_all add: base)
  next
    fix r
    show "triple (\<lambda>w. run_base w0 w \<and> (\<forall>run'. r = Inr run' \<longrightarrow> stored_run w0 ns n run'))
      (case r of Inl stop \<Rightarrow> ret stop | Inr run \<Rightarrow> advance_run env run) (\<lambda>_. ?J) (\<lambda>_. ?J)"
    proof (cases r)
      case (Inr run')
      then show ?thesis using triple_pre [OF go [of run']] by simp
    qed (simp add: triple_def ret_def base)
  qed
  show ?thesis unfolding reconcile_agent_run_def
    by (rule triple_attempt_bind [OF get]) (use found in \<open>simp_all add: triple_def ret_def raise_def base\<close>)
qed

subsection \<open>Inputs and their evidence\<close>

lemma selections_agree:
  assumes "distinct (map obj_key (artifacts w))" and "agent_selected w run i a"
    and "selected_artifact w (namespace_of run) (run_workflowRef (spec run)) i b"
  shows "a = b"
proof (cases "ar_artifactRef i")
  case None
  have "b \<in> set (filter (agent_match (run_workflowRef (spec run)) i) (filter (\<lambda>b. namespace_of b = namespace_of run) (artifacts w)))"
    using assms(3) None by (auto simp: selected_artifact_def agent_match_def unpinned_match_def dest: filter_eq_ConsD)
  moreover have one: "filter (agent_match (run_workflowRef (spec run)) i)
      (filter (\<lambda>b. namespace_of b = namespace_of run) (artifacts w)) = [a]"
    using assms(2) unfolding agent_selected_def None option.case by blast
  ultimately show ?thesis unfolding one by simp
next
  case (Some pin)
  with assms(2,3) have "obj_key a = obj_key b" "a \<in> set (artifacts w)" "b \<in> set (artifacts w)"
    by (auto simp: agent_selected_def selected_artifact_def obj_key_def)
  then show ?thesis using find_by_distinct [OF assms(1)] by (metis option.inject)
qed

lemma same_selection:
  assumes "artifacts v = artifacts w"
  shows "selected_artifact v ns workflowRef i a = selected_artifact w ns workflowRef i a"
  unfolding selected_artifact_def assms ..

lemma delivered_evidence:
  assumes "distinct (map obj_key (artifacts w))" and "delivered w run ais"
    and "list_all2 (\<lambda>i ev. \<exists>a. selected_artifact w (namespace_of run) (run_workflowRef (spec run)) i a \<and> ev = artifact_evidence_of a)
      (run_inputs (spec run)) evs"
  shows "map (\<lambda>i. (ai_contract i, ai_digest i)) ais = map (\<lambda>e. (ae_contract e, ae_digest e)) evs"
proof (rule nth_equalityI)
  have len: "length ais = length (run_inputs (spec run))" "length evs = length (run_inputs (spec run))"
    using list_all2_lengthD [OF assms(2) [unfolded delivered_def]] list_all2_lengthD [OF assms(3)] by simp_all
  then show "length (map (\<lambda>i. (ai_contract i, ai_digest i)) ais) = length (map (\<lambda>e. (ae_contract e, ae_digest e)) evs)" by simp
  fix k assume "k < length (map (\<lambda>i. (ai_contract i, ai_digest i)) ais)"
  then have k: "k < length (run_inputs (spec run))" using len by simp
  from list_all2_nthD [OF assms(2) [unfolded delivered_def] k] list_all2_nthD [OF assms(3) k] obtain a b where
    "agent_selected w run (run_inputs (spec run) ! k) a" "ais ! k = artifact_input_of (run_inputs (spec run) ! k) a"
    "selected_artifact w (namespace_of run) (run_workflowRef (spec run)) (run_inputs (spec run) ! k) b"
    "evs ! k = artifact_evidence_of b" by blast
  with selections_agree [OF assms(1)] k len
  show "map (\<lambda>i. (ai_contract i, ai_digest i)) ais ! k = map (\<lambda>e. (ae_contract e, ae_digest e)) evs ! k"
    by (auto simp: artifact_input_of_def artifact_evidence_of_def)
qed

lemma resolve_agent_inputs_frame:
  assumes "resolve_agent_inputs run w = (Inr r, v)"
  shows "artifacts v = artifacts w"
proof -
  have "observed_fact (\<lambda>x. artifacts x = artifacts w)" by unfold_locales simp_all
  from triple_resultD [OF observed_fact.keeps_resolve_agent_inputs [OF this] refl assms] show ?thesis .
qed

subsection \<open>Diagnostics\<close>

lemma default_diagnostic:
  "is_diagnostic_code (fst default_pod_failure)" "length (fst default_pod_failure) \<le> max_code_bytes" "fst default_pod_failure \<noteq> ''''"
  "list_all (\<lambda>c. 32 \<le> (of_char c :: nat) \<and> (of_char c :: nat) < 127) (snd default_pod_failure)"
  "length (snd default_pod_failure) \<le> max_message_bytes" "hd (snd default_pod_failure) = CHR ''a''" "snd default_pod_failure \<noteq> ''''"
  by code_simp+

text \<open>Printable text is a valid field.\<close>

lemma ascii_units: "list_all (\<lambda>c. (of_char c :: nat) < 128) s \<Longrightarrow> units s = map (\<lambda>c. [c]) s"
  by (induction s) (simp_all add: rune_at_ascii)

lemma printable_field:
  assumes printable: "list_all (\<lambda>c. 32 \<le> (of_char c :: nat) \<and> (of_char c :: nat) < 127) s" and "s \<noteq> []"
    and "\<not> ascii_space (hd s)" and "length s \<le> maximum"
  shows "bounded_diagnostic_field s maximum = None"
proof -
  obtain c t where s: "s = c # t" using assms(2) by (cases s) auto
  have ascii: "list_all (\<lambda>c. (of_char c :: nat) < 128) s" using printable by (auto simp: list_all_iff)
  have "rune [c]" "\<not> space_unit [c]" using ascii assms(3) by (simp_all add: s rune_def rune_at_ascii space_unit_def)
  then have "\<not> blank ([c] @ t)" by (rule visible_not_blank) (use utf8_valid_ascii [OF ascii] in \<open>simp add: s\<close>)
  moreover have "\<not> list_ex control_unit (units s)"
    using printable by (auto simp: ascii_units [OF ascii] list_ex_iff list_all_iff control_unit_def)
  ultimately show ?thesis using assms(4) by (simp add: bounded_diagnostic_field_def s)
qed

lemma default_field: "bounded_diagnostic_field (snd default_pod_failure) max_message_bytes = None"
  by (rule printable_field) (simp_all add: default_diagnostic ascii_space_def)

lemma pod_failure_valid:
  assumes "bounded_diagnostic_field ref max_reference_bytes = None"
  shows "validate_retry_feedback \<lparr>rf_previousAttemptRef = ref, rf_code = fst (agent_pod_failure env pod),
     rf_message = snd (agent_pod_failure env pod)\<rparr> = None"
  using assms default_diagnostic(1-3) default_field
  by (auto simp: agent_pod_failure_def validate_retry_feedback_def Let_def split: option.splits if_splits prod.splits)

subsection \<open>The end of a term\<close>

lemma honest_run_event: "keeps honest (append_run_event env run t a g o' r)"
  unfolding append_run_event_def append_run_event_with_data_def append_identified_event_def
  by (intro triple_intros honest_record)

lemma honest_inference_release: "keeps honest (reconcile_inference_release env run)"
  unfolding reconcile_inference_release_def request_lease_release_def Let_def
  by (intro triple_intros inference_lease_kind.keeps_honest honest_run_event)

text \<open>
  What no stage of a live run changes: facts that none of its writes touch, and that an attempt to
  acquire the writer lease keeps.
\<close>

locale run_neutral = observed_fact +
  assumes apart: "untouched AgentRuns I" "untouched InferenceLeases I" "untouched Secrets I" "untouched ConfigMaps I"
      "untouched Pods I" "untouched Jobs I" "untouched ServiceAccounts I" "untouched Roles I" "untouched RoleBindings I" "uncounted I"
    and acquire: "keeps I (acquire_workspace_writer (flow :: workflow) l kind (x :: agent_run) ep now)"
begin

lemma keeps_endpoint: "keeps I (run_endpoint env run)"
proof -
  have "keeps I (ensure_lease env run req)" for req unfolding ensure_lease_def
    by (intro keeps_intros keeps_writes keeps_run_status keeps_run_event apart)
  then show ?thesis unfolding run_endpoint_def delete_run_pod_def
    by (auto intro!: keeps_intros keeps_run_status keeps_drops apart split: option.split resource_phase.split)
qed

lemma keeps_writer: "keeps I (run_writer env run)"
  unfolding run_writer_def
  by (rule triple_bind [OF agent_owner.keeps_ensure [OF observed_fact_axioms]])
    (auto intro!: acquire keeps_intros keeps_run_status agent_owner.keeps_workloads observed_fact_axioms apart split: writer_state.split)

lemma keeps_launch: "keeps I (launch_run env run endpoint grant inputs inputEvent)"
  unfolding launch_run_def ensure_workload_def
  by (intro keeps_intros keeps_run_authority keeps_context_capture keeps_create_missing keeps_run_status apart)

lemma keeps_authorised: "keeps I (authorised_run env run)"
proof -
  have admit: "keeps I (run_admit_inputs env run)" unfolding run_admit_inputs_def
    by (auto intro!: keeps_intros keeps_resolve_agent_inputs keeps_run_evidence keeps_run_status apart split: resolution.split)
  have domain: "keeps I (validate_domain_authority run a k wf s i)" for a k wf s i
    unfolding validate_domain_authority_def by (intro keeps_intros)
  have execute: "keeps I (execute_run env run inputs inputEvent)" for inputs inputEvent unfolding execute_run_def
    by (intro keeps_intros keeps_endpoint keeps_writer keeps_launch keeps_run_collection keeps_observe_run apart)
  show ?thesis unfolding authorised_run_def
    by (intro keeps_intros admit domain execute keeps_run_status apart)
qed

end

interpretation shown: run_neutral "term_shown k h e" for k h e
  by (intro run_neutral.intro run_neutral_axioms.intro observed_shown acquire_keeps_shown)
    (simp_all add: untouched_def uncounted_def term_shown_def kind_defs)

lemma calm_key: "obj_key run' = obj_key run \<Longrightarrow> run_calm run' = run_calm run"
  by (auto simp: run_calm_def collector_job_name_def obj_key_def fun_eq_iff)

lemma advance_term:
  "triple (\<lambda>w. honest w \<and> term_shown k h e w) (advance_run env run) (\<lambda>_ w. term_shown k h e w \<or> run_calm run w)
     (\<lambda>_ w. term_shown k h e w \<or> run_calm run w)"
proof -
  let ?H = "\<lambda>w. honest w \<and> term_shown k h e w"
  have released: "triple ?H (reconcile_inference_release env run) (\<lambda>_. ?H) (\<lambda>_ w. term_shown k h e w \<or> run_calm run w)"
    by (rule triple_post [OF triple_and [OF honest_inference_release shown.keeps_inference_release [OF shown.apart(2)]]]) auto
  have phase: "triple ?H (seq_io (set_run_phase env run PhasePending ''Initialized'' ''agent run initialized'') (ret None))
      (\<lambda>_ w. term_shown k h e w \<or> run_calm run w) (\<lambda>_ w. term_shown k h e w \<or> run_calm run w)"
    by (rule triple_post [OF triple_pre [OF keeps_seq [OF shown.keeps_run_status(1) [OF shown.apart(1)] triple_ret]]]) auto
  have live: "triple ?H (authorised_run env run) (\<lambda>_ w. term_shown k h e w \<or> run_calm run w) (\<lambda>_ w. term_shown k h e w \<or> run_calm run w)"
    by (rule triple_post [OF triple_pre [OF shown.keeps_authorised]]) auto
  have wait: "triple ?H (if \<not> r then ret (Some 2) else reconcile_writer_release (run_owner env) run)
      (\<lambda>_ w. term_shown k h e w \<or> run_calm run w) (\<lambda>_ w. term_shown k h e w \<or> run_calm run w)" for r
    by (rule triple_if) (simp add: triple_def ret_def, rule agent_owner.release_calm [OF observed_shown])
  show ?thesis unfolding advance_run_def by (intro triple_if phase live triple_bind [OF released wait])
qed

lemma not_deleted_term:
  "triple (\<lambda>w. honest w \<and> term_shown k h e w) (run_not_deleted env run)
     (\<lambda>r w. case r of Inl _ \<Rightarrow> term_shown k h e w \<or> run_calm run w
        | Inr run' \<Rightarrow> (honest w \<and> term_shown k h e w) \<and> run_calm run' = run_calm run)
     (\<lambda>_ w. term_shown k h e w \<or> run_calm run w)"
proof -
  let ?H = "\<lambda>w. honest w \<and> term_shown k h e w"
  let ?E = "\<lambda>_ w. term_shown k h e w \<or> run_calm run w"
  let ?Q = "\<lambda>r w. case r of Inl _ \<Rightarrow> term_shown k h e w \<or> run_calm run w | Inr run' \<Rightarrow> ?H w \<and> run_calm run' = run_calm run"
  have released: "triple ?H (reconcile_inference_release env run) (\<lambda>_. ?H) ?E"
    by (rule triple_post [OF triple_and [OF honest_inference_release shown.keeps_inference_release [OF shown.apart(2)]]]) auto
  have final: "triple ?H (bind_io (finalize_writer (run_owner env) run) (\<lambda>r. ret (Inl r))) ?Q ?E"
    by (rule triple_bind [OF agent_owner.finalize_calm [OF observed_shown shown.apart(5,6)]]) (simp add: triple_def ret_def)
  have deleted: "triple ?H (bind_io (reconcile_inference_release env run) (\<lambda>released.
      if \<not> released then ret (Inl (Some 2)) else bind_io (finalize_writer (run_owner env) run) (\<lambda>r. ret (Inl r)))) ?Q ?E"
    by (intro triple_bind [OF released] triple_if final) (simp add: triple_def ret_def)
  have same: "obj_key y = obj_key run" if "k_update AgentRuns (add_finalizer writer_finalizer run) w = (Inr y, w')" for w y w'
    using that by (rule agent_run_kind.update_result) (auto dest!: find_by_set simp: add_finalizer_def obj_key_def)
  have mark: "triple ?H (k_update AgentRuns (add_finalizer writer_finalizer run)) (\<lambda>r w. ?H w \<and> run_calm r = run_calm run) ?E"
  proof (rule tripleI, goal_cases)
    case (1 w y w')
    from triple_resultD [OF triple_and [OF agent_run_kind.keeps_honest(2) shown.keeps_writes(1) [OF shown.apart(1)]] 1]
    show ?case using calm_key [OF same [OF 1(2)]] by blast
  next
    case (2 w err w')
    from triple_errorD [OF triple_and [OF agent_run_kind.keeps_honest(2) shown.keeps_writes(1) [OF shown.apart(1)]] 2] show ?case by blast
  qed
  have ends: "triple (\<lambda>w. ?H w \<and> run_calm r = run_calm run) (bind_io (namespace_terminating (namespace_of r)) (\<lambda>terminating.
          ret (if terminating then Inl None else Inr r))) ?Q ?E" for r
  proof (rule triple_pure, rule triple_bind)
    show "triple ?H (namespace_terminating (namespace_of r)) (\<lambda>_. ?H) ?E"
      by (rule triple_post [OF triple_and [OF honest_terminating shown.keeps_terminating]]) auto
  qed (simp add: triple_def ret_def)
  have marked: "triple ?H (if writer_finalizer \<in> set (finalizers (meta run)) then ret run
            else k_update AgentRuns (add_finalizer writer_finalizer run)) (\<lambda>r w. ?H w \<and> run_calm r = run_calm run) ?E"
    by (rule triple_if [OF _ mark]) (simp add: triple_def ret_def)
  show ?thesis unfolding run_not_deleted_def by (intro triple_if deleted triple_bind [OF marked ends])
qed

lemma reconcile_term:
  assumes "find_by obj_key (ns, n) (agent_runs w0) = Some run"
  shows "triple (\<lambda>w. w = w0 \<and> honest w \<and> term_shown k h e w) (reconcile_agent_run env ns n)
     (\<lambda>_ w. term_shown k h e w \<or> run_calm run w) (\<lambda>_ w. term_shown k h e w \<or> run_calm run w)"
proof -
  let ?H = "\<lambda>w. honest w \<and> term_shown k h e w"
  let ?C = "\<lambda>w. term_shown k h e w \<or> run_calm run w"
  have get: "triple (\<lambda>w. w = w0 \<and> ?H w) (k_get AgentRuns ns n) (\<lambda>r w. ?H w \<and> r = run) (\<lambda>_. ?C)"
  proof (rule tripleI, goal_cases)
    case (1 w r w')
    from triple_resultD [OF triple_and [OF agent_run_kind.keeps_honest(1) shown.keeps_reads(1)] conjunct2 [OF 1(1)] 1(2)]
    show ?case using agent_run_kind.get_result(1,2) [OF 1(2)] 1(1) assms by (simp add: AgentRuns_def)
  next
    case (2 w err w')
    from triple_errorD [OF triple_and [OF agent_run_kind.keeps_honest(1) shown.keeps_reads(1)] conjunct2 [OF 2(1)] 2(2)] show ?case by blast
  qed
  have go: "triple (\<lambda>w. ?H w \<and> r = run) (bind_io (run_not_deleted env r) (\<lambda>x. case x of Inl stop \<Rightarrow> ret stop
       | Inr run \<Rightarrow> advance_run env run)) (\<lambda>_. ?C) (\<lambda>_. ?C)" for r
  proof (rule triple_pure)
    assume r: "r = run"
    show "triple ?H (bind_io (run_not_deleted env r) (\<lambda>x. case x of Inl stop \<Rightarrow> ret stop
       | Inr run \<Rightarrow> advance_run env run)) (\<lambda>_. ?C) (\<lambda>_. ?C)" unfolding r
    proof (rule triple_bind [OF not_deleted_term])
      fix x
      show "triple (\<lambda>w. case x of Inl _ \<Rightarrow> ?C w | Inr run' \<Rightarrow> ?H w \<and> run_calm run' = run_calm run)
         (case x of Inl stop \<Rightarrow> ret stop | Inr run \<Rightarrow> advance_run env run) (\<lambda>_. ?C) (\<lambda>_. ?C)"
      proof (cases x)
        case (Inr run')
        have "triple (\<lambda>w. ?H w \<and> run_calm run' = run_calm run) (advance_run env run') (\<lambda>_. ?C) (\<lambda>_. ?C)"
          by (rule triple_pure, rule triple_post [OF advance_term]) auto
        then show ?thesis by (simp add: Inr)
      qed (simp add: triple_def ret_def)
    qed
  qed
  show ?thesis unfolding reconcile_agent_run_def
    by (rule triple_attempt_bind [OF get]) (use go in \<open>simp_all add: triple_def ret_def raise_def\<close>)
qed

subsection \<open>The end of a run\<close>

definition run_phase_is :: "string \<times> string \<Rightarrow> resource_phase \<Rightarrow> cluster \<Rightarrow> bool" where
  "run_phase_is k p w \<longleftrightarrow> (\<exists>run. find_by obj_key k (agent_runs w) = Some run \<and> run_phase (status run) = p)"

lemma observed_phase [intro]: "observed_fact (run_phase_is k p)"
  by unfold_locales (simp_all add: run_phase_is_def)

lemma phase_apart: "untouched InferenceLeases (run_phase_is k p)" "untouched WriterLeases (run_phase_is k p)"
    "untouched Pods (run_phase_is k p)" "untouched Jobs (run_phase_is k p)"
  by (simp_all add: untouched_def run_phase_is_def kind_defs)

lemma phase_write:
  assumes "\<And>cur. obj_key (change cur) = obj_key cur" and "\<And>cur. obj_key x = k \<Longrightarrow> run_phase (status cur) = p \<Longrightarrow> run_phase (status (change cur)) = p"
  shows "keeps (run_phase_is k p) (k_write AgentRuns x change)"
  unfolding k_write_def
proof (rule keeps_api_call, simp add: run_phase_is_def)
  have kept: "run_phase_is k p (agent_runs_update (replace_by obj_key (obj_key x) (change cur)) w)"
    if "find_by obj_key (obj_key x) (agent_runs w) = Some cur" "run_phase_is k p w" for w cur
  proof -
    have "obj_key (change cur) = obj_key x" using find_by_set [OF that(1)] assms(1) by simp
    then show ?thesis using that assms(2) by (auto simp: run_phase_is_def store_simps)
  qed
  show "keeps (run_phase_is k p) (\<lambda>w. case find_by obj_key (obj_key x) (items AgentRuns w) of
       None \<Rightarrow> (Inl NotFound, w)
     | Some cur \<Rightarrow> if resource_version (meta x) \<noteq> resource_version (meta cur) then (Inl Conflict, w)
         else let y = change cur in (Inr y, upd_items AgentRuns (replace_by obj_key (obj_key x) y) w))"
    by (rule tripleI) (auto simp: AgentRuns_def Let_def kept split: option.splits if_splits)
qed

lemma phase_update: "keeps (run_phase_is k p) (k_update AgentRuns x)"
  unfolding k_update_def by (rule phase_write) simp_all

lemma phase_save: "keeps (run_phase_is k p) (update_run_fields run)"
proof -
  let ?I = "run_phase_is k p"
  let ?S = "\<lambda>latest w. ?I w \<and> seen AgentRuns (namespace_of run) (name_of run) latest w"
  have step: "triple (?S latest) (case run_fields_mutation (status run) now latest of None \<Rightarrow> ret (latest, False)
      | Some l \<Rightarrow> bind_io (k_update_status AgentRuns l) (\<lambda>updated. ret (updated, True))) (\<lambda>_. ?I) (\<lambda>_. ?I)" for latest now
  proof (cases "run_fields_mutation (status run) now latest")
    case (Some l)
    then have l: "obj_key l = obj_key latest" "run_phase (status l) = run_phase (status latest)"
      by (auto simp: run_fields_mutation_def Let_def split: if_splits)
    show ?thesis
    proof (cases "obj_key latest = k \<longrightarrow> run_phase (status latest) = p")
      case True
      have "keeps ?I (k_update_status AgentRuns l)" unfolding k_update_status_def
        by (rule phase_write) (use l True in simp_all)
      then have "keeps ?I (bind_io (k_update_status AgentRuns l) (\<lambda>updated. ret (updated, True)))" by (intro triple_intros)
      then show ?thesis unfolding Some option.case by (rule triple_pre) simp
    next
      case False
      have "\<not> ?S latest w" for w
      proof
        assume S: "?S latest w"
        then have found: "find_by obj_key (namespace_of run, name_of run) (agent_runs w) = Some latest" by (simp add: seen_def AgentRuns_def)
        from find_by_set [OF found] have "obj_key latest = (namespace_of run, name_of run)" by simp
        with found S False show False by (auto simp: run_phase_is_def)
      qed
      then show ?thesis by (intro tripleI) blast+
    qed
  qed (simp add: triple_def ret_def)
  have "keeps ?I (bind_io (k_get AgentRuns (namespace_of run) (name_of run)) (\<lambda>latest. bind_io (gets clock) (\<lambda>now.
      case run_fields_mutation (status run) now latest of None \<Rightarrow> ret (latest, False)
      | Some l \<Rightarrow> bind_io (k_update_status AgentRuns l) (\<lambda>updated. ret (updated, True)))))"
    by (intro triple_bind [OF agent_run_kind.get_seen [OF observed_phase]] triple_bind_gets step)
  then show ?thesis unfolding update_run_fields_def update_run_status_def by (rule keeps_bind [OF keeps_retry triple_ret])
qed

lemma reconcile_phase:
  assumes "find_by obj_key (ns, n) (agent_runs w0) = Some run" and "is_terminal (run_phase (status run))"
  shows "triple (\<lambda>w. w = w0) (reconcile_agent_run env ns n) (\<lambda>_. run_phase_is (ns, n) (run_phase (status run)))
     (\<lambda>_. run_phase_is (ns, n) (run_phase (status run)))"
proof -
  let ?p = "run_phase (status run)"
  let ?I = "run_phase_is (ns, n) ?p"
  have start: "?I (w0\<lparr>faults := fs\<rparr>)" for fs using assms(1) by (simp add: run_phase_is_def)
  have drops: "keeps ?I (delete_writer_workloads (run_owner env) x)" for x
    unfolding delete_writer_workloads_def run_owner_def
    by (auto intro!: triple_intros observed_fact.keeps_drops observed_phase phase_apart)
  have advance: "keeps ?I (advance_run env r)" if "run_phase (status r) = ?p" for r
    using that assms(2) unfolding advance_run_def
    by (auto simp: is_terminal_def intro!: triple_intros observed_fact.keeps_inference_release observed_phase phase_apart
        agent_owner.keeps_reconcile_release phase_save)
  have get: "triple (\<lambda>w. w = w0) (k_get AgentRuns ns n) (\<lambda>r w. ?I w \<and> r = run) (\<lambda>_. ?I)"
  proof (rule tripleI, goal_cases)
    case (1 w r w')
    obtain fs where "w' = w0\<lparr>faults := fs\<rparr>" using get_frame [OF 1(2)] 1(1) by auto
    with agent_run_kind.get_result(1) [OF 1(2)] assms(1) start show ?case by (simp add: AgentRuns_def)
  next
    case (2 w e w')
    with get_frame [OF 2(2)] show ?case by (auto simp: start)
  qed
  have live: "triple ?I (run_not_deleted env run) (\<lambda>x w. ?I w \<and> (\<forall>r. x = Inr r \<longrightarrow> run_phase (status r) = ?p)) (\<lambda>_. ?I)"
  proof -
    have kept: "keeps ?I (run_not_deleted env run)" unfolding run_not_deleted_def
      by (intro triple_intros observed_fact.keeps_inference_release observed_phase phase_apart agent_owner.keeps_finalize drops
          observed_fact.keeps_terminating phase_update) (simp_all add: phase_update)
    show ?thesis
    proof (rule tripleI, goal_cases)
      case (1 w x w')
      have "run_phase (status y) = ?p" if "k_update AgentRuns (add_finalizer writer_finalizer run) v = (Inr y, v')" "?I v" for v y v'
        using that(1)
      proof (rule agent_run_kind.update_result)
        fix cur assume cur: "find_by obj_key (obj_key (add_finalizer writer_finalizer run)) (items AgentRuns v) = Some cur"
          "y = updated_object (add_finalizer writer_finalizer run) cur"
        have key: "obj_key (add_finalizer writer_finalizer run) = (ns, n)"
          using find_by_set [OF assms(1)] by (simp add: add_finalizer_def)
        have "find_by obj_key (ns, n) (agent_runs v) = Some cur" using cur(1) unfolding key by (simp add: AgentRuns_def)
        then show ?thesis using cur(2) that(2) by (simp add: run_phase_is_def)
      qed
      with 1 have "\<forall>r. x = Inr r \<longrightarrow> run_phase (status r) = ?p"
        by (auto simp: run_not_deleted_def ret_def elim!: bind_io_result split: if_splits)
      then show ?case using triple_resultD [OF kept 1] by blast
    qed (use triple_errorD [OF kept] in blast)
  qed
  have go: "triple (\<lambda>w. ?I w \<and> r = run) (bind_io (run_not_deleted env r) (\<lambda>x. case x of Inl stop \<Rightarrow> ret stop
       | Inr run \<Rightarrow> advance_run env run)) (\<lambda>_. ?I) (\<lambda>_. ?I)" for r
  proof (rule triple_pure)
    assume r: "r = run"
    have "triple (\<lambda>w. ?I w \<and> (\<forall>r. x = Inr r \<longrightarrow> run_phase (status r) = ?p)) (case x of Inl stop \<Rightarrow> ret stop
       | Inr run \<Rightarrow> advance_run env run) (\<lambda>_. ?I) (\<lambda>_. ?I)" for x
    proof (cases x)
      case (Inr y)
      have "triple (\<lambda>w. ?I w \<and> run_phase (status y) = ?p) (advance_run env y) (\<lambda>_. ?I) (\<lambda>_. ?I)"
        by (rule triple_pure, rule advance)
      then show ?thesis by (simp add: Inr)
    qed (simp add: triple_def ret_def)
    then show "triple ?I (bind_io (run_not_deleted env r) (\<lambda>x. case x of Inl stop \<Rightarrow> ret stop
       | Inr run \<Rightarrow> advance_run env run)) (\<lambda>_. ?I) (\<lambda>_. ?I)" unfolding r by (rule triple_bind [OF live])
  qed
  show ?thesis unfolding reconcile_agent_run_def
    by (rule triple_attempt_bind [OF get]) (use go in \<open>simp_all add: triple_def ret_def raise_def\<close>)
qed

subsection \<open>An example\<close>

definition run_flow :: workflow where
  "run_flow = (steps_workflow [])\<lparr>meta := bare_meta ''team'' ''wf'' ''uw'',
     status := (status (steps_workflow []))\<lparr>wf_workspaceWriterLeaseRef := ''wl'', wf_pvcName := ''pvc''\<rparr>\<rparr>"

definition run_lease :: "string \<Rightarrow> int \<Rightarrow> writer_lease" where
  "run_lease holder epoch = \<lparr>meta = (bare_meta ''team'' ''wl'' ''ul'')\<lparr>controller_owner := Some (owner_ref_of ''SovereignWorkflow'' run_flow)\<rparr>,
     spec = \<lparr>holderIdentity = Some holder, acquireTime = None, renewTime = None, leaseTransitions = Some epoch\<rparr>, status = ()\<rparr>"

definition run_env :: agent_env where
  "run_env = \<lparr>arc_sha = (\<lambda>s. s), arc_encodeInput = inp_stepName, arc_encodeDecision = (\<lambda>(s, a, i). a @ i),
     arc_decodeError = (\<lambda>m. Some \<lparr>re_code = ''Crash'', re_message = m\<rparr>), arc_getenv = (\<lambda>_. ''''), arc_token = '''', arc_collectorImage = '''',
     arc_mcpImage = ''mcp'', arc_contextAPIAddress = '''', arc_contextTLSNamespace = '''', arc_contextTLSSecret = ''''\<rparr>"

definition run_identity :: string where
  "run_identity = ''AgentRun/team/build-1/ur''"

text \<open>A run waits for its pod; a run that has ended still holds the writer's term.\<close>

definition waiting_run :: agent_run where
  "waiting_run = (demo_run PhasePending)\<lparr>meta := (meta (demo_run PhasePending))\<lparr>finalizers := [writer_finalizer]\<rparr>\<rparr>"

definition ended_run :: agent_run where
  "ended_run = waiting_run\<lparr>status := (status (demo_run PhaseFailed))\<lparr>run_workspaceWriterLeaseRef := ''wl'',
     run_workspaceWriterEpoch := 3\<rparr>\<rparr>"

definition run_cluster :: "agent_run \<Rightarrow> writer_lease \<Rightarrow> cluster" where
  "run_cluster run lease = empty_cluster\<lparr>workflows := [run_flow], step_attempts := [demo_attempt PhaseRunning],
     agent_runs := [run], writer_leases := [lease]\<rparr>"

definition fed_run :: agent_run where
  "fed_run = (demo_run PhasePending)\<lparr>spec := (spec (demo_run PhasePending))\<lparr>run_inputs := [demo_input],
     run_workflowRef := \<lparr>ref_name = ''wf'', ref_uid = ''uw''\<rparr>\<rparr>\<rparr>"

lemma waiting_run_launches:
  "map obj_key (pods (snd (reconcile_agent_run run_env ''team'' ''build-1'' (run_cluster waiting_run (run_lease '''' 2)))))
     = [(''team'', ''build-1'')]"
  by code_simp

lemma ended_run_releases:
  "(case find_by obj_key (''team'', ''wl'') (writer_leases (snd (reconcile_agent_run run_env ''team'' ''build-1''
      (run_cluster ended_run (run_lease run_identity 3))))) of None \<Rightarrow> False | Some l \<Rightarrow> current_holder l = '''')"
  by code_simp

subsection \<open>Properties\<close>

text \<open>
  C1: A pod that a reconciliation of an agent run leaves behind and that was not there before is the
  pod built for that run, and the run is entitled to it: it is stored, not deleted and not at its
  end; the StepAttempt it names controls it and names it as its execution; its declared inputs are
  accepted artifacts of its workflow; the inference lease it asks for is running; and the cluster
  shows it as the holder of the workflow's writer lease at the epoch written into the pod. This holds
  under any faults, conflicts and retries, also when the reconciliation ends in an error.
\<close>

theorem agent_pods_are_authorised:
  assumes "pod \<in> set (pods (snd (reconcile_agent_run env ns n w)))" and "obj_key pod \<notin> obj_key ` set (pods w)"
  shows "\<exists>run flow grant capture. stored_run w ns n run \<and> \<not> is_terminal (run_phase (status run)) \<and> authorises w run
     \<and> (\<exists>inputs. delivered w run inputs) \<and> lease_ready run (snd (reconcile_agent_run env ns n w))
     \<and> seen Workflows ns (ref_name (run_workflowRef (spec run))) flow (snd (reconcile_agent_run env ns n w))
     \<and> holds_term ''AgentRun'' run flow grant (snd (reconcile_agent_run env ns n w))
     \<and> born (agent_pod env run flow grant capture) pod"
proof -
  obtain r w' where run: "reconcile_agent_run env ns n w = (r, w')" by fastforce
  have "pods_justified env w ns n w'"
    using triple_resultD [OF reconcile_justified refl] triple_errorD [OF reconcile_justified refl] run by (cases r) auto
  moreover have "\<not> no_new_pods w w'"
    using assms by (auto simp: run no_new_pods_def only_new_def keys_of_def Pods_def)
  ultimately obtain run' flow grant where j: "stored_run w ns n run'" "\<not> is_terminal (run_phase (status run'))" "authorises w run'"
    "\<exists>inputs. delivered w run' inputs" and l: "launches env w run' flow grant w'" by (auto simp: pods_justified_def)
  have "namespace_of run' = ns" using j(1) by (auto simp: stored_run_def)
  moreover obtain capture where "born (agent_pod env run' flow grant capture) pod"
    using l assms by (auto simp: run launches_def only_new_def keys_of_def Pods_def)
  ultimately show ?thesis using j l unfolding run launches_def launch_ground_def by auto
qed

theorem agent_pods_are_authorised_witness:
  "\<exists>pod run flow grant capture. obj_key pod = (''team'', ''build-1'')
     \<and> stored_run (run_cluster waiting_run (run_lease '''' 2)) ''team'' ''build-1'' run
     \<and> authorises (run_cluster waiting_run (run_lease '''' 2)) run \<and> born (agent_pod run_env run flow grant capture) pod"
proof -
  let ?w = "run_cluster waiting_run (run_lease '''' 2)"
  from waiting_run_launches obtain pod where pod: "pod \<in> set (pods (snd (reconcile_agent_run run_env ''team'' ''build-1'' ?w)))"
    and key: "obj_key pod = (''team'', ''build-1'')" by (auto simp: map_eq_Cons_conv)
  have "obj_key pod \<notin> obj_key ` set (pods ?w)" by (simp add: run_cluster_def empty_cluster_def)
  from agent_pods_are_authorised [OF pod this] key show ?thesis by blast
qed



text \<open>
  C39: An agent run that has succeeded, failed, been cancelled or interrupted keeps that phase
  through its reconciliations, under any faults.
\<close>

theorem run_outcome_is_final:
  assumes "find_by obj_key (ns, n) (agent_runs w) = Some run" and "is_terminal (run_phase (status run))"
  shows "run_phase_is (ns, n) (run_phase (status run)) (snd (reconcile_agent_run env ns n w))"
proof -
  obtain r w' where "reconcile_agent_run env ns n w = (r, w')" by fastforce
  then show ?thesis using triple_resultD [OF reconcile_phase [OF assms] refl] triple_errorD [OF reconcile_phase [OF assms] refl]
    by (cases r) auto
qed

theorem run_outcome_is_final_witness:
  "run_phase_is (''team'', ''build-1'') PhaseFailed
     (snd (reconcile_agent_run run_env ''team'' ''build-1'' (run_cluster ended_run (run_lease run_identity 3))))"
  using run_outcome_is_final [of "''team''" "''build-1''" "run_cluster ended_run (run_lease run_identity 3)" ended_run run_env]
  by (simp add: run_cluster_def ended_run_def waiting_run_def demo_run_def is_terminal_def)

text \<open>
  C7: The inputs an agent is given are those the audit trail records as its evidence: when both are
  resolved from one state of the cluster, they have the same contracts and digests in the same
  order, although the two resolvers select unpinned inputs by different rules.
\<close>

theorem delivered_inputs_match_evidence:
  assumes "distinct (map obj_key (artifacts w))" and "resolve_agent_inputs run w = (Inr (Resolved inputs), v)"
    and "resolve_artifact_evidence sha (namespace_of run) (run_workflowRef (spec run)) (run_inputs (spec run)) v = (Inr (Resolved evs), v')"
  shows "map (\<lambda>i. (ai_contract i, ai_digest i)) inputs = map (\<lambda>e. (ae_contract e, ae_digest e)) evs"
proof (rule delivered_evidence [OF assms(1) agent_inputs_delivered [OF assms(2)]])
  from evidence_resolved [OF assms(3)]
  have "list_all2 (\<lambda>i ev. \<exists>a. selected_artifact v (namespace_of run) (run_workflowRef (spec run)) i a \<and> uid_of a \<noteq> ''''
      \<and> validate_claims sha (art_contract (spec a)) (art_claims (spec a)) = None \<and> ev = artifact_evidence_of a)
      (run_inputs (spec run)) evs" ..
  then show "list_all2 (\<lambda>i ev. \<exists>a. selected_artifact w (namespace_of run) (run_workflowRef (spec run)) i a \<and> ev = artifact_evidence_of a)
      (run_inputs (spec run)) evs"
    by (rule list_all2_mono) (use same_selection [OF resolve_agent_inputs_frame [OF assms(2)]] in blast)
qed

theorem delivered_inputs_match_evidence_witness:
  "map (\<lambda>i. (ai_contract i, ai_digest i)) [artifact_input_of demo_input demo_artifact]
     = map (\<lambda>e. (ae_contract e, ae_digest e)) [artifact_evidence_of demo_artifact]"
proof (rule delivered_inputs_match_evidence)
  show "distinct (map obj_key (artifacts evidence_cluster))" by (simp add: evidence_cluster_def)
  show "resolve_agent_inputs fed_run evidence_cluster
      = (Inr (Resolved [artifact_input_of demo_input demo_artifact]), evidence_cluster)" by code_simp
  show "resolve_artifact_evidence zero_sha (namespace_of fed_run) (run_workflowRef (spec fed_run)) (run_inputs (spec fed_run)) evidence_cluster
      = (Inr (Resolved [artifact_evidence_of demo_artifact]), evidence_cluster)" by code_simp
qed

text \<open>
  The code and message a run records for a failed pod, whatever the agent wrote as its
  termination message, are feedback that the contract accepts for the next attempt.
\<close>

theorem pod_diagnostics_are_deliverable:
  assumes "bounded_diagnostic_field ref max_reference_bytes = None"
  shows "validate_retry_feedback \<lparr>rf_previousAttemptRef = ref,
     rf_code = run_failureReason (status (failed_pod_run env pod run)),
     rf_message = run_failureMessage (status (failed_pod_run env pod run))\<rparr> = None"
  using pod_failure_valid [OF assms, of env pod] by (cases "agent_pod_failure env pod") (simp add: failed_pod_run_def)

theorem pod_diagnostics_are_deliverable_witness:
  "validate_retry_feedback \<lparr>rf_previousAttemptRef = ''build-1'',
     rf_code = run_failureReason (status (failed_pod_run run_env \<lparr>meta = bare_meta '''' '''' '''', spec = plain_pod, status = new_pod_status\<rparr> waiting_run)),
     rf_message = run_failureMessage (status (failed_pod_run run_env \<lparr>meta = bare_meta '''' '''' '''', spec = plain_pod, status = new_pod_status\<rparr> waiting_run))\<rparr> = None"
  by (rule pod_diagnostics_are_deliverable, rule printable_field) (simp_all add: ascii_space_def max_reference_bytes_def)

end
