(* ===== verification/Utility_Contract.thy ===== *)
theory Utility_Contract
  imports Agent_Contract Artifact_Contract Cluster
begin

section \<open>The contract of deterministic utilities (internal/utilitycontract, internal/utility/runner.go)\<close>

text \<open>
  The document a utility job is started with, the result it returns, and the closed vocabulary of
  operations with the credentials they may be given. The contract shares its inputs, obligations,
  outputs and writer authority with the agents' contract, whose types are used again. The JSON decoder,
  the file system and the operations themselves are parameters. Below, the form a repository credential
  must have (\<open>internal/repositorycredential\<close>).
\<close>

subsection \<open>Documents\<close>

record authority_reference =
  auth_apiVersion :: string
  auth_kind :: string
  auth_namespace :: string
  auth_name :: string
  auth_uid :: string

record lineage_references =
  lin_admissionDecisionEvent :: string
  lin_authorityEvent :: string
  lin_inputsEvent :: string
  lin_executionDecisionEvent :: string

record utility_input =
  ui_schemaVersion :: string
  ui_workflowID :: string
  ui_stepName :: string
  ui_attempt :: int
  ui_authority :: authority_reference
  ui_policyDecisionID :: string
  ui_operation :: string
  ui_idempotencyKey :: string
  ui_credentialClass :: string
  ui_parameters :: "(string \<times> string) list"
  ui_command :: "string list"
  ui_artifacts :: "artifact_input list"
  ui_outputs :: "output_obligation list"
  ui_workspacePath :: string
  ui_stagingPath :: string
  ui_controlPath :: string
  ui_resultPath :: string
  ui_auditEventsPath :: string
  ui_workspaceWrite :: write_authority
  ui_lineage :: "lineage_references option"

record utility_result =
  ur_schemaVersion :: string
  ur_outcome :: string
  ur_message :: string
  ur_error :: "result_error option"
  ur_artifacts :: "artifact_output list"
  ur_metadata :: "(string \<times> string) list"

definition utility_contract_version :: string where
  "utility_contract_version = ''sovereign.ai/utility-contract/v1''"

definition validate_utility_input :: "utility_input \<Rightarrow> go_error option" where
  "validate_utility_input i = first_error
     [refuse (ui_schemaVersion i \<noteq> utility_contract_version) ''unsupported utility input schema'',
      refuse (ui_workflowID i = '''' \<or> ui_stepName i = '''' \<or> ui_attempt i < 1) ''workflowId, stepName, and positive attempt are required'',
      refuse (ui_operation i = '''' \<or> ui_idempotencyKey i = '''') ''operation and idempotencyKey are required'',
      refuse (auth_apiVersion (ui_authority i) = '''' \<or> auth_kind (ui_authority i) \<noteq> ''UtilityOperation''
          \<or> auth_namespace (ui_authority i) = '''' \<or> auth_name (ui_authority i) = '''' \<or> auth_uid (ui_authority i) = '''')
        ''authority must identify an immutable UtilityOperation'',
      refuse (ui_policyDecisionID i = '''') ''policyDecisionId is required'',
      refuse (wa_leaseName (ui_workspaceWrite i) = '''' \<or> wa_holderIdentity (ui_workspaceWrite i) = ''''
          \<or> wa_writerEpoch (ui_workspaceWrite i) < 1) ''workspaceWrite must identify a lease holder and positive writer epoch'',
      refuse (ui_credentialClass i \<noteq> '''' \<and> ui_credentialClass i \<noteq> ''repository'' \<and> ui_credentialClass i \<noteq> ''registry'')
        ''unsupported credentialClass'',
      refuse (list_ex (\<lambda>(n, _). blank n) (ui_parameters i)) ''utility parameter names cannot be empty'',
      refuse (list_ex (\<lambda>c. c = '''') (ui_command i)) ''utility command entries cannot be empty'',
      refuse (\<not> is_abs (ui_workspacePath i) \<or> \<not> is_abs (ui_stagingPath i)) ''workspacePath and stagingPath must be absolute'',
      refuse (list_ex (\<lambda>p. p \<noteq> '''' \<and> \<not> is_abs p) [ui_controlPath i, ui_resultPath i, ui_auditEventsPath i])
        ''path must be absolute when provided'',
      validate_obligations [] (ui_outputs i)]"

definition validate_utility_result :: "string \<Rightarrow> string \<Rightarrow> utility_result \<Rightarrow> go_error option" where
  "validate_utility_result cwd stagingRoot r =
     (if ur_schemaVersion r \<noteq> utility_contract_version then Some (Invalid ''unsupported utility result schema'')
      else if \<not> List.member [''Succeeded'', ''Failed'', ''Intervention''] (ur_outcome r) then Some (Invalid ''invalid utility result outcome'')
      else if (case ur_error r of None \<Rightarrow> False | Some e \<Rightarrow> re_code e = '''' \<or> re_message e = '''')
        then Some (Invalid ''utility result error code and message are required'')
      else validate_outputs cwd stagingRoot (ur_artifacts r))"

text \<open>The obligations by contract, a later one of a contract replacing an earlier one.\<close>

definition obliged :: "utility_input \<Rightarrow> string \<Rightarrow> output_obligation option" where
  "obliged i c = find (\<lambda>o'. obligation_contract o' = c) (rev (ui_outputs i))"

fun outputs_obliged :: "utility_input \<Rightarrow> artifact_output list \<Rightarrow> go_error option" where
  "outputs_obliged i [] = None"
| "outputs_obliged i (a # as) = (case obliged i (ao_contract a) of
       None \<Rightarrow> if ui_outputs i \<noteq> [] then Some (Invalid ''artifact contract was not declared'') else outputs_obliged i as
     | Some o' \<Rightarrow> if ob_mediaType o' \<noteq> '''' \<and> ao_mediaType a \<noteq> ob_mediaType o'
         then Some (Invalid ''mediaType does not satisfy required mediaType'') else outputs_obliged i as)"

definition validate_utility_result_against :: "utility_result \<Rightarrow> utility_input \<Rightarrow> go_error option" where
  "validate_utility_result_against r i =
     (if ur_outcome r \<noteq> ''Succeeded'' then None
      else (case outputs_obliged i (ur_artifacts r) of
          Some e \<Rightarrow> Some e
        | None \<Rightarrow>
            if list_ex (\<lambda>o'. (case obliged i (obligation_contract o') of None \<Rightarrow> False | Some d \<Rightarrow> ob_required d)
                 \<and> \<not> List.member (map ao_contract (ur_artifacts r)) (obligation_contract o')) (ui_outputs i)
            then Some (Invalid ''required output contract was not produced'') else None))"

definition read_utility_input :: "(string \<Rightarrow> utility_input option) \<Rightarrow> string option \<Rightarrow> go_error + utility_input" where
  "read_utility_input decode content = (case content of
       None \<Rightarrow> Inl (Invalid ''read utility input contract'')
     | Some data \<Rightarrow> (case decode data of
           None \<Rightarrow> Inl (Invalid ''decode utility input contract'')
         | Some i \<Rightarrow> (case validate_utility_input i of Some e \<Rightarrow> Inl e | None \<Rightarrow> Inr i)))"

definition read_utility_result ::
  "string \<Rightarrow> (string \<Rightarrow> utility_result option) \<Rightarrow> string option \<Rightarrow> string \<Rightarrow> go_error + utility_result" where
  "read_utility_result cwd decode content stagingRoot = (case content of
       None \<Rightarrow> Inl (Invalid ''read utility result contract'')
     | Some data \<Rightarrow> (case decode data of
           None \<Rightarrow> Inl (Invalid ''decode utility result contract'')
         | Some r \<Rightarrow> (case validate_utility_result cwd stagingRoot r of Some e \<Rightarrow> Inl e | None \<Rightarrow> Inr r)))"

subsection \<open>The operations (runner.go)\<close>

definition supported_operations :: "string list" where
  "supported_operations = [''repository.initialize'', ''git.createBranch'', ''candidate.prepare'', ''git.commit'', ''git.push'',
     ''git.merge'', ''git.mergeRequest'', ''test.run'', ''build.image'']"

definition is_supported_operation :: "string \<Rightarrow> bool" where
  "is_supported_operation n \<longleftrightarrow> List.member supported_operations n"

definition is_privileged_operation :: "string \<Rightarrow> bool" where
  "is_privileged_operation n \<longleftrightarrow> List.member
     [''candidate.prepare'', ''git.commit'', ''git.push'', ''git.merge'', ''git.mergeRequest'', ''build.image''] n"

definition expected_credential_class :: "string \<Rightarrow> string" where
  "expected_credential_class n =
     (if List.member [''repository.initialize'', ''git.push'', ''git.merge'', ''git.mergeRequest''] n then ''repository''
      else if n = ''build.image'' then ''registry'' else '''')"

text \<open>
  \<open>Registry.Run\<close>: \<open>ops\<close> looks an operation up, with its validation and what running it returns; \<open>stat\<close>
  stands for \<open>os.Stat\<close> after the run.
\<close>

definition completed_result :: "utility_result \<Rightarrow> utility_result" where
  "completed_result r = r\<lparr>
     ur_schemaVersion := (if ur_schemaVersion r = '''' then utility_contract_version else ur_schemaVersion r),
     ur_outcome := (if ur_outcome r = '''' then ''Succeeded'' else ur_outcome r)\<rparr>"

definition run_operation ::
  "string \<Rightarrow> (string \<Rightarrow> bool option)
    \<Rightarrow> (string \<Rightarrow> ((utility_input \<Rightarrow> go_error option) \<times> (utility_input \<Rightarrow> go_error + utility_result)) option)
    \<Rightarrow> utility_input \<Rightarrow> go_error + utility_result" where
  "run_operation cwd stat ops i = (case ops (ui_operation i) of
       None \<Rightarrow> Inl (Invalid ''unsupported utility operation'')
     | Some (validate, run) \<Rightarrow> (case validate i of
           Some e \<Rightarrow> Inl e
         | None \<Rightarrow> (case run i of
               Inl e \<Rightarrow> Inl e
             | Inr r0 \<Rightarrow> (let r = completed_result r0 in
                 case first_error [validate_utility_result cwd (ui_stagingPath i) r, validate_utility_result_against r i,
                     validate_artifact_files cwd stat (ui_stagingPath i) (ur_artifacts r)] of
                   Some e \<Rightarrow> Inl e | None \<Rightarrow> Inr r))))"

subsection \<open>Repository credentials (credential.go)\<close>

text \<open>
  One line of Git's credential store: an HTTPS URL with a user name and a secret, and neither query nor
  fragment. \<open>parse_url\<close> leaves the user part of an authority aside, so it is taken apart here.
\<close>

definition user_byte :: "char \<Rightarrow> bool" where
  "user_byte c \<longleftrightarrow> is_alnum c \<or> c \<in> set ''-._:~!$&()*+,;=%@'' \<or> c = CHR 0x27"

definition url_authority :: "parsed_url \<Rightarrow> string \<Rightarrow> string" where
  "url_authority u raw = fst (cut_byte (CHR ''/'') (drop (length (url_scheme u) + 3)
     (fst (cut_byte (CHR ''?'') (fst (cut_byte (CHR ''#'') raw))))))"

text \<open>The authority cut at its last \<open>@\<close>: user name and secret, decoded, and the host.\<close>

definition parse_authority :: "string \<Rightarrow> (string \<times> string \<times> string) option" where
  "parse_authority authority = (case cut_byte (CHR ''@'') (rev authority) of
       (_, None) \<Rightarrow> None
     | (hostRev, Some userRev) \<Rightarrow> (let user = rev userRev in
         if \<not> list_all user_byte user then None
         else (case cut_byte (CHR '':'') user of
             (_, None) \<Rightarrow> None
           | (name, Some secret) \<Rightarrow> (case (parse_host (rev hostRev), unescape False name, unescape False secret) of
                 (Some h, Some n, Some s) \<Rightarrow> Some (n, s, h) | _ \<Rightarrow> None))))"

definition credential_entry :: "string \<Rightarrow> string" where
  "credential_entry contents = trim_suffix (replace_all contents [CHR 13, CHR 10] [CHR 10]) [CHR 10]"

definition parse_credential_entry :: "string \<Rightarrow> (string \<times> string) option" where
  "parse_credential_entry entry =
     (if entry = '''' \<or> contains_any entry [CHR 13, CHR 10] \<or> trim_space entry \<noteq> entry then None
      else (case parse_url entry of
          None \<Rightarrow> None
        | Some u \<Rightarrow>
            if \<not> url_user u then None
            else (case parse_authority (url_authority u entry) of
                None \<Rightarrow> None
              | Some (name, secret, host) \<Rightarrow>
                  if to_lower (url_scheme u) \<noteq> ''https'' \<or> host = '''' \<or> name = '''' \<or> secret = ''''
                     \<or> url_rawQuery u \<noteq> '''' \<or> url_hasFragment u then None
                  else Some (name, secret))))"

definition credential_key :: string where
  "credential_key = ''credentials''"

definition parse_repository_credential :: "secret \<Rightarrow> (string \<times> string) option" where
  "parse_repository_credential source =
     (if sec_type (spec source) \<noteq> ''Opaque'' \<or> length (sec_data (spec source)) \<noteq> 1 then None
      else (case map_of (sec_data (spec source)) credential_key of
          None \<Rightarrow> None
        | Some contents \<Rightarrow>
            if contents = '''' \<or> \<not> utf8_valid contents then None
            else parse_credential_entry (credential_entry contents)))"

end
