(* ===== verification/Utility_Operations.thy ===== *)
theory Utility_Operations
  imports Collector Approval Workflow_Bootstrap Inference_Lease Utility_Contract
begin

section \<open>Utility operations (internal/controllers/utilityoperation)\<close>

text \<open>
  The controller of UtilityOperation: \<open>utilityoperation_controller.go\<close>, \<open>failure.go\<close> and
  \<open>push_admission.go\<close>. An operation is checked against the StepAttempt, the closed vocabulary, the human
  approval and the policy; it then takes the workflow's writer term, and only then its job is created,
  with the inputs, the credential and the events the job rests on; the result is collected like an
  agent's. Functions of Go that change the operation they are given by pointer give it back; \<open>Inl\<close> of a
  stage of \<open>Reconcile\<close> ends it.
\<close>

subsection \<open>The reconciler's configuration\<close>

text \<open>
  What the policy is asked, and the reconciler's configuration with what it takes from libraries:
  SHA-256, the JSON encoders of what is hashed and of the input, the decoder of a termination message.
\<close>

record utility_query =
  uq_operation :: string
  uq_workflow :: uid_reference
  uq_step :: string
  uq_attempt :: int
  uq_project :: string
  uq_policyProfile :: string
  uq_parameters :: "(string \<times> string) list"
  uq_approval :: "resolved_approval option option"
  uq_credentialClass :: string
  uq_hasCredential :: bool
  uq_authority :: "string \<times> string"

record utility_env =
  uoc_sha :: "string \<Rightarrow> string"
  uoc_encodeAdmission :: "utility_operation_spec \<times> string \<times> string \<times> string \<Rightarrow> string"
  uoc_encodeExecution :: "utility_input \<times> string \<times> string \<times> string \<times> string \<Rightarrow> string"
  uoc_encodeInput :: "utility_input \<Rightarrow> string"
  uoc_decodeError :: "string \<Rightarrow> result_error option"
  uoc_getenv :: "string \<Rightarrow> string"
  uoc_collectorImage :: string
  uoc_utilityImage :: string
  uoc_policy :: "(utility_query \<Rightarrow> go_error + policy_decision) option"

abbreviation op_name :: "utility_operation \<Rightarrow> string" where
  "op_name x \<equiv> utility_name (uo_operation (spec x))"

subsection \<open>Events\<close>

definition op_event_options :: "utility_operation \<Rightarrow> string \<Rightarrow> string \<Rightarrow> string \<Rightarrow> string \<Rightarrow> string \<Rightarrow> event_data \<Rightarrow> event_options" where
  "op_event_options x eventType act target outcome reason payload = blank_options\<lparr>op_instanceID := uid_of x, op_type := eventType,
     op_subject := \<lparr>sub_project = '''', sub_namespace = namespace_of x, sub_workflow = ref_name (uo_workflowRef (spec x)),
       sub_step = uo_stepName (spec x), sub_attempt = uo_attempt (spec x)\<rparr>,
     op_action := act, op_target := target, op_outcome := outcome, op_reason := reason,
     op_decisionID := (case payload of DecisionData d \<Rightarrow> dr_id (de_decision d) | _ \<Rightarrow> uo_policyDecisionID (status x)),
     op_references := [(''utilityOperation'', name_of x), (''utilityOperationUID'', uid_of x),
       (''stepAttempt'', uo_attemptRef (spec x)), (''job'', uo_jobRef (status x)), (''collector'', uo_collectorJobRef (status x)),
       (''workspaceWriterLease'', uo_workspaceWriterLeaseRef (status x)),
       (''writerEpoch'', show_int (uo_workspaceWriterEpoch (status x)))],
     op_data := payload\<rparr>"

definition append_op_event_with_data ::
  "utility_env \<Rightarrow> utility_operation \<Rightarrow> string \<Rightarrow> string \<Rightarrow> string \<Rightarrow> string \<Rightarrow> string \<Rightarrow> event_data \<Rightarrow> string action" where
  "append_op_event_with_data env x eventType act target outcome reason payload =
     append_identified_event (uoc_sha env) ''utilityoperation-controller'' (op_event_options x eventType act target outcome reason payload)"

definition append_op_event ::
  "utility_env \<Rightarrow> utility_operation \<Rightarrow> string \<Rightarrow> string \<Rightarrow> string \<Rightarrow> string \<Rightarrow> string \<Rightarrow> event_data \<Rightarrow> unit action" where
  "append_op_event env x eventType act target outcome reason payload =
     bind_io (append_op_event_with_data env x eventType act target outcome reason payload) (\<lambda>_. ret ())"

text \<open>The event of the resolved inputs is built apart: without an instance and with two references.\<close>

definition append_op_inputs_resolved :: "utility_env \<Rightarrow> utility_operation \<Rightarrow> artifact_evidence list \<Rightarrow> string action" where
  "append_op_inputs_resolved env x evidence = append_identified_event (uoc_sha env) ''utilityoperation-controller''
     (blank_options\<lparr>op_type := ''InputsResolved'',
       op_subject := \<lparr>sub_project = '''', sub_namespace = namespace_of x, sub_workflow = ref_name (uo_workflowRef (spec x)),
         sub_step = uo_stepName (spec x), sub_attempt = uo_attempt (spec x)\<rparr>,
       op_action := ''resolve-inputs'', op_target := name_of x, op_outcome := ''resolved'',
       op_references := [(''utilityOperation'', name_of x), (''stepAttempt'', uo_attemptRef (spec x))],
       op_data := InputsData (inputs_resolved_payload ''UtilityOperation'' x evidence)\<rparr>)"

text \<open>
  The newest event of a type for this operation. An older admission event names the operation's UID
  only in its payload; a payload without a primitive decodes to an empty UID.
\<close>

definition event_operation_uid :: "string \<Rightarrow> event \<Rightarrow> string" where
  "event_operation_uid eventType e = (let u = go_map_get (ev_references e) ''utilityOperationUID''
     in if u = '''' \<and> eventType = ''UtilityOperationAdmitted''
        then (case ev_data e of DecisionData d \<Rightarrow> rr_uid (de_primitive d) | AuthorityData a \<Rightarrow> rr_uid (au_primitive a) | _ \<Rightarrow> '''')
        else u)"

definition is_operation_event :: "utility_operation \<Rightarrow> string \<Rightarrow> event \<Rightarrow> bool" where
  "is_operation_event x eventType e \<longleftrightarrow> ev_type e = eventType \<and> sub_step (ev_subject e) = uo_stepName (spec x)
     \<and> sub_attempt (ev_subject e) = uo_attempt (spec x) \<and> go_map_get (ev_references e) ''utilityOperation'' = name_of x
     \<and> (uid_of x \<noteq> '''' \<longrightarrow> event_operation_uid eventType e = uid_of x)"

definition lookup_operation_event :: "utility_operation \<Rightarrow> string \<Rightarrow> string action" where
  "lookup_operation_event x eventType = bind_io recording (\<lambda>on. if \<not> on then ret ''''
     else bind_io (list_workflow_events (ref_name (uo_workflowRef (spec x)))) (\<lambda>events.
       ret (case find (is_operation_event x eventType) (rev events) of None \<Rightarrow> '''' | Some e \<Rightarrow> ev_id e)))"

definition find_operation_event :: "utility_operation \<Rightarrow> string \<Rightarrow> string action" where
  "find_operation_event x eventType = bind_io (lookup_operation_event x eventType) (\<lambda>i. bind_io recording (\<lambda>on.
     if i = '''' \<and> on then raise (Invalid ''required event was not recorded'') else ret i))"

subsection \<open>Status updates\<close>

definition update_op_status ::
  "string \<Rightarrow> string \<Rightarrow> (int \<Rightarrow> utility_operation \<Rightarrow> utility_operation option) \<Rightarrow> (utility_operation \<times> bool) action" where
  "update_op_status ns n mutate = retry_on_conflict (
     bind_io (k_get UtilityOperations ns n) (\<lambda>latest.
     bind_io (gets clock) (\<lambda>now. case mutate now latest of
         None \<Rightarrow> ret (latest, False)
       | Some latest' \<Rightarrow> bind_io (k_update_status UtilityOperations latest') (\<lambda>updated. ret (updated, True)))))"

definition op_phase_mutation ::
  "utility_operation_status \<Rightarrow> resource_phase \<Rightarrow> string \<Rightarrow> string \<Rightarrow> int \<Rightarrow> utility_operation \<Rightarrow> utility_operation option" where
  "op_phase_mutation x phase reason message now latest =
     (let st = status latest
      in if uo_phase st = phase \<and> (case find_condition (uo_conditions st) ''Ready'' of
              None \<Rightarrow> False | Some c \<Rightarrow> cond_reason c = reason \<and> cond_message c = message)
            \<and> uo_failureReason st = uo_failureReason x \<and> uo_failureMessage st = uo_failureMessage x then None
         else Some (latest\<lparr>status := st\<lparr>uo_phase := phase, uo_jobRef := uo_jobRef x,
             uo_collectorJobRef := uo_collectorJobRef x, uo_policyDecisionID := uo_policyDecisionID x,
             uo_workspaceWriterLeaseRef := uo_workspaceWriterLeaseRef x,
             uo_workspaceWriterEpoch := uo_workspaceWriterEpoch x,
             uo_workspaceWriterReleased := uo_workspaceWriterReleased x,
             uo_failureReason := uo_failureReason x, uo_failureMessage := uo_failureMessage x,
             uo_retryable := uo_retryable x, uo_observedGeneration := generation (meta latest),
             uo_startedAt := (if phase = PhaseRunning \<and> uo_startedAt st = None then Some now else uo_startedAt st),
             uo_completedAt := (if is_terminal phase then Some now else uo_completedAt st),
             uo_conditions := set_condition \<lparr>cond_type = ''Ready'', cond_status = condition_status_of phase,
               cond_reason = reason, cond_message = message, cond_generation = generation (meta latest)\<rparr>
               (uo_conditions st)\<rparr>\<rparr>))"

definition set_op_phase :: "utility_env \<Rightarrow> utility_operation \<Rightarrow> resource_phase \<Rightarrow> string \<Rightarrow> string \<Rightarrow> unit action" where
  "set_op_phase env x phase reason message =
     bind_io (update_op_status (namespace_of x) (name_of x) (op_phase_mutation (status x) phase reason message))
       (\<lambda>(updated, changed). if \<not> changed then ret ()
         else append_op_event env updated (''UtilityOperation'' @ phase_text phase) ''reconcile'' (op_name updated) (phase_text phase)
           reason NoData)"

definition fail_op :: "utility_env \<Rightarrow> utility_operation \<Rightarrow> string \<Rightarrow> bool \<Rightarrow> unit action" where
  "fail_op env x reason retryable = (let st = status x in
     set_op_phase env (x\<lparr>status := st\<lparr>uo_failureMessage := (if uo_failureReason st \<noteq> reason then '''' else uo_failureMessage st),
       uo_failureReason := reason, uo_retryable := retryable\<rparr>\<rparr>) PhaseFailed reason ''utility operation failed'')"

definition interrupt_op :: "utility_env \<Rightarrow> utility_operation \<Rightarrow> string \<Rightarrow> bool \<Rightarrow> unit action" where
  "interrupt_op env x reason retryable =
     set_op_phase env (x\<lparr>status := (status x)\<lparr>uo_failureMessage := '''', uo_failureReason := reason, uo_retryable := retryable\<rparr>\<rparr>)
       PhaseInterrupted reason ''utility operation interrupted''"

definition op_writer_mutation :: "utility_operation_status \<Rightarrow> int \<Rightarrow> utility_operation \<Rightarrow> utility_operation option" where
  "op_writer_mutation x now latest =
     (let st = status latest
      in if uo_workspaceWriterLeaseRef st = uo_workspaceWriterLeaseRef x \<and> uo_workspaceWriterEpoch st = uo_workspaceWriterEpoch x
            \<and> uo_workspaceWriterReleased st = uo_workspaceWriterReleased x then None
         else Some (latest\<lparr>status := st\<lparr>uo_workspaceWriterLeaseRef := uo_workspaceWriterLeaseRef x,
             uo_workspaceWriterEpoch := uo_workspaceWriterEpoch x,
             uo_workspaceWriterReleased := uo_workspaceWriterReleased x,
             uo_observedGeneration := generation (meta latest)\<rparr>\<rparr>))"

definition record_op_writer :: "utility_operation \<Rightarrow> unit action" where
  "record_op_writer x =
     bind_io (update_op_status (namespace_of x) (name_of x) (op_writer_mutation (status x))) (\<lambda>_. ret ())"

definition op_policy_mutation :: "utility_operation_status \<Rightarrow> int \<Rightarrow> utility_operation \<Rightarrow> utility_operation option" where
  "op_policy_mutation x now latest =
     (if uo_policyDecisionID (status latest) = uo_policyDecisionID x then None
      else Some (latest\<lparr>status := (status latest)\<lparr>uo_policyDecisionID := uo_policyDecisionID x,
        uo_observedGeneration := generation (meta latest)\<rparr>\<rparr>))"

definition record_policy_decision :: "utility_operation \<Rightarrow> unit action" where
  "record_policy_decision x =
     bind_io (update_op_status (namespace_of x) (name_of x) (op_policy_mutation (status x))) (\<lambda>_. ret ())"

subsection \<open>The writer's term of an operation\<close>

definition op_owner :: "utility_env \<Rightarrow> (utility_operation_spec, utility_operation_status) writer_owner" where
  "op_owner env = \<lparr>own_kind = UtilityOperations, own_kindName = ''UtilityOperation'', own_workflow = \<lambda>s. ref_name (uo_workflowRef s),
     own_lease = uo_workspaceWriterLeaseRef, own_epoch = uo_workspaceWriterEpoch, own_released = uo_workspaceWriterReleased,
     own_record = \<lambda>lease epoch released st. st\<lparr>uo_workspaceWriterLeaseRef := lease, uo_workspaceWriterEpoch := epoch,
       uo_workspaceWriterReleased := released\<rparr>,
     own_save = record_op_writer,
     own_event = \<lambda>x t a g o' r. append_op_event env x t a g o' r NoData,
     own_quiet = \<lambda>x. [job_writer_quiescent (namespace_of x) (name_of x),
       job_writer_quiescent (namespace_of x) (collector_job_name x)],
     own_drop = \<lambda>x. [delete_job (namespace_of x) (name_of x), delete_job (namespace_of x) (collector_job_name x)]\<rparr>"

subsection \<open>Admission\<close>

definition go_map_put :: "string \<Rightarrow> string \<Rightarrow> (string \<times> string) list \<Rightarrow> (string \<times> string) list" where
  "go_map_put k v m = (k, v) # filter (\<lambda>(j, _). j \<noteq> k) m"

definition resolve_context :: "utility_operation \<Rightarrow> (workflow \<times> project) action" where
  "resolve_context x =
     bind_io (k_get Workflows (namespace_of x) (ref_name (uo_workflowRef (spec x)))) (\<lambda>flow.
       if ref_name (wf_project (spec flow)) = '''' then raise (Invalid ''utility operation requires a workflow projectRef'')
       else bind_io (k_get Projects '''' (ref_name (wf_project (spec flow)))) (\<lambda>project. ret (flow, project)))"

definition utility_credential_reference :: "project \<Rightarrow> string \<Rightarrow> namespaced_reference" where
  "utility_credential_reference project n =
     (if expected_credential_class n = ''repository'' then repo_credentialRef (pj_applicationRepository (spec project))
      else if expected_credential_class n = ''registry'' then jt_credentialRef (pj_buildJob (spec project))
      else \<lparr>ns_namespace = '''', ns_name = ''''\<rparr>)"

text \<open>push\_admission.go: the branch of a candidate push is the one of the accepted candidate.\<close>

definition candidate_branch :: "(string \<Rightarrow> string) \<Rightarrow> project \<Rightarrow> artifact \<Rightarrow> go_error + string" where
  "candidate_branch sha project a =
     (if contract_key (art_contract (spec a)) \<noteq> ''candidate-revision/v1'' then Inl (Invalid ''candidate push requires candidate-revision/v1'')
      else (case validate_claims sha (art_contract (spec a)) (art_claims (spec a)) of
          Some e \<Rightarrow> Inl e
        | None \<Rightarrow> (case Option.bind (art_claims (spec a)) claim_candidateRevision of
              None \<Rightarrow> Inl (Invalid ''candidate push claims'')
            | Some c \<Rightarrow>
                if cr_repositoryURL c \<noteq> repo_url (pj_applicationRepository (spec project))
                then Inl (Invalid ''candidate push repository does not match the project repository'')
                else Inr (cr_branch c))))"

definition candidate_push_branch :: "utility_env \<Rightarrow> utility_operation \<Rightarrow> project \<Rightarrow> string action" where
  "candidate_push_branch env x project =
     (case filter (\<lambda>i. ar_name i = ''candidate-revision'') (uo_inputs (spec x)) of
        [pin] \<Rightarrow>
          if (case ar_artifactRef pin of None \<Rightarrow> True | Some r \<Rightarrow> ref_name r = '''' \<or> ref_uid r = '''') \<or> ar_digest pin = ''''
          then raise (Invalid ''candidate push requires an immutable candidate-revision pin'')
          else bind_io (resolve_pinned_input (namespace_of x) (uo_workflowRef (spec x)) pin) (\<lambda>r. case r of
              Rejected reason \<Rightarrow> raise (Invalid reason)
            | Unready \<Rightarrow> raise (Invalid ''candidate push input is not accepted yet'')
            | Resolved a \<Rightarrow> lift_result (candidate_branch (uoc_sha env) project a))
      | _ \<Rightarrow> raise (Invalid ''candidate push requires exactly one immutable candidate-revision input''))"

definition needs_approval :: "utility_operation \<Rightarrow> bool" where
  "needs_approval x \<longleftrightarrow> uo_approval (spec x) \<noteq> None \<or> op_name x = ''git.mergeRequest''"

definition pushes_candidate :: "utility_operation \<Rightarrow> bool" where
  "pushes_candidate x \<longleftrightarrow> op_name x = ''git.push'' \<and> (case uo_outputContracts (spec x) of
     [] \<Rightarrow> False | c # _ \<Rightarrow> contract_name c @ ''/'' @ contract_version c = ''candidate-remote-proof/v1'')"

definition admission_parameters :: "utility_env \<Rightarrow> utility_operation \<Rightarrow> project \<Rightarrow> (string \<times> string) list action" where
  "admission_parameters env x project =
     (let params = utility_parameters (uo_operation (spec x)); img = pv_imageName (pj_validation (spec project))
      in bind_io (if pushes_candidate x
           then bind_io (candidate_push_branch env x project) (\<lambda>branch. ret (go_map_put ''branch'' branch params))
           else ret params) (\<lambda>params.
         ret (if op_name x = ''build.image'' \<and> img \<noteq> '''' then go_map_put ''imageName'' img params else params)))"

definition utility_query_of :: "utility_operation \<Rightarrow> project \<Rightarrow> (string \<times> string) list \<Rightarrow> utility_query" where
  "utility_query_of x project params = \<lparr>uq_operation = op_name x, uq_workflow = uo_workflowRef (spec x), uq_step = uo_stepName (spec x),
     uq_attempt = uo_attempt (spec x), uq_project = name_of project, uq_policyProfile = pj_policyProfileRef (spec project),
     uq_parameters = params, uq_approval = (if needs_approval x then Some (uo_approval (spec x)) else None),
     uq_credentialClass = expected_credential_class (op_name x),
     uq_hasCredential = (ns_name (utility_credential_reference project (op_name x)) \<noteq> ''''),
     uq_authority = (name_of x, uid_of x)\<rparr>"

definition admit_operation :: "utility_env \<Rightarrow> utility_operation \<Rightarrow> (bool \<times> string \<times> string) action" where
  "admit_operation env x = (case uoc_policy env of
       None \<Rightarrow> ret (if is_privileged_operation (op_name x)
         then (False, ''policy-unavailable'', ''privileged utility operations fail closed when policy is unavailable'')
         else (True, ''development-no-policy'', ''non-privileged development operation''))
     | Some policy \<Rightarrow> bind_io (resolve_context x) (\<lambda>(flow, project).
         seq_io (if needs_approval x then validate_operation_approval (uoc_sha env) x flow else ret ())
           (bind_io (admission_parameters env x project) (\<lambda>params.
            bind_io (lift_result (policy (utility_query_of x project params))) (\<lambda>d.
              ret (pd_allowed d, pd_id d, sprint_list (pd_reasons d)))))))"

definition admission_decision :: "utility_env \<Rightarrow> utility_operation \<Rightarrow> string \<Rightarrow> bool \<Rightarrow> string \<Rightarrow> decision_evaluated" where
  "admission_decision env x policyDecisionID allowed reason =
     (let credentialClass = expected_credential_class (op_name x);
          inputDigest = digest_bytes (uoc_sha env) (uoc_encodeAdmission env (spec x, credentialClass, policyDecisionID, reason))
      in \<lparr>de_approvalBinding = uo_approval (spec x), de_schemaVersion = ''v1'', de_primitive = primitive_ref ''UtilityOperation'' x,
          de_decision = \<lparr>dr_schemaVersion = ''v1'',
            dr_id = deterministic_id (uoc_sha env) [''utility-operation-admission'', uid_of x, inputDigest],
            dr_kind = ''policy'', dr_revision = policyDecisionID, dr_sourceDigest = '''', dr_inputDigest = inputDigest,
            dr_outcome = (if allowed then ''allowed'' else ''denied'')\<rparr>,
          de_authorityEvent = '''', de_inputEvent = '''',
          de_evidenceEvents = (case uo_approval (spec x) of Some a \<Rightarrow> if allowed then [resolved_admissionEventID a] else [] | None \<Rightarrow> []),
          de_invariants = [
            passed ''utility-operation-supported'' ''supported operation'' (op_name x)
              ''only registered utility operations can reach policy admission'',
            passed ''utility-policy-decision-recorded'' ''policy decision identity'' policyDecisionID reason,
            passed ''utility-credential-class-derived'' ''operation-derived credential class'' credentialClass
              ''the credential class is derived from the admitted operation rather than caller input'']\<rparr>)"

text \<open>Whether an operation that has a decision but no job misses the event of its admission.\<close>

definition missing_admission :: "utility_operation \<Rightarrow> bool action" where
  "missing_admission x =
     (if uo_policyDecisionID (status x) \<noteq> '''' \<and> uo_jobRef (status x) = ''''
      then bind_io recording (\<lambda>on. if \<not> on then ret False
        else bind_io (lookup_operation_event x ''UtilityOperationAdmitted'') (\<lambda>i. ret (i = '''')))
      else ret False)"

definition with_decision :: "string \<Rightarrow> utility_operation \<Rightarrow> utility_operation" where
  "with_decision i x = x\<lparr>status := (status x)\<lparr>uo_policyDecisionID := i\<rparr>\<rparr>"

definition decide_operation :: "utility_env \<Rightarrow> utility_operation \<Rightarrow> (int option + utility_operation) action" where
  "decide_operation env x = bind_io (admit_operation env x) (\<lambda>(allowed, decisionID, reason).
     bind_io (append_op_event_with_data env (with_decision decisionID x)
         (if allowed then ''UtilityOperationAdmitted'' else ''UtilityOperationRejected'') ''admit'' (op_name x)
         (if allowed then ''admitted'' else ''rejected'') reason
         (DecisionData (admission_decision env (with_decision decisionID x) decisionID allowed reason))) (\<lambda>_.
       if \<not> allowed then seq_io (fail_op env (with_decision decisionID x) ''UtilityOperationDenied'' False) (ret (Inl None))
       else seq_io (record_policy_decision (with_decision decisionID x)) (ret (Inr (with_decision decisionID x)))))"

definition ensure_valid_operation :: "utility_env \<Rightarrow> utility_operation \<Rightarrow> (int option + utility_operation) action" where
  "ensure_valid_operation env x =
     (if \<not> is_supported_operation (op_name x) then seq_io (fail_op env x ''UnsupportedUtilityOperation'' False) (ret (Inl None))
      else seq_io (if needs_approval x
          then bind_io (resolve_context x) (\<lambda>(flow, _). validate_operation_approval (uoc_sha env) x flow) else ret ())
       (bind_io (missing_admission x) (\<lambda>missing.
          if uo_policyDecisionID (status x) = '''' \<or> missing then decide_operation env x else ret (Inr x))))"

subsection \<open>The workload: what the job is given\<close>

record utility_workload =
  wl_input :: utility_input
  wl_image :: string
  wl_profile :: string
  wl_credentialRef :: namespaced_reference
  wl_credentialClass :: string
  wl_credentialSecret :: string
  wl_bootstrapRuntime :: bool

definition profile_hardened :: string where "profile_hardened = ''hardened-v1''"
definition profile_buildkit :: string where "profile_buildkit = ''buildkit-rootless-v2''"

definition op_collector_image :: "utility_env \<Rightarrow> string" where
  "op_collector_image env = (if uoc_collectorImage env = '''' then ''sovereign-artifact-collector:dev'' else uoc_collectorImage env)"

definition utility_image :: "utility_env \<Rightarrow> string" where
  "utility_image env = (if uoc_utilityImage env = '''' then ''sovereign-utility-runner:dev'' else uoc_utilityImage env)"

text \<open>\<open>strings.LastIndex\<close> of a digest marker: what follows its at-sign, where there is one.\<close>

fun after_last_digest :: "string \<Rightarrow> string option" where
  "after_last_digest [] = None"
| "after_last_digest (c # s) = (case after_last_digest s of
       Some d \<Rightarrow> Some d
     | None \<Rightarrow> if has_prefix (c # s) ''@sha256:'' then Some s else None)"

definition admitted_image_digest :: "(string \<Rightarrow> string) \<Rightarrow> string \<Rightarrow> string" where
  "admitted_image_digest sha img = (case after_last_digest img of
       Some d \<Rightarrow> if length d = 71 \<and> d = to_lower d then d else digest_bytes sha img
     | None \<Rightarrow> digest_bytes sha img)"

definition utility_idempotency_key :: "utility_operation \<Rightarrow> workflow \<Rightarrow> string" where
  "utility_idempotency_key x flow =
     namespace_of x @ ''/'' @ (if uid_of flow = '''' then name_of flow else uid_of flow) @ ''/'' @ uo_stepName (spec x)
     @ (if wf_workflowAttempt (status flow) > 0 then ''/w'' @ show_int (wf_workflowAttempt (status flow)) else '''')"

definition uses_repository :: "string \<Rightarrow> bool" where
  "uses_repository n \<longleftrightarrow> List.member [''git.createBranch'', ''git.commit'', ''git.push'', ''git.merge'', ''git.mergeRequest'', ''build.image''] n"

text \<open>The input before the switch over the operation: what all of them are given.\<close>

definition base_utility_input :: "utility_operation \<Rightarrow> workflow \<Rightarrow> project \<Rightarrow> writer_grant \<Rightarrow> utility_input" where
  "base_utility_input x flow project grant = \<lparr>
     ui_schemaVersion = utility_contract_version,
     ui_workflowID = wf_workflowID (spec flow),
     ui_stepName = uo_stepName (spec x),
     ui_attempt = uo_attempt (spec x),
     ui_authority = \<lparr>auth_apiVersion = group_version, auth_kind = ''UtilityOperation'', auth_namespace = namespace_of x,
       auth_name = name_of x, auth_uid = uid_of x\<rparr>,
     ui_policyDecisionID = uo_policyDecisionID (status x),
     ui_operation = op_name x,
     ui_idempotencyKey = utility_idempotency_key x flow,
     ui_credentialClass = expected_credential_class (op_name x),
     ui_parameters = (if uses_repository (op_name x)
       then go_map_put ''repositoryURL'' (repo_url (pj_applicationRepository (spec project))) (utility_parameters (uo_operation (spec x)))
       else utility_parameters (uo_operation (spec x))),
     ui_command = [],
     ui_artifacts = [],
     ui_outputs = map (\<lambda>c. \<lparr>ob_name = contract_name c, ob_version = contract_version c, ob_required = True, ob_mediaType = ''''\<rparr>)
       (uo_outputContracts (spec x)),
     ui_workspacePath = ''/workspace'',
     ui_stagingPath = execution_staging_path (name_of x),
     ui_controlPath = execution_control_path (name_of x),
     ui_resultPath = execution_result_path (name_of x),
     ui_auditEventsPath = execution_audit_events_path (name_of x),
     ui_workspaceWrite = \<lparr>wa_leaseName = grant_lease grant, wa_holderIdentity = grant_holder grant, wa_writerEpoch = grant_epoch grant\<rparr>,
     ui_lineage = None\<rparr>"

definition put_parameter :: "string \<Rightarrow> string \<Rightarrow> utility_workload \<Rightarrow> utility_workload" where
  "put_parameter k v wl = wl\<lparr>wl_input := (wl_input wl)\<lparr>ui_parameters := go_map_put k v (ui_parameters (wl_input wl))\<rparr>\<rparr>"

definition with_template :: "string \<Rightarrow> job_template_spec \<Rightarrow> utility_workload \<Rightarrow> utility_workload" where
  "with_template runtimeImage t wl = wl\<lparr>wl_image := jt_image t, wl_bootstrapRuntime := (jt_image t \<noteq> runtimeImage),
     wl_input := (wl_input wl)\<lparr>ui_command := jt_command t @ jt_args t\<rparr>\<rparr>"

definition build_parameters :: "(string \<Rightarrow> string) \<Rightarrow> project \<Rightarrow> utility_workload \<Rightarrow> utility_workload" where
  "build_parameters sha project wl =
     (let img = pv_imageName (pj_validation (spec project));
          wl' = put_parameter ''dockerfile'' ''Dockerfile'' (put_parameter ''digestFile'' ''image-metadata.json''
            (put_parameter ''builderImageDigest'' (admitted_image_digest sha (jt_image (pj_buildJob (spec project)))) wl))
      in if img \<noteq> '''' then put_parameter ''imageName'' img wl' else wl')"

definition specialise_workload ::
  "(string \<Rightarrow> string) \<Rightarrow> string \<Rightarrow> project \<Rightarrow> string \<Rightarrow> utility_workload \<Rightarrow> go_error + utility_workload" where
  "specialise_workload sha n project runtimeImage wl =
     (let repo = pj_applicationRepository (spec project); testJob = pj_testJob (spec project); buildJob = pj_buildJob (spec project)
      in if n = ''repository.initialize'' then Inr (put_parameter ''revision'' (repo_defaultRevision repo)
           (put_parameter ''repositoryURL'' (repo_url repo) (wl\<lparr>wl_credentialRef := utility_credential_reference project n\<rparr>)))
         else if List.member [''git.push'', ''git.merge'', ''git.mergeRequest''] n
         then Inr (wl\<lparr>wl_credentialRef := utility_credential_reference project n\<rparr>)
         else if n = ''test.run'' then
           (if jt_image testJob = '''' \<or> jt_command testJob = [] then Inl (Invalid ''project has no testJob image and command'')
            else Inr (put_parameter ''environmentImageDigest'' (admitted_image_digest sha (jt_image testJob))
              ((with_template runtimeImage testJob wl)\<lparr>wl_credentialRef := jt_credentialRef testJob\<rparr>)))
         else if n = ''build.image'' then
           (if jt_image buildJob = '''' \<or> jt_command buildJob = [] then Inl (Invalid ''project has no buildJob image and command'')
            else Inr (build_parameters sha project ((with_template runtimeImage buildJob wl)\<lparr>wl_profile := profile_buildkit,
              wl_credentialRef := utility_credential_reference project n\<rparr>)))
         else Inr wl)"

definition base_workload :: "utility_operation \<Rightarrow> workflow \<Rightarrow> project \<Rightarrow> string \<Rightarrow> writer_grant \<Rightarrow> utility_workload" where
  "base_workload x flow project runtimeImage grant =
     \<lparr>wl_input = base_utility_input x flow project grant, wl_image = runtimeImage, wl_profile = profile_hardened,
      wl_credentialRef = \<lparr>ns_namespace = '''', ns_name = ''''\<rparr>, wl_credentialClass = expected_credential_class (op_name x),
      wl_credentialSecret = '''', wl_bootstrapRuntime = False\<rparr>"

definition build_utility_workload ::
  "(string \<Rightarrow> string) \<Rightarrow> utility_operation \<Rightarrow> workflow \<Rightarrow> project \<Rightarrow> string \<Rightarrow> writer_grant \<Rightarrow> go_error + utility_workload" where
  "build_utility_workload sha x flow project runtimeImage grant =
     (if \<not> is_supported_operation (op_name x) then Inl (Invalid ''unsupported utility operation'')
      else (case specialise_workload sha (op_name x) project runtimeImage (base_workload x flow project runtimeImage grant) of
          Inl e \<Rightarrow> Inl e
        | Inr wl0 \<Rightarrow> (let wl = put_parameter ''executionProfile'' (wl_profile wl0) wl0; params = ui_parameters (wl_input wl)
            in if op_name x = ''repository.initialize'' \<and> (go_map_get params ''repositoryURL'' = '''' \<or> go_map_get params ''revision'' = '''')
               then Inl (Invalid ''project repository URL and default revision are required'')
               else (case validate_utility_input (wl_input wl) of Some e \<Rightarrow> Inl e | None \<Rightarrow> Inr wl))))"

subsection \<open>Inputs and credentials\<close>

definition unpinned_utility_matches :: "utility_operation \<Rightarrow> artifact_reference \<Rightarrow> artifact list \<Rightarrow> artifact list" where
  "unpinned_utility_matches x requested all = filter (\<lambda>a. art_workflowRef (spec a) = uo_workflowRef (spec x)
     \<and> contract_name (art_contract (spec a)) = ar_name requested
     \<and> (ar_digest requested = '''' \<or> art_digest (spec a) = ar_digest requested) \<and> artifact_accepted a) all"

definition resolve_utility_input :: "utility_operation \<Rightarrow> artifact list \<Rightarrow> artifact_reference \<Rightarrow> artifact action" where
  "resolve_utility_input x all requested =
     (if ar_artifactRef requested \<noteq> None then
        bind_io (resolve_pinned_input (namespace_of x) (uo_workflowRef (spec x)) requested) (\<lambda>r. case r of
            Rejected reason \<Rightarrow> raise (Invalid reason)
          | Unready \<Rightarrow> raise (Invalid ''input artifact is not accepted yet'')
          | Resolved a \<Rightarrow> ret a)
      else (case unpinned_utility_matches x requested all of
          [a] \<Rightarrow> ret a
        | _ \<Rightarrow> raise (Invalid ''utility input artifact does not resolve to one accepted artifact'')))"

definition utility_artifact_input :: "artifact_reference \<Rightarrow> artifact \<Rightarrow> artifact_input" where
  "utility_artifact_input requested a = \<lparr>ai_name = ar_name requested, ai_contract = contract_key (art_contract (spec a)),
     ai_digest = art_digest (spec a), ai_path = art_path (spec a)\<rparr>"

fun utility_inputs_loop :: "utility_operation \<Rightarrow> artifact list \<Rightarrow> artifact_reference list \<Rightarrow> artifact_input list action" where
  "utility_inputs_loop x all [] = ret []"
| "utility_inputs_loop x all (requested # rest) = bind_io (resolve_utility_input x all requested) (\<lambda>a.
     bind_io (utility_inputs_loop x all rest) (\<lambda>as. ret (utility_artifact_input requested a # as)))"

definition resolve_utility_inputs :: "utility_operation \<Rightarrow> artifact_input list action" where
  "resolve_utility_inputs x =
     (if uo_inputs (spec x) = [] then ret []
      else bind_io (k_list Artifacts (namespace_of x)) (\<lambda>all. utility_inputs_loop x all (uo_inputs (spec x))))"

definition credential_name :: "utility_operation \<Rightarrow> string" where
  "credential_name x = name_of x @ ''-credential''"

definition source_uid_annotation :: string where
  "source_uid_annotation = ''sovereign-ai.io/source-credential-uid''"

definition operation_credential_data :: "secret \<Rightarrow> string \<Rightarrow> (string \<times> string) list option" where
  "operation_credential_data source credentialClass =
     (if credentialClass = ''repository'' then
        (case parse_repository_credential source of
           None \<Rightarrow> None
         | Some _ \<Rightarrow> Some [(credential_key, go_map_get (sec_data (spec source)) credential_key)])
      else Some (sec_data (spec source)))"

definition operation_credential :: "utility_operation \<Rightarrow> string \<Rightarrow> secret \<Rightarrow> string \<Rightarrow> (string \<times> string) list \<Rightarrow> secret" where
  "operation_credential x ns source credentialClass data =
     \<lparr>meta = (new_meta (namespace_of x) (credential_name x) [(''sovereign-ai.io/utility-operation'', name_of x),
          (''sovereign-ai.io/credential-class'', credentialClass)] (Some (owner_ref_of ''UtilityOperation'' x)))
        \<lparr>annotations := [(''sovereign-ai.io/source-credential'', ns @ ''/'' @ name_of source), (source_uid_annotation, uid_of source)]\<rparr>,
      spec = \<lparr>sec_type = sec_type (spec source), sec_immutable = Some True, sec_data = data\<rparr>, status = ()\<rparr>"

definition credential_source :: "utility_operation \<Rightarrow> namespaced_reference \<Rightarrow> string" where
  "credential_source x ref = (if ns_namespace ref = '''' then namespace_of x else ns_namespace ref)"

definition ensure_credential :: "utility_env \<Rightarrow> utility_operation \<Rightarrow> namespaced_reference \<Rightarrow> string \<Rightarrow> string action" where
  "ensure_credential env x ref credentialClass = (let ns = credential_source x ref in
     bind_io (k_get Secrets ns (ns_name ref)) (\<lambda>source. case operation_credential_data source credentialClass of
         None \<Rightarrow> raise (Invalid ''validate credential'')
       | Some data \<Rightarrow> bind_io (attempt_io (k_get Secrets (namespace_of x) (credential_name x))) (\<lambda>res. case res of
             Inr existing \<Rightarrow>
               if go_map_get (annotations (meta existing)) source_uid_annotation \<noteq> uid_of source
               then raise (Invalid ''operation credential already exists for a different source'') else ret (credential_name x)
           | Inl e \<Rightarrow>
               if e \<noteq> NotFound then raise e
               else seq_io (create_missing Secrets (operation_credential x ns source credentialClass data))
                (seq_io (append_op_event env x ''UtilityCredentialIssued'' ''issue'' (credential_name x) ''issued'' ''''
                   (Fields [(''credentialClass'', JString credentialClass),
                     (''sourceCredential'', JString (ns @ ''/'' @ name_of source))]))
                 (ret (credential_name x))))))"

subsection \<open>Authorisation events\<close>

definition append_op_authority :: "utility_env \<Rightarrow> utility_operation \<Rightarrow> writer_grant \<Rightarrow> string action" where
  "append_op_authority env x grant =
     bind_io (read_authority ''UtilityOperation'' ''utility primitive'' x (uo_workflowRef (spec x)) (uo_attemptRef (spec x)) [op_name x] grant)
       (\<lambda>payload. append_op_event_with_data env x ''ExecutionAuthorityEstablished'' ''authorize'' (name_of x) ''established'' ''''
          (AuthorityData payload))"

definition execution_decision :: "utility_env \<Rightarrow> utility_operation \<Rightarrow> utility_workload \<Rightarrow> string \<Rightarrow> string \<Rightarrow> string \<Rightarrow> decision_evaluated" where
  "execution_decision env x wl admissionEvent authorityEvent inputEvent =
     (let inputDigest = digest_bytes (uoc_sha env) (uoc_encodeExecution env (wl_input wl, admissionEvent, authorityEvent, inputEvent,
            wl_credentialSecret wl))
      in \<lparr>de_approvalBinding = None, de_schemaVersion = ''v1'', de_primitive = primitive_ref ''UtilityOperation'' x,
          de_decision = \<lparr>dr_schemaVersion = ''v1'',
            dr_id = deterministic_id (uoc_sha env) [''utility-execution-authorization'', uid_of x, inputDigest],
            dr_kind = ''controller'', dr_revision = ''utilityoperation-execution/v1'', dr_sourceDigest = '''', dr_inputDigest = inputDigest,
            dr_outcome = ''allowed''\<rparr>,
          de_authorityEvent = authorityEvent, de_inputEvent = inputEvent, de_evidenceEvents = [admissionEvent],
          de_invariants = [
            passed ''utility-admission-linked'' admissionEvent admissionEvent ''policy admitted this exact utility operation'',
            passed ''execution-authority-linked'' authorityEvent authorityEvent
              ''workflow, attempt ownership, and writer authority were established'',
            passed ''execution-inputs-linked'' inputEvent inputEvent ''resolved input evidence was recorded before utility execution'',
            passed ''credential-scope-resolved'' (wl_credentialClass wl) (wl_credentialClass wl)
              ''any credential is operation-scoped and derived from project policy'',
            passed ''utility-execution-profile-selected'' (wl_profile wl) (wl_profile wl)
              ''the platform selected a closed execution profile for this allow-listed utility operation'']\<rparr>)"

definition append_op_execution_authorized ::
  "utility_env \<Rightarrow> utility_operation \<Rightarrow> utility_workload \<Rightarrow> string \<Rightarrow> string \<Rightarrow> string \<Rightarrow> string action" where
  "append_op_execution_authorized env x wl admissionEvent authorityEvent inputEvent =
     append_op_event_with_data env x ''UtilityExecutionAuthorized'' ''authorize-execution'' (name_of x) ''authorized'' ''''
       (DecisionData (execution_decision env x wl admissionEvent authorityEvent inputEvent))"

definition with_lineage :: "string \<Rightarrow> string \<Rightarrow> string \<Rightarrow> string \<Rightarrow> utility_workload \<Rightarrow> utility_workload" where
  "with_lineage admissionEvent authorityEvent inputEvent decisionEvent wl = wl\<lparr>wl_input := (wl_input wl)\<lparr>ui_lineage :=
     Some \<lparr>lin_admissionDecisionEvent = admissionEvent, lin_authorityEvent = authorityEvent, lin_inputsEvent = inputEvent,
       lin_executionDecisionEvent = decisionEvent\<rparr>\<rparr>\<rparr>"

subsection \<open>The job\<close>

text \<open>\<open>setContainerEnv\<close>: a variable replaces the first one of its name or comes last.\<close>

fun set_env :: "(string \<times> string) list \<Rightarrow> string \<times> string \<Rightarrow> (string \<times> string) list" where
  "set_env [] v = [v]"
| "set_env (e # env) v = (if fst e = fst v then v # env else e # set_env env v)"

definition drop_all :: container_security where
  "drop_all = no_security\<lparr>cs_allowPrivilegeEscalation := Some False, cs_dropCapabilities := [''ALL'']\<rparr>"

definition utility_container :: "utility_operation \<Rightarrow> utility_workload \<Rightarrow> writer_grant \<Rightarrow> container" where
  "utility_container x wl grant = (plain_container ''utility'' (wl_image wl))\<lparr>
     ctr_command := [''/utility-runner''],
     ctr_args := [''--input'', ''/control/input.json'', ''--result'', execution_result_path (name_of x)],
     ctr_env := workspace_writer_env grant,
     ctr_security := Some drop_all,
     ctr_mounts := [\<lparr>vm_name = ''workspace'', vm_path = ''/workspace'', vm_readOnly = False\<rparr>,
       \<lparr>vm_name = ''input'', vm_path = ''/control'', vm_readOnly = True\<rparr>]\<rparr>"

text \<open>A pod under construction: its one container and its volumes.\<close>

type_synonym job_parts = "container \<times> (string \<times> volume_source) list"

definition add_mount :: "string \<Rightarrow> string \<Rightarrow> bool \<Rightarrow> container \<Rightarrow> container" where
  "add_mount n path readOnly c = c\<lparr>ctr_mounts := ctr_mounts c @ [\<lparr>vm_name = n, vm_path = path, vm_readOnly = readOnly\<rparr>]\<rparr>"

definition add_env :: "(string \<times> string) list \<Rightarrow> container \<Rightarrow> container" where
  "add_env env c = c\<lparr>ctr_env := ctr_env c @ env\<rparr>"

definition apply_execution_profile :: "string \<Rightarrow> job_parts \<Rightarrow> job_parts" where
  "apply_execution_profile profile parts = (case parts of (c, volumes) \<Rightarrow>
     if profile = profile_buildkit then
       (add_mount ''buildkit-state'' ''/home/user/.local/share/buildkit'' False
          (c\<lparr>ctr_security := map_option (\<lambda>s. s\<lparr>cs_runAsUser := Some 1000, cs_runAsGroup := Some 1000,
               cs_allowPrivilegeEscalation := Some True, cs_addCapabilities := [''SETUID'', ''SETGID''],
               cs_seccompProfile := ''Unconfined'', cs_appArmorProfile := ''Unconfined''\<rparr>) (ctr_security c),
             ctr_env := foldl set_env (ctr_env c) [(''HOME'', ''/home/user''), (''XDG_CACHE_HOME'', ''/home/user/.cache''),
               (''BUILDKITD_FLAGS'', ''--oci-worker-no-process-sandbox'')]\<rparr>),
        volumes @ [(''buildkit-state'', EmptyDirVolume '''' None)])
     else
       (add_mount ''utility-home'' ''/home/utility'' False
          (c\<lparr>ctr_env := foldl set_env (ctr_env c) [(''HOME'', ''/home/utility''), (''XDG_CACHE_HOME'', ''/home/utility/.cache'')]\<rparr>),
        volumes @ [(''utility-home'', EmptyDirVolume '''' None)]))"

definition runtime_installer :: "string \<Rightarrow> container" where
  "runtime_installer runtimeImage = (plain_container ''install-utility-runtime'' runtimeImage)\<lparr>
     ctr_command := [''/bin/cp'', ''/utility-runner'', ''/sovereign-bin/utility-runner''], ctr_security := Some drop_all,
     ctr_mounts := [\<lparr>vm_name = ''utility-runtime'', vm_path = ''/sovereign-bin'', vm_readOnly = False\<rparr>]\<rparr>"

definition add_runtime :: "job_parts \<Rightarrow> job_parts" where
  "add_runtime parts = (case parts of (c, volumes) \<Rightarrow>
     (add_mount ''utility-runtime'' ''/sovereign-bin'' False (c\<lparr>ctr_command := [''/sovereign-bin/utility-runner'']\<rparr>),
      volumes @ [(''utility-runtime'', EmptyDirVolume '''' None)]))"

definition credentials_path :: string where
  "credentials_path = ''/var/run/sovereign/credentials''"

definition repository_env :: "string \<Rightarrow> (string \<times> string) list" where
  "repository_env n =
     (if n = ''git.mergeRequest'' then [(''SOVEREIGN_REPOSITORY_CREDENTIAL_FILE'', credentials_path @ ''/'' @ credential_key)] else [])
     @ [(''GIT_CONFIG_COUNT'', ''2''), (''GIT_CONFIG_KEY_0'', ''credential.helper''), (''GIT_CONFIG_VALUE_0'', ''''),
        (''GIT_CONFIG_KEY_1'', ''credential.helper''),
        (''GIT_CONFIG_VALUE_1'', ''store --file=/var/run/sovereign/credentials/credentials''), (''GIT_TERMINAL_PROMPT'', ''0'')]"

definition add_credential :: "string \<Rightarrow> utility_workload \<Rightarrow> job_parts \<Rightarrow> job_parts" where
  "add_credential n wl parts = (case parts of (c, volumes) \<Rightarrow> let mounted = add_mount ''operation-credential'' credentials_path True c in
     if wl_credentialClass wl = ''registry'' then
       (add_env [(''DOCKER_CONFIG'', credentials_path)] mounted,
        volumes @ [(''operation-credential'', SecretVolume (wl_credentialSecret wl) [(''.dockerconfigjson'', ''config.json'')] None)])
     else if wl_credentialClass wl = ''repository'' then
       (add_env (repository_env n) mounted,
        volumes @ [(''operation-credential'', SecretVolume (wl_credentialSecret wl) [(credential_key, credential_key)] None)])
     else (mounted, volumes @ [(''operation-credential'', SecretVolume (wl_credentialSecret wl) [] None)]))"

definition job_parts_of :: "utility_operation \<Rightarrow> string \<Rightarrow> string \<Rightarrow> utility_workload \<Rightarrow> writer_grant \<Rightarrow> job_parts" where
  "job_parts_of x pvcName configName wl grant =
     (let parts = apply_execution_profile (wl_profile wl) (utility_container x wl grant,
            [(''workspace'', ClaimVolume (if pvcName = '''' then ref_name (uo_workflowRef (spec x)) @ ''-workspace'' else pvcName)),
             (''input'', ConfigMapVolume configName)]);
          parts = (if wl_bootstrapRuntime wl then add_runtime parts else parts)
      in if wl_credentialSecret wl \<noteq> '''' then add_credential (op_name x) wl parts else parts)"

definition job_annotations :: "utility_workload \<Rightarrow> writer_grant \<Rightarrow> (string \<times> string) list" where
  "job_annotations wl grant = workspace_writer_annotations grant @ [(''sovereign-ai.io/execution-profile'', wl_profile wl)]"

text \<open>A timeout is kept in nanoseconds; its seconds are whole ones.\<close>

definition build_utility_job :: "utility_operation \<Rightarrow> string \<Rightarrow> string \<Rightarrow> string \<Rightarrow> utility_workload \<Rightarrow> writer_grant \<Rightarrow> job" where
  "build_utility_job x pvcName configName runtimeImage wl grant = (case job_parts_of x pvcName configName wl grant of (c, volumes) \<Rightarrow>
     \<lparr>meta = (new_meta (namespace_of x) (name_of x) [(label_workflow, go_map_get (labels (meta x)) label_workflow),
         (label_step, uo_stepName (spec x)), (''sovereign-ai.io/utility-operation'', name_of x)]
         (Some (owner_ref_of ''UtilityOperation'' x)))\<lparr>annotations := job_annotations wl grant\<rparr>,
      spec = plain_job\<lparr>job_podAnnotations := job_annotations wl grant,
        job_backoffLimit := Some 0, job_ttlSecondsAfterFinished := Some 3600,
        job_activeDeadlineSeconds := (case uo_timeout (spec x) of None \<Rightarrow> None
          | Some t \<Rightarrow> if t > 0 then Some (t div 1000000000) else None),
        job_pod := plain_pod\<lparr>pod_restartPolicy := ''Never'', pod_automountToken := Some False,
          pod_security := Some workspace_workload_security_context,
          pod_initContainers := (if wl_bootstrapRuntime wl then [runtime_installer runtimeImage] else []),
          pod_containers := [c], pod_volumes := volumes\<rparr>\<rparr>,
      status = new_job_status\<rparr>)"

definition op_config_name :: "utility_operation \<Rightarrow> string" where
  "op_config_name x = name_of x @ ''-input''"

definition op_input_config :: "utility_env \<Rightarrow> utility_operation \<Rightarrow> utility_input \<Rightarrow> config_map" where
  "op_input_config env x inp = \<lparr>meta = new_meta (namespace_of x) (op_config_name x) [] (Some (owner_ref_of ''UtilityOperation'' x)),
     spec = \<lparr>cm_immutable = None, cm_data = [(''input.json'', uoc_encodeInput env inp)], cm_binaryData = []\<rparr>, status = ()\<rparr>"

definition with_inputs :: "artifact_input list \<Rightarrow> utility_workload \<Rightarrow> utility_workload" where
  "with_inputs inputs wl = wl\<lparr>wl_input := (wl_input wl)\<lparr>ui_artifacts := inputs\<rparr>\<rparr>"

definition op_evidence :: "utility_env \<Rightarrow> utility_operation \<Rightarrow> artifact_evidence list action" where
  "op_evidence env x = bind_io recording (\<lambda>on. if \<not> on then ret []
     else bind_io (resolve_artifact_evidence (uoc_sha env) (namespace_of x) (uo_workflowRef (spec x)) (uo_inputs (spec x))) (\<lambda>ev. case ev of
         Rejected reason \<Rightarrow> raise (Invalid reason)
       | Unready \<Rightarrow> raise (Invalid ''utility input evidence is not ready'')
       | Resolved evidence \<Rightarrow> ret evidence))"

definition issue_credential :: "utility_env \<Rightarrow> utility_operation \<Rightarrow> utility_workload \<Rightarrow> utility_workload action" where
  "issue_credential env x wl =
     (if ns_name (wl_credentialRef wl) = '''' then ret wl
      else bind_io (ensure_credential env x (wl_credentialRef wl) (wl_credentialClass wl)) (\<lambda>n. ret (wl\<lparr>wl_credentialSecret := n\<rparr>)))"

definition record_authorisation ::
  "utility_env \<Rightarrow> utility_operation \<Rightarrow> writer_grant \<Rightarrow> artifact_evidence list \<Rightarrow> utility_workload \<Rightarrow> utility_workload action" where
  "record_authorisation env x grant evidence wl = bind_io recording (\<lambda>on. if \<not> on then ret wl
     else bind_io (find_operation_event x ''UtilityOperationAdmitted'') (\<lambda>admissionEvent.
          bind_io (append_op_authority env x grant) (\<lambda>authorityEvent.
          bind_io (append_op_inputs_resolved env x evidence) (\<lambda>inputEvent.
          bind_io (append_op_execution_authorized env x wl admissionEvent authorityEvent inputEvent) (\<lambda>decisionEvent.
            ret (with_lineage admissionEvent authorityEvent inputEvent decisionEvent wl))))))"

definition create_op_workload :: "utility_env \<Rightarrow> utility_operation \<Rightarrow> workflow \<Rightarrow> utility_workload \<Rightarrow> writer_grant \<Rightarrow> unit action" where
  "create_op_workload env x flow wl grant =
     seq_io (create_missing ConfigMaps (op_input_config env x (wl_input wl)))
       (create_missing Jobs (build_utility_job x (wf_pvcName (status flow)) (op_config_name x) (utility_image env) wl grant))"

definition ensure_op_workload :: "utility_env \<Rightarrow> utility_operation \<Rightarrow> writer_grant \<Rightarrow> unit action" where
  "ensure_op_workload env x grant =
     bind_io (resolve_context x) (\<lambda>(flow, project).
     bind_io (lift_result (build_utility_workload (uoc_sha env) x flow project (utility_image env) grant)) (\<lambda>wl.
     bind_io (resolve_utility_inputs x) (\<lambda>inputs.
     bind_io (op_evidence env x) (\<lambda>evidence.
     bind_io (issue_credential env x (with_inputs inputs wl)) (\<lambda>wl.
     bind_io (record_authorisation env x grant evidence wl) (\<lambda>wl.
       create_op_workload env x flow wl grant))))))"

subsection \<open>Collection\<close>

definition revoke_credential :: "utility_env \<Rightarrow> utility_operation \<Rightarrow> unit action" where
  "revoke_credential env x =
     bind_io (attempt_io (k_delete Secrets \<lparr>meta = new_meta (namespace_of x) (credential_name x) [] None,
         spec = \<lparr>sec_type = '''', sec_immutable = None, sec_data = []\<rparr>, status = ()\<rparr>)) (\<lambda>res. case res of
         Inl e \<Rightarrow> if e = NotFound then ret () else raise e
       | Inr _ \<Rightarrow> append_op_event env x ''UtilityCredentialRevoked'' ''revoke'' (credential_name x) ''revoked'' ''UtilityJobTerminal'' NoData)"

definition start_op_collection :: "utility_env \<Rightarrow> utility_operation \<Rightarrow> unit action" where
  "start_op_collection env x =
     bind_io (resolve_context x) (\<lambda>(flow, _).
       seq_io (revoke_credential env x)
         (case owner_grant (op_owner env) x of
            Inl e \<Rightarrow> raise e
          | Inr grant \<Rightarrow> seq_io (create_collector (uoc_getenv env) ''UtilityOperation'' x flow (op_collector_image env) grant)
              (set_op_phase env (x\<lparr>status := (status x)\<lparr>uo_collectorJobRef := collector_job_name x\<rparr>\<rparr>) PhaseCollecting
                ''CollectorCreated'' ''utility result collector created'')))"

definition reconcile_op_collection :: "utility_env \<Rightarrow> utility_operation \<Rightarrow> int option action" where
  "reconcile_op_collection env x =
     bind_io (k_get Jobs (namespace_of x) (uo_collectorJobRef (status x))) (\<lambda>job.
       if job_succeeded (status job) > 0 then
         seq_io (if uo_failureReason (status x) \<noteq> '''' then fail_op env x (uo_failureReason (status x)) (uo_retryable (status x))
           else set_op_phase env x PhaseSucceeded ''UtilityCompleted'' ''utility result and artifacts accepted'') (ret None)
       else if job_failed (status job) > 0 then seq_io (fail_op env x ''UtilityCollectionFailed'' False) (ret None)
       else ret (Some 2))"

text \<open>failure.go: the diagnostic of the first pod of the job that has a valid one.\<close>

definition job_pod_label :: string where
  "job_pod_label = ''batch.kubernetes.io/controller-uid''"

definition status_diagnostic :: "utility_env \<Rightarrow> utility_operation \<Rightarrow> container_status \<Rightarrow> (string \<times> string) option" where
  "status_diagnostic env x s = (case cst_terminated s of
       None \<Rightarrow> None
     | Some (code, message) \<Rightarrow>
         if cst_name s \<noteq> ''utility'' \<or> code = 0 \<or> message = '''' then None
         else (case uoc_decodeError env message of
             None \<Rightarrow> None
           | Some detail \<Rightarrow> (let feedback = \<lparr>rf_previousAttemptRef = uo_attemptRef (spec x), rf_code = re_code detail,
                 rf_message = sanitize_retry_feedback_message (re_message detail)\<rparr>
               in if validate_retry_feedback feedback = None then Some (rf_code feedback, rf_message feedback) else None)))"

definition job_diagnostic :: "utility_env \<Rightarrow> utility_operation \<Rightarrow> job \<Rightarrow> pod list \<Rightarrow> string \<times> string" where
  "job_diagnostic env x job all =
     (case List.map_filter (status_diagnostic env x) (concat (map (\<lambda>p. pod_containerStatuses (status p))
         (filter (\<lambda>p. go_map_get (labels (meta p)) job_pod_label = uid_of job \<and> is_controlled_by p job) all))) of
        [] \<Rightarrow> (''UtilityJobFailed'', '''')
      | d # _ \<Rightarrow> d)"

definition failed_job_op :: "string \<times> string \<Rightarrow> utility_operation \<Rightarrow> utility_operation" where
  "failed_job_op d x = x\<lparr>status := (status x)\<lparr>uo_failureReason := fst d, uo_failureMessage := snd d, uo_retryable := True\<rparr>\<rparr>"

definition record_job_failure :: "utility_env \<Rightarrow> utility_operation \<Rightarrow> job \<Rightarrow> utility_operation action" where
  "record_job_failure env x job =
     (if uid_of job = '''' \<or> \<not> is_controlled_by job x then ret (failed_job_op (''UtilityJobFailed'', '''') x)
      else bind_io (k_list Pods (namespace_of job)) (\<lambda>all. ret (failed_job_op (job_diagnostic env x job all) x)))"

subsection \<open>Reconcile\<close>

definition op_not_deleted :: "utility_env \<Rightarrow> utility_operation \<Rightarrow> (int option + utility_operation) action" where
  "op_not_deleted env x =
     (if deletion (meta x) \<noteq> None then bind_io (finalize_writer (op_owner env) x) (\<lambda>r. ret (Inl r))
      else bind_io (if writer_finalizer \<in> set (finalizers (meta x)) then ret x
            else k_update UtilityOperations (add_finalizer writer_finalizer x)) (\<lambda>x.
        bind_io (namespace_terminating (namespace_of x)) (\<lambda>terminating.
          ret (if terminating then Inl None else Inr x))))"

definition op_writer :: "utility_env \<Rightarrow> utility_operation \<Rightarrow> (int option + writer_grant \<times> utility_operation) action" where
  "op_writer env x = bind_io (ensure_writer (op_owner env) x) (\<lambda>(grant, state, x). case state of
       WorkspaceWriterBlocked \<Rightarrow>
         if uo_jobRef (status x) \<noteq> '''' \<or> uo_collectorJobRef (status x) \<noteq> ''''
         then seq_io (delete_writer_workloads (op_owner env) x)
           (seq_io (interrupt_op env x ''WorkspaceWriterAuthorityNotEstablished'' True) (ret (Inl None)))
         else seq_io (set_op_phase env x PhasePending ''WorkspaceWriterBlocked'' ''another execution unit holds workspace write authority'')
           (ret (Inl (Some 2)))
     | WorkspaceWriterLost \<Rightarrow> seq_io (delete_writer_workloads (op_owner env) x)
         (seq_io (interrupt_op env x ''WorkspaceWriterAuthorityLost'' True) (ret (Inl None)))
     | WorkspaceWriterGranted \<Rightarrow> ret (Inr (grant, x)))"

definition launch_op :: "utility_env \<Rightarrow> utility_operation \<Rightarrow> writer_grant \<Rightarrow> unit action" where
  "launch_op env x grant = seq_io (ensure_op_workload env x grant)
     (set_op_phase env (x\<lparr>status := (status x)\<lparr>uo_jobRef := name_of x\<rparr>\<rparr>) PhasePreparing ''JobCreated'' ''utility job created'')"

definition observe_op :: "utility_env \<Rightarrow> utility_operation \<Rightarrow> int option action" where
  "observe_op env x =
     bind_io (attempt_io (k_get Jobs (namespace_of x) (uo_jobRef (status x)))) (\<lambda>res. case res of
         Inl e \<Rightarrow> if e = NotFound then seq_io (interrupt_op env x ''UtilityJobLost'' True) (ret None) else raise e
       | Inr job \<Rightarrow>
           if job_succeeded (status job) > 0 then seq_io (start_op_collection env x) (ret None)
           else if job_failed (status job) > 0
             then bind_io (record_job_failure env x job) (\<lambda>x. seq_io (start_op_collection env x) (ret None))
           else if job_active (status job) > 0
             then seq_io (set_op_phase env x PhaseRunning ''UtilityRunning'' ''utility operation is running'') (ret None)
           else ret (Some 2))"

definition execute_op :: "utility_env \<Rightarrow> utility_operation \<Rightarrow> int option action" where
  "execute_op env x = bind_io (op_writer env x) (\<lambda>r. case r of Inl stop \<Rightarrow> ret stop
     | Inr (grant, x) \<Rightarrow>
         if uo_jobRef (status x) = '''' then seq_io (launch_op env x grant) (ret None)
         else if uo_collectorJobRef (status x) \<noteq> '''' then reconcile_op_collection env x
         else observe_op env x)"

definition authorised_op :: "utility_env \<Rightarrow> utility_operation \<Rightarrow> int option action" where
  "authorised_op env x =
     bind_io (attempt_io (validate_domain_authority x (uo_attemptRef (spec x)) ExecutionKindUtility (uo_workflowRef (spec x))
         (uo_stepName (spec x)) (uo_attempt (spec x)))) (\<lambda>res. case res of
         Inl _ \<Rightarrow> seq_io (fail_op env x ''InvalidStepAttemptAuthority'' False) (ret None)
       | Inr authorized \<Rightarrow> if \<not> authorized then ret (Some 2)
           else bind_io (ensure_valid_operation env x) (\<lambda>r. case r of Inl stop \<Rightarrow> ret stop | Inr x \<Rightarrow> execute_op env x))"

definition advance_op :: "utility_env \<Rightarrow> utility_operation \<Rightarrow> int option action" where
  "advance_op env x =
     (if uo_phase (status x) = NoPhase
      then seq_io (set_op_phase env x PhasePending ''Initialized'' ''utility operation initialized'') (ret None)
      else if is_terminal (uo_phase (status x)) then reconcile_writer_release (op_owner env) x
      else authorised_op env x)"

definition reconcile_utility_operation :: "utility_env \<Rightarrow> string \<Rightarrow> string \<Rightarrow> int option action" where
  "reconcile_utility_operation env ns n =
     bind_io (attempt_io (k_get UtilityOperations ns n)) (\<lambda>res. case res of
         Inl e \<Rightarrow> if e = NotFound then ret None else raise e
       | Inr x \<Rightarrow> bind_io (op_not_deleted env x) (\<lambda>r. case r of Inl stop \<Rightarrow> ret stop
           | Inr x \<Rightarrow> advance_op env x))"

end
