(* ===== verification/Utility_Authority.thy ===== *)
theory Utility_Authority
  imports Utility_Operations
begin

section \<open>What a utility operation may do\<close>

text \<open>
  Facts about the controller of \<open>Utility_Operations\<close>: what its operations touch; that the Job of an
  operation appears only for a supported operation with the authority of its StepAttempt, the approval
  it needs, a decision of the policy, accepted inputs and the writer's term; that the term ends only
  when the Jobs are quiet; that a terminal phase stays; and what a utility is given and returns.
\<close>

subsection \<open>What the operations touch\<close>

context observed_fact begin

lemma keeps_op_event: "keeps I (append_op_event_with_data env x t a g o' r d)" "keeps I (append_op_event env x t a g o' r d)"
    "keeps I (append_op_inputs_resolved env x evidence)"
  unfolding append_op_event_with_data_def append_op_event_def append_op_inputs_resolved_def
  by (intro keeps_intros keeps_identified)+

lemma keeps_lookup_event: "keeps I (lookup_operation_event x t)" "keeps I (find_operation_event x t)"
  unfolding find_operation_event_def lookup_operation_event_def
  by (intro keeps_intros keeps_recording keeps_list_events)+

lemma keeps_update_op_status: "untouched UtilityOperations I \<Longrightarrow> keeps I (update_op_status ns n mutate)"
  unfolding update_op_status_def by (intro keeps_intros keeps_writes)

lemma keeps_set_op_phase: "untouched UtilityOperations I \<Longrightarrow> keeps I (set_op_phase env x phase reason message)"
  unfolding set_op_phase_def by (intro keeps_intros keeps_update_op_status keeps_op_event)

lemma keeps_fail_op:
  "untouched UtilityOperations I \<Longrightarrow> keeps I (fail_op env x reason retryable)"
  "untouched UtilityOperations I \<Longrightarrow> keeps I (interrupt_op env x reason retryable)"
  unfolding fail_op_def interrupt_op_def Let_def by (rule keeps_set_op_phase, assumption)+

lemma keeps_op_records:
  "untouched UtilityOperations I \<Longrightarrow> keeps I (record_op_writer x)"
  "untouched UtilityOperations I \<Longrightarrow> keeps I (record_policy_decision x)"
  unfolding record_op_writer_def record_policy_decision_def by (intro keeps_intros keeps_update_op_status, assumption)+

lemmas keeps_op_status = keeps_set_op_phase keeps_fail_op keeps_op_records

lemma keeps_op_context: "keeps I (resolve_context x)"
  unfolding resolve_context_def by (intro keeps_intros)

lemma keeps_approval_admission: "keeps I (record_approval_admission sha request decision)"
  by (rule keeps_admission) (rule faults_stable audit_stable, assumption)+

lemma keeps_operation_approval: "keeps I (validate_operation_approval sha x flow)"
  unfolding validate_operation_approval_def resolve_required_approval_def find_gate_def find_request_def find_decision_def
    require_evidence_def from_option_def from_sum_def
  by (auto intro!: keeps_intros keeps_approval_admission split: option.split sum.split resolution.split)

lemma keeps_admit_operation: "keeps I (admit_operation env x)"
  unfolding admit_operation_def admission_parameters_def candidate_push_branch_def lift_result_def Let_def
  by (auto intro!: keeps_intros keeps_op_context keeps_operation_approval split: option.split sum.split list.split resolution.split)

lemma keeps_missing_admission: "keeps I (missing_admission x)"
  unfolding missing_admission_def by (intro keeps_intros keeps_recording keeps_lookup_event)

lemma keeps_decide_operation: "untouched UtilityOperations I \<Longrightarrow> keeps I (decide_operation env x)"
  unfolding decide_operation_def
  by (intro keeps_intros keeps_admit_operation keeps_op_event keeps_op_status)

lemma keeps_valid_operation: "untouched UtilityOperations I \<Longrightarrow> keeps I (ensure_valid_operation env x)"
  unfolding ensure_valid_operation_def
  by (intro keeps_intros keeps_op_status keeps_op_context keeps_operation_approval keeps_missing_admission keeps_decide_operation)

lemma keeps_utility_inputs: "keeps I (utility_inputs_loop x all inputs)"
  by (induction inputs) (auto simp: resolve_utility_input_def intro!: keeps_intros split: resolution.split list.split)

lemma keeps_resolve_utility_inputs: "keeps I (resolve_utility_inputs x)"
  unfolding resolve_utility_inputs_def by (intro keeps_intros keeps_utility_inputs)

lemma keeps_op_evidence: "keeps I (op_evidence env x)"
  unfolding op_evidence_def by (auto intro!: keeps_intros keeps_recording split: resolution.split)

lemma keeps_op_authorisation: "keeps I (record_authorisation env x grant evidence wl)"
  unfolding record_authorisation_def append_op_authority_def append_op_execution_authorized_def
  by (intro keeps_intros keeps_recording keeps_lookup_event keeps_read_authority keeps_op_event)

lemma keeps_ensure_credential: "untouched Secrets I \<Longrightarrow> uncounted I \<Longrightarrow> keeps I (ensure_credential env x ref c)"
  unfolding ensure_credential_def Let_def by (intro keeps_intros keeps_create_missing keeps_op_event)

lemma keeps_issue_credential: "untouched Secrets I \<Longrightarrow> uncounted I \<Longrightarrow> keeps I (issue_credential env x wl)"
  unfolding issue_credential_def by (intro keeps_intros keeps_ensure_credential)

lemma keeps_revoke_credential: "untouched Secrets I \<Longrightarrow> keeps I (revoke_credential env x)"
  unfolding revoke_credential_def by (intro keeps_intros keeps_writes keeps_op_event)

lemma keeps_op_collection:
  "untouched UtilityOperations I \<Longrightarrow> untouched Secrets I
   \<Longrightarrow> (\<And>flow grant. keeps I (create_collector (uoc_getenv env) ''UtilityOperation'' x flow (op_collector_image env) grant))
   \<Longrightarrow> keeps I (start_op_collection env x)"
  unfolding start_op_collection_def
  by (auto intro!: keeps_intros keeps_op_context keeps_revoke_credential keeps_op_status split: sum.split)

lemma keeps_reconcile_op_collection: "untouched UtilityOperations I \<Longrightarrow> keeps I (reconcile_op_collection env x)"
  unfolding reconcile_op_collection_def by (intro keeps_intros keeps_op_status)

lemma keeps_job_failure: "keeps I (record_job_failure env x job)"
  unfolding record_job_failure_def by (intro keeps_intros)

lemma keeps_domain_authority: "keeps I (validate_domain_authority (x :: utility_operation) a k flowRef s i)"
  unfolding validate_domain_authority_def by (intro keeps_intros)

end

subsection \<open>The operation as an owner of the writer's term\<close>

text \<open>Quiet are the Job and the collector's Job.\<close>

definition op_calm :: "utility_operation \<Rightarrow> cluster \<Rightarrow> bool" where
  "op_calm x w \<longleftrightarrow> job_quiet (namespace_of x) (name_of x) w \<and> job_quiet (namespace_of x) (collector_job_name x) w"

lemma op_owner_simps [simp]:
  "own_kind (op_owner env) = UtilityOperations" "own_kindName (op_owner env) = ''UtilityOperation''"
  "own_epoch (op_owner env) = uo_workspaceWriterEpoch" "own_save (op_owner env) = record_op_writer"
  "own_event (op_owner env) x t a g o' r = append_op_event env x t a g o' r NoData"
  "own_released (op_owner env) = uo_workspaceWriterReleased" "own_lease (op_owner env) = uo_workspaceWriterLeaseRef"
  "own_workflow (op_owner env) s = ref_name (uo_workflowRef s)"
  by (simp_all add: op_owner_def)

interpretation utility_owner: term_owner "op_owner env" op_calm for env
proof (rule term_owner.intro)
  fix I :: "cluster \<Rightarrow> bool" and x :: utility_operation and a b c d e
  assume I: "observed_fact I"
  show "keeps I (own_event (op_owner env) x a b c d e)"
    using observed_fact.keeps_op_event(2) [OF I] by simp
  show "keeps I (all_quiet (own_quiet (op_owner env) x))"
    by (rule observed_fact.keeps_all_quiet [OF I]) (auto simp: op_owner_def intro: observed_fact.keeps_quiescent [OF I])
next
  fix I :: "cluster \<Rightarrow> bool" and x :: utility_operation
  assume "observed_fact I" "untouched (own_kind (op_owner env)) I"
  then show "keeps I (own_save (op_owner env) x)" using observed_fact.keeps_op_records(1) by simp
next
  fix I :: "cluster \<Rightarrow> bool" and x :: utility_operation and act
  assume "observed_fact I" "untouched Pods I" "untouched Jobs I" "act \<in> set (own_drop (op_owner env) x)"
  then show "keeps I act" using observed_fact.keeps_drops [of I] by (auto simp: op_owner_def)
next
  fix act and x :: utility_operation assume "act \<in> set (own_drop (op_owner env) x)"
  then show "keeps honest act" by (auto simp: op_owner_def delete_job_def job_kind.honest_delete)
next
  fix x :: utility_operation
  have "keeps (job_quiet (namespace_of x) (name_of x)) (job_writer_quiescent ns n)" for ns n
    by (rule observed_fact.keeps_quiescent(2) [OF observed_quiet(2)])
  from both_quiet [OF quiescent_honest(2) quiescent_honest(2) this]
  show "triple honest (all_quiet (own_quiet (op_owner env) x)) (\<lambda>b w. honest w \<and> (b \<longrightarrow> op_calm x w)) (\<lambda>_. honest)"
    by (simp add: op_owner_def op_calm_def)
  show "observed_fact (op_calm x)" unfolding op_calm_def [abs_def] by (intro observed_conj observed_quiet)
  show "untouched WriterLeases (op_calm x)" "untouched (own_kind (op_owner env)) (op_calm x)"
    by (simp_all add: untouched_def op_calm_def job_quiet_def kind_defs)
qed (simp_all add: untouched_def holds_term_def seen_def kind_defs)

subsection \<open>The inputs that are delivered\<close>

text \<open>The accepted artifact a requested input stands for, alone of its kind where the input is not pinned.\<close>

definition op_selected :: "cluster \<Rightarrow> utility_operation \<Rightarrow> artifact_reference \<Rightarrow> artifact \<Rightarrow> bool" where
  "op_selected w x requested a \<longleftrightarrow> a \<in> set (artifacts w) \<and> namespace_of a = namespace_of x
     \<and> art_workflowRef (spec a) = uo_workflowRef (spec x) \<and> contract_name (art_contract (spec a)) = ar_name requested
     \<and> (ar_digest requested = '''' \<or> art_digest (spec a) = ar_digest requested) \<and> artifact_accepted a
     \<and> (case ar_artifactRef requested of
          Some pin \<Rightarrow> name_of a = ref_name pin \<and> uid_of a = ref_uid pin \<and> art_digest (spec a) = ar_digest requested
        | None \<Rightarrow> unpinned_utility_matches x requested (filter (\<lambda>b. namespace_of b = namespace_of x) (artifacts w)) = [a])"

definition op_delivered :: "cluster \<Rightarrow> utility_operation \<Rightarrow> artifact_input list \<Rightarrow> bool" where
  "op_delivered w x inputs \<longleftrightarrow> list_all2 (\<lambda>requested i. \<exists>a. op_selected w x requested a
     \<and> i = utility_artifact_input requested a) (uo_inputs (spec x)) inputs"

lemma utility_input_resolved:
  assumes run: "resolve_utility_input x all requested w = (Inr a, v)"
    and all: "all = filter (\<lambda>b. namespace_of b = namespace_of x) (artifacts w)"
  shows "op_selected w x requested a \<and> artifacts v = artifacts w"
proof (cases "ar_artifactRef requested")
  case None
  with run have one: "unpinned_utility_matches x requested all = [a]" and v: "v = w"
    by (auto simp: resolve_utility_input_def ret_def raise_def split: list.splits)
  have "a \<in> set (unpinned_utility_matches x requested all)" unfolding one by simp
  then have "a \<in> set all" "art_workflowRef (spec a) = uo_workflowRef (spec x)" "contract_name (art_contract (spec a)) = ar_name requested"
    "ar_digest requested = '''' \<or> art_digest (spec a) = ar_digest requested" "artifact_accepted a"
    by (auto simp: unpinned_utility_matches_def)
  with one show ?thesis unfolding all v op_selected_def None by simp
next
  case (Some pin)
  with run have "resolve_pinned_input (namespace_of x) (uo_workflowRef (spec x)) requested w = (Inr (Resolved a), v)"
    by (auto simp: resolve_utility_input_def ret_def raise_def elim!: bind_io_result split: resolution.splits)
  from pinned_resolved [OF this Some] Some show ?thesis by (auto simp: selected_artifact_def op_selected_def)
qed

lemma utility_inputs_resolved:
  "utility_inputs_loop x all inputs w = (Inr ais, w') \<Longrightarrow> all = filter (\<lambda>b. namespace_of b = namespace_of x) (artifacts w) \<Longrightarrow>
   list_all2 (\<lambda>requested i. \<exists>a. op_selected w x requested a \<and> i = utility_artifact_input requested a) inputs ais"
proof (induction inputs arbitrary: w ais w')
  case Nil
  then show ?case by (simp add: ret_def)
next
  case (Cons requested inputs)
  from Cons.prems(1) obtain a v rest w2 where choose: "resolve_utility_input x all requested w = (Inr a, v)"
    and tail: "utility_inputs_loop x all inputs v = (Inr rest, w2)" and ais: "ais = utility_artifact_input requested a # rest"
    by (auto simp: ret_def elim!: bind_io_result)
  note sel = utility_input_resolved [OF choose Cons.prems(2)]
  have same: "artifacts v = artifacts w" using sel ..
  have "op_selected v x i b = op_selected w x i b" for i b unfolding op_selected_def same ..
  with Cons.IH [OF tail] Cons.prems(2) sel show ?case by (auto simp: ais)
qed

lemma utility_inputs_delivered:
  assumes "resolve_utility_inputs x w = (Inr ais, w')"
  shows "op_delivered w x ais"
proof (cases "uo_inputs (spec x) = []")
  case True
  with assms show ?thesis by (simp add: resolve_utility_inputs_def op_delivered_def ret_def)
next
  case False
  with assms obtain all v where list: "k_list Artifacts (namespace_of x) w = (Inr all, v)"
    and loop: "utility_inputs_loop x all (uo_inputs (spec x)) v = (Inr ais, w')"
    by (auto simp: resolve_utility_inputs_def elim!: bind_io_result)
  have same: "artifacts v = artifacts w" using artifact_kind.list_result(2) [OF list] by auto
  have "all = filter (\<lambda>b. namespace_of b = namespace_of x) (artifacts v)"
    using artifact_kind.list_result(1) [OF list] by (simp add: Artifacts_def same)
  from utility_inputs_resolved [OF loop this] show ?thesis
    unfolding op_delivered_def op_selected_def same .
qed

subsection \<open>The facts a launch rests on\<close>

definition op_sources :: "cluster \<Rightarrow> cluster \<Rightarrow> bool" where
  "op_sources w0 w \<longleftrightarrow> (step_attempts w = step_attempts w0 \<and> artifacts w = artifacts w0 \<and> workflows w = workflows w0)
     \<and> approval_requests w = approval_requests w0 \<and> approval_decisions w = approval_decisions w0 \<and> projects w = projects w0"

lemma observed_op_sources [intro]: "observed_fact (op_sources w0)"
  by unfold_locales (simp_all add: op_sources_def)

definition op_authorises :: "cluster \<Rightarrow> utility_operation \<Rightarrow> bool" where
  "op_authorises w x \<longleftrightarrow> (\<exists>attempt ref. find_by obj_key (namespace_of x, uo_attemptRef (spec x)) (step_attempts w) = Some attempt
     \<and> validate_domain_binding attempt x (uo_attemptRef (spec x)) ExecutionKindUtility (uo_workflowRef (spec x))
         (uo_stepName (spec x)) (uo_attempt (spec x)) = None
     \<and> sa_executionRef (status attempt) = Some ref \<and> tl_apiVersion ref = group_version \<and> tl_kind ref = ''UtilityOperation''
     \<and> tl_name ref = name_of x)"

definition op_workflow :: "cluster \<Rightarrow> utility_operation \<Rightarrow> workflow \<Rightarrow> bool" where
  "op_workflow w x flow \<longleftrightarrow> find_by obj_key (namespace_of x, ref_name (uo_workflowRef (spec x))) (workflows w) = Some flow"

definition op_project :: "cluster \<Rightarrow> workflow \<Rightarrow> project \<Rightarrow> bool" where
  "op_project w flow project \<longleftrightarrow> find_by obj_key ('''', ref_name (wf_project (spec flow))) (projects w) = Some project"

text \<open>An operation that needs an approval has one, which its step requires and the cluster backs.\<close>

definition approval_backed :: "cluster \<Rightarrow> utility_operation \<Rightarrow> bool" where
  "approval_backed w x \<longleftrightarrow> (needs_approval x \<longrightarrow> (\<exists>flow step required consumer r. op_workflow w x flow
     \<and> find (\<lambda>s. step_name s = uo_stepName (spec x)) (wf_steps (spec flow)) = Some step
     \<and> step_requiresApproval step = Some required \<and> uo_approval (spec x) = Some r
     \<and> find_by obj_key (namespace_of x, uo_attemptRef (spec x)) (step_attempts w) = Some consumer
     \<and> authorised w flow consumer required (uo_inputs (spec x)) r))"

text \<open>The policy allows the operation, now or when its decision was recorded; without a policy only what is not privileged runs.\<close>

definition op_permitted :: "utility_env \<Rightarrow> cluster \<Rightarrow> utility_operation \<Rightarrow> bool" where
  "op_permitted env w x \<longleftrightarrow> (case uoc_policy env of
       None \<Rightarrow> \<not> is_privileged_operation (op_name x)
     | Some policy \<Rightarrow> \<exists>flow project params d. op_workflow w x flow \<and> op_project w flow project
         \<and> policy (utility_query_of x project params) = Inr d \<and> pd_allowed d)"

definition op_admitted :: "utility_env \<Rightarrow> cluster \<Rightarrow> utility_operation \<Rightarrow> bool" where
  "op_admitted env w x \<longleftrightarrow> uo_policyDecisionID (status x) \<noteq> '''' \<or> op_permitted env w x"

lemma authorised_sources:
  assumes "op_sources w0 w"
  shows "authorised w flow consumer required inputs r = authorised w0 flow consumer required inputs r"
proof -
  have same: "step_attempts w = step_attempts w0" "approval_requests w = approval_requests w0"
    "approval_decisions w = approval_decisions w0" "artifacts w = artifacts w0" using assms by (simp_all add: op_sources_def)
  show ?thesis unfolding authorised_def latest_gate_def same ..
qed

lemma operation_approval_result:
  assumes "validate_operation_approval sha x flow w = (Inr u, w')" and "needs_approval x"
  shows "\<exists>step required consumer r. find (\<lambda>s. step_name s = uo_stepName (spec x)) (wf_steps (spec flow)) = Some step
     \<and> step_requiresApproval step = Some required \<and> uo_approval (spec x) = Some r
     \<and> find_by obj_key (namespace_of x, uo_attemptRef (spec x)) (step_attempts w) = Some consumer
     \<and> authorised w flow consumer required (uo_inputs (spec x)) r"
proof -
  from assms obtain step r where step: "find (\<lambda>s. step_name s = uo_stepName (spec x)) (wf_steps (spec flow)) = Some step"
    and r: "uo_approval (spec x) = Some r"
    and run: "bind_io (k_get StepAttempts (namespace_of x) (uo_attemptRef (spec x))) (\<lambda>consumer.
            if is_terminal (sa_phase (status consumer)) \<or> sa_workflowAttempt (spec consumer) \<noteq> wf_workflowAttempt (status flow)
            then raise (Invalid ''approval consumer is no longer current'')
            else bind_io (resolve_required_approval sha flow consumer step (uo_inputs (spec x))) (\<lambda>resolved.
              if resolved \<noteq> uo_approval (spec x)
              then raise (Invalid ''operation approval binding differs from admitted authority'') else ret ())) w = (Inr u, w')"
    by (auto simp: validate_operation_approval_def raise_def needs_approval_def split: option.splits if_splits)
  from run obtain consumer v where get: "k_get StepAttempts (namespace_of x) (uo_attemptRef (spec x)) w = (Inr consumer, v)"
    and rest: "bind_io (resolve_required_approval sha flow consumer step (uo_inputs (spec x))) (\<lambda>resolved.
              if resolved \<noteq> uo_approval (spec x)
              then raise (Invalid ''operation approval binding differs from admitted authority'') else ret ()) v = (Inr u, w')"
    by (auto simp: raise_def elim!: bind_io_result split: if_splits)
  from rest r obtain v' where "resolve_required_approval sha flow consumer step (uo_inputs (spec x)) v = (Inr (Some r), v')"
    by (auto simp: raise_def elim!: bind_io_result split: if_splits)
  from resolved_is_authorised [OF this] obtain required where req: "step_requiresApproval step = Some required"
    "authorised v flow consumer required (uo_inputs (spec x)) r" by blast
  have v: "op_sources w v" "step_attempts v = step_attempts w"
    using step_attempt_kind.get_result(3) [OF get] by (auto simp: op_sources_def)
  have "find_by obj_key (namespace_of x, uo_attemptRef (spec x)) (step_attempts w) = Some consumer"
    using step_attempt_kind.get_result(1) [OF get] v(2) by (simp add: StepAttempts_def)
  with step r req authorised_sources [OF v(1)] show ?thesis by auto
qed

lemma context_result:
  assumes "resolve_context x w = (Inr (flow, project), w')"
  shows "op_workflow w x flow \<and> op_project w flow project"
proof -
  from assms obtain v where flow: "k_get Workflows (namespace_of x) (ref_name (uo_workflowRef (spec x))) w = (Inr flow, v)"
    and project: "k_get Projects '''' (ref_name (wf_project (spec flow))) v = (Inr project, w')"
    by (auto simp: resolve_context_def raise_def ret_def elim!: bind_io_result split: if_splits)
  have "workflows v = workflows w" "projects v = projects w" using workflow_kind.get_result(3) [OF flow] by auto
  moreover have "projects w' = projects v" using project_kind.get_result(3) [OF project] by auto
  ultimately show ?thesis
    using workflow_kind.get_result(1) [OF flow] project_kind.get_result(1) [OF project]
    by (simp add: op_workflow_def op_project_def Workflows_def Projects_def)
qed

text \<open>The answer of the policy is an answer about this operation and its project.\<close>

lemma admit_result:
  assumes "admit_operation env x w = (Inr (True, i, reason), w')"
  shows "op_permitted env w x"
proof (cases "uoc_policy env")
  case None
  then show ?thesis using assms by (auto simp: admit_operation_def op_permitted_def ret_def split: if_splits)
next
  case (Some policy)
  from assms obtain flow project v params d u u' where ctx: "resolve_context x w = (Inr (flow, project), v)"
    and eval: "lift_result (policy (utility_query_of x project params)) u = (Inr d, u')" and "pd_allowed d"
    by (auto simp: admit_operation_def Some seq_io_def ret_def elim!: bind_io_result split: prod.splits)
  then have "policy (utility_query_of x project params) = Inr d"
    by (auto simp: lift_result_def ret_def raise_def split: sum.splits)
  with context_result [OF ctx] \<open>pd_allowed d\<close> show ?thesis by (auto simp: op_permitted_def Some)
qed

subsection \<open>What may be new\<close>

text \<open>A Job that collects the result of the operation of a name.\<close>

definition collects :: "utility_env \<Rightarrow> string \<Rightarrow> string \<Rightarrow> job \<Rightarrow> bool" where
  "collects env ns n job \<longleftrightarrow> (\<exists>(x :: utility_operation) flow grant. obj_key x = (ns, n)
     \<and> born (collector_job (uoc_getenv env) ''UtilityOperation'' x flow (op_collector_image env) grant) job)"

definition no_new_inputs :: "cluster \<Rightarrow> cluster \<Rightarrow> bool" where
  "no_new_inputs w0 w \<longleftrightarrow> only_new ConfigMaps (keys_of ConfigMaps w0) (\<lambda>_. False) w"

definition op_base :: "utility_env \<Rightarrow> string \<Rightarrow> string \<Rightarrow> cluster \<Rightarrow> cluster \<Rightarrow> bool" where
  "op_base env ns n w0 w \<longleftrightarrow> (op_sources w0 w \<and> no_new_inputs w0 w) \<and> only_new Jobs (keys_of Jobs w0) (collects env ns n) w"

text \<open>The operation goes through the stages with its status changed, and without a Job as long as it had none.\<close>

definition same_op :: "utility_operation \<Rightarrow> utility_operation \<Rightarrow> bool" where
  "same_op x x' \<longleftrightarrow> (\<exists>st. x' = x\<lparr>status := st\<rparr> \<and> uo_jobRef st = uo_jobRef (status x))"

lemma same_op_refl [simp]: "same_op x x"
  unfolding same_op_def by (rule exI [of _ "status x"]) simp

lemma same_op_trans: "same_op a b \<Longrightarrow> same_op b c \<Longrightarrow> same_op a c"
  by (auto simp: same_op_def)

lemma same_op_decision [simp]: "same_op x (with_decision i x)"
  by (auto simp: same_op_def with_decision_def)

lemma op_status_job [simp]:
  "build_utility_job (x\<lparr>status := st\<rparr>) pvcName configName img wl grant = build_utility_job x pvcName configName img wl grant"
  "op_input_config env (x\<lparr>status := st\<rparr>) inp = op_input_config env x inp"
  "op_config_name (x\<lparr>status := st\<rparr>) = op_config_name x" "credential_name (x\<lparr>status := st\<rparr>) = credential_name x"
proof -
  have same: "meta (x\<lparr>status := st\<rparr>) = meta x" "spec (x\<lparr>status := st\<rparr>) = spec x" by simp_all
  show "build_utility_job (x\<lparr>status := st\<rparr>) pvcName configName img wl grant = build_utility_job x pvcName configName img wl grant"
    "op_input_config env (x\<lparr>status := st\<rparr>) inp = op_input_config env x inp"
    "op_config_name (x\<lparr>status := st\<rparr>) = op_config_name x" "credential_name (x\<lparr>status := st\<rparr>) = credential_name x"
    unfolding build_utility_job_def job_parts_of_def utility_container_def op_input_config_def op_config_name_def credential_name_def
      owner_ref_of_def same by (rule refl)+
qed

lemma op_status_facts [simp]:
  "op_workflow w (x\<lparr>status := st\<rparr>) = op_workflow w x" "approval_backed w (x\<lparr>status := st\<rparr>) = approval_backed w x"
  "op_permitted env w (x\<lparr>status := st\<rparr>) = op_permitted env w x" "op_delivered w (x\<lparr>status := st\<rparr>) = op_delivered w x"
  "holds_term kind (x\<lparr>status := st\<rparr>) flow grant = holds_term kind x flow grant"
  by (simp_all add: op_workflow_def approval_backed_def needs_approval_def op_permitted_def utility_query_of_def op_delivered_def
      op_selected_def unpinned_utility_matches_def holds_term_def workspace_writer_identity_def fun_eq_iff split: option.split)

lemma same_op_facts:
  assumes "same_op x x'"
  shows "namespace_of x' = namespace_of x" "name_of x' = name_of x" "spec x' = spec x" "meta x' = meta x"
    "uo_jobRef (status x') = uo_jobRef (status x)" "obj_key x' = obj_key x"
    "holds_term kind x' flow grant = holds_term kind x flow grant" "op_workflow w x' = op_workflow w x"
    "op_delivered w x' = op_delivered w x"
    "build_utility_job x' pvcName configName img wl grant = build_utility_job x pvcName configName img wl grant"
    "op_input_config env x' inp = op_input_config env x inp" "op_config_name x' = op_config_name x"
    "credential_name x' = credential_name x"
  using assms by (auto simp: same_op_def obj_key_def)

text \<open>What the Job of a launch is made from, and the Secret it is given.\<close>

definition op_made :: "utility_env \<Rightarrow> cluster \<Rightarrow> utility_operation \<Rightarrow> workflow \<Rightarrow> writer_grant \<Rightarrow> utility_workload \<Rightarrow> bool" where
  "op_made env w x flow grant wl \<longleftrightarrow> (\<exists>x' project. same_op x x' \<and> op_project w flow project
     \<and> build_utility_workload (uoc_sha env) x' flow project (utility_image env) grant = Inr wl)"

definition issued :: "utility_operation \<Rightarrow> utility_workload \<Rightarrow> string" where
  "issued x wl = (if ns_name (wl_credentialRef wl) = '''' then wl_credentialSecret wl else credential_name x)"

definition launched_job :: "utility_env \<Rightarrow> cluster \<Rightarrow> utility_operation \<Rightarrow> workflow \<Rightarrow> writer_grant \<Rightarrow> job \<Rightarrow> bool" where
  "launched_job env w x flow grant job \<longleftrightarrow> (\<exists>wl. op_made env w x flow grant wl
     \<and> born (build_utility_job x (wf_pvcName (status flow)) (op_config_name x) (utility_image env)
         (wl\<lparr>wl_credentialSecret := issued x wl\<rparr>) grant) job)"

definition launched_input :: "utility_env \<Rightarrow> cluster \<Rightarrow> utility_operation \<Rightarrow> workflow \<Rightarrow> writer_grant \<Rightarrow> config_map \<Rightarrow> bool" where
  "launched_input env w x flow grant cm \<longleftrightarrow> (\<exists>wl inputs lineage. op_made env w x flow grant wl \<and> op_delivered w x inputs
     \<and> born (op_input_config env x ((wl_input wl)\<lparr>ui_artifacts := inputs, ui_lineage := lineage\<rparr>)) cm)"

definition op_ground :: "cluster \<Rightarrow> utility_operation \<Rightarrow> workflow \<Rightarrow> writer_grant \<Rightarrow> cluster \<Rightarrow> bool" where
  "op_ground w0 x flow grant w \<longleftrightarrow> op_sources w0 w
     \<and> (seen Workflows (namespace_of x) (ref_name (uo_workflowRef (spec x))) flow w \<and> holds_term ''UtilityOperation'' x flow grant w)"

definition op_launches :: "utility_env \<Rightarrow> string \<Rightarrow> string \<Rightarrow> cluster \<Rightarrow> utility_operation \<Rightarrow> workflow \<Rightarrow> writer_grant \<Rightarrow> cluster \<Rightarrow> bool" where
  "op_launches env ns n w0 x flow grant w \<longleftrightarrow>
     (op_ground w0 x flow grant w \<and> only_new ConfigMaps (keys_of ConfigMaps w0) (launched_input env w0 x flow grant) w)
     \<and> only_new Jobs (keys_of Jobs w0) (\<lambda>job. collects env ns n job \<or> launched_job env w0 x flow grant job) w"

lemma op_sources_apart [simp]:
  "untouched UtilityOperations (op_sources w0)" "untouched WriterLeases (op_sources w0)" "untouched Secrets (op_sources w0)"
  "untouched ConfigMaps (op_sources w0)" "untouched Jobs (op_sources w0)" "untouched ServiceAccounts (op_sources w0)"
  "untouched Roles (op_sources w0)" "untouched RoleBindings (op_sources w0)" "uncounted (op_sources w0)"
  "untouched UtilityOperations (no_new_inputs w0)" "untouched WriterLeases (no_new_inputs w0)" "untouched Secrets (no_new_inputs w0)"
  "untouched Jobs (no_new_inputs w0)" "untouched ServiceAccounts (no_new_inputs w0)"
  "untouched Roles (no_new_inputs w0)" "untouched RoleBindings (no_new_inputs w0)" "uncounted (no_new_inputs w0)"
  by (simp_all add: untouched_def uncounted_def op_sources_def no_new_inputs_def only_new_def kind_defs)

lemma observed_op_base [intro]: "observed_fact (op_base env ns n w0)"
  unfolding op_base_def [abs_def] no_new_inputs_def [abs_def]
  by (intro observed_conj observed_op_sources config_map_kind.observed_only_new job_kind.observed_only_new)

lemma op_base_apart [simp]:
  "untouched UtilityOperations (op_base env ns n w0)" "untouched WriterLeases (op_base env ns n w0)"
  "untouched Secrets (op_base env ns n w0)" "untouched ServiceAccounts (op_base env ns n w0)"
  "untouched Roles (op_base env ns n w0)" "untouched RoleBindings (op_base env ns n w0)" "uncounted (op_base env ns n w0)"
  using op_sources_apart by (simp_all add: untouched_def uncounted_def op_base_def only_new_def kind_defs)

lemma op_ground_apart [simp]:
  "untouched UtilityOperations (op_ground w0 x flow grant)" "untouched Secrets (op_ground w0 x flow grant)"
  "untouched ConfigMaps (op_ground w0 x flow grant)" "untouched Jobs (op_ground w0 x flow grant)" "uncounted (op_ground w0 x flow grant)"
  using op_sources_apart by (simp_all add: untouched_def uncounted_def op_ground_def seen_def holds_term_def kind_defs)

lemma observed_op_ground [intro]: "observed_fact (op_ground w0 x flow grant)"
  unfolding op_ground_def [abs_def] by (intro observed_conj observed_op_sources workflow_kind.observed_seen observed_term)

lemma observed_op_launches [intro]: "observed_fact (op_launches env ns n w0 x flow grant)"
  unfolding op_launches_def [abs_def]
  by (intro observed_conj observed_op_ground config_map_kind.observed_only_new job_kind.observed_only_new)

lemma op_launches_apart [simp]:
  "untouched UtilityOperations (op_launches env ns n w0 x flow grant)" "untouched Secrets (op_launches env ns n w0 x flow grant)"
  "uncounted (op_launches env ns n w0 x flow grant)"
  using op_ground_apart by (simp_all add: untouched_def uncounted_def op_launches_def only_new_def kind_defs)

subsection \<open>The stages\<close>

lemma collects_new:
  assumes "obj_key (x :: utility_operation) = (ns, n)"
  shows "keeps (op_base env ns n w0) (create_collector (uoc_getenv env) ''UtilityOperation'' x flow (op_collector_image env) grant)"
proof -
  have job: "keeps (op_base env ns n w0) (create_missing Jobs (collector_job (uoc_getenv env) ''UtilityOperation'' x flow (op_collector_image env) grant))"
    unfolding op_base_def [abs_def] using assms
    by (intro job_kind.create_only_new) (auto simp: collects_def no_new_inputs_def
        intro!: observed_conj untouched_conj uncounted_conj op_sources_apart config_map_kind.observed_only_new
          op_sources_apart [unfolded no_new_inputs_def])
  show ?thesis unfolding create_collector_def
    by (rule keeps_seq [OF observed_fact.keeps_create_missing keeps_seq [OF observed_fact.keeps_create_missing
        keeps_seq [OF observed_fact.keeps_create_missing job]]]) auto
qed

lemma op_base_delete_job: "keeps (op_base env ns n w0) (delete_job ns' n')"
  unfolding op_base_def [abs_def] delete_job_def
  by (rule job_kind.delete_only_new) (auto simp: collects_def born_def obj_key_def no_new_inputs_def
      intro!: observed_conj untouched_conj op_sources_apart config_map_kind.observed_only_new op_sources_apart [unfolded no_new_inputs_def])

lemma op_base_drops: "keeps (op_base env ns n w0) (delete_writer_workloads (op_owner env) x)"
  unfolding delete_writer_workloads_def op_owner_def
  by (auto intro!: triple_intros op_base_delete_job)

lemma op_base_sources: "op_base env ns n w0 w \<Longrightarrow> op_sources w0 w"
  by (simp add: op_base_def)

lemma op_sources_reads:
  assumes "op_sources w0 w"
  shows "op_workflow w = op_workflow w0" "op_project w = op_project w0" "op_delivered w = op_delivered w0"
proof -
  have same: "artifacts w = artifacts w0" "workflows w = workflows w0" "projects w = projects w0"
    using assms by (simp_all add: op_sources_def)
  have "op_selected w = op_selected w0" unfolding op_selected_def same ..
  then show "op_delivered w = op_delivered w0" unfolding op_delivered_def by simp
  show "op_workflow w = op_workflow w0" "op_project w = op_project w0"
    unfolding op_workflow_def op_project_def same by (rule refl)+
qed

lemma op_authority_triple:
  "triple (op_base env ns n w0) (validate_domain_authority x (uo_attemptRef (spec x)) ExecutionKindUtility (uo_workflowRef (spec x))
         (uo_stepName (spec x)) (uo_attempt (spec x))) (\<lambda>b w. op_base env ns n w0 w \<and> (b \<longrightarrow> op_authorises w0 x)) (\<lambda>_. op_base env ns n w0)"
  unfolding validate_domain_authority_def
proof (rule triple_attempt_bind [OF step_attempt_kind.get_seen [OF observed_op_base]], goal_cases)
  case (1 attempt)
  have "op_authorises w0 x" if "op_base env ns n w0 w" "seen StepAttempts (namespace_of x) (uo_attemptRef (spec x)) attempt w"
      "validate_domain_binding attempt x (uo_attemptRef (spec x)) ExecutionKindUtility (uo_workflowRef (spec x))
         (uo_stepName (spec x)) (uo_attempt (spec x)) = None"
      "sa_executionRef (status attempt) = Some ref" "tl_apiVersion ref = group_version" "tl_kind ref = ''UtilityOperation''"
      "tl_name ref = name_of x" for w ref
    using that by (auto simp: op_authorises_def op_base_def op_sources_def seen_def StepAttempts_def)
  then show ?case by (auto simp: triple_def ret_def raise_def domain_kind_def split: option.splits)
qed (simp add: triple_def ret_def raise_def)

text \<open>A stage that keeps the base, and what its answer says of the state it started in.\<close>

lemma op_answer:
  assumes "keeps (op_base env ns n w0) m" and "\<And>w r w'. op_base env ns n w0 w \<Longrightarrow> m w = (Inr r, w') \<Longrightarrow> A r"
  shows "triple (op_base env ns n w0) m (\<lambda>r w. op_base env ns n w0 w \<and> A r) (\<lambda>_. op_base env ns n w0)"
  by (rule tripleI) (use triple_resultD [OF assms(1)] triple_errorD [OF assms(1)] assms(2) in blast)+

lemma op_context_triple:
  "triple (op_base env ns n w0) (resolve_context x) (\<lambda>r w. op_base env ns n w0 w \<and> op_workflow w0 x (fst r) \<and> op_project w0 (fst r) (snd r))
     (\<lambda>_. op_base env ns n w0)"
proof (rule op_answer)
  show "keeps (op_base env ns n w0) (resolve_context x)" by (rule observed_fact.keeps_op_context [OF observed_op_base])
  fix w r w' assume base: "op_base env ns n w0 w" and run: "resolve_context x w = (Inr r, w')"
  obtain flow project where r: "r = (flow, project)" by fastforce
  note same = op_sources_reads [OF op_base_sources [OF base]]
  from context_result [OF run [unfolded r]] show "op_workflow w0 x (fst r) \<and> op_project w0 (fst r) (snd r)"
    unfolding r same by simp
qed

lemma op_approval_triple:
  assumes "op_workflow w0 x flow"
  shows "triple (op_base env ns n w0) (validate_operation_approval sha x flow) (\<lambda>_ w. op_base env ns n w0 w \<and> approval_backed w0 x)
     (\<lambda>_. op_base env ns n w0)"
proof (rule op_answer)
  show "keeps (op_base env ns n w0) (validate_operation_approval sha x flow)"
    by (rule observed_fact.keeps_operation_approval [OF observed_op_base])
  fix w r w' assume base: "op_base env ns n w0 w" and run: "validate_operation_approval sha x flow w = (Inr r, w')"
  have same: "step_attempts w = step_attempts w0" using op_base_sources [OF base] by (simp add: op_sources_def)
  note auth = authorised_sources [OF op_base_sources [OF base]]
  from operation_approval_result [OF run] show "approval_backed w0 x"
    unfolding approval_backed_def same auth using assms by blast
qed

lemma op_permitted_sources: "op_sources w0 w \<Longrightarrow> op_permitted env w x = op_permitted env w0 x"
  unfolding op_permitted_def by (simp only: op_sources_reads)

lemma op_admit_triple:
  "triple (op_base env ns n w0) (admit_operation env x) (\<lambda>r w. op_base env ns n w0 w \<and> (fst r \<longrightarrow> op_permitted env w0 x))
     (\<lambda>_. op_base env ns n w0)"
proof (rule op_answer)
  show "keeps (op_base env ns n w0) (admit_operation env x)" by (rule observed_fact.keeps_admit_operation [OF observed_op_base])
  fix w r w' assume base: "op_base env ns n w0 w" and run: "admit_operation env x w = (Inr r, w')"
  obtain allowed i reason where r: "r = (allowed, i, reason)" by (cases r) auto
  have "op_permitted env w x" if allowed using admit_result [of env x w i reason w'] run that by (simp add: r)
  then show "fst r \<longrightarrow> op_permitted env w0 x" using op_permitted_sources [OF op_base_sources [OF base]] by (simp add: r)
qed

lemma op_stop:
  assumes "keeps (op_base env ns n w0) m"
  shows "triple (op_base env ns n w0) (seq_io m (ret (Inl s))) (\<lambda>r w. op_base env ns n w0 w \<and> (\<forall>x. r = Inr x \<longrightarrow> Q x)) (\<lambda>_. op_base env ns n w0)"
  by (rule triple_seq [OF assms]) (simp add: triple_def ret_def)

lemma op_decide_triple:
  "triple (op_base env ns n w0) (decide_operation env x)
     (\<lambda>r w. op_base env ns n w0 w \<and> (\<forall>x'. r = Inr x' \<longrightarrow> same_op x x' \<and> op_permitted env w0 x)) (\<lambda>_. op_base env ns n w0)"
proof -
  let ?I = "op_base env ns n w0"
  let ?Q = "\<lambda>r w. ?I w \<and> (\<forall>x'. r = Inr x' \<longrightarrow> same_op x x' \<and> op_permitted env w0 x)"
  have finish: "triple (\<lambda>w. ?I w \<and> (allowed \<longrightarrow> op_permitted env w0 x))
      (if \<not> allowed then seq_io (fail_op env (with_decision i x) ''UtilityOperationDenied'' False) (ret (Inl None))
       else seq_io (record_policy_decision (with_decision i x)) (ret (Inr (with_decision i x)))) ?Q (\<lambda>_. ?I)" for allowed i
  proof (cases allowed)
    case True
    have "triple ?I (seq_io (record_policy_decision (with_decision i x)) (ret (Inr (with_decision i x)))) ?Q (\<lambda>_. ?I)"
      if "op_permitted env w0 x"
      by (rule triple_seq [OF observed_fact.keeps_op_records(2) [OF observed_op_base op_base_apart(1)]])
        (use that in \<open>simp add: triple_def ret_def\<close>)
    then show ?thesis using True triple_pure by fastforce
  next
    case False
    then show ?thesis using op_stop [OF observed_fact.keeps_fail_op(1) [OF observed_op_base op_base_apart(1)]] by simp
  qed
  have event: "triple (\<lambda>w. ?I w \<and> P) (append_op_event_with_data env y t a g o' r d) (\<lambda>_ w. ?I w \<and> P) (\<lambda>_. ?I)" for y t a g o' r d P
    by (rule triple_pure, rule triple_post [OF observed_fact.keeps_op_event(1) [OF observed_op_base]]) auto
  show ?thesis unfolding decide_operation_def
  proof (rule triple_bind [OF op_admit_triple], goal_cases)
    case (1 r)
    obtain allowed i reason where r: "r = (allowed, i, reason)" by (cases r) auto
    show ?case unfolding r prod.case fst_conv by (rule triple_bind [OF event finish])
  qed
qed

lemma op_valid_triple:
  "triple (op_base env ns n w0) (ensure_valid_operation env x)
     (\<lambda>r w. op_base env ns n w0 w \<and> (\<forall>x'. r = Inr x' \<longrightarrow> same_op x x' \<and> is_supported_operation (op_name x)
        \<and> approval_backed w0 x \<and> op_admitted env w0 x)) (\<lambda>_. op_base env ns n w0)"
proof -
  let ?I = "op_base env ns n w0"
  let ?Q = "\<lambda>r w. ?I w \<and> (\<forall>x'. r = Inr x' \<longrightarrow> same_op x x' \<and> is_supported_operation (op_name x)
        \<and> approval_backed w0 x \<and> op_admitted env w0 x)"
  let ?approve = "if needs_approval x then bind_io (resolve_context x) (\<lambda>(flow, _). validate_operation_approval (uoc_sha env) x flow) else ret ()"
  let ?decide = "bind_io (missing_admission x) (\<lambda>missing.
          if uo_policyDecisionID (status x) = '''' \<or> missing then decide_operation env x else ret (Inr x))"
  have valid: "triple (\<lambda>w. ?I w \<and> op_workflow w0 x (fst r) \<and> op_project w0 (fst r) (snd r))
      (case r of (flow, _) \<Rightarrow> validate_operation_approval (uoc_sha env) x flow) (\<lambda>_ w. ?I w \<and> approval_backed w0 x) (\<lambda>_. ?I)" for r
    by (cases r; simp only: prod.case fst_conv snd_conv) (rule triple_pure, erule conjE, rule op_approval_triple)
  have approve: "triple ?I ?approve (\<lambda>_ w. ?I w \<and> approval_backed w0 x) (\<lambda>_. ?I)"
    by (rule triple_if, rule triple_bind [OF op_context_triple valid]) (simp add: triple_def ret_def approval_backed_def)
  have decide: "triple (\<lambda>w. ?I w \<and> approval_backed w0 x) ?decide ?Q (\<lambda>_. ?I)" if "is_supported_operation (op_name x)"
  proof (rule triple_pure, rule triple_bind [OF observed_fact.keeps_missing_admission [OF observed_op_base]], rule triple_if)
    assume backed: "approval_backed w0 x"
    fix missing
    show "triple ?I (decide_operation env x) ?Q (\<lambda>_. ?I)"
      by (rule triple_post [OF op_decide_triple]) (use that backed in \<open>auto simp: op_admitted_def\<close>)
    assume "\<not> (uo_policyDecisionID (status x) = '''' \<or> missing)"
    then show "triple ?I (ret (Inr x)) ?Q (\<lambda>_. ?I)" using that backed by (simp add: triple_def ret_def op_admitted_def)
  qed
  have stop: "triple ?I (seq_io (fail_op env x ''UnsupportedUtilityOperation'' False) (ret (Inl None))) ?Q (\<lambda>_. ?I)"
    by (rule op_stop [OF observed_fact.keeps_fail_op(1) [OF observed_op_base op_base_apart(1)]])
  have go: "triple ?I (seq_io ?approve ?decide) ?Q (\<lambda>_. ?I)" if "\<not> \<not> is_supported_operation (op_name x)"
    by (rule triple_seq [OF approve decide]) (use that in simp)
  show ?thesis unfolding ensure_valid_operation_def by (rule triple_if [OF stop go])
qed

text \<open>A granted term is the operation's own, on the workflow it names.\<close>

lemma op_writer_triple:
  assumes "same_op x0 x"
  shows "triple (op_base env ns n w0) (op_writer env x) (\<lambda>r w. op_base env ns n w0 w \<and> (\<forall>y. r = Inr y \<longrightarrow> same_op x0 (snd y)
       \<and> (\<exists>flow. seen Workflows (namespace_of x0) (ref_name (uo_workflowRef (spec x0))) flow w
           \<and> holds_term ''UtilityOperation'' x0 flow (fst y) w))) (\<lambda>_. op_base env ns n w0)"
proof -
  let ?I = "op_base env ns n w0"
  let ?Q = "\<lambda>r w. ?I w \<and> (\<forall>y. r = Inr y \<longrightarrow> same_op x0 (snd y)
       \<and> (\<exists>flow. seen Workflows (namespace_of x0) (ref_name (uo_workflowRef (spec x0))) flow w
           \<and> holds_term ''UtilityOperation'' x0 flow (fst y) w))"
  note facts = same_op_facts [OF assms]
  have I: "observed_fact ?I" "untouched WriterLeases ?I" "untouched (own_kind (op_owner env)) ?I" by auto
  have granted: "same_op x (granted_object (op_owner env) grant x)" for grant
    by (auto simp: same_op_def granted_object_def op_owner_def)
  have stop: "triple ?I (seq_io m (ret (Inl s))) ?Q (\<lambda>_. ?I)" if "keeps ?I m" for m s
    by (rule triple_seq [OF that]) (simp add: triple_def ret_def)
  have drop: "triple ?I (seq_io (delete_writer_workloads (op_owner env) r) (seq_io (interrupt_op env r reason True) (ret (Inl s)))) ?Q
      (\<lambda>_. ?I)" for r reason s
    by (intro triple_seq [OF op_base_drops] stop observed_fact.keeps_fail_op(2) I op_base_apart)
  have wait: "triple (\<lambda>w. ?I w \<and> P w) (seq_io (set_op_phase env r phase reason message) (ret (Inl s))) ?Q (\<lambda>_. ?I)"
    for P r phase reason message s
    by (rule triple_pre [OF stop [OF observed_fact.keeps_set_op_phase [OF I(1) op_base_apart(1)]]]) simp
  show ?thesis unfolding op_writer_def
  proof (rule triple_bind [OF utility_owner.ensure_triple [OF I]], goal_cases)
    case (1 r)
    obtain grant st y where r: "r = (grant, st, y)" by (cases r) auto
    show ?case
    proof (cases st)
      case WorkspaceWriterGranted
      then show ?thesis unfolding r
        using granted [of grant] assms
        by (auto simp: triple_def ret_def utility_owner.grants_term_def facts dest: same_op_trans)
    next
      case WorkspaceWriterBlocked
      then show ?thesis unfolding r
        by (simp only: prod.case writer_state.case) (rule triple_if, rule triple_pre [OF drop], simp, rule wait)
    next
      case WorkspaceWriterLost
      then show ?thesis unfolding r
        by (simp only: prod.case writer_state.case) (rule triple_pre [OF drop], simp)
    qed
  qed
qed

subsection \<open>The launch\<close>

lemma job_input_irrelevant [simp]:
  "build_utility_job x pvcName configName img (wl\<lparr>wl_input := i\<rparr>) grant = build_utility_job x pvcName configName img wl grant"
proof -
  have same: "wl_image (wl\<lparr>wl_input := i\<rparr>) = wl_image wl" "wl_profile (wl\<lparr>wl_input := i\<rparr>) = wl_profile wl"
    "wl_credentialClass (wl\<lparr>wl_input := i\<rparr>) = wl_credentialClass wl" "wl_credentialSecret (wl\<lparr>wl_input := i\<rparr>) = wl_credentialSecret wl"
    "wl_bootstrapRuntime (wl\<lparr>wl_input := i\<rparr>) = wl_bootstrapRuntime wl" by simp_all
  show ?thesis
    unfolding build_utility_job_def job_parts_of_def utility_container_def job_annotations_def add_credential_def same ..
qed

lemma issue_result:
  assumes "issue_credential env x wl w = (Inr wl', w')"
  shows "wl' = wl\<lparr>wl_credentialSecret := issued x wl\<rparr>"
proof (cases "ns_name (wl_credentialRef wl) = ''''")
  case True
  then show ?thesis using assms by (simp add: issue_credential_def issued_def ret_def)
next
  case False
  then obtain m v where "ensure_credential env x (wl_credentialRef wl) (wl_credentialClass wl) w = (Inr m, v)"
    and wl': "wl' = wl\<lparr>wl_credentialSecret := m\<rparr>"
    using assms by (auto simp: issue_credential_def ret_def elim!: bind_io_result)
  then have "m = credential_name x"
    by (auto simp: ensure_credential_def Let_def ret_def raise_def seq_io_def elim!: bind_io_result split: option.splits sum.splits if_splits)
  then show ?thesis using False wl' by (simp add: issued_def)
qed

lemma authorisation_result:
  assumes "record_authorisation env x grant evidence wl w = (Inr wl', w')"
  shows "wl' = wl \<or> (\<exists>l. wl' = wl\<lparr>wl_input := (wl_input wl)\<lparr>ui_lineage := Some l\<rparr>\<rparr>)"
  using assms by (auto simp: record_authorisation_def with_lineage_def ret_def elim!: bind_io_result split: if_splits)

text \<open>A stage of a launch that keeps its ground, and what its answer says.\<close>

lemma op_launch_answer:
  assumes "keeps (op_launches env ns n w0 x0 flow grant) m"
    and "\<And>w r w'. op_launches env ns n w0 x0 flow grant w \<Longrightarrow> m w = (Inr r, w') \<Longrightarrow> A r"
  shows "triple (op_launches env ns n w0 x0 flow grant) m (\<lambda>r w. op_launches env ns n w0 x0 flow grant w \<and> A r)
     (\<lambda>_. op_launches env ns n w0 x0 flow grant)"
  by (rule tripleI) (use triple_resultD [OF assms(1)] triple_errorD [OF assms(1)] assms(2) in blast)+

lemma op_launches_facts:
  assumes "op_launches env ns n w0 x flow grant w"
  shows "op_sources w0 w" "op_workflow w x flow" "op_workflow w0 x flow"
  using assms by (auto simp: op_launches_def op_ground_def op_workflow_def seen_def Workflows_def op_sources_def)

lemma launched_input_new:
  assumes "same_op x0 x" and "op_made env w0 x0 flow grant wl" and "op_delivered w0 x0 inputs"
    and "inp = (wl_input wl)\<lparr>ui_artifacts := inputs, ui_lineage := lineage\<rparr>"
  shows "keeps (op_launches env ns n w0 x0 flow grant) (create_missing ConfigMaps (op_input_config env x inp))"
proof -
  note facts = same_op_facts [OF assms(1)]
  let ?I = "\<lambda>w. op_ground w0 x0 flow grant w
    \<and> only_new Jobs (keys_of Jobs w0) (\<lambda>job. collects env ns n job \<or> launched_job env w0 x0 flow grant job) w"
  have "untouched ConfigMaps (only_new Jobs S P)" "uncounted (only_new Jobs S P)" for S and P :: "job \<Rightarrow> bool"
    by (simp_all add: untouched_def uncounted_def only_new_def kind_defs)
  then have I: "observed_fact ?I" "untouched ConfigMaps ?I" "uncounted ?I"
    by (intro observed_conj untouched_conj uncounted_conj observed_op_ground job_kind.observed_only_new op_ground_apart, auto)+
  have "launched_input env w0 x0 flow grant cm" if "born (op_input_config env x inp) cm" for cm
    using that assms unfolding launched_input_def facts by blast
  from config_map_kind.create_only_new [OF I this]
  show ?thesis by (simp add: op_launches_def [abs_def] conj_ac)
qed

lemma launched_job_new:
  assumes "same_op x0 x" and "op_made env w0 x0 flow grant wl"
  shows "keeps (op_launches env ns n w0 x0 flow grant) (create_missing Jobs
      (build_utility_job x (wf_pvcName (status flow)) (op_config_name x) (utility_image env) (wl\<lparr>wl_credentialSecret := issued x0 wl\<rparr>) grant))"
proof -
  note facts = same_op_facts [OF assms(1)]
  let ?I = "\<lambda>w. op_ground w0 x0 flow grant w \<and> only_new ConfigMaps (keys_of ConfigMaps w0) (launched_input env w0 x0 flow grant) w"
  have "untouched Jobs (only_new ConfigMaps S P)" "uncounted (only_new ConfigMaps S P)" for S and P :: "config_map \<Rightarrow> bool"
    by (simp_all add: untouched_def uncounted_def only_new_def kind_defs)
  then have I: "observed_fact ?I" "untouched Jobs ?I" "uncounted ?I"
    by (intro observed_conj untouched_conj uncounted_conj observed_op_ground config_map_kind.observed_only_new op_ground_apart, auto)+
  have "launched_job env w0 x0 flow grant job" if "born (build_utility_job x (wf_pvcName (status flow)) (op_config_name x) (utility_image env)
      (wl\<lparr>wl_credentialSecret := issued x0 wl\<rparr>) grant) job" for job
    using that assms(2) unfolding launched_job_def facts by blast
  then show ?thesis unfolding op_launches_def [abs_def] by (intro job_kind.create_only_new [OF I]) blast
qed

lemma op_workload_triple:
  assumes same: "same_op x0 x"
  shows "keeps (op_launches env ns n w0 x0 flow grant) (ensure_op_workload env x grant)"
proof -
  let ?L = "op_launches env ns n w0 x0 flow grant"
  note facts = same_op_facts [OF same]
  have ctx: "triple ?L (resolve_context x) (\<lambda>r w. ?L w \<and> fst r = flow \<and> op_project w0 flow (snd r)) (\<lambda>_. ?L)"
  proof (rule op_launch_answer [OF observed_fact.keeps_op_context [OF observed_op_launches]])
    fix w r w' assume L: "?L w" and run: "resolve_context x w = (Inr r, w')"
    obtain f project where r: "r = (f, project)" by fastforce
    from context_result [OF run [unfolded r]] op_launches_facts [OF L] op_sources_reads [of w0 w]
    show "fst r = flow \<and> op_project w0 flow (snd r)" by (auto simp: r facts op_workflow_def)
  qed
  have build: "triple ?L (lift_result (build_utility_workload (uoc_sha env) x flow project (utility_image env) grant))
      (\<lambda>wl w. ?L w \<and> op_made env w0 x0 flow grant wl) (\<lambda>_. ?L)" if "op_project w0 flow project" for project
    using that same by (cases "build_utility_workload (uoc_sha env) x flow project (utility_image env) grant")
      (auto simp: lift_result_def triple_def raise_def ret_def op_made_def)
  have inputs: "triple ?L (resolve_utility_inputs x) (\<lambda>inputs w. ?L w \<and> op_delivered w0 x0 inputs) (\<lambda>_. ?L)"
  proof (rule op_launch_answer [OF observed_fact.keeps_resolve_utility_inputs [OF observed_op_launches]])
    fix w r w' assume L: "?L w" and run: "resolve_utility_inputs x w = (Inr r, w')"
    from utility_inputs_delivered [OF run] op_sources_reads [OF op_launches_facts(1) [OF L]]
    show "op_delivered w0 x0 r" by (simp add: facts)
  qed
  have issue: "triple ?L (issue_credential env x (with_inputs inputs wl))
      (\<lambda>wl' w. ?L w \<and> wl' = (with_inputs inputs wl)\<lparr>wl_credentialSecret := issued x0 wl\<rparr>) (\<lambda>_. ?L)" for inputs wl
  proof (rule op_launch_answer [OF observed_fact.keeps_issue_credential [OF observed_op_launches op_launches_apart(2,3)]])
    fix w r w' assume "issue_credential env x (with_inputs inputs wl) w = (Inr r, w')"
    from issue_result [OF this] show "r = (with_inputs inputs wl)\<lparr>wl_credentialSecret := issued x0 wl\<rparr>"
      by (simp add: issued_def with_inputs_def facts)
  qed
  have authorise: "triple ?L (record_authorisation env x grant evidence wl)
      (\<lambda>wl' w. ?L w \<and> (wl' = wl \<or> (\<exists>l. wl' = wl\<lparr>wl_input := (wl_input wl)\<lparr>ui_lineage := Some l\<rparr>\<rparr>))) (\<lambda>_. ?L)" for evidence wl
    by (rule op_launch_answer [OF observed_fact.keeps_op_authorisation [OF observed_op_launches]]) (rule authorisation_result)
  have create: "keeps ?L (create_op_workload env x flow wl' grant)"
    if made: "op_made env w0 x0 flow grant wl" "op_delivered w0 x0 inputs"
      and wl': "wl' = wl1 \<or> (\<exists>l. wl' = wl1\<lparr>wl_input := (wl_input wl1)\<lparr>ui_lineage := Some l\<rparr>\<rparr>)"
      and wl1: "wl1 = (with_inputs inputs wl)\<lparr>wl_credentialSecret := issued x0 wl\<rparr>" for wl wl1 wl' inputs
  proof -
    from wl' obtain lineage where w: "wl' = (wl\<lparr>wl_credentialSecret := issued x0 wl\<rparr>)
        \<lparr>wl_input := (wl_input wl)\<lparr>ui_artifacts := inputs, ui_lineage := lineage\<rparr>\<rparr>"
    proof
      assume "wl' = wl1"
      then show thesis by (intro that [of "ui_lineage (wl_input wl)"]) (simp add: wl1 with_inputs_def)
    next
      assume "\<exists>l. wl' = wl1\<lparr>wl_input := (wl_input wl1)\<lparr>ui_lineage := Some l\<rparr>\<rparr>"
      then show thesis using that by (auto simp: wl1 with_inputs_def)
    qed
    have "wl_input wl' = (wl_input wl)\<lparr>ui_artifacts := inputs, ui_lineage := lineage\<rparr>" by (simp add: w)
    from keeps_seq [OF launched_input_new [OF same made this] launched_job_new [OF same made(1)]]
    show ?thesis unfolding create_op_workload_def by (simp add: w)
  qed
  note evidence = observed_fact.keeps_op_evidence [OF observed_op_launches]
  have tail: "keeps ?L (bind_io (op_evidence env x) (\<lambda>evidence.
     bind_io (issue_credential env x (with_inputs inputs wl)) (\<lambda>wl.
     bind_io (record_authorisation env x grant evidence wl) (\<lambda>wl. create_op_workload env x flow wl grant))))"
    if "op_made env w0 x0 flow grant wl" "op_delivered w0 x0 inputs" for inputs wl
    by (rule triple_bind [OF evidence], rule triple_bind [OF issue], rule triple_pure, rule triple_bind [OF authorise], rule triple_pure)
      (rule create [OF that])
  show ?thesis unfolding ensure_op_workload_def
  proof (rule triple_bind [OF ctx], rule triple_pure, goal_cases)
    case (1 r)
    then obtain project where r: "r = (flow, project)" "op_project w0 flow project" by (cases r) auto
    show ?case unfolding r(1) prod.case
      by (rule triple_bind [OF build [OF r(2)]], rule triple_pure, rule triple_bind [OF inputs], rule triple_pure, rule tail)
  qed
qed

lemma launch_op_triple:
  assumes "same_op x0 x"
  shows "keeps (op_launches env ns n w0 x0 flow grant) (launch_op env x grant)"
  unfolding launch_op_def
  by (rule keeps_seq [OF op_workload_triple [OF assms] observed_fact.keeps_set_op_phase [OF observed_op_launches op_launches_apart(1)]])

lemma op_launches_start:
  assumes "op_base env ns n w0 w" "seen Workflows (namespace_of x) (ref_name (uo_workflowRef (spec x))) flow w"
    and "holds_term ''UtilityOperation'' x flow grant w"
  shows "op_launches env ns n w0 x flow grant w"
  using assms only_new_weaken [of ConfigMaps "keys_of ConfigMaps w0" "\<lambda>_. False" w]
    only_new_weaken [of Jobs "keys_of Jobs w0" "collects env ns n" w]
  by (auto simp: op_launches_def op_ground_def op_base_def no_new_inputs_def)

text \<open>A Job that was not there is a collector's or the one of the operation, for the term the cluster shows.\<close>

definition op_entitled :: "utility_env \<Rightarrow> cluster \<Rightarrow> utility_operation \<Rightarrow> bool" where
  "op_entitled env w x \<longleftrightarrow> uo_jobRef (status x) = '''' \<and> op_authorises w x \<and> is_supported_operation (op_name x)
     \<and> approval_backed w x \<and> op_admitted env w x"

definition op_outcome :: "utility_env \<Rightarrow> string \<Rightarrow> string \<Rightarrow> cluster \<Rightarrow> utility_operation \<Rightarrow> cluster \<Rightarrow> bool" where
  "op_outcome env ns n w0 x w \<longleftrightarrow> op_base env ns n w0 w
     \<or> (op_entitled env w0 x \<and> (\<exists>flow grant. op_launches env ns n w0 x flow grant w))"

lemma op_base_outcome:
  "triple P m (\<lambda>_. op_base env ns n w0) (\<lambda>_. op_base env ns n w0)
   \<Longrightarrow> triple P m (\<lambda>_. op_outcome env ns n w0 x) (\<lambda>_. op_outcome env ns n w0 x)"
  by (erule triple_post) (simp_all add: op_outcome_def)

lemma op_collection_base:
  assumes "obj_key x = (ns, n)"
  shows "keeps (op_base env ns n w0) (start_op_collection env x)"
  by (rule observed_fact.keeps_op_collection [OF observed_op_base op_base_apart(1,3) collects_new [OF assms]])

lemma op_observe_base:
  assumes "obj_key x = (ns, n)"
  shows "keeps (op_base env ns n w0) (observe_op env x)"
proof -
  have failed: "keeps (op_base env ns n w0) (bind_io (record_job_failure env x job) (\<lambda>x. seq_io (start_op_collection env x) (ret None)))" for job
  proof (rule triple_bind)
    show "triple (op_base env ns n w0) (record_job_failure env x job) (\<lambda>r w. op_base env ns n w0 w \<and> obj_key r = obj_key x) (\<lambda>_. op_base env ns n w0)"
      by (rule op_answer [OF observed_fact.keeps_job_failure [OF observed_op_base]])
        (auto simp: record_job_failure_def failed_job_op_def ret_def obj_key_def elim!: bind_io_result split: if_splits)
    show "triple (\<lambda>w. op_base env ns n w0 w \<and> obj_key r = obj_key x) (seq_io (start_op_collection env r) (ret None))
        (\<lambda>_. op_base env ns n w0) (\<lambda>_. op_base env ns n w0)" for r
      by (rule triple_pure, rule keeps_seq [OF op_collection_base triple_ret]) (simp add: assms)
  qed
  show ?thesis unfolding observe_op_def
    by (intro keeps_bind keeps_attempt observed_fact.keeps_reads(1) [OF observed_op_base] triple_case_sum triple_if failed triple_raise triple_ret
        keeps_seq observed_fact.keeps_fail_op(2) [OF observed_op_base op_base_apart(1)]
        observed_fact.keeps_set_op_phase [OF observed_op_base op_base_apart(1)] op_collection_base [OF assms])
qed

lemma op_execute_triple:
  assumes entitled: "op_authorises w0 x0" "is_supported_operation (op_name x0)" "approval_backed w0 x0" "op_admitted env w0 x0"
    and same: "same_op x0 x" and key: "obj_key x0 = (ns, n)"
  shows "triple (op_base env ns n w0) (execute_op env x) (\<lambda>_. op_outcome env ns n w0 x0) (\<lambda>_. op_outcome env ns n w0 x0)"
proof -
  let ?O = "op_outcome env ns n w0 x0"
  let ?W = "\<lambda>grant w. \<exists>flow. seen Workflows (namespace_of x0) (ref_name (uo_workflowRef (spec x0))) flow w
           \<and> holds_term ''UtilityOperation'' x0 flow grant w"
  have launch: "triple (\<lambda>w. op_base env ns n w0 w \<and> ?W grant w) (seq_io (launch_op env y grant) (ret None)) (\<lambda>_. ?O) (\<lambda>_. ?O)"
    if y: "same_op x0 y" "uo_jobRef (status y) = ''''" for y grant
  proof (rule triple_pre [OF triple_ex [where P = "\<lambda>flow. op_launches env ns n w0 x0 flow grant"]])
    have "op_entitled env w0 x0" using entitled y same_op_facts(5) [OF y(1)] by (simp add: op_entitled_def)
    then show "triple (op_launches env ns n w0 x0 flow grant) (seq_io (launch_op env y grant) (ret None)) (\<lambda>_. ?O) (\<lambda>_. ?O)" for flow
      by (intro triple_post [OF keeps_seq [OF launch_op_triple [OF y(1)] triple_ret]]) (auto simp: op_outcome_def)
    show "\<exists>flow. op_launches env ns n w0 x0 flow grant w" if "op_base env ns n w0 w \<and> ?W grant w" for w
      using that op_launches_start by blast
  qed
  have old: "triple (\<lambda>w. op_base env ns n w0 w \<and> ?W grant w)
      (if uo_collectorJobRef (status y) \<noteq> '''' then reconcile_op_collection env y else observe_op env y) (\<lambda>_. ?O) (\<lambda>_. ?O)"
    if "same_op x0 y" for y grant
  proof (rule triple_pre [OF op_base_outcome])
    have "obj_key y = (ns, n)" using same_op_facts(6) [OF that] key by simp
    then show "keeps (op_base env ns n w0) (if uo_collectorJobRef (status y) \<noteq> '''' then reconcile_op_collection env y else observe_op env y)"
      by (intro triple_if op_observe_base observed_fact.keeps_reconcile_op_collection [OF observed_op_base op_base_apart(1)])
  qed auto
  let ?Q = "\<lambda>r w. op_base env ns n w0 w \<and> (\<forall>y. r = Inr y \<longrightarrow> same_op x0 (snd y) \<and> ?W (fst y) w)"
  show ?thesis unfolding execute_op_def
  proof (rule triple_bind [where R = ?Q])
    show "triple (op_base env ns n w0) (op_writer env x) ?Q (\<lambda>_. ?O)"
      by (rule triple_post [OF op_writer_triple [OF same]]) (simp_all add: op_outcome_def)
    fix r
    show "triple (?Q r) (case r of Inl stop \<Rightarrow> ret stop | Inr (grant, x) \<Rightarrow>
         if uo_jobRef (status x) = '''' then seq_io (launch_op env x grant) (ret None)
         else if uo_collectorJobRef (status x) \<noteq> '''' then reconcile_op_collection env x
         else observe_op env x) (\<lambda>_. ?O) (\<lambda>_. ?O)"
    proof (cases r)
      case (Inr p)
      obtain grant y where p: "p = (grant, y)" by (cases p)
      show ?thesis
      proof (cases "same_op x0 y")
        case True
        show ?thesis unfolding Inr p sum.case prod.case
          by (rule triple_pre [OF triple_if [OF launch [OF True] old [OF True]]]) auto
      qed (simp add: Inr p triple_def)
    qed (simp add: triple_def ret_def op_outcome_def)
  qed
qed

lemma op_authorised_triple:
  assumes "obj_key x = (ns, n)"
  shows "triple (op_base env ns n w0) (authorised_op env x) (\<lambda>_. op_outcome env ns n w0 x) (\<lambda>_. op_outcome env ns n w0 x)"
proof -
  let ?O = "op_outcome env ns n w0 x"
  let ?V = "\<lambda>r w. op_base env ns n w0 w \<and> (\<forall>x'. r = Inr x' \<longrightarrow> same_op x x' \<and> is_supported_operation (op_name x)
        \<and> approval_backed w0 x \<and> op_admitted env w0 x)"
  have go: "triple (\<lambda>w. op_base env ns n w0 w \<and> op_authorises w0 x) (bind_io (ensure_valid_operation env x)
      (\<lambda>r. case r of Inl stop \<Rightarrow> ret stop | Inr x \<Rightarrow> execute_op env x)) (\<lambda>_. ?O) (\<lambda>_. ?O)"
  proof (rule triple_pure, rule triple_bind [where R = ?V])
    assume auth: "op_authorises w0 x"
    show "triple (op_base env ns n w0) (ensure_valid_operation env x) ?V (\<lambda>_. ?O)"
      by (rule triple_post [OF op_valid_triple]) (simp_all add: op_outcome_def)
    fix r
    show "triple (?V r) (case r of Inl stop \<Rightarrow> ret stop | Inr x \<Rightarrow> execute_op env x) (\<lambda>_. ?O) (\<lambda>_. ?O)"
    proof (cases r)
      case (Inr x')
      show ?thesis
      proof (cases "same_op x x' \<and> is_supported_operation (op_name x) \<and> approval_backed w0 x \<and> op_admitted env w0 x")
        case True
        then show ?thesis unfolding Inr sum.case
          by (intro triple_pre [OF op_execute_triple [OF auth]]) (use assms in auto)
      qed (auto simp: Inr triple_def)
    qed (simp add: triple_def ret_def op_outcome_def)
  qed
  show ?thesis unfolding authorised_op_def
  proof (rule triple_attempt_bind [OF op_authority_triple])
    fix b
    show "triple (\<lambda>w. op_base env ns n w0 w \<and> (b \<longrightarrow> op_authorises w0 x)) (case Inr b of
         Inl _ \<Rightarrow> seq_io (fail_op env x ''InvalidStepAttemptAuthority'' False) (ret None)
       | Inr authorized \<Rightarrow> if \<not> authorized then ret (Some 2)
           else bind_io (ensure_valid_operation env x) (\<lambda>r. case r of Inl stop \<Rightarrow> ret stop | Inr x \<Rightarrow> execute_op env x)) (\<lambda>_. ?O) (\<lambda>_. ?O)"
      using go by (cases b) (simp_all add: triple_def ret_def op_outcome_def)
  next
    fix e
    show "triple (op_base env ns n w0) (case Inl e of
         Inl _ \<Rightarrow> seq_io (fail_op env x ''InvalidStepAttemptAuthority'' False) (ret None)
       | Inr authorized \<Rightarrow> if \<not> authorized then ret (Some 2)
           else bind_io (ensure_valid_operation env x) (\<lambda>r. case r of Inl stop \<Rightarrow> ret stop | Inr x \<Rightarrow> execute_op env x)) (\<lambda>_. ?O) (\<lambda>_. ?O)"
      unfolding sum.case by (intro op_base_outcome keeps_seq observed_fact.keeps_fail_op(1) observed_op_base op_base_apart triple_ret)
  qed
qed

lemma op_save_base: "keeps (op_base env ns n w0) (record_op_writer y)"
  by (rule observed_fact.keeps_op_records(1) [OF observed_op_base op_base_apart(1)])

lemma op_advance_triple:
  assumes "obj_key x = (ns, n)"
  shows "triple (op_base env ns n w0) (advance_op env x)
     (\<lambda>_ w. op_base env ns n w0 w \<or> (\<not> is_terminal (uo_phase (status x)) \<and> op_outcome env ns n w0 x w))
     (\<lambda>_ w. op_base env ns n w0 w \<or> (\<not> is_terminal (uo_phase (status x)) \<and> op_outcome env ns n w0 x w))"
proof -
  have old: "keeps (op_base env ns n w0) (seq_io (set_op_phase env x PhasePending ''Initialized'' ''utility operation initialized'') (ret None))"
    "keeps (op_base env ns n w0) (reconcile_writer_release (op_owner env) x)"
    by (intro keeps_seq triple_ret observed_fact.keeps_set_op_phase utility_owner.keeps_reconcile_release observed_op_base op_base_apart;
        simp add: op_save_base)+
  show ?thesis unfolding advance_op_def
    by (intro triple_if triple_post [OF old(1)] triple_post [OF old(2)] triple_post [OF op_authorised_triple [OF assms]]) auto
qed

text \<open>The operation as it was stored, with its finalizer.\<close>

definition stored_op :: "cluster \<Rightarrow> string \<Rightarrow> string \<Rightarrow> utility_operation \<Rightarrow> bool" where
  "stored_op w ns n x \<longleftrightarrow> (\<exists>cur. find_by obj_key (ns, n) (utility_operations w) = Some cur \<and> deletion (meta cur) = None
     \<and> obj_key x = (ns, n) \<and> uid_of x = uid_of cur \<and> controller_owner (meta x) = controller_owner (meta cur)
     \<and> spec x = spec cur \<and> status x = status cur)"

lemma op_mark_triple:
  assumes "find_by obj_key (ns, n) (utility_operations w0) = Some x" and "deletion (meta x) = None"
  shows "triple (\<lambda>w. op_base env ns n w0 w \<and> seen UtilityOperations ns n x w)
     (if writer_finalizer \<in> set (finalizers (meta x)) then ret x else k_update UtilityOperations (add_finalizer writer_finalizer x))
     (\<lambda>y w. op_base env ns n w0 w \<and> stored_op w0 ns n y) (\<lambda>_. op_base env ns n w0)"
proof -
  have key: "namespace_of x = ns" "name_of x = n" using find_by_set [OF assms(1)] by simp_all
  note save = observed_fact.keeps_writes(1) [OF observed_op_base op_base_apart(1)]
  have upd: "triple (\<lambda>w. op_base env ns n w0 w \<and> seen UtilityOperations ns n x w) (k_update UtilityOperations (add_finalizer writer_finalizer x))
     (\<lambda>y w. op_base env ns n w0 w \<and> y = updated_object (add_finalizer writer_finalizer x) x) (\<lambda>_. op_base env ns n w0)"
  proof (rule tripleI, goal_cases)
    case (1 w y w')
    from 1(2) obtain cur where "find_by obj_key (obj_key (add_finalizer writer_finalizer x)) (items UtilityOperations w) = Some cur"
      "y = updated_object (add_finalizer writer_finalizer x) cur" by (rule utility_operation_kind.update_result)
    moreover have "obj_key (add_finalizer writer_finalizer x) = (ns, n)" by (simp add: add_finalizer_def key)
    ultimately have "y = updated_object (add_finalizer writer_finalizer x) x" using 1(1) by (simp add: seen_def)
    moreover have "op_base env ns n w0 w'" using 1 triple_resultD [OF save] by blast
    ultimately show ?case by simp
  qed (use triple_errorD [OF save] in blast)
  show ?thesis
    using assms key by (intro triple_if triple_post [OF upd]) (auto simp: triple_def ret_def stored_op_def add_finalizer_def)
qed

lemma op_not_deleted_triple:
  assumes "find_by obj_key (ns, n) (utility_operations w0) = Some x"
  shows "triple (\<lambda>w. op_base env ns n w0 w \<and> seen UtilityOperations ns n x w) (op_not_deleted env x)
     (\<lambda>r w. op_base env ns n w0 w \<and> (\<forall>x'. r = Inr x' \<longrightarrow> stored_op w0 ns n x')) (\<lambda>_. op_base env ns n w0)"
proof -
  let ?Q = "\<lambda>r w. op_base env ns n w0 w \<and> (\<forall>x'. r = Inr x' \<longrightarrow> stored_op w0 ns n x')"
  have final: "keeps (op_base env ns n w0) (finalize_writer (op_owner env) x)"
    by (intro utility_owner.keeps_finalize op_base_drops observed_op_base op_base_apart;
        simp add: observed_fact.keeps_writes(1) [OF observed_op_base])
  have deleted: "triple (\<lambda>w. op_base env ns n w0 w \<and> seen UtilityOperations ns n x w)
      (bind_io (finalize_writer (op_owner env) x) (\<lambda>r. ret (Inl r))) ?Q (\<lambda>_. op_base env ns n w0)"
    by (rule triple_pre [OF triple_bind [OF final]]) (auto simp: triple_def ret_def)
  have rest: "triple (\<lambda>w. op_base env ns n w0 w \<and> stored_op w0 ns n r) (bind_io (namespace_terminating (namespace_of r)) (\<lambda>terminating.
          ret (if terminating then Inl None else Inr r))) ?Q (\<lambda>_. op_base env ns n w0)" for r
    by (rule triple_pure, rule triple_bind [OF observed_fact.keeps_terminating [OF observed_op_base]]) (simp add: triple_def ret_def)
  show ?thesis unfolding op_not_deleted_def
    by (intro triple_if deleted triple_bind [OF op_mark_triple [OF assms] rest]) simp
qed

text \<open>Whatever a reconciliation does, what is new is a collector's or what a launch justifies.\<close>

definition jobs_justified :: "utility_env \<Rightarrow> cluster \<Rightarrow> string \<Rightarrow> string \<Rightarrow> cluster \<Rightarrow> bool" where
  "jobs_justified env w0 ns n w \<longleftrightarrow> op_base env ns n w0 w \<or> (\<exists>x. stored_op w0 ns n x \<and> \<not> is_terminal (uo_phase (status x))
     \<and> op_entitled env w0 x \<and> (\<exists>flow grant. op_launches env ns n w0 x flow grant w))"

lemma reconcile_jobs_justified:
  "triple (\<lambda>w. w = w0) (reconcile_utility_operation env ns n) (\<lambda>_. jobs_justified env w0 ns n) (\<lambda>_. jobs_justified env w0 ns n)"
proof -
  let ?J = "jobs_justified env w0 ns n"
  let ?B = "op_base env ns n w0"
  have base: "?B w \<Longrightarrow> ?J w" for w by (simp add: jobs_justified_def)
  have start: "?B (w0\<lparr>faults := fs\<rparr>)" for fs
    by (simp add: op_base_def op_sources_def no_new_inputs_def only_new_def keys_of_def kind_defs)
  have get: "triple (\<lambda>w. w = w0) (k_get UtilityOperations ns n) (\<lambda>x w. (?B w \<and> seen UtilityOperations ns n x w)
      \<and> find_by obj_key (ns, n) (utility_operations w0) = Some x) (\<lambda>_. ?B)"
  proof (rule tripleI, goal_cases)
    case (1 w x w')
    with get_frame [OF 1(2)] utility_operation_kind.get_result(1,2) [OF 1(2)] show ?case
      by (auto simp: start seen_def UtilityOperations_def)
  next
    case (2 w e w')
    with get_frame [OF 2(2)] show ?case by (auto simp: start)
  qed
  have go: "triple (\<lambda>w. ?B w \<and> stored_op w0 ns n x) (advance_op env x) (\<lambda>_. ?J) (\<lambda>_. ?J)" for x
  proof (rule triple_pure)
    assume stored: "stored_op w0 ns n x"
    then have "obj_key x = (ns, n)" by (auto simp: stored_op_def)
    from op_advance_triple [OF this] show "triple ?B (advance_op env x) (\<lambda>_. ?J) (\<lambda>_. ?J)"
      by (rule triple_post) (use stored in \<open>auto simp: op_outcome_def jobs_justified_def\<close>)
  qed
  have found: "triple (\<lambda>w. (?B w \<and> seen UtilityOperations ns n x w) \<and> find_by obj_key (ns, n) (utility_operations w0) = Some x)
     (bind_io (op_not_deleted env x) (\<lambda>r. case r of Inl stop \<Rightarrow> ret stop | Inr x \<Rightarrow> advance_op env x)) (\<lambda>_. ?J) (\<lambda>_. ?J)" for x
  proof (rule triple_pure, rule triple_bind)
    assume "find_by obj_key (ns, n) (utility_operations w0) = Some x"
    from op_not_deleted_triple [OF this]
    show "triple (\<lambda>w. ?B w \<and> seen UtilityOperations ns n x w) (op_not_deleted env x)
      (\<lambda>r w. ?B w \<and> (\<forall>x'. r = Inr x' \<longrightarrow> stored_op w0 ns n x')) (\<lambda>_. ?J)"
      by (rule triple_post) (simp_all add: base)
  next
    fix r
    show "triple (\<lambda>w. ?B w \<and> (\<forall>x'. r = Inr x' \<longrightarrow> stored_op w0 ns n x'))
      (case r of Inl stop \<Rightarrow> ret stop | Inr x \<Rightarrow> advance_op env x) (\<lambda>_. ?J) (\<lambda>_. ?J)"
    proof (cases r)
      case (Inr x')
      then show ?thesis using triple_pre [OF go [of x']] by simp
    qed (simp add: triple_def ret_def base)
  qed
  show ?thesis unfolding reconcile_utility_operation_def
    by (rule triple_attempt_bind [OF get]) (use found in \<open>simp_all add: triple_def ret_def raise_def base\<close>)
qed

lemma reconcile_jobs: "jobs_justified env w ns n (snd (reconcile_utility_operation env ns n w))"
proof -
  obtain r w' where run: "reconcile_utility_operation env ns n w = (r, w')" by fastforce
  then show ?thesis
    using triple_resultD [OF reconcile_jobs_justified refl] triple_errorD [OF reconcile_jobs_justified refl] by (cases r) auto
qed

subsection \<open>The end of a term\<close>

text \<open>
  What no stage of a live operation changes: facts that none of its writes touch, and that an attempt to
  acquire the writer lease keeps.
\<close>

locale op_neutral = observed_fact +
  assumes apart: "untouched UtilityOperations I" "untouched Secrets I" "untouched ConfigMaps I" "untouched Pods I" "untouched Jobs I"
      "untouched ServiceAccounts I" "untouched Roles I" "untouched RoleBindings I" "uncounted I"
    and acquire: "keeps I (acquire_workspace_writer (flow :: workflow) l kind (x :: utility_operation) ep now)"
begin

lemma keeps_execute_op: "keeps I (execute_op env x)"
proof -
  have writer: "keeps I (op_writer env x)" for x unfolding op_writer_def
    by (rule triple_bind [OF utility_owner.keeps_ensure [OF observed_fact_axioms]])
      (auto intro!: acquire keeps_intros keeps_op_status utility_owner.keeps_workloads observed_fact_axioms apart split: writer_state.split)
  have launch: "keeps I (launch_op env x grant)" for x grant
    unfolding launch_op_def ensure_op_workload_def create_op_workload_def lift_result_def
    by (intro keeps_intros keeps_op_context keeps_resolve_utility_inputs keeps_op_evidence keeps_issue_credential
        keeps_op_authorisation keeps_create_missing keeps_op_status apart)
  have collect: "keeps I (start_op_collection env x)" for x
    by (intro keeps_op_collection keeps_create_collector apart)
  have observe: "keeps I (observe_op env x)" for x unfolding observe_op_def
    by (intro keeps_intros keeps_op_status keeps_job_failure collect apart)
  show ?thesis unfolding execute_op_def
    by (intro keeps_intros writer launch observe keeps_reconcile_op_collection apart)
qed

lemma keeps_authorised_op: "keeps I (authorised_op env x)"
  unfolding authorised_op_def
  by (intro keeps_intros keeps_domain_authority keeps_op_status keeps_valid_operation keeps_execute_op apart)

end

interpretation op_shown: op_neutral "term_shown k h e" for k h e
  by (intro op_neutral.intro op_neutral_axioms.intro observed_shown acquire_keeps_shown)
    (simp_all add: untouched_def uncounted_def term_shown_def kind_defs)

lemma op_calm_key: "obj_key x' = obj_key x \<Longrightarrow> op_calm x' = op_calm x"
  by (auto simp: op_calm_def collector_job_name_def obj_key_def fun_eq_iff)

lemma op_advance_term:
  "triple (\<lambda>w. honest w \<and> term_shown k h e w) (advance_op env x) (\<lambda>_ w. term_shown k h e w \<or> op_calm x w)
     (\<lambda>_ w. term_shown k h e w \<or> op_calm x w)"
proof -
  let ?H = "\<lambda>w. honest w \<and> term_shown k h e w"
  have phase: "triple ?H (seq_io (set_op_phase env x PhasePending ''Initialized'' ''utility operation initialized'') (ret None))
      (\<lambda>_ w. term_shown k h e w \<or> op_calm x w) (\<lambda>_ w. term_shown k h e w \<or> op_calm x w)"
    by (rule triple_post [OF triple_pre [OF keeps_seq [OF op_shown.keeps_set_op_phase [OF op_shown.apart(1)] triple_ret]]]) auto
  have live: "triple ?H (authorised_op env x) (\<lambda>_ w. term_shown k h e w \<or> op_calm x w) (\<lambda>_ w. term_shown k h e w \<or> op_calm x w)"
    by (rule triple_post [OF triple_pre [OF op_shown.keeps_authorised_op]]) auto
  show ?thesis unfolding advance_op_def by (intro triple_if phase live utility_owner.release_calm [OF observed_shown])
qed

lemma op_not_deleted_term:
  "triple (\<lambda>w. honest w \<and> term_shown k h e w) (op_not_deleted env x)
     (\<lambda>r w. case r of Inl _ \<Rightarrow> term_shown k h e w \<or> op_calm x w
        | Inr x' \<Rightarrow> (honest w \<and> term_shown k h e w) \<and> op_calm x' = op_calm x)
     (\<lambda>_ w. term_shown k h e w \<or> op_calm x w)"
proof -
  let ?H = "\<lambda>w. honest w \<and> term_shown k h e w"
  let ?E = "\<lambda>_ w. term_shown k h e w \<or> op_calm x w"
  let ?Q = "\<lambda>r w. case r of Inl _ \<Rightarrow> term_shown k h e w \<or> op_calm x w | Inr x' \<Rightarrow> ?H w \<and> op_calm x' = op_calm x"
  note save = triple_and [OF utility_operation_kind.keeps_honest(2) op_shown.keeps_writes(1) [OF op_shown.apart(1)]]
  have final: "triple ?H (bind_io (finalize_writer (op_owner env) x) (\<lambda>r. ret (Inl r))) ?Q ?E"
    by (rule triple_bind [OF utility_owner.finalize_calm [OF observed_shown op_shown.apart(4,5)]]) (simp add: triple_def ret_def)
  have same: "obj_key y = obj_key x" if "k_update UtilityOperations (add_finalizer writer_finalizer x) w = (Inr y, w')" for w y w'
    using that by (rule utility_operation_kind.update_result) (auto dest!: find_by_set simp: add_finalizer_def obj_key_def)
  have mark: "triple ?H (k_update UtilityOperations (add_finalizer writer_finalizer x)) (\<lambda>r w. ?H w \<and> op_calm r = op_calm x) ?E"
    by (rule tripleI) (use triple_resultD [OF save] triple_errorD [OF save] op_calm_key [OF same] in blast)+
  have ends: "triple (\<lambda>w. ?H w \<and> op_calm r = op_calm x) (bind_io (namespace_terminating (namespace_of r)) (\<lambda>terminating.
          ret (if terminating then Inl None else Inr r))) ?Q ?E" for r
  proof (rule triple_pure, rule triple_bind)
    show "triple ?H (namespace_terminating (namespace_of r)) (\<lambda>_. ?H) ?E"
      by (rule triple_post [OF triple_and [OF honest_terminating op_shown.keeps_terminating]]) auto
  qed (simp add: triple_def ret_def)
  have marked: "triple ?H (if writer_finalizer \<in> set (finalizers (meta x)) then ret x
            else k_update UtilityOperations (add_finalizer writer_finalizer x)) (\<lambda>r w. ?H w \<and> op_calm r = op_calm x) ?E"
    by (rule triple_if [OF _ mark]) (simp add: triple_def ret_def)
  show ?thesis unfolding op_not_deleted_def by (intro triple_if final triple_bind [OF marked ends])
qed

lemma reconcile_op_term:
  assumes "find_by obj_key (ns, n) (utility_operations w0) = Some x"
  shows "triple (\<lambda>w. w = w0 \<and> honest w \<and> term_shown k h e w) (reconcile_utility_operation env ns n)
     (\<lambda>_ w. term_shown k h e w \<or> op_calm x w) (\<lambda>_ w. term_shown k h e w \<or> op_calm x w)"
proof -
  let ?H = "\<lambda>w. honest w \<and> term_shown k h e w"
  let ?C = "\<lambda>w. term_shown k h e w \<or> op_calm x w"
  note read = triple_and [OF utility_operation_kind.keeps_honest(1) op_shown.keeps_reads(1)]
  have get: "triple (\<lambda>w. w = w0 \<and> ?H w) (k_get UtilityOperations ns n) (\<lambda>r w. ?H w \<and> r = x) (\<lambda>_. ?C)"
  proof (rule tripleI, goal_cases)
    case (1 w r w')
    from triple_resultD [OF read conjunct2 [OF 1(1)] 1(2)]
    show ?case using utility_operation_kind.get_result(1,2) [OF 1(2)] 1(1) assms by (simp add: UtilityOperations_def)
  next
    case (2 w err w')
    from triple_errorD [OF read conjunct2 [OF 2(1)] 2(2)] show ?case by blast
  qed
  have go: "triple (\<lambda>w. ?H w \<and> r = x) (bind_io (op_not_deleted env r) (\<lambda>y. case y of Inl stop \<Rightarrow> ret stop
       | Inr x \<Rightarrow> advance_op env x)) (\<lambda>_. ?C) (\<lambda>_. ?C)" for r
  proof (rule triple_pure)
    assume r: "r = x"
    show "triple ?H (bind_io (op_not_deleted env r) (\<lambda>y. case y of Inl stop \<Rightarrow> ret stop
       | Inr x \<Rightarrow> advance_op env x)) (\<lambda>_. ?C) (\<lambda>_. ?C)" unfolding r
    proof (rule triple_bind [OF op_not_deleted_term])
      fix y
      show "triple (\<lambda>w. case y of Inl _ \<Rightarrow> ?C w | Inr x' \<Rightarrow> ?H w \<and> op_calm x' = op_calm x)
         (case y of Inl stop \<Rightarrow> ret stop | Inr x \<Rightarrow> advance_op env x) (\<lambda>_. ?C) (\<lambda>_. ?C)"
      proof (cases y)
        case (Inr x')
        have "triple (\<lambda>w. ?H w \<and> op_calm x' = op_calm x) (advance_op env x') (\<lambda>_. ?C) (\<lambda>_. ?C)"
          by (rule triple_pure, rule triple_post [OF op_advance_term]) auto
        then show ?thesis by (simp add: Inr)
      qed (simp add: triple_def ret_def)
    qed
  qed
  show ?thesis unfolding reconcile_utility_operation_def
    by (rule triple_attempt_bind [OF get]) (use go in \<open>simp_all add: triple_def ret_def raise_def\<close>)
qed

subsection \<open>What a utility is given and returns\<close>

lemma obliged_declared: "obliged i c = Some o' \<Longrightarrow> o' \<in> set (ui_outputs i) \<and> obligation_contract o' = c"
  by (auto simp: obliged_def find_Some_iff in_set_conv_nth rev_nth)
    (metis diff_Suc_less diff_zero length_greater_0_conv less_nat_zero_code list.size(3) not_less_zero)

lemma obliged_outputs:
  "outputs_obliged i as = None \<Longrightarrow> a \<in> set as \<Longrightarrow> ui_outputs i \<noteq> []
   \<Longrightarrow> \<exists>o'. obliged i (ao_contract a) = Some o' \<and> (ob_mediaType o' = '''' \<or> ao_mediaType a = ob_mediaType o')"
  by (induction as) (auto split: option.splits if_splits)

lemma present_files:
  "validate_artifact_files cwd stat root as = None \<Longrightarrow> a \<in> set as
   \<Longrightarrow> \<exists>p. artifact_path cwd root (ao_path a) = Inr p \<and> stat p = Some True"
  by (induction as) (auto split: option.splits if_splits sum.splits)

text \<open>What a result owes: every declared output that is required, and nothing that is not declared.\<close>

definition discharges :: "utility_input \<Rightarrow> utility_result \<Rightarrow> bool" where
  "discharges i r \<longleftrightarrow> (\<forall>o' \<in> set (ui_outputs i). ob_required o' \<longrightarrow> obligation_contract o' \<in> ao_contract ` set (ur_artifacts r))
     \<and> (ui_outputs i \<noteq> [] \<longrightarrow> (\<forall>a \<in> set (ur_artifacts r). \<exists>o' \<in> set (ui_outputs i). obligation_contract o' = ao_contract a
         \<and> (ob_mediaType o' = '''' \<or> ao_mediaType a = ob_mediaType o')))"

lemma obliged_distinct:
  assumes "distinct (map obligation_contract (ui_outputs i))" and "o' \<in> set (ui_outputs i)"
  shows "obliged i (obligation_contract o') = Some o'"
proof -
  have "find (\<lambda>p. obligation_contract p = obligation_contract o') os = Some o'"
    if "o' \<in> set os" "distinct (map obligation_contract os)" for os
    using that by (induction os) auto
  from this [of "rev (ui_outputs i)"] assms show ?thesis by (simp add: obliged_def rev_map [symmetric])
qed

lemma validated_obligations:
  "validate_obligations used os = None \<Longrightarrow> distinct (map obligation_contract os) \<and> set (map obligation_contract os) \<inter> set used = {}"
proof (induction os arbitrary: used)
  case (Cons p os)
  then have "obligation_contract p \<notin> set used" "validate_obligations (obligation_contract p # used) os = None"
    by (auto split: if_splits)
  with Cons.IH [OF this(2)] show ?case by auto
qed simp

lemma specialised_operation:
  assumes "specialise_workload sha n project img wl = Inr wl'"
  shows "ui_operation (wl_input wl') = ui_operation (wl_input wl)"
  using assms
  by (auto simp: specialise_workload_def build_parameters_def put_parameter_def with_template_def Let_def split: if_splits)

lemma valid_input_frame [simp]:
  "validate_utility_input (i\<lparr>ui_artifacts := a, ui_lineage := l\<rparr>) = validate_utility_input i"
proof -
  let ?j = "i\<lparr>ui_artifacts := a, ui_lineage := l\<rparr>"
  have same: "ui_schemaVersion ?j = ui_schemaVersion i" "ui_workflowID ?j = ui_workflowID i" "ui_stepName ?j = ui_stepName i"
    "ui_attempt ?j = ui_attempt i" "ui_operation ?j = ui_operation i" "ui_idempotencyKey ?j = ui_idempotencyKey i"
    "ui_authority ?j = ui_authority i" "ui_policyDecisionID ?j = ui_policyDecisionID i" "ui_workspaceWrite ?j = ui_workspaceWrite i"
    "ui_credentialClass ?j = ui_credentialClass i" "ui_parameters ?j = ui_parameters i" "ui_command ?j = ui_command i"
    "ui_workspacePath ?j = ui_workspacePath i" "ui_stagingPath ?j = ui_stagingPath i" "ui_controlPath ?j = ui_controlPath i"
    "ui_resultPath ?j = ui_resultPath i" "ui_auditEventsPath ?j = ui_auditEventsPath i" "ui_outputs ?j = ui_outputs i" by simp_all
  show ?thesis unfolding validate_utility_input_def same ..
qed

lemma workload_is_valid:
  assumes "build_utility_workload sha x flow project img grant = Inr wl"
  shows "validate_utility_input (wl_input wl) = None \<and> ui_operation (wl_input wl) = op_name x"
proof -
  from assms obtain wl0 where "specialise_workload sha (op_name x) project img (base_workload x flow project img grant) = Inr wl0"
    and "wl = put_parameter ''executionProfile'' (wl_profile wl0) wl0" and "validate_utility_input (wl_input wl) = None"
    by (auto simp: build_utility_workload_def Let_def split: sum.splits if_splits option.splits)
  then show ?thesis
    using specialised_operation by (auto simp: put_parameter_def base_workload_def base_utility_input_def)
qed

subsection \<open>Diagnostics\<close>

lemma status_diagnostic_valid:
  "status_diagnostic env x s = Some d \<Longrightarrow> validate_retry_feedback
     \<lparr>rf_previousAttemptRef = uo_attemptRef (spec x), rf_code = fst d, rf_message = snd d\<rparr> = None"
  by (auto simp: status_diagnostic_def Let_def split: option.splits if_splits)

lemma job_diagnostic_valid:
  "job_diagnostic env x job all = (''UtilityJobFailed'', '''') \<or> validate_retry_feedback
     \<lparr>rf_previousAttemptRef = uo_attemptRef (spec x), rf_code = fst (job_diagnostic env x job all),
      rf_message = snd (job_diagnostic env x job all)\<rparr> = None"
proof (cases "List.map_filter (status_diagnostic env x) (concat (map (\<lambda>p. pod_containerStatuses (status p))
         (filter (\<lambda>p. go_map_get (labels (meta p)) job_pod_label = uid_of job \<and> is_controlled_by p job) all)))")
  case (Cons d ds)
  then have "d \<in> set (List.map_filter (status_diagnostic env x) (concat (map (\<lambda>p. pod_containerStatuses (status p))
         (filter (\<lambda>p. go_map_get (labels (meta p)) job_pod_label = uid_of job \<and> is_controlled_by p job) all))))" by simp
  then obtain s where "status_diagnostic env x s = Some d" by (auto simp: List.map_filter_def)
  from status_diagnostic_valid [OF this] show ?thesis by (simp add: job_diagnostic_def Cons)
qed (simp add: job_diagnostic_def)

subsection \<open>An example\<close>

text \<open>A merge request whose gate has succeeded, under a policy that wants the approval; one that has ended.\<close>

definition merge_policy :: "utility_query \<Rightarrow> go_error + policy_decision" where
  "merge_policy q = Inr \<lparr>pd_id = ''p1'', pd_allowed = (uq_operation q = ''git.mergeRequest'' \<and> uq_approval q \<noteq> None),
     pd_reasons = []\<rparr>"

definition merge_env :: utility_env where
  "merge_env = \<lparr>uoc_sha = zero_sha, uoc_encodeAdmission = (\<lambda>(s, c, p, r). p), uoc_encodeExecution = (\<lambda>(i, a, au, ie, c). a),
     uoc_encodeInput = ui_operation, uoc_decodeError = (\<lambda>m. Some \<lparr>re_code = ''Crash'', re_message = m\<rparr>), uoc_getenv = (\<lambda>_. ''''),
     uoc_collectorImage = '''', uoc_utilityImage = '''', uoc_policy = Some merge_policy\<rparr>"

definition no_credential :: namespaced_reference where
  "no_credential = \<lparr>ns_namespace = '''', ns_name = ''''\<rparr>"

definition merge_project :: project where
  "merge_project = \<lparr>meta = bare_meta '''' ''p'' ''up'', spec = \<lparr>pj_tenant = ''t'',
     pj_applicationRepository = \<lparr>repo_url = ''https://git/app'', repo_defaultRevision = ''main'', repo_credentialRef = no_credential\<rparr>,
     pj_validation = \<lparr>pv_provider = '''', pv_infrastructureRepo = '''', pv_overlayPath = '''', pv_imageName = '''', pv_imageSelector = ''''\<rparr>,
     pj_policyProfileRef = '''', pj_testJob = \<lparr>jt_image = ''tests'', jt_command = [''go''], jt_args = [''test''],
       jt_credentialRef = \<lparr>ns_namespace = '''', ns_name = ''secret''\<rparr>\<rparr>,
     pj_buildJob = \<lparr>jt_image = '''', jt_command = [], jt_args = [], jt_credentialRef = no_credential\<rparr>\<rparr>,
     status = \<lparr>pj_validationProviderRef = '''', pj_observedGeneration = 1, pj_phase = PhaseRunning, pj_conditions = []\<rparr>\<rparr>"

definition merge_approval :: resolved_approval where
  "merge_approval = \<lparr>resolved_requirement = \<lparr>requirement_step = ''gate'', requirement_subject = ''implementation-plan''\<rparr>,
     resolved_requestRef = \<lparr>ref_name = ''gate-1'', ref_uid = ''uq''\<rparr>, resolved_decisionRef = \<lparr>ref_name = ''approval-uq'', ref_uid = ''ud''\<rparr>,
     resolved_subject = demo_input, resolved_admissionEventID = approval_admission_event_id zero_sha (demo_request PhaseSucceeded)\<rparr>"

definition merge_op :: "string \<Rightarrow> resource_phase \<Rightarrow> int \<Rightarrow> utility_operation" where
  "merge_op lease phase epoch = \<lparr>meta = (bare_meta ''team'' ''merge-1'' ''uo'')\<lparr>finalizers := [writer_finalizer],
       controller_owner := Some (owner_ref_of ''StepAttempt'' merge_attempt)\<rparr>,
     spec = \<lparr>uo_approval = Some merge_approval, uo_attemptRef = ''merge-1'', uo_workflowRef = \<lparr>ref_name = ''wf'', ref_uid = ''uw''\<rparr>,
       uo_stepName = ''merge'', uo_attempt = 1, uo_operation = \<lparr>utility_name = ''git.mergeRequest'', utility_parameters = []\<rparr>,
       uo_inputs = [demo_input], uo_outputContracts = [], uo_timeout = None\<rparr>,
     status = \<lparr>uo_observedGeneration = 1, uo_phase = phase, uo_jobRef = '''', uo_collectorJobRef = '''', uo_policyDecisionID = '''',
       uo_workspaceWriterLeaseRef = lease, uo_workspaceWriterEpoch = epoch, uo_workspaceWriterReleased = False,
       uo_failureReason = '''', uo_failureMessage = '''', uo_retryable = False, uo_startedAt = None, uo_completedAt = None,
       uo_conditions = []\<rparr>\<rparr>"

definition merge_lease :: "string \<Rightarrow> int \<Rightarrow> writer_lease" where
  "merge_lease holder epoch = \<lparr>meta = (bare_meta ''team'' ''wl'' ''ul'')\<lparr>controller_owner := Some (owner_ref_of ''SovereignWorkflow'' approval_flow)\<rparr>,
     spec = \<lparr>holderIdentity = Some holder, acquireTime = None, renewTime = None, leaseTransitions = Some epoch\<rparr>, status = ()\<rparr>"

definition merge_cluster :: "utility_operation \<Rightarrow> writer_lease \<Rightarrow> cluster" where
  "merge_cluster x lease = (approval_cluster PhaseSucceeded)\<lparr>audit_log := None,
     workflows := [approval_flow\<lparr>status := (status approval_flow)\<lparr>wf_workspaceWriterLeaseRef := ''wl''\<rparr>\<rparr>],
     projects := [merge_project], utility_operations := [x], writer_leases := [lease]\<rparr>"

abbreviation merge_waits :: cluster where
  "merge_waits \<equiv> merge_cluster (merge_op '''' PhasePending 0) (merge_lease '''' 2)"

definition merge_identity :: string where
  "merge_identity = ''UtilityOperation/team/merge-1/uo''"

abbreviation merge_ended :: cluster where
  "merge_ended \<equiv> merge_cluster (merge_op ''wl'' PhaseFailed 3) (merge_lease merge_identity 3)"

lemma merge_releases:
  "(case find_by obj_key (''team'', ''wl'') (writer_leases (snd (reconcile_utility_operation merge_env ''team'' ''merge-1'' merge_ended)))
     of None \<Rightarrow> False | Some l \<Rightarrow> current_holder l = '''')"
  by code_simp

text \<open>A branch, which needs neither approval nor policy; and the merge is admitted on its approval.\<close>

definition branch_op :: utility_operation where
  "branch_op = (merge_op '''' PhasePending 0)\<lparr>spec := (spec (merge_op '''' PhasePending 0))\<lparr>uo_approval := None,
     uo_operation := \<lparr>utility_name = ''git.createBranch'', utility_parameters = []\<rparr>\<rparr>\<rparr>"

definition branch_env :: utility_env where
  "branch_env = merge_env\<lparr>uoc_policy := None\<rparr>"

abbreviation branch_waits :: cluster where
  "branch_waits \<equiv> merge_cluster branch_op (merge_lease '''' 2)"

lemma branch_launches:
  "(let w = snd (reconcile_utility_operation branch_env ''team'' ''merge-1'' branch_waits)
    in map obj_key (jobs w) = [(''team'', ''merge-1'')] \<and> map obj_key (config_maps w) = [(''team'', ''merge-1-input'')])"
  by code_simp

lemma merge_is_admitted:
  "(case ensure_valid_operation merge_env (merge_op '''' PhasePending 0) merge_waits of (Inr (Inr x), w) \<Rightarrow> True | _ \<Rightarrow> False)"
  by code_simp

subsection \<open>Properties\<close>



text \<open>
  C8: The document a utility starts from satisfies its contract and names exactly the accepted artifacts
  the operation declares as inputs: whatever input a reconciliation stores for an operation that had none
  is the encoding of a valid \<open>Input\<close> with these artifacts, in the declared order.
\<close>

theorem utility_inputs_are_delivered:
  assumes "cm \<in> set (config_maps (snd (reconcile_utility_operation env ns n w)))" and "obj_key cm \<notin> obj_key ` set (config_maps w)"
  shows "\<exists>x inp. stored_op w ns n x \<and> op_delivered w x (ui_artifacts inp) \<and> validate_utility_input inp = None
     \<and> ui_operation inp = op_name x \<and> cm_data (spec cm) = [(''input.json'', uoc_encodeInput env inp)]"
proof -
  let ?w = "snd (reconcile_utility_operation env ns n w)"
  have new: "only_new ConfigMaps (keys_of ConfigMaps w) P ?w \<Longrightarrow> P cm" for P
    using assms by (auto simp: only_new_def keys_of_def ConfigMaps_def)
  have "\<not> op_base env ns n w ?w" using new [of "\<lambda>_. False"] by (auto simp: op_base_def no_new_inputs_def)
  then obtain x flow grant where x: "stored_op w ns n x" and l: "op_launches env ns n w x flow grant ?w"
    using reconcile_jobs [of env w ns n] by (auto simp: jobs_justified_def)
  from l new have "launched_input env w x flow grant cm" by (auto simp: op_launches_def)
  then obtain wl inputs lineage x' project where d: "op_delivered w x inputs" and same: "same_op x x'"
    and build: "build_utility_workload (uoc_sha env) x' flow project (utility_image env) grant = Inr wl"
    and cm: "spec cm = spec (op_input_config env x ((wl_input wl)\<lparr>ui_artifacts := inputs, ui_lineage := lineage\<rparr>))"
    by (auto simp: launched_input_def op_made_def born_def)
  have "validate_utility_input (wl_input wl) = None \<and> ui_operation (wl_input wl) = op_name x'" using build by (rule workload_is_valid)
  then have "validate_utility_input ((wl_input wl)\<lparr>ui_artifacts := inputs, ui_lineage := lineage\<rparr>) = None"
    "ui_operation ((wl_input wl)\<lparr>ui_artifacts := inputs, ui_lineage := lineage\<rparr>) = op_name x"
    using same_op_facts(3) [OF same] by simp_all
  then show ?thesis using x d
    by (intro exI [of _ x] exI [of _ "(wl_input wl)\<lparr>ui_artifacts := inputs, ui_lineage := lineage\<rparr>"]) (simp add: cm op_input_config_def)
qed

theorem utility_inputs_are_delivered_witness:
  "\<exists>x inp. stored_op branch_waits ''team'' ''merge-1'' x \<and> op_delivered branch_waits x (ui_artifacts inp)
     \<and> validate_utility_input inp = None"
proof -
  from branch_launches obtain cm where cm: "cm \<in> set (config_maps (snd (reconcile_utility_operation branch_env ''team'' ''merge-1'' branch_waits)))"
    by (auto simp: Let_def map_eq_Cons_conv)
  have "obj_key cm \<notin> obj_key ` set (config_maps branch_waits)" by (simp add: merge_cluster_def approval_cluster_def empty_cluster_def)
  from utility_inputs_are_delivered [OF cm this] show ?thesis by blast
qed



text \<open>
  C40: What the runner returns for a valid input is complete and confined: every artifact is a regular
  file at or below the staging root, and a result that says Succeeded has an artifact for each required
  output and none that is not declared or of another media type.
\<close>

theorem utility_results_are_checked:
  assumes "run_operation cwd stat ops i = Inr r" and "validate_utility_input i = None"
  shows "(\<forall>a \<in> set (ur_artifacts r). \<exists>rest p. abs_elements cwd (ao_path a) = abs_elements cwd (ui_stagingPath i) @ rest
       \<and> p = CHR ''/'' # join_with ''/'' (abs_elements cwd (ui_stagingPath i) @ rest) \<and> stat p = Some True)
     \<and> (ur_outcome r = ''Succeeded'' \<longrightarrow> discharges i r)"
proof -
  from assms(1) obtain r0 where r: "r = completed_result r0" and none: "first_error [validate_utility_result cwd (ui_stagingPath i) r,
      validate_utility_result_against r i, validate_artifact_files cwd stat (ui_stagingPath i) (ur_artifacts r)] = None"
    by (auto simp: run_operation_def Let_def split: option.splits sum.splits)
  then have against: "validate_utility_result_against r i = None"
    and files: "validate_artifact_files cwd stat (ui_stagingPath i) (ur_artifacts r) = None"
    by (auto split: option.splits)
  have outputs: "distinct (map obligation_contract (ui_outputs i))"
    using assms(2) validated_obligations [of "[]" "ui_outputs i"] by (auto simp: validate_utility_input_def split: option.splits if_splits)
  have "\<exists>rest p. abs_elements cwd (ao_path a) = abs_elements cwd (ui_stagingPath i) @ rest
       \<and> p = CHR ''/'' # join_with ''/'' (abs_elements cwd (ui_stagingPath i) @ rest) \<and> stat p = Some True" if "a \<in> set (ur_artifacts r)" for a
    using present_files [OF files that] artifact_path_inside by blast
  moreover have "discharges i r" if "ur_outcome r = ''Succeeded''"
  proof -
    from against that have ok: "outputs_obliged i (ur_artifacts r) = None" and req: "\<forall>o' \<in> set (ui_outputs i).
        \<not> ((case obliged i (obligation_contract o') of None \<Rightarrow> False | Some d \<Rightarrow> ob_required d)
           \<and> \<not> List.member (map ao_contract (ur_artifacts r)) (obligation_contract o'))"
      by (auto simp: validate_utility_result_against_def list_ex_iff split: option.splits if_splits)
    have "obligation_contract o' \<in> ao_contract ` set (ur_artifacts r)" if "o' \<in> set (ui_outputs i)" "ob_required o'" for o'
      using req that obliged_distinct [OF outputs that(1)] by fastforce
    moreover have "\<exists>o' \<in> set (ui_outputs i). obligation_contract o' = ao_contract a \<and> (ob_mediaType o' = '''' \<or> ao_mediaType a = ob_mediaType o')"
      if "ui_outputs i \<noteq> []" "a \<in> set (ur_artifacts r)" for a
      using obliged_outputs [OF ok that(2,1)] obliged_declared by blast
    ultimately show ?thesis by (auto simp: discharges_def)
  qed
  ultimately show ?thesis by blast
qed

definition build_input :: utility_input where
  "build_input = \<lparr>ui_schemaVersion = utility_contract_version, ui_workflowID = ''w'', ui_stepName = ''s'', ui_attempt = 1,
     ui_authority = \<lparr>auth_apiVersion = ''v'', auth_kind = ''UtilityOperation'', auth_namespace = ''team'', auth_name = ''x'', auth_uid = ''u''\<rparr>,
     ui_policyDecisionID = ''p'', ui_operation = ''test.run'', ui_idempotencyKey = ''k'', ui_credentialClass = '''', ui_parameters = [],
     ui_command = [], ui_artifacts = [], ui_outputs = [\<lparr>ob_name = ''report'', ob_version = ''v1'', ob_required = True, ob_mediaType = ''''\<rparr>],
     ui_workspacePath = ''/w'', ui_stagingPath = ''/s'', ui_controlPath = '''', ui_resultPath = '''', ui_auditEventsPath = '''',
     ui_workspaceWrite = \<lparr>wa_leaseName = ''l'', wa_holderIdentity = ''h'', wa_writerEpoch = 1\<rparr>, ui_lineage = None\<rparr>"

definition build_result :: utility_result where
  "build_result = \<lparr>ur_schemaVersion = utility_contract_version, ur_outcome = ''Succeeded'', ur_message = '''', ur_error = None,
     ur_artifacts = [\<lparr>ao_contract = ''report/v1'', ao_path = ''/s/r.json'', ao_mediaType = ''''\<rparr>], ur_metadata = []\<rparr>"

theorem utility_results_are_checked_witness:
  "discharges build_input build_result"
proof -
  have "run_operation ''/'' (\<lambda>_. Some True) (\<lambda>_. Some (\<lambda>_. None, \<lambda>_. Inr build_result)) build_input = Inr build_result" by code_simp
  moreover have "validate_utility_input build_input = None" by code_simp
  ultimately have "ur_outcome build_result = ''Succeeded'' \<longrightarrow> discharges build_input build_result"
    using utility_results_are_checked by blast
  then show ?thesis by (simp add: build_result_def)
qed

text \<open>
  A test run is given the credential of the project's test job although its credential class is empty and
  the policy is told that it has none. What keeps a project from naming one is only the check of its
  configuration, which this controller does not ask about.
\<close>

theorem test_credential_is_unclassified:
  assumes "build_utility_workload sha x flow project img grant = Inr wl" and "op_name x = ''test.run''"
  shows "wl_credentialRef wl = jt_credentialRef (pj_testJob (spec project)) \<and> wl_credentialClass wl = ''''
     \<and> \<not> uq_hasCredential (utility_query_of x project params) \<and> operation_credential_data source (wl_credentialClass wl) = Some (sec_data (spec source))"
proof -
  from assms obtain wl0 where "specialise_workload sha ''test.run'' project img (base_workload x flow project img grant) = Inr wl0"
    and "wl = put_parameter ''executionProfile'' (wl_profile wl0) wl0"
    by (auto simp: build_utility_workload_def Let_def split: sum.splits if_splits option.splits)
  then show ?thesis using assms(2)
    by (auto simp: specialise_workload_def put_parameter_def with_template_def base_workload_def expected_credential_class_def
        utility_query_of_def utility_credential_reference_def operation_credential_data_def Let_def List.member_iff split: if_splits)
qed

definition test_op :: utility_operation where
  "test_op = with_decision ''d'' (branch_op\<lparr>spec := (spec branch_op)\<lparr>uo_operation := \<lparr>utility_name = ''test.run'', utility_parameters = []\<rparr>\<rparr>\<rparr>)"

theorem test_credential_is_unclassified_witness:
  "\<exists>wl :: utility_workload. wl_credentialRef wl = \<lparr>ns_namespace = '''', ns_name = ''secret''\<rparr> \<and> wl_credentialClass wl = ''''
     \<and> \<not> uq_hasCredential (utility_query_of test_op merge_project [])"
proof -
  let ?grant = "\<lparr>grant_lease = ''wl'', grant_holder = merge_identity, grant_epoch = 3\<rparr>"
  have "(case build_utility_workload zero_sha test_op approval_flow merge_project ''runner'' ?grant of Inl _ \<Rightarrow> False | Inr _ \<Rightarrow> True)" by code_simp
  then obtain wl where wl: "build_utility_workload zero_sha test_op approval_flow merge_project ''runner'' ?grant = Inr wl"
    by (auto split: sum.splits)
  have "op_name test_op = ''test.run''" by (simp add: test_op_def with_decision_def)
  note shown = test_credential_is_unclassified [OF wl this, of "[]"]
  have "jt_credentialRef (pj_testJob (spec merge_project)) = \<lparr>ns_namespace = '''', ns_name = ''secret''\<rparr>"
    by (simp add: merge_project_def)
  then have ref: "wl_credentialRef wl = \<lparr>ns_namespace = '''', ns_name = ''secret''\<rparr>" using shown by metis
  show ?thesis by (intro exI [of _ wl] conjI ref) (use shown in blast)+
qed

end
