(* ===== verification/Spec2Isabelle.thy ===== *)
theory Spec2Isabelle
  imports Phase_Machine Workspace_Writer Inference_Lease Step_Attempt Workspace_Policy Artifact_Evidence Approval Workflow_Budget Artifact_Validation Agent_Authority Utility_Authority
begin

text \<open>
  SovereignAI runs software workflows on Kubernetes: a SovereignWorkflow walks through the steps of a
  definition, each step is one StepAttempt, and each attempt has one execution unit, an AgentRun (an
  untrusted agent in a pod), a UtilityOperation (a deterministic job), a ValidationRun or an
  ApprovalRequest (a human gate). The units exchange content-addressed documents, Artifacts, share one
  workspace volume under a single writer lease, take GPU memory under inference leases, and leave an
  audit trail. This development models that core (the Go packages under \<open>internal/\<close>) and proves what
  makes it correct. The theories, from the bottom up, with the files they model (under \<open>src/internal\<close>
  unless another directory is named):

  Foundations. \<open>Prelude\<close>: errors as values of the datatype \<open>go_error\<close>, computations over a state with an
  error or a result (\<open>io\<close>), triples for them (\<open>triple\<close>, and \<open>keeps\<close> for invariants that also hold
  when a computation ends in an error), stores keyed by name, and Go's \<open>int32\<close> and \<open>int64\<close> as integers with
  the wrap-around written out. \<open>Go_Strings\<close>, \<open>Go_Json\<close>, \<open>Go_Net\<close>: what the code uses of the standard
  library on strings (lists of bytes), UTF-8, JSON texts, URLs, times and patterns. \<open>Api_Types\<close>: the API
  objects (\<open>api/v1alpha1\<close>), one record per struct; \<open>kobj\<close> is an object with metadata, spec and status.
  \<open>Cluster\<close>: the state the controllers share (the API server's objects, the audit log, the clock, a script
  of faults) and the client's calls with resource versions, conflicts, lost answers and refusals; a fact
  proved for every script holds whatever calls fail. \<open>Cluster_Calls\<close>, \<open>Cluster_Reads\<close>: triples for calls and for
  what a reconciliation has read.

  Components.
  \<open>Phase_Machine\<close>: \<open>domain/state/state.go\<close>, the phases of resources as a step relation.
  \<open>Audit_Trail\<close>: \<open>audit/*.go\<close>, events, their identities, the recorders in memory, PostgreSQL and a file
  (locale \<open>recorder\<close>, interpreted for the first two).
  \<open>Workspace_Writer\<close>: \<open>controllers/workspace_writer.go\<close>, the lease with its epochs; \<open>writer_step\<close> interleaves any
  number of controllers. \<open>Writer_Terms\<close>: how an execution takes, keeps and gives up its term (the five writer
  functions that the controllers of AgentRun and UtilityOperation have in the same form), written once over
  \<open>writer_owner\<close>, with the locale \<open>term_owner\<close> for what its owners promise.
  \<open>Inference_Admission\<close>, \<open>Inference_Lease\<close>: \<open>inference/admission.go\<close>, \<open>inference/profile.go\<close>,
  \<open>controllers/inference_lease_controller.go\<close>, who gets which endpoint and its memory.
  \<open>Step_Attempt\<close>: \<open>controllers/domain_authority.go\<close>, \<open>controllers/stepattempt\<close>, the authority between an attempt and its
  execution.
  \<open>Artifact_Contract\<close>, \<open>Workspace_Policy\<close>: \<open>artifactcontract/*.go\<close>, the fourteen documents and all their
  validators, the paths an agent may change, the materializers.
  \<open>Artifact_Evidence\<close>: \<open>artifacts/claims.go\<close>, \<open>controllers/input_evidence.go\<close>, claims and the resolution of inputs.
  \<open>Agent_Contract\<close>, \<open>Utility_Contract\<close>: \<open>agentcontract/v1.go\<close>, \<open>utilitycontract/v1.go\<close>, \<open>utility/runner.go\<close>,
  \<open>repositorycredential\<close>, the documents exchanged with agents and utilities.
  \<open>Approval\<close>: \<open>controllers/approvalrequest_controller.go\<close>, \<open>controllers/approval_binding.go\<close>, human decisions.
  \<open>Workflow_Inputs\<close>, \<open>Workflow_Recovery\<close>, \<open>Workflow_Bootstrap\<close>, \<open>Workflow_Controller\<close>: \<open>controllers/workflow\<close>, which
  artifacts a step is given, what follows a failure, how a workflow starts, its whole reconciler;
  \<open>Workflow_Progress\<close> and \<open>Workflow_Budget\<close> hold the proofs about it.
  \<open>Artifact_Store\<close>, \<open>Artifact_Validation\<close>: \<open>artifacts/store.go\<close>, \<open>artifacts/collector.go\<close>, \<open>cmd/artifact-collector\<close>,
  \<open>controllers/artifact_controller.go\<close>, content on disk under failing system calls, collection and acceptance.
  \<open>Collector\<close>: \<open>controllers/artifactcollector.go\<close>, the job that collects a result.
  \<open>Agent_Runs\<close> with \<open>Agent_Authority\<close>, \<open>Utility_Operations\<close> with \<open>Utility_Authority\<close>: the whole reconcilers of
  \<open>controllers/agentrun\<close> and \<open>controllers/utilityoperation\<close>, and the proofs about them.
\<close>

text \<open>
  How state and operations correspond. A reconciler \<open>func (r) Reconcile(ctx, request)\<close> is an action of the
  cluster that returns the seconds after which to come back, or nothing; a Go function that returns an
  error raises it; \<open>retry.RetryOnConflict\<close> is \<open>retry_on_conflict\<close>; a helper that changes the object it is
  given by pointer gives it back. Where one Go function is long, its stages are definitions of their own
  and \<open>Inl\<close> is an early return. Error texts are kept short where the code only prints them, and in full where
  they reach a status or a decision. SHA-256, the JSON codecs of whole documents, the policy engine (Rego),
  the environment and random bytes are arguments (\<open>agent_env\<close>, \<open>utility_env\<close>, \<open>workflow_env\<close>, \<open>lease_env\<close>), and what is
  proved holds for every choice of them unless a hypothesis says more.

  What the lemmas show. Safety of authority: an agent's pod and a utility's job appear only under the
  attempt, the inputs, the approval and the writer's term they need; terms never overlap and end only when
  the workloads are quiet. Safety of content: accepted documents are valid, stay inside the repository and
  are those the evidence names; storing is atomic. Liveness and termination: budgets bound the attempts of
  a workflow, an admitted approval's event is repaired. Final outcomes stay. Round trips of the event
  file, of attempt names, of normalised text.

  Bounds. \<open>retry_on_conflict\<close> tries five times, as \<open>retry.DefaultRetry\<close> does. The path of inputs behind a
  recovery is followed two levels deep, the depth the code starts with; the search
  for a free temporary name is given one more try than there are entries, which always suffices. Other recursion is
  structural or comes with its measure. \<open>int32\<close> and \<open>int64\<close> wrap where the code's do.

  Not modelled, and why. Validation runs, inference endpoints, projects and human sessions: reconcilers of
  their own that mostly assemble Kubernetes or Argo objects, outside the path of a step's authority; the
  API server, the command line and the entry points: request translation and wiring; the projection, the
  playback and the workflow view: read-only renderings of the trail; workspace tools, utilities and agents: Git, builds,
  model calls and file editing through the operating system, whose results the modelled contracts check;
  generated code. Kubernetes, Git, PostgreSQL and the policy engine are used through the behaviour their
  documentation states.
\<close>

end
